(* ===== verification/Mdm_Prelude.thy ===== *)
theory Mdm_Prelude
  imports Main "HOL-Library.Char_ord" "HOL-Library.List_Lexorder" "HOL-Library.Sublist"
begin

text \<open>
  Shared vocabulary of the development: the exceptions of the server as an error datatype, the
  result monad every fallible operation uses, the Python string operations the sources call
  (with the behaviour of the Python standard library on code points below 256), keyed tables
  (the model of an SQLite table with a primary key) and the generic lemmas on them.
\<close>

named_theorems result_simps \<open>rules that evaluate and invert the result monad\<close>
named_theorems table_simps \<open>lookup and membership after an operation on a keyed table\<close>

section \<open>Errors and results\<close>

text \<open>
  The exceptions raised by the modules of the server; \<open>ConnectionError\<close> also stands for the time-out
  of a send, which its callers treat alike, and \<open>IntegrityError\<close> is \<^verbatim>\<open>sqlite3.IntegrityError\<close>, raised by the
  schema's constraints.
\<close>

datatype mdm_error =
    PushJobError string
  | InvalidTransition string
  | StoreConflict string
  | StoreNotFound string
  | IntegrityError string
  | ValueError string
  | KeyError string
  | RuntimeError string
  | AssertionError
  | TypeError string
  | ConnectionError string
  | FileNotFoundError string
  | FileExistsError string
  | Zip64UnsupportedError string
  | StructError string
  | AttributeError string
  | OSError string
  | OverflowError string

fun rbind :: "'e + 'a \<Rightarrow> ('a \<Rightarrow> 'e + 'b) \<Rightarrow> 'e + 'b" where
  "rbind (Inl e) f = Inl e"
| "rbind (Inr a) f = f a"

lemma rbind_eq_Inr [result_simps]: "rbind m f = Inr b \<longleftrightarrow> (\<exists>a. m = Inr a \<and> f a = Inr b)"
  by (cases m) auto

lemma rbind_eq_Inl [result_simps]:
  "rbind m f = Inl e \<longleftrightarrow> m = Inl e \<or> (\<exists>a. m = Inr a \<and> f a = Inl e)"
  by (cases m) auto

lemma rbind_assoc: "rbind (rbind m f) g = rbind m (\<lambda>a. rbind (f a) g)"
  by (cases m) auto

text \<open>A guard: \<open>raise\<close> when the condition of the source holds.\<close>

definition raise_if :: "bool \<Rightarrow> 'e \<Rightarrow> 'e + unit" where
  "raise_if b e = (if b then Inl e else Inr ())"

lemma raise_if_Inr [result_simps]: "raise_if b e = Inr u \<longleftrightarrow> \<not> b"
  by (simp add: raise_if_def)

lemma raise_if_Inl [result_simps]: "raise_if b e = Inl e' \<longleftrightarrow> b \<and> e' = e"
  by (auto simp add: raise_if_def)

text \<open>A loop that stops at the first error, as a Python \<^verbatim>\<open>for\<close> whose body may raise.\<close>

fun rfold :: "('x \<Rightarrow> 's \<Rightarrow> 'e + 's) \<Rightarrow> 'x list \<Rightarrow> 's \<Rightarrow> 'e + 's" where
  "rfold f [] s = Inr s"
| "rfold f (x # xs) s = rbind (f x s) (rfold f xs)"

lemma rfold_invariant:
  assumes "rfold f xs s = Inr s'" and "P s"
    and "\<And>x t t'. x \<in> set xs \<Longrightarrow> P t \<Longrightarrow> f x t = Inr t' \<Longrightarrow> P t'"
  shows "P s'"
  using assms
proof (induction xs arbitrary: s)
  case Nil
  then show ?case by simp
next
  case (Cons x xs)
  then obtain t where "f x s = Inr t" "rfold f xs t = Inr s'"
    by (auto simp: rbind_eq_Inr)
  with Cons show ?case by (metis list.set_intros)
qed

text \<open>\<^verbatim>\<open>[f(x) for x in xs]\<close> where \<open>f\<close> may raise.\<close>

fun rmap :: "('x \<Rightarrow> 'e + 'y) \<Rightarrow> 'x list \<Rightarrow> 'e + 'y list" where
  "rmap f [] = Inr []"
| "rmap f (x # xs) = rbind (f x) (\<lambda>y. rbind (rmap f xs) (\<lambda>ys. Inr (y # ys)))"

lemma rmap_Inr_iff: "rmap f xs = Inr ys \<longleftrightarrow> list_all2 (\<lambda>x y. f x = Inr y) xs ys"
proof (induction xs arbitrary: ys)
  case Nil
  show ?case by auto
next
  case (Cons x xs)
  show ?case
    by (cases ys) (auto simp: rbind_eq_Inr Cons)
qed

section \<open>Python strings\<close>

text \<open>
  A \<open>char\<close> stands for the Unicode code point with its number (0 to 255).
  \<open>is_space\<close> is \<^verbatim>\<open>str.isspace\<close> and \<open>lower_char\<close> the simple lower-case mapping on that range.
\<close>

definition is_space :: "char \<Rightarrow> bool" where
  "is_space c = (let n = (of_char c :: int) in
     9 \<le> n \<and> n \<le> 13 \<or> 28 \<le> n \<and> n \<le> 32 \<or> n = 133 \<or> n = 160)"

definition lower_char :: "char \<Rightarrow> char" where
  "lower_char c = (let n = (of_char c :: int) in
     if 65 \<le> n \<and> n \<le> 90 \<or> 192 \<le> n \<and> n \<le> 222 \<and> n \<noteq> 215 then char_of (n + 32) else c)"

definition lower :: "string \<Rightarrow> string" where
  "lower s = map lower_char s"

definition strip_chars :: "(char \<Rightarrow> bool) \<Rightarrow> string \<Rightarrow> string" where
  "strip_chars p s = rev (dropWhile p (rev (dropWhile p s)))"

definition strip :: "string \<Rightarrow> string" where
  "strip s = strip_chars is_space s"

definition replace_char :: "char \<Rightarrow> char \<Rightarrow> string \<Rightarrow> string" where
  "replace_char a b s = map (\<lambda>c. if c = a then b else c) s"

text \<open>\<^verbatim>\<open>s.split(c)\<close> for a one-character separator, and \<^verbatim>\<open>c.join(parts)\<close>.\<close>

fun split :: "char \<Rightarrow> string \<Rightarrow> string list" where
  "split c [] = [[]]"
| "split c (x # xs) =
     (if x = c then [] # split c xs
      else (case split c xs of [] \<Rightarrow> [[x]] | y # ys \<Rightarrow> (x # y) # ys))"

fun join :: "char \<Rightarrow> string list \<Rightarrow> string" where
  "join c [] = []"
| "join c [x] = x"
| "join c (x # y # ys) = x @ c # join c (y # ys)"

lemma split_not_Nil [simp]: "split c s \<noteq> []"
  by (induction s) (auto split: list.splits)

lemma split_no_sep: "\<forall>p \<in> set (split c s). c \<notin> set p"
  by (induction s) (auto split: list.splits)

lemma split_Cons_other: "x \<noteq> c \<Longrightarrow> split c (x # xs) = (x # hd (split c xs)) # tl (split c xs)"
  by (cases "split c xs") auto

lemma split_append_sep: "split c (a @ c # b) = split c a @ split c b"
proof (induction a)
  case Nil
  show ?case by simp
next
  case (Cons x a)
  then show ?case by (cases "split c a") auto
qed

lemma split_no_sep_eq: "c \<notin> set a \<Longrightarrow> split c a = [a]"
  by (induction a) auto

lemma split_join:
  "ps \<noteq> [] \<Longrightarrow> \<forall>p \<in> set ps. c \<notin> set p \<Longrightarrow> split c (join c ps) = ps"
  by (induction c ps rule: join.induct) (auto simp: split_append_sep split_no_sep_eq)

lemma join_split [simp]: "join c (split c s) = s"
proof (induction s)
  case Nil
  show ?case by simp
next
  case (Cons x s)
  then show ?case
    by (cases "split c s" rule: list.exhaust; cases "tl (split c s)") (auto split: list.splits)
qed

lemma dropWhile_hd_id: "s = [] \<or> \<not> p (hd s) \<Longrightarrow> dropWhile p s = s"
  by (cases s) auto

lemma strip_chars_id:
  "s = [] \<or> \<not> p (hd s) \<and> \<not> p (last s) \<Longrightarrow> strip_chars p s = s"
  by (auto simp: strip_chars_def dropWhile_hd_id hd_rev)

lemma lower_char_idem: "lower_char (lower_char c) = lower_char c"
  by (auto simp: lower_char_def Let_def)

section \<open>Keyed tables\<close>

text \<open>
  An SQLite table is the list of its rows in insertion order; \<open>key\<close> reads the primary key.
  \<open>lookup_row\<close> is a SELECT by primary key, \<open>update_rows\<close> an UPDATE with a WHERE clause,
  \<open>delete_rows\<close> a DELETE.
\<close>

definition lookup_row :: "('r \<Rightarrow> 'k) \<Rightarrow> 'k \<Rightarrow> 'r list \<Rightarrow> 'r option" where
  "lookup_row key k rows = find (\<lambda>r. key r = k) rows"

definition update_rows :: "('r \<Rightarrow> bool) \<Rightarrow> ('r \<Rightarrow> 'r) \<Rightarrow> 'r list \<Rightarrow> 'r list" where
  "update_rows p f rows = map (\<lambda>r. if p r then f r else r) rows"

definition delete_rows :: "('r \<Rightarrow> bool) \<Rightarrow> 'r list \<Rightarrow> 'r list" where
  "delete_rows p rows = filter (\<lambda>r. \<not> p r) rows"

lemma lookup_row_Some_iff:
  assumes "distinct (map key rows)"
  shows "lookup_row key k rows = Some r \<longleftrightarrow> r \<in> set rows \<and> key r = k"
  using assms by (induction rows) (auto simp: lookup_row_def)

lemma lookup_row_None_iff: "lookup_row key k rows = None \<longleftrightarrow> k \<notin> key ` set rows"
  by (induction rows) (auto simp: lookup_row_def)

lemma lookup_row_SomeD: "lookup_row key k rows = Some r \<Longrightarrow> r \<in> set rows \<and> key r = k"
  by (auto simp: lookup_row_def find_Some_iff)

lemma map_key_update_rows [table_simps]:
  "(\<And>r. key (f r) = key r) \<Longrightarrow> map key (update_rows p f rows) = map key rows"
  by (auto simp: update_rows_def)

lemma set_update_rows [table_simps]:
  "set (update_rows p f rows) = (\<lambda>r. if p r then f r else r) ` set rows"
  by (simp add: update_rows_def)

lemma lookup_update_rows:
  assumes "\<And>r. key (f r) = key r"
  shows "lookup_row key k (update_rows p f rows) =
    map_option (\<lambda>r. if p r then f r else r) (lookup_row key k rows)"
  using assms by (induction rows) (auto simp: lookup_row_def update_rows_def)

lemma update_rows_same: "(\<And>r. r \<in> set rows \<Longrightarrow> \<not> p r) \<Longrightarrow> update_rows p f rows = rows"
  by (auto simp: update_rows_def map_idI)

lemma lookup_delete_rows_key:
  "lookup_row key k (delete_rows (\<lambda>r. key r = k') rows) =
    (if k = k' then None else lookup_row key k rows)"
  by (induction rows) (auto simp: lookup_row_def delete_rows_def)

lemma lookup_row_append_new:
  "lookup_row key k (rows @ [r]) =
    (case lookup_row key k rows of Some x \<Rightarrow> Some x | None \<Rightarrow> if key r = k then Some r else None)"
  by (induction rows) (auto simp: lookup_row_def)

text \<open>ORDER BY: a stable sort on the ordering column; LIMIT 1: the first row of the answer.\<close>

definition order_by :: "('r \<Rightarrow> 'b :: linorder) \<Rightarrow> 'r list \<Rightarrow> 'r list" where
  "order_by f rows = sort_key f rows"

fun first_row :: "'r list \<Rightarrow> 'r option" where
  "first_row [] = None"
| "first_row (r # rs) = Some r"

lemma first_row_in: "first_row rs = Some r \<Longrightarrow> r \<in> set rs"
  by (cases rs) auto

lemma first_row_None [simp]: "first_row rs = None \<longleftrightarrow> rs = []"
  by (cases rs) auto

lemma first_row_order_by_least:
  assumes "first_row (order_by f rows) = Some r"
  shows "r \<in> set rows \<and> (\<forall>x \<in> set rows. f r \<le> f x)"
proof -
  obtain rs where e: "sort_key f rows = r # rs"
    using assms by (cases "sort_key f rows") (auto simp: order_by_def)
  have s: "sorted (map f (r # rs))"
    using sorted_sort_key [of f rows] by (simp add: e)
  have "set (r # rs) = set rows"
    using e by (metis set_sort)
  with s show ?thesis by auto
qed

lemma order_by_empty_iff [simp]: "order_by f rows = [] \<longleftrightarrow> rows = []"
  by (metis order_by_def length_0_conv length_sort)

lemma set_order_by [simp]: "set (order_by f rows) = set rows"
  by (simp add: order_by_def)

end
