(* ===== verification/Py_Uuid.thy ===== *)
theory Py_Uuid
  imports Mdm_Prelude
begin

text \<open>
  The part of Python's \<^verbatim>\<open>uuid\<close> module the server relies on (\<^verbatim>\<open>uuid.UUID(text)\<close>,
  \<^verbatim>\<open>.version\<close> and \<^verbatim>\<open>str(...)\<close>), with \<^verbatim>\<open>int(text, 16)\<close> underneath it: a UUID is the
  128-bit number it denotes. The main facts are that printing is canonical and that parsing
  undoes printing.
\<close>

section \<open>Hexadecimal digits\<close>

definition hex_val :: "char \<Rightarrow> int option" where
  "hex_val c = (let n = (of_char c :: int) in
     if 48 \<le> n \<and> n \<le> 57 then Some (n - 48)
     else if 97 \<le> n \<and> n \<le> 102 then Some (n - 87)
     else if 65 \<le> n \<and> n \<le> 70 then Some (n - 55)
     else None)"

definition hex_char :: "int \<Rightarrow> char" where
  "hex_char d = (if d < 10 then char_of (48 + d) else char_of (87 + d))"

lemma of_hex_char: "0 \<le> d \<Longrightarrow> d < 16 \<Longrightarrow> (of_char (hex_char d) :: int) = (if d < 10 then 48 + d else 87 + d)"
  by (simp add: hex_char_def)

lemma hex_val_hex_char [simp]: "0 \<le> d \<Longrightarrow> d < 16 \<Longrightarrow> hex_val (hex_char d) = Some d"
  by (auto simp: hex_val_def of_hex_char Let_def)

lemma hex_char_neq: "0 \<le> d \<Longrightarrow> d < 16 \<Longrightarrow> (of_char c :: int) < 48 \<or> 102 < (of_char c :: int) \<or>
    57 < (of_char c :: int) \<and> (of_char c :: int) < 97 \<Longrightarrow> hex_char d \<noteq> c"
  by (auto simp: of_hex_char split: if_splits)

lemma hex_char_distinct [simp]:
  assumes "0 \<le> d" "d < 16"
  shows "hex_char d \<noteq> CHR ''-''" "hex_char d \<noteq> CHR ''+''" "hex_char d \<noteq> CHR ''x''"
    "hex_char d \<noteq> CHR ''X''" "hex_char d \<noteq> CHR ''{''" "hex_char d \<noteq> CHR ''}''"
    "hex_char d \<noteq> CHR ''u''" "hex_char d \<noteq> CHR ''_''"
  by (rule hex_char_neq [OF assms]; simp)+

text \<open>The digits of \<^verbatim>\<open>int(text, 16)\<close>: single underscores are allowed between digits.\<close>

fun hex_digits :: "bool \<Rightarrow> int \<Rightarrow> string \<Rightarrow> int option" where
  "hex_digits ok acc [] = (if ok then Some acc else None)"
| "hex_digits ok acc (c # cs) =
     (if c = CHR ''_'' then (if ok then hex_digits False acc cs else None)
      else (case hex_val c of None \<Rightarrow> None | Some d \<Rightarrow> hex_digits True (16 * acc + d) cs))"

definition hex_prefixed :: "string \<Rightarrow> int option" where
  "hex_prefixed s =
     (case s of
        z # x # cs \<Rightarrow>
          if z = CHR ''0'' \<and> (x = CHR ''x'' \<or> x = CHR ''X'')
          then hex_digits False 0 (if cs \<noteq> [] \<and> hd cs = CHR ''_'' then tl cs else cs)
          else hex_digits False 0 s
      | _ \<Rightarrow> hex_digits False 0 s)"

definition int_base16 :: "string \<Rightarrow> int option" where
  "int_base16 s =
     (case strip s of
        [] \<Rightarrow> None
      | c # cs \<Rightarrow>
          if c = CHR ''-'' then map_option uminus (hex_prefixed cs)
          else if c = CHR ''+'' then hex_prefixed cs
          else hex_prefixed (c # cs))"

section \<open>Parsing and printing\<close>

text \<open>\<^verbatim>\<open>s.replace(old, "")\<close>.\<close>

fun remove_sub :: "string \<Rightarrow> string \<Rightarrow> string" where
  "remove_sub old [] = []"
| "remove_sub old (c # cs) =
     (if old \<noteq> [] \<and> prefix old (c # cs) then remove_sub old (drop (length old - 1) cs)
      else c # remove_sub old cs)"

definition uuid_parse :: "string \<Rightarrow> int option" where
  "uuid_parse s =
     (let h = filter (\<lambda>c. c \<noteq> CHR ''-'')
                (strip_chars (\<lambda>c. c = CHR ''{'' \<or> c = CHR ''}'')
                  (remove_sub ''uuid:'' (remove_sub ''urn:'' s)))
      in if length h \<noteq> 32 then None
         else (case int_base16 h of
                 None \<Rightarrow> None
               | Some i \<Rightarrow> if 0 \<le> i \<and> i < 2 ^ 128 then Some i else None))"

text \<open>\<^verbatim>\<open>UUID.version\<close>: only the RFC 4122 variant has one.\<close>

definition uuid_version :: "int \<Rightarrow> int option" where
  "uuid_version n =
     (if n div 2 ^ 63 mod 2 = 1 \<and> n div 2 ^ 62 mod 2 = 0 then Some (n div 2 ^ 76 mod 16) else None)"

fun hex_fixed :: "nat \<Rightarrow> int \<Rightarrow> string" where
  "hex_fixed 0 n = []"
| "hex_fixed (Suc k) n = hex_fixed k (n div 16) @ [hex_char (n mod 16)]"

definition uuid_str :: "int \<Rightarrow> string" where
  "uuid_str n = (let h = hex_fixed 32 n in
     take 8 h @ ''-'' @ take 4 (drop 8 h) @ ''-'' @ take 4 (drop 12 h) @ ''-'' @
     take 4 (drop 16 h) @ ''-'' @ drop 20 h)"

section \<open>Parsing undoes printing\<close>

lemma length_hex_fixed [simp]: "length (hex_fixed k n) = k"
  by (induction k arbitrary: n) auto

lemma set_hex_fixed: "set (hex_fixed k n) \<subseteq> hex_char ` {0..<16}"
proof (induction k arbitrary: n)
  case (Suc k)
  then show ?case using Suc [of "n div 16"] by auto
qed simp

lemma hex_digits_append:
  assumes "set s \<subseteq> hex_char ` {0..<16}" and "s \<noteq> []"
  shows "hex_digits ok acc (s @ t) = hex_digits True (fold (\<lambda>c a. 16 * a + the (hex_val c)) s acc) t"
  using assms
proof (induction s arbitrary: ok acc)
  case (Cons c s)
  then obtain d where d: "0 \<le> d" "d < 16" "c = hex_char d" by auto
  show ?case
  proof (cases "s = []")
    case True
    with d show ?thesis by simp
  next
    case False
    with Cons d show ?thesis by simp
  qed
qed simp

lemma fold_hex_fixed:
  "fold (\<lambda>c a. 16 * a + the (hex_val c)) (hex_fixed k n) acc = acc * 16 ^ k + n mod 16 ^ k"
proof (induction k arbitrary: n acc)
  case 0
  show ?case by simp
next
  case (Suc k)
  have m: "n mod 16 ^ Suc k = 16 * (n div 16 mod 16 ^ k) + n mod 16"
    by (simp add: zmod_zmult2_eq)
  show ?case
    unfolding m by (simp add: Suc.IH distrib_left)
qed

lemma hex_digits_hex_fixed: "0 < k \<Longrightarrow> hex_digits False 0 (hex_fixed k n) = Some (n mod 16 ^ k)"
  using hex_digits_append [OF set_hex_fixed, of k n False 0 "[]"]
  by (simp add: fold_hex_fixed flip: length_greater_0_conv)

lemma remove_sub_id: "a \<notin> set s \<Longrightarrow> remove_sub (a # old) s = s"
  by (induction s) (auto simp: prefix_def)

lemma hex_fixed_no_char:
  "(\<And>d. 0 \<le> d \<Longrightarrow> d < 16 \<Longrightarrow> hex_char d \<noteq> c) \<Longrightarrow> c \<notin> set (hex_fixed k n)"
  using set_hex_fixed [of k n] by fastforce

lemma uuid_str_no_char:
  assumes "\<And>d. 0 \<le> d \<Longrightarrow> d < 16 \<Longrightarrow> hex_char d \<noteq> c" and "c \<noteq> CHR ''-''"
  shows "c \<notin> set (uuid_str n)"
  using hex_fixed_no_char [OF assms(1), of 32 n] assms(2)
  by (auto simp: uuid_str_def Let_def simp del: hex_fixed.simps dest: in_set_takeD in_set_dropD)

lemma filter_uuid_str: "filter (\<lambda>c. c \<noteq> CHR ''-'') (uuid_str n) = hex_fixed 32 n"
proof -
  let ?h = "hex_fixed 32 n"
  have h: "filter (\<lambda>c. c \<noteq> CHR ''-'') (take i (drop j ?h)) = take i (drop j ?h)" for i j
    using hex_fixed_no_char [of "CHR ''-''" 32 n]
    by (auto simp: filter_id_conv dest: in_set_takeD in_set_dropD)
  have "?h = take 8 ?h @ take 4 (drop 8 ?h) @ take 4 (drop 12 ?h) @ take 4 (drop 16 ?h) @ drop 20 ?h"
    by (rule nth_equalityI) (auto simp: nth_append simp del: hex_fixed.simps)
  then show ?thesis
    using h [of 8 0] h [of 4 8] h [of 4 12] h [of 4 16] h [of 12 20]
    by (simp add: uuid_str_def Let_def del: hex_fixed.simps)
qed

lemma hex_fixed_Cons:
  "0 < k \<Longrightarrow> \<exists>d cs. 0 \<le> d \<and> d < 16 \<and> hex_fixed k n = hex_char d # cs \<and> set cs \<subseteq> hex_char ` {0..<16}"
  using set_hex_fixed [of k n] by (cases "hex_fixed k n") (auto dest: arg_cong [of _ _ length])

lemma is_space_hex: "0 \<le> d \<Longrightarrow> d < 16 \<Longrightarrow> \<not> is_space (hex_char d)"
  by (auto simp: is_space_def Let_def of_hex_char split: if_splits)

lemma strip_hex:
  assumes "s \<noteq> []" and "set s \<subseteq> hex_char ` {0..<16}"
  shows "strip s = s"
proof -
  have "hd s \<in> hex_char ` {0..<16}" "last s \<in> hex_char ` {0..<16}"
    using assms hd_in_set last_in_set by blast+
  then show ?thesis
    unfolding strip_def by (intro strip_chars_id) (auto simp: is_space_hex)
qed

lemma hex_prefixed_hex:
  assumes "set s \<subseteq> hex_char ` {0..<16}"
  shows "hex_prefixed s = hex_digits False 0 s"
proof -
  have "x \<noteq> CHR ''x'' \<and> x \<noteq> CHR ''X''" if x: "x \<in> set s" for x
  proof -
    obtain d where "0 \<le> d" "d < 16" "x = hex_char d"
      using subsetD [OF assms x] by auto
    then show ?thesis by simp
  qed
  then show ?thesis
    by (auto simp: hex_prefixed_def simp del: hex_digits.simps split: list.splits)
qed

lemma int_base16_hex_fixed:
  assumes "0 < k"
  shows "int_base16 (hex_fixed k n) = Some (n mod 16 ^ k)"
proof -
  obtain d cs where c: "0 \<le> d" "d < 16" "hex_fixed k n = hex_char d # cs"
    using hex_fixed_Cons [OF assms] by blast
  have ne: "hex_fixed k n \<noteq> []" using c by simp
  have "int_base16 (hex_fixed k n) = hex_prefixed (hex_fixed k n)"
    using c(1,2) by (simp add: int_base16_def strip_hex [OF ne set_hex_fixed]) (simp add: c(3))
  then show ?thesis
    by (simp add: hex_prefixed_hex [OF set_hex_fixed] hex_digits_hex_fixed [OF assms])
qed

lemma uuid_str_not_Nil [simp]: "uuid_str n \<noteq> []"
  by (simp add: uuid_str_def Let_def)

lemma strip_braces_uuid_str:
  "strip_chars (\<lambda>c. c = CHR ''{'' \<or> c = CHR ''}'') (uuid_str n) = uuid_str n"
proof -
  have "CHR ''{'' \<notin> set (uuid_str n)" "CHR ''}'' \<notin> set (uuid_str n)"
    by (simp_all add: uuid_str_no_char)
  then show ?thesis
    by (intro strip_chars_id) (metis hd_in_set last_in_set)
qed

lemma uuid_parse_str: "0 \<le> n \<Longrightarrow> n < 2 ^ 128 \<Longrightarrow> uuid_parse (uuid_str n) = Some n"
proof -
  assume n: "0 \<le> n" "n < 2 ^ 128"
  have "CHR ''u'' \<notin> set (uuid_str n)"
    by (simp add: uuid_str_no_char)
  then have r: "remove_sub ''uuid:'' (remove_sub ''urn:'' (uuid_str n)) = uuid_str n"
    by (simp add: remove_sub_id)
  show ?thesis
    using n by (simp add: uuid_parse_def Let_def r strip_braces_uuid_str filter_uuid_str
        int_base16_hex_fixed del: hex_fixed.simps)
qed

lemma uuid_parse_bound: "uuid_parse s = Some n \<Longrightarrow> 0 \<le> n \<and> n < 2 ^ 128"
  by (auto simp: uuid_parse_def Let_def split: if_splits option.splits)

end
