(* ===== verification/Py_Json.thy ===== *)
theory Py_Json
  imports Mdm_Prelude Py_Uuid
begin

text \<open>
  JSON values as Python's \<^verbatim>\<open>json\<close> module decodes them, the reads the server makes of a decoded
  object, and \<^verbatim>\<open>json.dumps(..., ensure_ascii=False, sort_keys=True, separators=(",", ":"))\<close>
  with UTF-8 encoding, the canonical form the request fingerprint hashes. The encoders of
  strings, integers and string lists are self-delimiting, which makes the canonical form
  injective.
\<close>

section \<open>Values\<close>

text \<open>
  A Python float is identified with its \<^verbatim>\<open>repr\<close>, which is also what \<^verbatim>\<open>json.dumps\<close> prints;
  an object is the list of its items in insertion order.
\<close>

datatype json =
    JNull
  | JBool bool
  | JInt int
  | JFloat string
  | JStr string
  | JArr "json list"
  | JObj "(string \<times> json) list"

type_synonym jobject = "(string \<times> json) list"

text \<open>\<^verbatim>\<open>obj.get(key)\<close>: a missing key and a null both read as \<^verbatim>\<open>None\<close>.\<close>

definition jget :: "jobject \<Rightarrow> string \<Rightarrow> json" where
  "jget kvs k = (case map_of kvs k of None \<Rightarrow> JNull | Some v \<Rightarrow> v)"

fun is_str :: "json \<Rightarrow> bool" where
  "is_str (JStr s) = True"
| "is_str _ = False"

fun str_of :: "json \<Rightarrow> string option" where
  "str_of (JStr s) = Some s"
| "str_of _ = None"

text \<open>\<^verbatim>\<open>value == 1\<close>: Python's booleans and floats compare with integers.\<close>

fun equals_one :: "json \<Rightarrow> bool" where
  "equals_one (JInt i) = (i = 1)"
| "equals_one (JBool b) = b"
| "equals_one (JFloat r) = (r = ''1.0'')"
| "equals_one _ = False"

text \<open>A set membership test of a JSON array or object raises \<^verbatim>\<open>TypeError\<close>.\<close>

fun hashable :: "json \<Rightarrow> bool" where
  "hashable (JArr vs) = False"
| "hashable (JObj kvs) = False"
| "hashable _ = True"

definition unhashable :: mdm_error where
  "unhashable = TypeError ''unhashable type''"

section \<open>Decimal numbers\<close>

fun show_nat :: "nat \<Rightarrow> string" where
  "show_nat n = (if n < 10 then [char_of (48 + n)] else show_nat (n div 10) @ [char_of (48 + n mod 10)])"

declare show_nat.simps [simp del]

definition show_int :: "int \<Rightarrow> string" where
  "show_int i = (if i < 0 then ''-'' @ show_nat (nat (- i)) else show_nat (nat i))"

definition is_digit :: "char \<Rightarrow> bool" where
  "is_digit c = (let n = (of_char c :: nat) in 48 \<le> n \<and> n \<le> 57)"

definition digit_value :: "char \<Rightarrow> nat" where
  "digit_value c = of_char c - 48"

lemma show_nat_digits: "\<forall>c \<in> set (show_nat n). is_digit c"
proof (induction n rule: show_nat.induct)
  case (1 n)
  then show ?case
    by (subst show_nat.simps) (auto simp: is_digit_def Let_def)
qed

lemma show_nat_not_Nil [simp]: "show_nat n \<noteq> []"
  by (subst show_nat.simps) simp

lemma fold_show_nat: "fold (\<lambda>c a. 10 * a + digit_value c) (show_nat n) 0 = n"
proof (induction n rule: show_nat.induct)
  case (1 n)
  show ?case
  proof (cases "n < 10")
    case True
    then show ?thesis by (simp add: show_nat.simps [of n] digit_value_def)
  next
    case False
    with 1 show ?thesis by (simp add: show_nat.simps [of n] digit_value_def)
  qed
qed

lemma show_nat_inj: "show_nat n = show_nat m \<Longrightarrow> n = m"
  by (metis fold_show_nat)

lemma show_int_inj:
  assumes "show_int i = show_int j"
  shows "i = j"
proof -
  have m: "hd (show_nat n) \<noteq> CHR ''-''" for n
    using bspec [OF show_nat_digits hd_in_set [OF show_nat_not_Nil], of n]
    by (auto simp: is_digit_def Let_def)
  have "(hd (show_int k) = CHR ''-'') = (k < 0)" for k
    using m by (simp add: show_int_def)
  with assms have "(i < 0) = (j < 0)" by metis
  with assms show ?thesis
    by (auto simp: show_int_def split: if_splits dest: show_nat_inj)
qed

section \<open>Canonical text of a value\<close>

definition escape_char :: "char \<Rightarrow> string" where
  "escape_char c =
     (let n = (of_char c :: int) in
      if n = 34 then [CHR 0x5C, CHR 0x22]
      else if n = 92 then [CHR 0x5C, CHR 0x5C]
      else if n = 10 then CHR 0x5C # ''n''
      else if n = 13 then CHR 0x5C # ''r''
      else if n = 9 then CHR 0x5C # ''t''
      else if n = 12 then CHR 0x5C # ''f''
      else if n = 8 then CHR 0x5C # ''b''
      else if n < 32 then CHR 0x5C # ''u'' @ hex_fixed 4 n
      else [c])"

definition quote :: string where
  "quote = [CHR 0x22]"

definition dumps_str :: "string \<Rightarrow> string" where
  "dumps_str s = quote @ concat (map escape_char s) @ quote"

fun json_dumps :: "json \<Rightarrow> string" where
  "json_dumps JNull = ''null''"
| "json_dumps (JBool b) = (if b then ''true'' else ''false'')"
| "json_dumps (JInt i) = show_int i"
| "json_dumps (JFloat r) = r"
| "json_dumps (JStr s) = dumps_str s"
| "json_dumps (JArr vs) = ''['' @ join (CHR '','') (map json_dumps vs) @ '']''"
| "json_dumps (JObj kvs) =
     ''{'' @ join (CHR '','')
       (map snd (sort_key fst (map (\<lambda>(k, v). (k, dumps_str k @ '':'' @ json_dumps v)) kvs))) @ ''}''"

text \<open>\<^verbatim>\<open>text.encode("utf-8")\<close> on code points below 256.\<close>

definition utf8_char :: "char \<Rightarrow> nat list" where
  "utf8_char c = (let n = (of_char c :: nat) in
     if n < 128 then [n] else [192 + n div 64, 128 + n mod 64])"

definition utf8 :: "string \<Rightarrow> nat list" where
  "utf8 s = concat (map utf8_char s)"

section \<open>Injectivity\<close>

lemma utf8_char_prefix:
  assumes "utf8_char c @ xs = utf8_char d @ ys"
  shows "c = d \<and> xs = ys"
proof -
  have b: "(of_char c :: nat) < 256" "(of_char d :: nat) < 256"
    by (rule nat_of_char_less_256)+
  show ?thesis
  proof (cases "(of_char c :: nat) < 128 \<or> (of_char d :: nat) < 128")
    case True
    with assms b show ?thesis by (auto simp: utf8_char_def Let_def split: if_splits)
  next
    case False
    with assms have "(of_char c :: nat) div 64 = of_char d div 64"
      "(of_char c :: nat) mod 64 = of_char d mod 64" "xs = ys"
      by (auto simp: utf8_char_def Let_def)
    then show ?thesis by (metis div_mult_mod_eq of_char_eqI)
  qed
qed

lemma utf8_inj: "utf8 s = utf8 t \<Longrightarrow> s = t"
proof (induction s arbitrary: t)
  case Nil
  then show ?case by (cases t) (auto simp: utf8_def utf8_char_def Let_def split: if_splits)
next
  case (Cons c s)
  then obtain d t' where t: "t = d # t'"
    by (cases t) (auto simp: utf8_def utf8_char_def Let_def split: if_splits)
  with Cons.prems have "utf8_char c @ utf8 s = utf8_char d @ utf8 t'"
    by (simp add: utf8_def)
  from utf8_char_prefix [OF this] Cons.IH t show ?case by simp
qed

text \<open>Reading back one escaped character.\<close>

definition unescape :: "string \<Rightarrow> char \<times> string" where
  "unescape s =
     (if hd s \<noteq> CHR 0x5C then (hd s, tl s)
      else (let y = hd (tl s); r = tl (tl s) in
        if y = CHR 0x22 \<or> y = CHR 0x5C then (y, r)
        else if y = CHR ''n'' then (CHR 0x0A, r)
        else if y = CHR ''r'' then (CHR 0x0D, r)
        else if y = CHR ''t'' then (CHR 0x09, r)
        else if y = CHR ''f'' then (CHR 0x0C, r)
        else if y = CHR ''b'' then (CHR 0x08, r)
        else (char_of (fold (\<lambda>c a. 16 * a + the (hex_val c)) (take 4 r) 0), drop 4 r)))"

lemma unescape_short:
  "c \<in> {CHR 0x22, CHR 0x5C, CHR 0x0A, CHR 0x0D, CHR 0x09, CHR 0x0C, CHR 0x08} \<Longrightarrow>
    unescape (escape_char c @ xs) = (c, xs)"
  by (elim insertE emptyE; hypsubst; simp add: escape_char_def unescape_def)

lemma escape_char_long:
  assumes "c \<notin> {CHR 0x22, CHR 0x5C, CHR 0x0A, CHR 0x0D, CHR 0x09, CHR 0x0C, CHR 0x08}"
  shows "escape_char c =
    (if of_char c < (32::int) then CHR 0x5C # ''u'' @ hex_fixed 4 (of_char c) else [c])"
proof -
  have "of_char c \<noteq> (of_char d :: int)"
    if "d \<in> {CHR 0x22, CHR 0x5C, CHR 0x0A, CHR 0x0D, CHR 0x09, CHR 0x0C, CHR 0x08}" for d
    using assms that by auto
  from this [of "CHR 0x22"] this [of "CHR 0x5C"] this [of "CHR 0x0A"] this [of "CHR 0x0D"]
    this [of "CHR 0x09"] this [of "CHR 0x0C"] this [of "CHR 0x08"]
  show ?thesis
    by (simp add: escape_char_def Let_def del: hex_fixed.simps of_char_eq_iff)
qed

lemma of_char_int_bounds: "0 \<le> (of_char c :: int)" "(of_char c :: int) < 256"
proof -
  have "(of_char c :: int) = int (of_char c)" by (simp only: of_nat_of_char)
  then show "0 \<le> (of_char c :: int)" "(of_char c :: int) < 256"
    using nat_of_char_less_256 [of c] by linarith+
qed

lemma unescape_escape_char: "unescape (escape_char c @ xs) = (c, xs)"
proof (cases "c \<in> {CHR 0x22, CHR 0x5C, CHR 0x0A, CHR 0x0D, CHR 0x09, CHR 0x0C, CHR 0x08}")
  case True
  then show ?thesis by (rule unescape_short)
next
  case False
  have f: "fold (\<lambda>c a. 16 * a + the (hex_val c)) (hex_fixed 4 (of_char c)) 0 = of_char c"
    using of_char_int_bounds [of c] by (simp add: fold_hex_fixed)
  show ?thesis
    using False unfolding escape_char_long [OF False]
    by (auto simp: unescape_def Let_def f simp del: hex_fixed.simps)
qed

lemma escape_char_prefix: "escape_char c @ xs = escape_char d @ ys \<Longrightarrow> c = d \<and> xs = ys"
  by (metis unescape_escape_char prod.inject)

lemma escape_char_not_quote: "escape_char c @ xs \<noteq> quote @ ys"
  by (auto simp: escape_char_def quote_def Let_def split: if_splits)

lemma dumps_str_prefix:
  assumes "dumps_str s @ xs = dumps_str t @ ys"
  shows "s = t \<and> xs = ys"
proof -
  have "concat (map escape_char s) @ quote @ xs = concat (map escape_char t) @ quote @ ys \<Longrightarrow>
    s = t \<and> xs = ys"
  proof (induction s arbitrary: t)
    case Nil
    then show ?case
      by (cases t) (auto simp: escape_char_not_quote dest: sym)
  next
    case (Cons c s)
    then obtain d t' where t: "t = d # t'"
      by (cases t) (auto simp: escape_char_not_quote)
    with Cons.prems escape_char_prefix [of c "concat (map escape_char s) @ quote @ xs" d
        "concat (map escape_char t') @ quote @ ys"]
    show ?case using Cons.IH [of t'] by simp
  qed
  with assms show ?thesis by (simp add: dumps_str_def)
qed

lemma show_int_chars: "\<forall>c \<in> set (show_int i). is_digit c \<or> c = CHR ''-''"
  using show_nat_digits by (auto simp: show_int_def)

lemma show_int_prefix:
  assumes "show_int i @ c # xs = show_int j @ c # ys" and "\<not> is_digit c" and "c \<noteq> CHR ''-''"
  shows "i = j \<and> xs = ys"
proof -
  have t: "takeWhile (\<lambda>x. is_digit x \<or> x = CHR ''-'') (show_int k @ c # zs) = show_int k" for k zs
    using assms(2,3) show_int_chars [of k] by (simp add: takeWhile_append2)
  have "show_int i = show_int j"
    using arg_cong [OF assms(1), of "takeWhile (\<lambda>x. is_digit x \<or> x = CHR ''-'')"] by (simp add: t)
  with assms(1) show ?thesis by (auto dest: show_int_inj)
qed

lemma dumps_str_Cons: "\<exists>r. dumps_str s = CHR 0x22 # r"
  by (simp add: dumps_str_def quote_def)

lemma dumps_str_not_Nil [simp]: "dumps_str s \<noteq> []"
  using dumps_str_Cons [of s] by auto

lemma join_dumps_prefix:
  assumes "join (CHR '','') (map dumps_str ss) @ CHR '']'' # xs =
    join (CHR '','') (map dumps_str ts) @ CHR '']'' # ys"
  shows "ss = ts \<and> xs = ys"
  using assms
proof (induction ss arbitrary: ts)
  case Nil
  show ?case
  proof (cases ts)
    case (Cons t ts')
    then obtain r where "join (CHR '','') (map dumps_str ts) = CHR 0x22 # r"
      using dumps_str_Cons [of t] by (cases ts') auto
    with Nil show ?thesis by auto
  qed (use Nil in simp)
next
  case (Cons s ss)
  obtain r where r: "join (CHR '','') (map dumps_str (s # ss)) = CHR 0x22 # r"
    using dumps_str_Cons [of s] by (cases ss) auto
  obtain t ts' where ts: "ts = t # ts'"
    using Cons.prems r by (cases ts) auto
  define tail where "tail us zs =
    (if us = [] then CHR '']'' # zs else CHR '','' # join (CHR '','') (map dumps_str us) @ CHR '']'' # zs)"
    for us zs
  have j: "join (CHR '','') (map dumps_str (u # us)) @ CHR '']'' # zs = dumps_str u @ tail us zs" for u us zs
    by (cases us) (simp_all add: tail_def)
  from Cons.prems ts have "dumps_str s @ tail ss xs = dumps_str t @ tail ts' ys"
    by (simp only: j)
  then have e: "s = t" "tail ss xs = tail ts' ys"
    using dumps_str_prefix by blast+
  show ?case
    using e Cons.IH [of ts'] ts by (auto simp: tail_def split: if_splits)
qed

end
