(* ===== verification/Push_Jobs.thy ===== *)
theory Push_Jobs
  imports Mdm_Prelude Py_Uuid Py_Json "HOL-Library.Multiset"
begin

text \<open>
  The domain model \<^verbatim>\<open>push_jobs.py\<close>: the protocol vocabulary, canonicalisation of a create
  request with its fingerprint, capability parsing, the two state machines (job and device
  assignment) with their transition tables, aggregation and the derivation of a dispatched
  job's state from its device rows.
\<close>

section \<open>Vocabulary\<close>

definition CAP_PUSH_JOB_ID_V1 :: string where
  "CAP_PUSH_JOB_ID_V1 = ''push_job_id_v1''"

datatype push_mode = PUSH | SYNC

datatype protocol_mode = JOB_V1 | LEGACY

datatype job_state =
    J_CREATED | J_UPLOADING | J_PACKAGING | J_READY | J_RUNNING | J_RECONCILING
  | J_SUCCEEDED | J_COMPLETED_WITH_ERRORS | J_FAILED | J_INTERRUPTED

datatype device_state =
    D_QUEUED | D_WAITING_TRANSFER | D_DISPATCHING | D_DOWNLOADING | D_VALIDATING | D_APPLYING
  | D_RECONCILING | D_SUCCEEDED | D_FAILED | D_INTERRUPTED | D_UNCONFIRMED

fun push_mode_value :: "push_mode \<Rightarrow> string" where
  "push_mode_value PUSH = ''push''"
| "push_mode_value SYNC = ''sync''"

fun job_state_value :: "job_state \<Rightarrow> string" where
  "job_state_value J_CREATED = ''created''"
| "job_state_value J_UPLOADING = ''uploading''"
| "job_state_value J_PACKAGING = ''packaging''"
| "job_state_value J_READY = ''ready''"
| "job_state_value J_RUNNING = ''running''"
| "job_state_value J_RECONCILING = ''reconciling''"
| "job_state_value J_SUCCEEDED = ''succeeded''"
| "job_state_value J_COMPLETED_WITH_ERRORS = ''completed_with_errors''"
| "job_state_value J_FAILED = ''failed''"
| "job_state_value J_INTERRUPTED = ''interrupted''"

fun device_state_value :: "device_state \<Rightarrow> string" where
  "device_state_value D_QUEUED = ''queued''"
| "device_state_value D_WAITING_TRANSFER = ''waiting_transfer''"
| "device_state_value D_DISPATCHING = ''dispatching''"
| "device_state_value D_DOWNLOADING = ''downloading''"
| "device_state_value D_VALIDATING = ''validating''"
| "device_state_value D_APPLYING = ''applying''"
| "device_state_value D_RECONCILING = ''reconciling''"
| "device_state_value D_SUCCEEDED = ''succeeded''"
| "device_state_value D_FAILED = ''failed''"
| "device_state_value D_INTERRUPTED = ''interrupted''"
| "device_state_value D_UNCONFIRMED = ''unconfirmed''"

text \<open>The members in declaration order, as iterating over the enumeration yields them.\<close>

definition DeviceState_members :: "device_state list" where
  "DeviceState_members =
     [D_QUEUED, D_WAITING_TRANSFER, D_DISPATCHING, D_DOWNLOADING, D_VALIDATING, D_APPLYING,
      D_RECONCILING, D_SUCCEEDED, D_FAILED, D_INTERRUPTED, D_UNCONFIRMED]"

definition JobState_members :: "job_state list" where
  "JobState_members =
     [J_CREATED, J_UPLOADING, J_PACKAGING, J_READY, J_RUNNING, J_RECONCILING,
      J_SUCCEEDED, J_COMPLETED_WITH_ERRORS, J_FAILED, J_INTERRUPTED]"

instantiation device_state :: enum
begin

definition "enum_device_state = DeviceState_members"
definition "enum_all_device_state P = list_all P DeviceState_members"
definition "enum_ex_device_state P = list_ex P DeviceState_members"

instance
proof
  have u: "x \<in> set DeviceState_members" for x
    by (cases x) (simp_all add: DeviceState_members_def)
  show "(UNIV :: device_state set) = set enum_class.enum"
    using u by (auto simp: enum_device_state_def)
  show "distinct (enum_class.enum :: device_state list)"
    by (simp add: enum_device_state_def DeviceState_members_def)
  show "enum_class.enum_all P = Ball UNIV P" for P :: "device_state \<Rightarrow> bool"
    using u by (auto simp: enum_all_device_state_def list_all_iff)
  show "enum_class.enum_ex P = Bex UNIV P" for P :: "device_state \<Rightarrow> bool"
    using u by (auto simp: enum_ex_device_state_def list_ex_iff)
qed

end

instantiation job_state :: enum
begin

definition "enum_job_state = JobState_members"
definition "enum_all_job_state P = list_all P JobState_members"
definition "enum_ex_job_state P = list_ex P JobState_members"

instance
proof
  have u: "x \<in> set JobState_members" for x
    by (cases x) (simp_all add: JobState_members_def)
  show "(UNIV :: job_state set) = set enum_class.enum"
    using u by (auto simp: enum_job_state_def)
  show "distinct (enum_class.enum :: job_state list)"
    by (simp add: enum_job_state_def JobState_members_def)
  show "enum_class.enum_all P = Ball UNIV P" for P :: "job_state \<Rightarrow> bool"
    using u by (auto simp: enum_all_job_state_def list_all_iff)
  show "enum_class.enum_ex P = Bex UNIV P" for P :: "job_state \<Rightarrow> bool"
    using u by (auto simp: enum_ex_job_state_def list_ex_iff)
qed

end

definition TERMINAL_JOB_STATES :: "job_state set" where
  "TERMINAL_JOB_STATES = {J_SUCCEEDED, J_COMPLETED_WITH_ERRORS, J_FAILED, J_INTERRUPTED}"

definition TERMINAL_DEVICE_STATES :: "device_state set" where
  "TERMINAL_DEVICE_STATES = {D_SUCCEEDED, D_FAILED, D_INTERRUPTED, D_UNCONFIRMED}"

definition ACTIVE_DEVICE_STATES :: "device_state set" where
  "ACTIVE_DEVICE_STATES =
     {D_WAITING_TRANSFER, D_DISPATCHING, D_DOWNLOADING, D_VALIDATING, D_APPLYING, D_RECONCILING}"

lemmas state_set_defs = TERMINAL_JOB_STATES_def TERMINAL_DEVICE_STATES_def ACTIVE_DEVICE_STATES_def

text \<open>\<^verbatim>\<open>JOB_TRANSITIONS.get(src, frozenset())\<close> and \<^verbatim>\<open>DEVICE_TRANSITIONS.get(src, frozenset())\<close>.\<close>

fun JOB_TRANSITIONS :: "job_state \<Rightarrow> job_state set" where
  "JOB_TRANSITIONS J_CREATED = {J_UPLOADING, J_INTERRUPTED, J_FAILED}"
| "JOB_TRANSITIONS J_UPLOADING = {J_PACKAGING, J_INTERRUPTED, J_FAILED}"
| "JOB_TRANSITIONS J_PACKAGING = {J_READY, J_INTERRUPTED, J_FAILED}"
| "JOB_TRANSITIONS J_READY = {J_RUNNING, J_FAILED}"
| "JOB_TRANSITIONS J_RUNNING = {J_RECONCILING, J_SUCCEEDED, J_COMPLETED_WITH_ERRORS, J_FAILED}"
| "JOB_TRANSITIONS J_RECONCILING = {J_RUNNING, J_SUCCEEDED, J_COMPLETED_WITH_ERRORS, J_FAILED}"
| "JOB_TRANSITIONS _ = {}"

fun DEVICE_TRANSITIONS :: "device_state \<Rightarrow> device_state set" where
  "DEVICE_TRANSITIONS D_QUEUED = {D_WAITING_TRANSFER, D_FAILED, D_INTERRUPTED}"
| "DEVICE_TRANSITIONS D_WAITING_TRANSFER = {D_QUEUED, D_DISPATCHING, D_FAILED, D_INTERRUPTED}"
| "DEVICE_TRANSITIONS D_DISPATCHING = {D_QUEUED, D_DOWNLOADING, D_RECONCILING, D_FAILED}"
| "DEVICE_TRANSITIONS D_DOWNLOADING = {D_VALIDATING, D_RECONCILING, D_FAILED}"
| "DEVICE_TRANSITIONS D_VALIDATING = {D_APPLYING, D_RECONCILING, D_FAILED}"
| "DEVICE_TRANSITIONS D_APPLYING = {D_SUCCEEDED, D_RECONCILING, D_FAILED}"
| "DEVICE_TRANSITIONS D_RECONCILING =
     {D_DOWNLOADING, D_VALIDATING, D_APPLYING, D_QUEUED, D_SUCCEEDED, D_FAILED, D_INTERRUPTED,
      D_UNCONFIRMED}"
| "DEVICE_TRANSITIONS _ = {}"

section \<open>Transition validation\<close>

definition validate_job_transition :: "job_state \<Rightarrow> job_state \<Rightarrow> mdm_error + unit" where
  "validate_job_transition src dst =
     (if src = dst then Inr ()
      else if src \<in> TERMINAL_JOB_STATES \<or> dst \<notin> JOB_TRANSITIONS src
      then Inl (InvalidTransition (''invalid job transition: '' @ job_state_value src @ '' -> '' @ job_state_value dst))
      else Inr ())"

definition validate_device_transition :: "device_state \<Rightarrow> device_state \<Rightarrow> mdm_error + unit" where
  "validate_device_transition src dst =
     (if src = dst then Inr ()
      else if src \<in> TERMINAL_DEVICE_STATES \<or> dst \<notin> DEVICE_TRANSITIONS src
      then Inl (InvalidTransition (''invalid device transition: '' @ device_state_value src @ '' -> '' @ device_state_value dst))
      else Inr ())"

text \<open>
  Both machines follow one discipline: a self-loop is always accepted, a terminal state accepts
  nothing else, and otherwise the table decides. The locale states it once.
\<close>

locale lifecycle =
  fixes table :: "'s \<Rightarrow> 's set"
    and terminal :: "'s set"
    and validate :: "'s \<Rightarrow> 's \<Rightarrow> mdm_error + unit"
  assumes validate_iff:
    "validate s t = Inr () \<longleftrightarrow> s = t \<or> s \<notin> terminal \<and> t \<in> table s"
begin

definition steps :: "'s \<Rightarrow> 's \<Rightarrow> bool" where
  "steps = rtranclp (\<lambda>s t. validate s t = Inr ())"

lemma terminal_absorbing: "s \<in> terminal \<Longrightarrow> validate s t = Inr () \<Longrightarrow> t = s"
  by (simp add: validate_iff)

lemma terminal_steps: "steps s t \<Longrightarrow> s \<in> terminal \<Longrightarrow> t = s"
  unfolding steps_def by (induction rule: rtranclp_induct) (auto dest: terminal_absorbing)

lemma reject: "s \<noteq> t \<Longrightarrow> s \<in> terminal \<or> t \<notin> table s \<Longrightarrow> \<exists>e. validate s t = Inl e"
  by (cases "validate s t") (use validate_iff [of s t] in auto)

end

interpretation job_life: lifecycle JOB_TRANSITIONS TERMINAL_JOB_STATES validate_job_transition
  by unfold_locales (simp add: validate_job_transition_def)

interpretation device_life: lifecycle DEVICE_TRANSITIONS TERMINAL_DEVICE_STATES validate_device_transition
  by unfold_locales (simp add: validate_device_transition_def)

section \<open>Aggregation and derivation\<close>

fun aggregate_loop :: "device_state list \<Rightarrow> (device_state \<Rightarrow> int) \<Rightarrow> int \<Rightarrow> (device_state \<Rightarrow> int) \<times> int" where
  "aggregate_loop [] counts tot = (counts, tot)"
| "aggregate_loop (s # ss) counts tot = aggregate_loop ss (counts(s := counts s + 1)) (tot + 1)"

definition aggregate_device_states :: "device_state list \<Rightarrow> (string \<times> int) list" where
  "aggregate_device_states states =
     (let (counts, tot) = aggregate_loop states (\<lambda>_. 0) 0
      in map (\<lambda>s. (device_state_value s, counts s)) DeviceState_members @ [(''total'', tot)])"

definition derive_dispatched_job_state :: "device_state list \<Rightarrow> mdm_error + job_state" where
  "derive_dispatched_job_state rows =
     (if rows = [] then Inl (PushJobError ''cannot derive a dispatched job state without device rows'')
      else if list_ex (\<lambda>s. s = D_RECONCILING) rows then Inr J_RECONCILING
      else if list_ex (\<lambda>s. s \<in> {D_QUEUED, D_WAITING_TRANSFER, D_DISPATCHING, D_DOWNLOADING,
                                 D_VALIDATING, D_APPLYING}) rows then Inr J_RUNNING
      else if list_all (\<lambda>s. s = D_SUCCEEDED) rows then Inr J_SUCCEEDED
      else if list_ex (\<lambda>s. s = D_UNCONFIRMED) rows then Inr J_COMPLETED_WITH_ERRORS
      else if list_ex (\<lambda>s. s = D_SUCCEEDED) rows then Inr J_COMPLETED_WITH_ERRORS
      else Inr J_FAILED)"

definition is_terminal_device_state :: "device_state \<Rightarrow> bool" where
  "is_terminal_device_state s = (s \<in> TERMINAL_DEVICE_STATES)"

definition is_terminal_job_state :: "job_state \<Rightarrow> bool" where
  "is_terminal_job_state s = (s \<in> TERMINAL_JOB_STATES)"

lemma aggregate_loop_eq:
  "aggregate_loop ss counts tot =
     (\<lambda>s. counts s + int (count_list ss s), tot + int (length ss))"
  by (induction ss arbitrary: counts tot) (auto simp: fun_eq_iff)

lemma device_state_cases_terminal:
  "s \<in> TERMINAL_DEVICE_STATES \<longleftrightarrow> s \<noteq> D_QUEUED \<and> s \<notin> ACTIVE_DEVICE_STATES"
  by (cases s) (simp_all add: state_set_defs)

text \<open>The derived state depends on the set of device states only.\<close>

lemma derive_set_cong:
  "set xs = set ys \<Longrightarrow> derive_dispatched_job_state xs = derive_dispatched_job_state ys"
  by (cases xs; cases ys) (auto simp: derive_dispatched_job_state_def list_ex_iff list_all_iff)

lemma derive_total: "rows \<noteq> [] \<Longrightarrow> \<exists>s. derive_dispatched_job_state rows = Inr s"
  by (auto simp: derive_dispatched_job_state_def)

lemma derive_dispatched:
  "derive_dispatched_job_state rows = Inr s \<Longrightarrow>
     s \<in> {J_RUNNING, J_RECONCILING, J_SUCCEEDED, J_COMPLETED_WITH_ERRORS, J_FAILED}"
  by (auto simp: derive_dispatched_job_state_def split: if_splits)

lemma derive_terminal_iff:
  assumes "derive_dispatched_job_state rows = Inr s"
  shows "s \<in> TERMINAL_JOB_STATES \<longleftrightarrow> set rows \<subseteq> TERMINAL_DEVICE_STATES"
proof -
  have "x \<in> TERMINAL_DEVICE_STATES \<longleftrightarrow>
      x \<notin> {D_RECONCILING, D_QUEUED, D_WAITING_TRANSFER, D_DISPATCHING, D_DOWNLOADING, D_VALIDATING, D_APPLYING}" for x
    by (cases x) (simp_all add: state_set_defs)
  then show ?thesis
    using assms unfolding derive_dispatched_job_state_def
    by (auto simp: list_ex_iff list_all_iff TERMINAL_JOB_STATES_def subset_iff split: if_splits)
qed

section \<open>Create requests\<close>

record canonical_source =
  display_name :: string
  declared_file_count :: int
  declared_total_bytes :: int

record canonical_request =
  client_request_id :: string
  target_devices :: "string list"
  mode :: push_mode
  dest_path :: string
  source :: canonical_source
  fingerprint :: string

definition source_as_dict :: "canonical_source \<Rightarrow> json" where
  "source_as_dict s = JObj
     [(''display_name'', JStr (display_name s)),
      (''declared_file_count'', JInt (declared_file_count s)),
      (''declared_total_bytes'', JInt (declared_total_bytes s))]"

definition fingerprint_payload :: "canonical_request \<Rightarrow> json" where
  "fingerprint_payload r = JObj
     [(''target_devices'', JArr (map JStr (target_devices r))),
      (''mode'', JStr (push_mode_value (mode r))),
      (''dest_path'', JStr (dest_path r)),
      (''source'', source_as_dict (source r))]"

definition require_uuid :: "json \<Rightarrow> string \<Rightarrow> mdm_error + string" where
  "require_uuid value field =
     (case value of
        JStr s \<Rightarrow>
          (case uuid_parse s of
             None \<Rightarrow> Inl (PushJobError (field @ '' must be a valid UUIDv4''))
           | Some u \<Rightarrow>
               if uuid_version u \<noteq> Some 4 then Inl (PushJobError (field @ '' must be a UUIDv4''))
               else Inr (uuid_str u))
      | _ \<Rightarrow> Inl (PushJobError (field @ '' must be a UUIDv4 string'')))"

definition quoted :: "string \<Rightarrow> string" where
  "quoted s = CHR 0x27 # s @ [CHR 0x27]"

text \<open>\<^verbatim>\<open>posixpath.normpath\<close>.\<close>

fun norm_comps :: "bool \<Rightarrow> string list \<Rightarrow> string list \<Rightarrow> string list" where
  "norm_comps absolute [] acc = rev acc"
| "norm_comps absolute (c # cs) acc =
     (if c = '''' \<or> c = ''.'' then norm_comps absolute cs acc
      else if c \<noteq> ''..'' \<or> \<not> absolute \<and> acc = [] \<or> acc \<noteq> [] \<and> hd acc = ''..''
      then norm_comps absolute cs (c # acc)
      else norm_comps absolute cs (tl acc))"

definition normpath :: "string \<Rightarrow> string" where
  "normpath path =
     (if path = [] then ''.''
      else (let slashes = (if \<not> prefix ''/'' path then 0
                           else if prefix ''//'' path \<and> \<not> prefix ''///'' path then 2 else 1);
                p = replicate slashes (CHR ''/'') @
                    join (CHR ''/'') (norm_comps (0 < slashes) (split (CHR ''/'') path) [])
            in if p = [] then ''.'' else p))"

definition protected_dirs :: "string list" where
  "protected_dirs =
     [''android'', ''download'', ''downloads'', ''dcim'', ''pictures'', ''movies'', ''music'',
      ''documents'', ''alarms'', ''notifications'', ''podcasts'', ''ringtones'']"

definition storage_aliases :: "string list" where
  "storage_aliases = [''/sdcard'', ''/storage/emulated/0'']"

text \<open>The second half of \<^verbatim>\<open>canonical_destination\<close>: from the normalised path on.\<close>

definition shared_storage_destination :: "string \<Rightarrow> mdm_error + string" where
  "shared_storage_destination normalized =
     (case find (\<lambda>p. normalized = p \<or> prefix (p @ ''/'') normalized) storage_aliases of
        None \<Rightarrow> Inl (PushJobError ''dest_path must be under shared storage'')
      | Some root \<Rightarrow>
          let remainder = strip_chars (\<lambda>c. c = CHR ''/'') (drop (length root) normalized) in
          if remainder = [] then Inl (PushJobError ''dest_path must be a shared-storage subdirectory'')
          else if lower (hd (split (CHR ''/'') remainder)) \<in> set protected_dirs
          then Inl (PushJobError ''dest_path points inside a protected top-level directory'')
          else Inr (''/sdcard/'' @ remainder))"

definition canonical_destination :: "json \<Rightarrow> mdm_error + string" where
  "canonical_destination value =
     (case value of
        JStr v \<Rightarrow>
          if strip v = [] then Inl (PushJobError ''dest_path is required'')
          else
            let text = replace_char (CHR 0x5C) (CHR ''/'') (strip v) in
            if CHR 0x00 \<in> set text then Inl (PushJobError ''dest_path contains an invalid character'')
            else if \<not> prefix ''/'' text then Inl (PushJobError ''dest_path must be absolute'')
            else if ''..'' \<in> set (split (CHR ''/'') text)
            then Inl (PushJobError (''dest_path must not contain '' @ quoted ''..''))
            else shared_storage_destination (normpath text)
      | _ \<Rightarrow> Inl (PushJobError ''dest_path is required''))"

text \<open>
  \<^verbatim>\<open>PushMode(str(value).lower())\<close>: the text of a value that is not a string is never a member's
  value.
\<close>

definition mode_error :: mdm_error where
  "mode_error = PushJobError (''mode must be '' @ quoted ''push'' @ '' or '' @ quoted ''sync'')"

definition parse_mode :: "json \<Rightarrow> mdm_error + push_mode" where
  "parse_mode value =
     (case value of
        JStr s \<Rightarrow>
          if lower s = ''push'' then Inr PUSH else if lower s = ''sync'' then Inr SYNC
          else Inl mode_error
      | _ \<Rightarrow> Inl mode_error)"

fun int_at_least :: "int \<Rightarrow> json \<Rightarrow> int option" where
  "int_at_least lo (JInt i) = (if i < lo then None else Some i)"
| "int_at_least lo _ = None"

definition canonical_targets :: "json \<Rightarrow> mdm_error + string list" where
  "canonical_targets raw =
     (case raw of
        JArr items \<Rightarrow>
          if items = [] then Inl (PushJobError ''target_devices must be a non-empty array'')
          else if list_ex (\<lambda>i. case str_of i of None \<Rightarrow> True | Some s \<Rightarrow> strip s = []) items
          then Inl (PushJobError ''target_devices must contain non-empty device IDs'')
          else
            let cleaned = map (\<lambda>i. strip (the (str_of i))) items in
            if \<not> distinct cleaned then Inl (PushJobError ''target_devices must not contain duplicates'')
            else Inr (sort cleaned)
      | _ \<Rightarrow> Inl (PushJobError ''target_devices must be a non-empty array''))"

definition canonical_source_of :: "json \<Rightarrow> mdm_error + canonical_source" where
  "canonical_source_of raw =
     (case raw of
        JObj src \<Rightarrow>
          (case str_of (jget src ''display_name'') of
             None \<Rightarrow> Inl (PushJobError ''source.display_name is required'')
           | Some name \<Rightarrow>
               if strip name = [] then Inl (PushJobError ''source.display_name is required'')
               else (case int_at_least 1 (jget src ''declared_file_count'') of
                       None \<Rightarrow> Inl (PushJobError ''source.declared_file_count must be a positive integer'')
                     | Some n \<Rightarrow>
                         (case int_at_least 0 (jget src ''declared_total_bytes'') of
                            None \<Rightarrow> Inl (PushJobError ''source.declared_total_bytes must be a non-negative integer'')
                          | Some b \<Rightarrow>
                              Inr \<lparr>display_name = take 255 (strip name), declared_file_count = n,
                                   declared_total_bytes = b\<rparr>)))
      | _ \<Rightarrow> Inl (PushJobError ''source must be an object''))"

text \<open>\<open>sha256\<close> is \<^verbatim>\<open>hashlib.sha256(bytes).hexdigest()\<close>, a parameter.\<close>

definition request_fingerprint :: "(nat list \<Rightarrow> string) \<Rightarrow> canonical_request \<Rightarrow> string" where
  "request_fingerprint sha256 r = sha256 (utf8 (json_dumps (fingerprint_payload r)))"

definition canonicalize_create_request ::
  "(nat list \<Rightarrow> string) \<Rightarrow> jobject \<Rightarrow> mdm_error + canonical_request" where
  "canonicalize_create_request sha256 data =
     rbind (require_uuid (jget data ''client_request_id'') ''client_request_id'') (\<lambda>rid.
     rbind (canonical_targets (jget data ''target_devices'')) (\<lambda>targets.
     rbind (parse_mode (jget data ''mode'')) (\<lambda>m.
     rbind (canonical_destination (jget data ''dest_path'')) (\<lambda>dest.
     rbind (canonical_source_of (jget data ''source'')) (\<lambda>src.
       let r = \<lparr>client_request_id = rid, target_devices = targets, mode = m, dest_path = dest,
                source = src, fingerprint = ''''\<rparr>
       in Inr (r\<lparr>fingerprint := request_fingerprint sha256 r\<rparr>))))))"

definition MAX_CAPABILITIES :: nat where
  "MAX_CAPABILITIES = 32"

fun parse_capability_items :: "json list \<Rightarrow> string list \<Rightarrow> string set" where
  "parse_capability_items [] parsed = set parsed"
| "parse_capability_items (i # is) parsed =
     (case i of
        JStr s \<Rightarrow> if s = [] \<or> 128 < length s then {} else parse_capability_items is (parsed @ [s])
      | _ \<Rightarrow> {})"

definition parse_capabilities :: "json \<Rightarrow> string set" where
  "parse_capabilities value =
     (case value of
        JArr items \<Rightarrow> if MAX_CAPABILITIES < length items then {} else parse_capability_items items []
      | _ \<Rightarrow> {})"

section \<open>Destinations: the string routine against a specification on path segments\<close>

definition seg_ok :: "string \<Rightarrow> bool" where
  "seg_ok s = (s \<noteq> '''' \<and> s \<noteq> ''.'' \<and> s \<noteq> ''..'' \<and> CHR ''/'' \<notin> set s)"

definition keep_segs :: "string \<Rightarrow> string list" where
  "keep_segs t = filter (\<lambda>c. c \<noteq> '''' \<and> c \<noteq> ''.'') (split (CHR ''/'') t)"

lemma norm_comps_no_dotdot:
  "''..'' \<notin> set cs \<Longrightarrow>
    norm_comps a cs acc = rev acc @ filter (\<lambda>c. c \<noteq> '''' \<and> c \<noteq> ''.'') cs"
  by (induction cs arbitrary: acc) auto

lemma keep_segs_ok: "''..'' \<notin> set (split (CHR ''/'') t) \<Longrightarrow> \<forall>s \<in> set (keep_segs t). seg_ok s"
  using split_no_sep [of "CHR ''/''" t] by (auto simp: keep_segs_def seg_ok_def)

lemma normpath_absolute:
  assumes "prefix ''/'' t" and "''..'' \<notin> set (split (CHR ''/'') t)"
  shows "normpath t =
    (if prefix ''//'' t \<and> \<not> prefix ''///'' t then ''//'' else ''/'') @ join (CHR ''/'') (keep_segs t)"
  using assms by (auto simp: normpath_def Let_def norm_comps_no_dotdot keep_segs_def numeral_2_eq_2)

lemma join_append:
  "xs \<noteq> [] \<Longrightarrow> ys \<noteq> [] \<Longrightarrow> join c (xs @ ys) = join c xs @ c # join c ys"
  by (induction c xs rule: join.induct) (auto simp: neq_Nil_conv)

lemma split_slash_join:
  "xs \<noteq> [] \<Longrightarrow> \<forall>s \<in> set xs. seg_ok s \<Longrightarrow>
    split (CHR ''/'') (CHR ''/'' # join (CHR ''/'') xs) = '''' # xs"
  by (simp add: split_join seg_ok_def)

lemma join_ends:
  assumes "xs \<noteq> []" and "\<forall>s \<in> set xs. seg_ok s"
  shows "join (CHR ''/'') xs \<noteq> []" "hd (join (CHR ''/'') xs) \<noteq> CHR ''/''"
    "last (join (CHR ''/'') xs) \<noteq> CHR ''/''"
proof -
  have h: "s \<noteq> [] \<and> hd s \<noteq> CHR ''/'' \<and> last s \<noteq> CHR ''/''" if "seg_ok s" for s
    using that unfolding seg_ok_def by (metis hd_in_set last_in_set)
  have "join (CHR ''/'') xs \<noteq> [] \<and> hd (join (CHR ''/'') xs) \<noteq> CHR ''/'' \<and>
      last (join (CHR ''/'') xs) \<noteq> CHR ''/''"
    using assms by (induction "CHR ''/''" xs rule: join.induct) (auto dest: h)
  then show "join (CHR ''/'') xs \<noteq> []" "hd (join (CHR ''/'') xs) \<noteq> CHR ''/''"
    "last (join (CHR ''/'') xs) \<noteq> CHR ''/''" by auto
qed

lemma root_match:
  assumes ok: "\<forall>s \<in> set xs. seg_ok s" and qs: "qs \<noteq> []" "\<forall>s \<in> set qs. seg_ok s"
    and p: "p = CHR ''/'' # join (CHR ''/'') qs"
  shows "(CHR ''/'' # join (CHR ''/'') xs = p \<or> prefix (p @ ''/'') (CHR ''/'' # join (CHR ''/'') xs))
    \<longleftrightarrow> prefix qs xs"
    (is "?l \<longleftrightarrow> _")
proof
  assume l: ?l
  then have ne: "xs \<noteq> []"
    using join_ends(1) [OF qs] by (cases "xs = []") (auto simp: p)
  have sx: "split (CHR ''/'') (CHR ''/'' # join (CHR ''/'') xs) = '''' # xs"
    using split_slash_join [OF ne ok] .
  have sp: "split (CHR ''/'') p = '''' # qs"
    using split_slash_join [OF qs] by (simp add: p)
  from l show "prefix qs xs"
  proof
    assume "CHR ''/'' # join (CHR ''/'') xs = p"
    with sx sp show ?thesis by simp
  next
    assume "prefix (p @ ''/'') (CHR ''/'' # join (CHR ''/'') xs)"
    then obtain r where "CHR ''/'' # join (CHR ''/'') xs = p @ CHR ''/'' # r"
      by (auto simp: prefix_def)
    with sx sp have "'''' # xs = ('''' # qs) @ split (CHR ''/'') r"
      by (metis split_append_sep)
    then show ?thesis by simp
  qed
next
  assume "prefix qs xs"
  then obtain rs where "xs = qs @ rs" by (auto simp: prefix_def)
  then show ?l
    using qs by (cases "rs = []") (auto simp: p join_append)
qed

lemma remainder_eq:
  assumes "qs \<noteq> []" and "\<forall>s \<in> set rs. seg_ok s"
  shows "strip_chars (\<lambda>c. c = CHR ''/'')
      (drop (length (CHR ''/'' # join (CHR ''/'') qs)) (CHR ''/'' # join (CHR ''/'') (qs @ rs)))
    = join (CHR ''/'') rs"
proof (cases "rs = []")
  case True
  then show ?thesis by (simp add: strip_chars_def)
next
  case False
  have "strip_chars (\<lambda>c. c = CHR ''/'') (CHR ''/'' # join (CHR ''/'') rs) =
      strip_chars (\<lambda>c. c = CHR ''/'') (join (CHR ''/'') rs)"
    by (simp add: strip_chars_def)
  also have "\<dots> = join (CHR ''/'') rs"
    using join_ends [OF False assms(2)] by (intro strip_chars_id) auto
  finally show ?thesis
    using False assms(1) by (simp add: join_append)
qed

text \<open>The specification: which segments a destination has and what becomes of them.\<close>

definition finish_spec :: "string list \<Rightarrow> mdm_error + string" where
  "finish_spec rs =
     (if rs = [] then Inl (PushJobError ''dest_path must be a shared-storage subdirectory'')
      else if lower (hd rs) \<in> set protected_dirs
      then Inl (PushJobError ''dest_path points inside a protected top-level directory'')
      else Inr (''/sdcard/'' @ join (CHR ''/'') rs))"

definition dest_spec :: "string \<Rightarrow> mdm_error + string" where
  "dest_spec t =
     (if prefix ''//'' t \<and> \<not> prefix ''///'' t then Inl (PushJobError ''dest_path must be under shared storage'')
      else case keep_segs t of
        s # rs \<Rightarrow>
          if s = ''sdcard'' then finish_spec rs
          else if prefix [''storage'', ''emulated'', ''0''] (s # rs) then finish_spec (drop 2 rs)
          else Inl (PushJobError ''dest_path must be under shared storage'')
      | [] \<Rightarrow> Inl (PushJobError ''dest_path must be under shared storage''))"

lemma find_aliases:
  "find P storage_aliases =
     (if P ''/sdcard'' then Some ''/sdcard''
      else if P ''/storage/emulated/0'' then Some ''/storage/emulated/0'' else None)"
  by (simp add: storage_aliases_def)

lemma finish_eq:
  assumes "\<forall>s \<in> set rs. seg_ok s" and "rem = join (CHR ''/'') rs"
  shows "(if rem = [] then Inl (PushJobError ''dest_path must be a shared-storage subdirectory'')
      else if lower (hd (split (CHR ''/'') rem)) \<in> set protected_dirs
      then Inl (PushJobError ''dest_path points inside a protected top-level directory'')
      else Inr (''/sdcard/'' @ rem)) = finish_spec rs"
proof (cases "rs = []")
  case True
  with assms show ?thesis by (simp add: finish_spec_def)
next
  case False
  have "split (CHR ''/'') rem = rs"
    using False assms by (simp add: split_join seg_ok_def)
  with False assms show ?thesis
    using join_ends(1) [OF False assms(1)] by (simp add: finish_spec_def)
qed

lemma shared_storage_destination_normpath:
  assumes t: "prefix ''/'' t" "''..'' \<notin> set (split (CHR ''/'') t)"
  shows "shared_storage_destination (normpath t) = dest_spec t"
proof (cases "prefix ''//'' t \<and> \<not> prefix ''///'' t")
  case True
  then show ?thesis
    by (simp add: shared_storage_destination_def find_aliases normpath_absolute [OF t] dest_spec_def)
next
  case False
  let ?xs = "keep_segs t"
  have ok: "\<forall>s \<in> set ?xs. seg_ok s"
    by (rule keep_segs_ok [OF t(2)])
  have n: "normpath t = CHR ''/'' # join (CHR ''/'') ?xs"
    using False by (simp add: normpath_absolute [OF t])
  have m1: "(normpath t = ''/sdcard'' \<or> prefix (''/sdcard'' @ ''/'') (normpath t)) \<longleftrightarrow> prefix [''sdcard''] ?xs"
    unfolding n by (rule root_match [OF ok]) (simp_all add: seg_ok_def)
  have m2: "(normpath t = ''/storage/emulated/0'' \<or> prefix (''/storage/emulated/0'' @ ''/'') (normpath t))
      \<longleftrightarrow> prefix [''storage'', ''emulated'', ''0''] ?xs"
    unfolding n by (rule root_match [OF ok]) (simp_all add: seg_ok_def)
  have r: "strip_chars (\<lambda>c. c = CHR ''/'') (drop (length (CHR ''/'' # join (CHR ''/'') qs)) (normpath t)) =
      join (CHR ''/'') rs" if "?xs = qs @ rs" "qs \<noteq> []" for qs rs
    using remainder_eq [of qs rs] ok that by (simp add: n)
  consider (a) rs where "?xs = ''sdcard'' # rs"
    | (b) rs where "?xs = ''storage'' # ''emulated'' # ''0'' # rs"
    | (c) "\<not> prefix [''sdcard''] ?xs" "\<not> prefix [''storage'', ''emulated'', ''0''] ?xs"
    by (auto simp: prefix_def)
  moreover have d: "dest_spec t = (case ?xs of
        s # rs \<Rightarrow>
          if s = ''sdcard'' then finish_spec rs
          else if prefix [''storage'', ''emulated'', ''0''] (s # rs) then finish_spec (drop 2 rs)
          else Inl (PushJobError ''dest_path must be under shared storage'')
      | [] \<Rightarrow> Inl (PushJobError ''dest_path must be under shared storage''))"
    using False by (auto simp: dest_spec_def)
  ultimately show ?thesis
  proof cases
    case a
    then show ?thesis
      using m1 finish_eq [of rs "join (CHR ''/'') rs"] r [of "[''sdcard'']" rs] ok
      by (simp add: shared_storage_destination_def find_aliases d Let_def)
  next
    case b
    then show ?thesis
      using m1 m2 finish_eq [of rs "join (CHR ''/'') rs"] r [of "[''storage'', ''emulated'', ''0'']" rs] ok
      by (simp add: shared_storage_destination_def find_aliases d Let_def)
  next
    case c
    then show ?thesis
      using m1 m2 by (auto simp: shared_storage_destination_def find_aliases d split: list.splits)
  qed
qed

lemma canonical_destination_str:
  "canonical_destination (JStr v) =
     (let text = replace_char (CHR 0x5C) (CHR ''/'') (strip v) in
      if strip v = [] then Inl (PushJobError ''dest_path is required'')
      else if CHR 0x00 \<in> set text then Inl (PushJobError ''dest_path contains an invalid character'')
      else if \<not> prefix ''/'' text then Inl (PushJobError ''dest_path must be absolute'')
      else if ''..'' \<in> set (split (CHR ''/'') text)
      then Inl (PushJobError (''dest_path must not contain '' @ quoted ''..''))
      else dest_spec text)"
  by (auto simp: canonical_destination_def Let_def shared_storage_destination_normpath)

lemma split_chars: "p \<in> set (split c s) \<Longrightarrow> set p \<subseteq> set s"
proof (induction s arbitrary: p)
  case (Cons a s)
  then show ?case by (cases "split c s") (fastforce split: if_splits)+
qed simp

lemma dest_spec_Inr:
  assumes "dest_spec t = Inr p"
  obtains segs where "segs \<noteq> []" "p = ''/sdcard/'' @ join (CHR ''/'') segs" "set segs \<subseteq> set (keep_segs t)"
    "lower (hd segs) \<notin> set protected_dirs"
proof -
  obtain rs where "finish_spec rs = Inr p" "set rs \<subseteq> set (keep_segs t)"
    using assms by (auto simp: dest_spec_def split: if_splits list.splits dest: in_set_dropD)
  then show thesis
    using that by (auto simp: finish_spec_def split: if_splits)
qed

lemma replace_char_set: "a \<noteq> b \<Longrightarrow> a \<notin> set (replace_char a b s)"
  by (auto simp: replace_char_def)

lemma canonical_destination_segs:
  assumes "canonical_destination value = Inr p"
  obtains segs where "segs \<noteq> []" "p = ''/sdcard/'' @ join (CHR ''/'') segs"
    "\<forall>s \<in> set segs. seg_ok s \<and> CHR 0x5C \<notin> set s \<and> CHR 0x00 \<notin> set s"
    "lower (hd segs) \<notin> set protected_dirs"
proof -
  obtain v where v: "value = JStr v"
    using assms by (cases "value") (auto simp: canonical_destination_def)
  define t where "t = replace_char (CHR 0x5C) (CHR ''/'') (strip v)"
  from assms have t: "dest_spec t = Inr p" "CHR 0x00 \<notin> set t" "''..'' \<notin> set (split (CHR ''/'') t)"
    by (auto simp: v t_def canonical_destination_str Let_def split: if_splits)
  have bs: "CHR 0x5C \<notin> set t" by (simp add: t_def replace_char_set)
  from t(1) obtain segs where s: "segs \<noteq> []" "p = ''/sdcard/'' @ join (CHR ''/'') segs"
      "set segs \<subseteq> set (keep_segs t)" "lower (hd segs) \<notin> set protected_dirs"
    by (rule dest_spec_Inr)
  have "seg_ok s \<and> CHR 0x5C \<notin> set s \<and> CHR 0x00 \<notin> set s" if "s \<in> set segs" for s
  proof -
    have k: "s \<in> set (keep_segs t)" using that s(3) by auto
    then have "set s \<subseteq> set t" by (auto simp: keep_segs_def dest: split_chars)
    then show ?thesis using keep_segs_ok [OF t(3)] k t(2) bs by auto
  qed
  with s show thesis by (intro that) auto
qed

lemma strip_prefix:
  assumes "q \<noteq> []" "\<not> is_space (hd q)" "\<not> is_space (last q)"
  shows "strip (q @ x) = q @ rev (dropWhile is_space (rev x))"
proof -
  have "dropWhile is_space (q @ x) = q @ x"
    using assms by (intro dropWhile_hd_id) simp
  moreover have "dropWhile is_space (rev q) = rev q"
    using assms by (intro dropWhile_hd_id) (simp add: hd_rev)
  ultimately show ?thesis
    by (auto simp: strip_def strip_chars_def dropWhile_append dropWhile_eq_Nil_conv)
qed

lemma keep_segs_sdcard: "keep_segs (''/sdcard/'' @ r) = ''sdcard'' # keep_segs r"
  using split_append_sep [of "CHR ''/''" "''/sdcard''" r] by (simp add: keep_segs_def)

lemma keep_segs_emulated:
  "keep_segs (''/storage/emulated/0/'' @ r) = ''storage'' # ''emulated'' # ''0'' # keep_segs r"
  using split_append_sep [of "CHR ''/''" "''/storage/emulated/0''" r] by (simp add: keep_segs_def)

lemma dest_spec_alias: "dest_spec (''/storage/emulated/0/'' @ r) = dest_spec (''/sdcard/'' @ r)"
  unfolding dest_spec_def keep_segs_sdcard keep_segs_emulated by simp

text \<open>
  (C25) A destination the server accepts is a path below \<^verbatim>\<open>/sdcard\<close> with at least one segment,
  none of which is empty, \<^verbatim>\<open>.\<close> or \<^verbatim>\<open>..\<close> or contains a separator, a backslash or a NUL, and
  whose first segment is not, in any capitalisation, one of the protected top-level directories:
  no request can reach out of shared storage or into a protected directory.
\<close>

theorem canonical_destination_safe:
  assumes "canonical_destination value = Inr p"
  shows "\<exists>segs. segs \<noteq> [] \<and> p = ''/sdcard/'' @ join (CHR ''/'') segs \<and>
    list_all (\<lambda>s. s \<noteq> '''' \<and> s \<noteq> ''.'' \<and> s \<noteq> ''..'' \<and> CHR ''/'' \<notin> set s \<and>
      CHR 0x5C \<notin> set s \<and> CHR 0x00 \<notin> set s) segs \<and>
    lower (hd segs) \<notin> set protected_dirs"
proof -
  obtain segs where "segs \<noteq> []" "p = ''/sdcard/'' @ join (CHR ''/'') segs"
    "\<forall>s \<in> set segs. seg_ok s \<and> CHR 0x5C \<notin> set s \<and> CHR 0x00 \<notin> set s"
    "lower (hd segs) \<notin> set protected_dirs"
    using assms by (rule canonical_destination_segs)
  then show ?thesis by (intro exI [of _ segs]) (auto simp: list_all_iff seg_ok_def)
qed

theorem canonical_destination_safe_witness:
  "canonical_destination (JStr '' /storage/emulated/0//Data/./Levels/ '') = Inr ''/sdcard/Data/Levels'' \<and>
   (\<exists>segs. segs \<noteq> [] \<and> ''/sdcard/Data/Levels'' = ''/sdcard/'' @ join (CHR ''/'') segs \<and>
    list_all (\<lambda>s. s \<noteq> '''' \<and> s \<noteq> ''.'' \<and> s \<noteq> ''..'' \<and> CHR ''/'' \<notin> set s \<and>
      CHR 0x5C \<notin> set s \<and> CHR 0x00 \<notin> set s) segs \<and>
    lower (hd segs) \<notin> set protected_dirs)"
proof -
  have "canonical_destination (JStr '' /storage/emulated/0//Data/./Levels/ '') = Inr ''/sdcard/Data/Levels''"
    by code_simp
  from this canonical_destination_safe [OF this] show ?thesis by blast
qed

text \<open>
  The two spellings of shared storage are one destination: whatever follows, a path under
  \<^verbatim>\<open>/storage/emulated/0/\<close> canonicalises exactly as the same path under \<^verbatim>\<open>/sdcard/\<close>, errors
  included, so the request fingerprint does not depend on the alias.
\<close>

theorem canonical_destination_alias:
  "canonical_destination (JStr (''/storage/emulated/0/'' @ x)) = canonical_destination (JStr (''/sdcard/'' @ x))"
proof -
  define r where "r = replace_char (CHR 0x5C) (CHR ''/'') (rev (dropWhile is_space (rev x)))"
  have s: "strip (''/storage/emulated/0/'' @ x) = ''/storage/emulated/0/'' @ rev (dropWhile is_space (rev x))"
    "strip (''/sdcard/'' @ x) = ''/sdcard/'' @ rev (dropWhile is_space (rev x))"
    by (rule strip_prefix; simp add: is_space_def)+
  have t: "replace_char (CHR 0x5C) (CHR ''/'') (strip (''/storage/emulated/0/'' @ x)) = ''/storage/emulated/0/'' @ r"
    "replace_char (CHR 0x5C) (CHR ''/'') (strip (''/sdcard/'' @ x)) = ''/sdcard/'' @ r"
    unfolding s r_def by (simp_all add: replace_char_def)
  have d: "''..'' \<in> set (split (CHR ''/'') (''/storage/emulated/0/'' @ r)) \<longleftrightarrow> ''..'' \<in> set (split (CHR ''/'') r)"
    "''..'' \<in> set (split (CHR ''/'') (''/sdcard/'' @ r)) \<longleftrightarrow> ''..'' \<in> set (split (CHR ''/'') r)"
    using split_append_sep [of "CHR ''/''" "''/sdcard''" r]
      split_append_sep [of "CHR ''/''" "''/storage/emulated/0''" r] by auto
  have n: "strip (''/storage/emulated/0/'' @ x) \<noteq> []" "strip (''/sdcard/'' @ x) \<noteq> []"
    by (simp_all only: s) simp_all
  show ?thesis
    unfolding canonical_destination_str Let_def t d dest_spec_alias using n by simp
qed

text \<open>
  Canonicalisation is stable: a canonical destination that does not end in white space
  canonicalises to itself, so clients can send back what the server answered.
\<close>

theorem canonical_destination_idempotent:
  assumes "canonical_destination value = Inr p" and "\<not> is_space (last p)"
  shows "canonical_destination (JStr p) = Inr p"
proof -
  obtain segs where s: "segs \<noteq> []" "p = ''/sdcard/'' @ join (CHR ''/'') segs"
    "\<forall>s \<in> set segs. seg_ok s \<and> CHR 0x5C \<notin> set s \<and> CHR 0x00 \<notin> set s"
    "lower (hd segs) \<notin> set protected_dirs"
    using assms(1) by (rule canonical_destination_segs)
  have j: "set (join c xs) \<subseteq> insert c (\<Union> (set ` set xs))" for c xs
    by (induction c xs rule: join.induct) auto
  have "CHR 0x5C \<notin> set p" "CHR 0x00 \<notin> set p"
    using s(2,3) j [of "CHR ''/''" segs] by auto
  moreover have "strip p = p"
    unfolding strip_def using s(2) assms(2) by (intro strip_chars_id) (auto simp: is_space_def)
  moreover have "replace_char (CHR 0x5C) (CHR ''/'') p = p"
    using \<open>CHR 0x5C \<notin> set p\<close> unfolding replace_char_def by (intro map_idI) auto
  moreover have sp: "split (CHR ''/'') (join (CHR ''/'') segs) = segs"
    using s(1,3) by (intro split_join) (auto simp: seg_ok_def)
  moreover have "keep_segs p = ''sdcard'' # segs"
    using s(3) unfolding s(2) keep_segs_sdcard
    by (auto simp: keep_segs_def sp filter_id_conv seg_ok_def)
  moreover have "''..'' \<notin> set (split (CHR ''/'') p)"
    using split_append_sep [of "CHR ''/''" "''/sdcard''" "join (CHR ''/'') segs"] s(2,3)
    by (auto simp: sp seg_ok_def)
  ultimately show ?thesis
    using s by (simp add: canonical_destination_str Let_def dest_spec_def finish_spec_def)
qed

theorem canonical_destination_idempotent_witness:
  "canonical_destination (JStr ''/sdcard/Foo//Bar'') = Inr ''/sdcard/Foo/Bar'' \<and>
   canonical_destination (JStr ''/sdcard/Foo/Bar'') = Inr ''/sdcard/Foo/Bar''"
proof -
  have a: "canonical_destination (JStr ''/sdcard/Foo//Bar'') = Inr ''/sdcard/Foo/Bar''" by code_simp
  have b: "\<not> is_space (last ''/sdcard/Foo/Bar'')" by code_simp
  from a canonical_destination_idempotent [OF a b] show ?thesis by blast
qed

section \<open>Request identity, targets and capabilities\<close>

text \<open>
  A request id is stored in one spelling: whatever UUID spelling a client sends (upper case,
  braces, \<^verbatim>\<open>urn:uuid:\<close>), the accepted text is a version-4 UUID in canonical form, and sending the
  canonical form again yields the same text, so retries hit the same idempotency key.
\<close>

theorem require_uuid_canonical:
  assumes "require_uuid value field = Inr s"
  shows "\<exists>u. 0 \<le> u \<and> u < 2 ^ 128 \<and> s = uuid_str u \<and> uuid_version u = Some 4 \<and> length s = 36 \<and>
    require_uuid (JStr s) field' = Inr s"
proof -
  obtain v u where u: "value = JStr v" "uuid_parse v = Some u" "uuid_version u = Some 4" "s = uuid_str u"
    using assms by (auto simp: require_uuid_def split: json.splits option.splits if_splits)
  have b: "0 \<le> u \<and> u < 2 ^ 128" using u(2) by (rule uuid_parse_bound)
  have "length s = 36" by (simp add: u(4) uuid_str_def Let_def)
  with b u show ?thesis
    by (intro exI [of _ u]) (simp add: require_uuid_def uuid_parse_str)
qed

theorem require_uuid_canonical_witness:
  "require_uuid (JStr ''{3F2504E0-4F89-41D3-9A0C-0305E82C3301}'') ''client_request_id'' =
     Inr ''3f2504e0-4f89-41d3-9a0c-0305e82c3301'' \<and>
   require_uuid (JStr ''3f2504e0-4f89-41d3-9a0c-0305e82c3301'') ''client_request_id'' =
     Inr ''3f2504e0-4f89-41d3-9a0c-0305e82c3301''"
proof -
  have a: "require_uuid (JStr ''{3F2504E0-4F89-41D3-9A0C-0305E82C3301}'') ''client_request_id'' =
     Inr ''3f2504e0-4f89-41d3-9a0c-0305e82c3301''" by code_simp
  from require_uuid_canonical [OF a, of "''client_request_id''"] a show ?thesis by blast
qed

lemma canonical_targets_cases:
  assumes "canonical_targets raw = Inr ts"
  obtains items where "raw = JArr items" "items \<noteq> []"
    "ts = sort (map (\<lambda>i. strip (the (str_of i))) items)" "distinct ts" "'''' \<notin> set ts" "ts \<noteq> []"
proof -
  obtain items where i: "raw = JArr items" "items \<noteq> []"
    "ts = sort (map (\<lambda>i. strip (the (str_of i))) items)"
    "distinct (map (\<lambda>i. strip (the (str_of i))) items)"
    "\<not> list_ex (\<lambda>i. case str_of i of None \<Rightarrow> True | Some s \<Rightarrow> strip s = []) items"
    using assms by (auto simp: canonical_targets_def Let_def split: json.splits if_splits)
  have "strip (the (str_of i)) \<noteq> ''''" if "i \<in> set items" for i
    using i(5) that by (cases "str_of i") (auto simp: list_ex_iff)
  then have "'''' \<notin> set ts" unfolding i(3) by force
  moreover have "ts \<noteq> []" using i(2) arg_cong [OF i(3), of length] by auto
  ultimately show thesis using i by (intro that) auto
qed

lemma canonical_targets_mset:
  assumes "mset xs = mset ys"
  shows "canonical_targets (JArr xs) = canonical_targets (JArr ys)"
proof -
  have s: "set xs = set ys" using assms by (rule mset_eq_setD)
  have e: "xs = [] \<longleftrightarrow> ys = []" using assms by auto
  have m: "mset (map f xs) = mset (map f ys)" for f :: "json \<Rightarrow> string"
    using assms by simp
  have d: "distinct (map f xs) \<longleftrightarrow> distinct (map f ys)" for f :: "json \<Rightarrow> string"
    using m by (metis mset_eq_imp_distinct_iff)
  have o: "sort (map f xs) = sort (map f ys)" for f :: "json \<Rightarrow> string"
    using m [of f] by (metis properties_for_sort mset_sort sorted_sort)
  show ?thesis
    unfolding canonical_targets_def
    by (simp add: e d o list_ex_iff s Let_def)
qed

text \<open>
  The order in which a client lists its targets does not matter: requests whose
  \<^verbatim>\<open>target_devices\<close> arrays are permutations of each other canonicalise identically, fingerprint
  included, and both are refused or accepted together.
\<close>

theorem canonicalize_permuted_targets:
  assumes "mset xs = mset ys"
  shows "canonicalize_create_request sha256 ((''target_devices'', JArr xs) # data) =
    canonicalize_create_request sha256 ((''target_devices'', JArr ys) # data)"
proof -
  have "jget ((''target_devices'', v) # data) k = (if k = ''target_devices'' then v else jget data k)" for v k
    by (simp add: jget_def)
  then show ?thesis
    unfolding canonicalize_create_request_def by (simp add: canonical_targets_mset [OF assms])
qed

theorem canonicalize_permuted_targets_witness:
  "canonicalize_create_request (map char_of) [(''target_devices'', JArr [JStr ''b'', JStr ''a''])] =
   canonicalize_create_request (map char_of) [(''target_devices'', JArr [JStr ''a'', JStr ''b''])]"
  by (rule canonicalize_permuted_targets) simp

lemma canonicalize_Inr:
  assumes "canonicalize_create_request sha256 data = Inr r"
  shows "sorted (target_devices r) \<and> distinct (target_devices r) \<and> target_devices r \<noteq> [] \<and>
    '''' \<notin> set (target_devices r) \<and> 1 \<le> declared_file_count (source r) \<and>
    0 \<le> declared_total_bytes (source r) \<and> length (display_name (source r)) \<le> 255 \<and>
    fingerprint r = request_fingerprint sha256 r"
proof -
  have i: "int_at_least lo v = Some n \<Longrightarrow> lo \<le> n" for lo v n
    by (cases v) (auto split: if_splits)
  from assms obtain ts src where r: "canonical_targets (jget data ''target_devices'') = Inr ts"
      "canonical_source_of (jget data ''source'') = Inr src" "target_devices r = ts" "source r = src"
      "fingerprint r = request_fingerprint sha256 r"
    by (auto simp: canonicalize_create_request_def rbind_eq_Inr Let_def request_fingerprint_def
        fingerprint_payload_def)
  from r(1) have "sorted ts \<and> distinct ts \<and> ts \<noteq> [] \<and> '''' \<notin> set ts"
    by (rule canonical_targets_cases) auto
  moreover from r(2) have "1 \<le> declared_file_count src \<and> 0 \<le> declared_total_bytes src \<and>
      length (display_name src) \<le> 255"
    by (auto simp: canonical_source_of_def split: json.splits option.splits if_splits dest: i)
  ultimately show ?thesis using r by simp
qed

lemma payload_key_order:
  "sort_key fst [(''target_devices'', a), (''mode'', b), (''dest_path'', c), (''source'', d)] =
    [(''dest_path'', c), (''mode'', b), (''source'', d), (''target_devices'', a :: string)]"
  by code_simp

lemma source_key_order:
  "sort_key fst [(''display_name'', a), (''declared_file_count'', b), (''declared_total_bytes'', c)] =
    [(''declared_file_count'', b), (''declared_total_bytes'', c), (''display_name'', a :: string)]"
  by code_simp

lemma payload_text:
  "json_dumps (fingerprint_payload r) =
     ''{'' @ dumps_str ''dest_path'' @ '':'' @ dumps_str (dest_path r) @ '','' @
     dumps_str ''mode'' @ '':'' @ dumps_str (push_mode_value (mode r)) @ '','' @
     dumps_str ''source'' @ '':{'' @
       dumps_str ''declared_file_count'' @ '':'' @ show_int (declared_file_count (source r)) @ '','' @
       dumps_str ''declared_total_bytes'' @ '':'' @ show_int (declared_total_bytes (source r)) @ '','' @
       dumps_str ''display_name'' @ '':'' @ dumps_str (display_name (source r)) @ ''},'' @
     dumps_str ''target_devices'' @ '':['' @ join (CHR '','') (map dumps_str (target_devices r)) @ '']}''"
proof -
  show ?thesis
    by (simp add: fingerprint_payload_def source_as_dict_def payload_key_order source_key_order comp_def
        del: sort_key_simps)
qed

lemma payload_text_inj:
  assumes "json_dumps (fingerprint_payload r) = json_dumps (fingerprint_payload r')"
  shows "dest_path r = dest_path r' \<and> mode r = mode r' \<and> source r = source r' \<and>
    target_devices r = target_devices r'"
proof -
  define T where "T x = join (CHR '','') (map dumps_str (target_devices x)) @ '']}''" for x :: canonical_request
  define N where "N x = ''},'' @ dumps_str ''target_devices'' @ '':['' @ T x" for x
  define B where "B x = dumps_str ''display_name'' @ '':'' @ dumps_str (display_name (source x)) @ N x" for x
  define F where "F x = dumps_str ''declared_total_bytes'' @ '':'' @
    show_int (declared_total_bytes (source x)) @ CHR '','' # B x" for x
  define S where "S x = '','' @ dumps_str ''source'' @ '':{'' @ dumps_str ''declared_file_count'' @ '':'' @
    show_int (declared_file_count (source x)) @ CHR '','' # F x" for x
  define M where "M x = '','' @ dumps_str ''mode'' @ '':'' @ dumps_str (push_mode_value (mode x)) @ S x" for x
  have t: "json_dumps (fingerprint_payload x) = ''{'' @ dumps_str ''dest_path'' @ '':'' @ dumps_str (dest_path x) @ M x" for x
    by (simp add: payload_text M_def S_def F_def B_def N_def T_def)
  have 1: "dest_path r = dest_path r'" "M r = M r'"
    using assms dumps_str_prefix [of "dest_path r" "M r" "dest_path r'" "M r'"] unfolding t by simp_all
  then have 2: "push_mode_value (mode r) = push_mode_value (mode r')" "S r = S r'"
    using dumps_str_prefix [of _ "S r" _ "S r'"] unfolding M_def by simp_all
  have 3: "declared_file_count (source r) = declared_file_count (source r')" "F r = F r'"
    using 2(2) show_int_prefix [of "declared_file_count (source r)" "CHR '',''" "F r"
        "declared_file_count (source r')" "F r'"] unfolding S_def by (simp_all add: is_digit_def)
  have 4: "declared_total_bytes (source r) = declared_total_bytes (source r')" "B r = B r'"
    using 3(2) show_int_prefix [of "declared_total_bytes (source r)" "CHR '',''" "B r"
        "declared_total_bytes (source r')" "B r'"] unfolding F_def by (simp_all add: is_digit_def)
  have 5: "display_name (source r) = display_name (source r')" "N r = N r'"
    using 4(2) dumps_str_prefix [of _ "N r" _ "N r'"] unfolding B_def by simp_all
  have 6: "target_devices r = target_devices r'"
    using 5(2) join_dumps_prefix [of "target_devices r" "''}''" "target_devices r'" "''}''"]
    unfolding N_def T_def by simp
  have "mode r = mode r'"
    using 2(1) by (cases "mode r"; cases "mode r'") auto
  with 1 3 4 5 6 show ?thesis by simp
qed

text \<open>
  The fingerprint identifies the request content: two requests with the same fingerprint have
  the same targets, mode, destination and source, unless SHA-256 maps two different byte strings
  (their canonical encodings) to the same digest. The canonical JSON and UTF-8 encodings
  themselves lose nothing.
\<close>

theorem request_fingerprint_faithful:
  "request_fingerprint sha256 r = request_fingerprint sha256 r' \<longleftrightarrow>
     target_devices r = target_devices r' \<and> mode r = mode r' \<and> dest_path r = dest_path r' \<and>
     source r = source r' \<or>
     (\<exists>x y. x = utf8 (json_dumps (fingerprint_payload r)) \<and> y = utf8 (json_dumps (fingerprint_payload r')) \<and>
        x \<noteq> y \<and> sha256 x = sha256 y)"
proof -
  have "fingerprint_payload r = fingerprint_payload r'"
    if "target_devices r = target_devices r' \<and> mode r = mode r' \<and> dest_path r = dest_path r' \<and> source r = source r'"
    using that by (simp add: fingerprint_payload_def)
  then show ?thesis
    unfolding request_fingerprint_def by (metis payload_text_inj utf8_inj)
qed

lemma parse_capability_items_eq:
  "parse_capability_items is parsed =
     (if list_all (\<lambda>i. case i of JStr s \<Rightarrow> s \<noteq> [] \<and> length s \<le> 128 | _ \<Rightarrow> False) is
      then set parsed \<union> {s. JStr s \<in> set is} else {})"
  by (induction "is" arbitrary: parsed) (auto split: json.splits)

text \<open>
  Capability parsing is all or nothing: the result is the set of the listed strings when the
  value is an array of at most 32 non-empty strings of at most 128 characters, and empty in every
  other case; one malformed element discards them all.
\<close>

theorem parse_capabilities_all_or_nothing:
  "parse_capabilities value =
     (case value of
        JArr items \<Rightarrow>
          if length items \<le> 32 \<and> list_all (\<lambda>i. case i of JStr s \<Rightarrow> s \<noteq> [] \<and> length s \<le> 128 | _ \<Rightarrow> False) items
          then {s. JStr s \<in> set items} else {}
      | _ \<Rightarrow> {})"
  by (auto simp: parse_capabilities_def MAX_CAPABILITIES_def parse_capability_items_eq split: json.splits)

section \<open>Lifecycle and derivation\<close>

text \<open>
  Terminal states are final: no sequence of transitions the validator accepts leaves a
  terminal job state or a terminal device state.
\<close>

theorem terminal_states_final:
  "{(j, j'). j \<in> TERMINAL_JOB_STATES \<and> (\<lambda>s t. validate_job_transition s t = Inr ())\<^sup>*\<^sup>* j j' \<and> j \<noteq> j'} = {} \<and>
   {(d, d'). d \<in> TERMINAL_DEVICE_STATES \<and> (\<lambda>s t. validate_device_transition s t = Inr ())\<^sup>*\<^sup>* d d' \<and> d \<noteq> d'} = {}"
  using job_life.terminal_steps [unfolded job_life.steps_def]
    device_life.terminal_steps [unfolded device_life.steps_def] by blast

text \<open>
  The aggregate of a job's device states is exact: every state's entry is the number of rows in
  that state, the total is the number of rows, and the per-state entries add up to the total.
\<close>

theorem aggregate_device_states_exact:
  "map_of (aggregate_device_states states) (device_state_value s) = Some (int (count_list states s)) \<and>
   map_of (aggregate_device_states states) ''total'' = Some (int (length states)) \<and>
   sum_list (map snd (butlast (aggregate_device_states states))) = int (length states)"
proof -
  have c: "sum_list (map (\<lambda>s. int (count_list states s)) DeviceState_members) = int (length states)"
  proof (induction states)
    case (Cons a states)
    then show ?case by (cases a) (simp_all add: DeviceState_members_def)
  qed (simp add: DeviceState_members_def)
  show ?thesis
    using c by (cases s) (simp_all add: aggregate_device_states_def aggregate_loop_eq DeviceState_members_def)
qed

text \<open>
  The derived state of a dispatched job: it is \<^verbatim>\<open>reconciling\<close> exactly when some device is,
  terminal exactly when every device is, \<^verbatim>\<open>succeeded\<close> exactly when every device succeeded, and
  \<^verbatim>\<open>failed\<close> exactly when every device failed or was interrupted.
\<close>

theorem derive_dispatched_job_state_meaning:
  assumes "derive_dispatched_job_state rows = Inr s"
  shows "(s = J_RECONCILING \<longleftrightarrow> D_RECONCILING \<in> set rows) \<and>
    (s \<in> TERMINAL_JOB_STATES \<longleftrightarrow> set rows \<subseteq> TERMINAL_DEVICE_STATES) \<and>
    (s = J_SUCCEEDED \<longleftrightarrow> set rows = {D_SUCCEEDED}) \<and>
    (s = J_FAILED \<longleftrightarrow> set rows \<subseteq> {D_FAILED, D_INTERRUPTED})"
proof -
  have ne: "rows \<noteq> []" using assms by (auto simp: derive_dispatched_job_state_def)
  have f: "x \<in> {D_FAILED, D_INTERRUPTED} \<longleftrightarrow>
      x \<notin> {D_RECONCILING, D_QUEUED, D_WAITING_TRANSFER, D_DISPATCHING, D_DOWNLOADING, D_VALIDATING,
            D_APPLYING, D_SUCCEEDED, D_UNCONFIRMED}" for x
    by (cases x) simp_all
  have "s = J_RECONCILING \<longleftrightarrow> D_RECONCILING \<in> set rows"
    using assms by (auto simp: derive_dispatched_job_state_def list_ex_iff split: if_splits)
  moreover have "s = J_SUCCEEDED \<longleftrightarrow> set rows = {D_SUCCEEDED}"
    using assms ne by (cases rows) (auto simp: derive_dispatched_job_state_def list_ex_iff list_all_iff split: if_splits)
  moreover have "s = J_FAILED \<longleftrightarrow> set rows \<subseteq> {D_FAILED, D_INTERRUPTED}"
    using assms ne f unfolding derive_dispatched_job_state_def subset_iff
    by (auto simp: list_ex_iff list_all_iff split: if_splits)
  ultimately show ?thesis using derive_terminal_iff [OF assms] by simp
qed

theorem derive_dispatched_job_state_meaning_witness:
  "derive_dispatched_job_state [D_SUCCEEDED, D_UNCONFIRMED] = Inr J_COMPLETED_WITH_ERRORS \<and>
   (J_COMPLETED_WITH_ERRORS \<in> TERMINAL_JOB_STATES \<longleftrightarrow> set [D_SUCCEEDED, D_UNCONFIRMED] \<subseteq> TERMINAL_DEVICE_STATES)"
proof -
  have a: "derive_dispatched_job_state [D_SUCCEEDED, D_UNCONFIRMED] = Inr J_COMPLETED_WITH_ERRORS"
    by code_simp
  from a derive_dispatched_job_state_meaning [OF a] show ?thesis by blast
qed

end
