(* ===== verification/Push_Schema.thy ===== *)
theory Push_Schema
  imports Push_Jobs
begin

text \<open>
  The SQLite database of \<^verbatim>\<open>push_job_store.py\<close>: its tables as lists of rows, the schema's
  constraints as \<open>IntegrityError\<close>s, the transaction discipline and the shared statements
  (\<^verbatim>\<open>_next_enqueue_seq\<close>, \<^verbatim>\<open>_increment_revision\<close>, \<^verbatim>\<open>_fence_visible_job_ids\<close>,
  \<^verbatim>\<open>_rederive_job\<close>, \<^verbatim>\<open>_snapshot\<close>). All database access of the server runs on one worker
  thread, so an operation is a function from database to database; the clock value it reads is
  its argument.
\<close>

section \<open>Tables\<close>

type_synonym job_id = string
type_synonym device_id = string

record artifact_row =
  a_artifact_id :: string
  a_storage_name :: string
  a_display_filename :: string
  a_byte_size :: int
  a_sha256 :: string
  a_entry_count :: int
  a_created_at :: int
  a_retention_state :: string

record job_row =
  j_job_id :: job_id
  j_client_request_id :: string
  j_request_fingerprint :: string
  j_revision :: int
  j_state :: job_state
  j_mode :: push_mode
  j_dest_path :: string
  j_source_label :: string
  j_declared_file_count :: int
  j_declared_total_bytes :: int
  j_actual_file_count :: "int option"
  j_actual_total_bytes :: "int option"
  j_artifact_id :: "string option"
  j_dispatch_enabled :: bool
  j_dispatch_paused_reason :: "string option"
  j_created_at :: int
  j_create_expires_at :: int
  j_upload_started_at :: "int option"
  j_packaging_started_at :: "int option"
  j_ready_at :: "int option"
  j_dispatch_started_at :: "int option"
  j_updated_at :: int
  j_terminal_at :: "int option"
  j_failure_code :: "string option"
  j_failure_detail :: "string option"

text \<open>The two capability columns hold the decoded JSON array.\<close>

record device_row =
  d_job_id :: job_id
  d_device_id :: device_id
  d_enqueue_seq :: int
  d_target_ordinal :: int
  d_protocol_mode :: protocol_mode
  d_create_capabilities :: "string list"
  d_dispatch_capabilities :: "string list option"
  d_state :: device_state
  d_queue_reason :: "string option"
  d_attempt :: int
  d_accept_replay_count :: int
  d_validated_offset :: int
  d_accept_deadline :: "int option"
  d_accepted_at :: "int option"
  d_transfer_completed_at :: "int option"
  d_validation_started_at :: "int option"
  d_validation_completed_at :: "int option"
  d_apply_started_at :: "int option"
  d_updated_at :: int
  d_terminal_at :: "int option"
  d_failure_code :: "string option"
  d_failure_detail :: "string option"
  d_added :: "int option"
  d_updated :: "int option"
  d_deleted :: "int option"
  d_reconciliation_reason :: "string option"
  d_reconciliation_deadline :: "int option"

record fence_row =
  f_device_id :: device_id
  f_blocking_job_id :: "job_id option"
  f_blocking_opaque_identity :: "string option"
  f_blocking_attempt :: "int option"
  f_protocol_mode :: protocol_mode
  f_blocking_process_instance_id :: "string option"
  f_reason :: string
  f_created_at :: int
  f_updated_at :: int

record db =
  db_schema_version :: "int option"
  db_next_enqueue_seq :: "int option"
  db_artifacts :: "artifact_row list"
  db_jobs :: "job_row list"
  db_devices :: "device_row list"
  db_fences :: "fence_row list"

definition SCHEMA_VERSION :: int where
  "SCHEMA_VERSION = 1"

text \<open>A fresh database file, and \<^verbatim>\<open>_initialize\<close>: create tables and metadata where missing.\<close>

definition empty_db :: db where
  "empty_db = \<lparr>db_schema_version = None, db_next_enqueue_seq = None, db_artifacts = [], db_jobs = [],
     db_devices = [], db_fences = []\<rparr>"

definition initialize :: "db \<Rightarrow> db" where
  "initialize s =
     s\<lparr>db_schema_version := (case db_schema_version s of None \<Rightarrow> Some 1 | Some v \<Rightarrow> Some v),
       db_next_enqueue_seq := (case db_next_enqueue_seq s of None \<Rightarrow> Some 1 | Some v \<Rightarrow> Some v)\<rparr>"

section \<open>Row access and constraints\<close>

abbreviation d_key :: "device_row \<Rightarrow> job_id \<times> device_id" where
  "d_key r \<equiv> (d_job_id r, d_device_id r)"

definition get_job :: "db \<Rightarrow> job_id \<Rightarrow> job_row option" where
  "get_job s j = lookup_row j_job_id j (db_jobs s)"

definition get_device :: "db \<Rightarrow> job_id \<Rightarrow> device_id \<Rightarrow> device_row option" where
  "get_device s j d = lookup_row d_key (j, d) (db_devices s)"

definition get_fence :: "db \<Rightarrow> device_id \<Rightarrow> fence_row option" where
  "get_fence s d = lookup_row f_device_id d (db_fences s)"

definition get_artifact :: "db \<Rightarrow> string \<Rightarrow> artifact_row option" where
  "get_artifact s a = lookup_row a_artifact_id a (db_artifacts s)"

definition is_active :: "device_row \<Rightarrow> bool" where
  "is_active r = (d_state r \<in> ACTIVE_DEVICE_STATES)"

text \<open>The partial unique index \<^verbatim>\<open>ux_push_job_device_active\<close>.\<close>

definition active_index_ok :: "device_row list \<Rightarrow> bool" where
  "active_index_ok rows = distinct (map d_device_id (filter is_active rows))"

definition update_job :: "job_id \<Rightarrow> (job_row \<Rightarrow> job_row) \<Rightarrow> db \<Rightarrow> db" where
  "update_job j f s = s\<lparr>db_jobs := update_rows (\<lambda>r. j_job_id r = j) f (db_jobs s)\<rparr>"

definition update_devices_where ::
  "(device_row \<Rightarrow> bool) \<Rightarrow> (device_row \<Rightarrow> device_row) \<Rightarrow> db \<Rightarrow> mdm_error + db" where
  "update_devices_where p f s =
     (let rows = update_rows p f (db_devices s)
      in if active_index_ok rows then Inr (s\<lparr>db_devices := rows\<rparr>)
         else Inl (IntegrityError ''UNIQUE constraint failed: push_job_devices.device_id''))"

definition update_device ::
  "job_id \<Rightarrow> device_id \<Rightarrow> (device_row \<Rightarrow> device_row) \<Rightarrow> db \<Rightarrow> mdm_error + db" where
  "update_device j d f s = update_devices_where (\<lambda>r. d_key r = (j, d)) f s"

definition delete_fence :: "device_id \<Rightarrow> db \<Rightarrow> db" where
  "delete_fence d s = s\<lparr>db_fences := delete_rows (\<lambda>r. f_device_id r = d) (db_fences s)\<rparr>"

text \<open>
  \<^verbatim>\<open>INSERT INTO push_device_fences ... ON CONFLICT(device_id) DO UPDATE\<close>: every column but
  \<^verbatim>\<open>device_id\<close> and \<^verbatim>\<open>created_at\<close> is overwritten. The table's CHECK and its foreign key refuse
  a fence that names both kinds of blocker, none, or a job that does not exist.
\<close>

definition upsert_fence :: "fence_row \<Rightarrow> db \<Rightarrow> mdm_error + db" where
  "upsert_fence f s =
     (if (f_blocking_job_id f = None) = (f_blocking_opaque_identity f = None)
      then Inl (IntegrityError ''CHECK constraint failed: push_device_fences'')
      else if \<not> (case f_blocking_job_id f of None \<Rightarrow> True | Some j \<Rightarrow> get_job s j \<noteq> None)
      then Inl (IntegrityError ''FOREIGN KEY constraint failed'')
      else Inr (case get_fence s (f_device_id f) of
          None \<Rightarrow> s\<lparr>db_fences := db_fences s @ [f]\<rparr>
        | Some old \<Rightarrow>
            s\<lparr>db_fences := update_rows (\<lambda>r. f_device_id r = f_device_id f)
                (\<lambda>_. f\<lparr>f_created_at := f_created_at old\<rparr>) (db_fences s)\<rparr>))"

definition insert_job :: "job_row \<Rightarrow> db \<Rightarrow> mdm_error + db" where
  "insert_job r s =
     (if j_job_id r \<in> j_job_id ` set (db_jobs s) \<or> j_client_request_id r \<in> j_client_request_id ` set (db_jobs s)
      then Inl (IntegrityError ''UNIQUE constraint failed: push_jobs'')
      else Inr (s\<lparr>db_jobs := db_jobs s @ [r]\<rparr>))"

definition insert_device :: "device_row \<Rightarrow> db \<Rightarrow> mdm_error + db" where
  "insert_device r s =
     (if d_key r \<in> d_key ` set (db_devices s) \<or> d_enqueue_seq r \<in> d_enqueue_seq ` set (db_devices s)
      then Inl (IntegrityError ''UNIQUE constraint failed: push_job_devices'')
      else if get_job s (d_job_id r) = None then Inl (IntegrityError ''FOREIGN KEY constraint failed'')
      else if \<not> active_index_ok (db_devices s @ [r])
      then Inl (IntegrityError ''UNIQUE constraint failed: push_job_devices.device_id'')
      else Inr (s\<lparr>db_devices := db_devices s @ [r]\<rparr>))"

definition insert_artifact :: "artifact_row \<Rightarrow> db \<Rightarrow> mdm_error + db" where
  "insert_artifact r s =
     (if a_artifact_id r \<in> a_artifact_id ` set (db_artifacts s) \<or>
         a_storage_name r \<in> a_storage_name ` set (db_artifacts s)
      then Inl (IntegrityError ''UNIQUE constraint failed: push_artifacts'')
      else Inr (s\<lparr>db_artifacts := db_artifacts s @ [r]\<rparr>))"

text \<open>
  \<^verbatim>\<open>_begin\<close>, a body, \<^verbatim>\<open>_commit\<close>; on any exception \<^verbatim>\<open>_rollback\<close> and re-raise.
\<close>

definition transact :: "(db \<Rightarrow> mdm_error + 'a \<times> db) \<Rightarrow> db \<Rightarrow> (mdm_error + 'a) \<times> db" where
  "transact body s = (case body s of Inl e \<Rightarrow> (Inl e, s) | Inr (a, s') \<Rightarrow> (Inr a, s'))"

section \<open>Shared statements\<close>

definition next_enqueue_seq :: "db \<Rightarrow> int \<Rightarrow> int \<times> db" where
  "next_enqueue_seq s n =
     (let start = (case db_next_enqueue_seq s of None \<Rightarrow> 1 | Some v \<Rightarrow> v)
      in (start, s\<lparr>db_next_enqueue_seq := Some (start + n)\<rparr>))"

definition increment_revision :: "job_id \<Rightarrow> int \<Rightarrow> db \<Rightarrow> db" where
  "increment_revision j timestamp s =
     update_job j (\<lambda>r. r\<lparr>j_revision := j_revision r + 1, j_updated_at := timestamp\<rparr>) s"

definition NON_TERMINAL_JOB_VALUES :: "job_state set" where
  "NON_TERMINAL_JOB_VALUES = {J_CREATED, J_UPLOADING, J_PACKAGING, J_READY, J_RUNNING, J_RECONCILING}"

definition device_rows_of :: "db \<Rightarrow> device_id \<Rightarrow> device_row list" where
  "device_rows_of s d = filter (\<lambda>r. d_device_id r = d) (db_devices s)"

definition job_devices :: "db \<Rightarrow> job_id \<Rightarrow> device_row list" where
  "job_devices s j = filter (\<lambda>r. d_job_id r = j) (db_devices s)"

definition fence_visible_job_ids :: "db \<Rightarrow> device_id \<Rightarrow> job_id list" where
  "fence_visible_job_ids s d =
     sort (remdups (map j_job_id (filter (\<lambda>j. j_state j \<in> NON_TERMINAL_JOB_VALUES \<and>
        list_ex (\<lambda>r. d_job_id r = j_job_id j) (device_rows_of s d)) (db_jobs s))))"

definition rederive_job :: "job_id \<Rightarrow> int \<Rightarrow> db \<Rightarrow> mdm_error + db" where
  "rederive_job j timestamp s =
     (case get_job s j of
        None \<Rightarrow> Inl (StoreNotFound j)
      | Some job \<Rightarrow>
          if j_state job \<in> {J_CREATED, J_UPLOADING, J_PACKAGING, J_READY, J_INTERRUPTED, J_FAILED}
          then Inr s
          else rbind (derive_dispatched_job_state (map d_state (job_devices s j))) (\<lambda>derived.
            if derived = j_state job then Inr s
            else Inr (update_job j (\<lambda>r. r\<lparr>j_state := derived,
                j_terminal_at := (if is_terminal_job_state derived then Some timestamp else None),
                j_updated_at := timestamp\<rparr>) s)))"

section \<open>Snapshots\<close>

record fence_view =
  fv_blocking_job_id :: "job_id option"
  fv_blocking_opaque_identity :: "string option"
  fv_blocking_attempt :: "int option"
  fv_protocol_mode :: protocol_mode
  fv_reason :: string
  fv_created_at :: int
  fv_updated_at :: int

record device_view =
  dv_state :: device_state
  dv_queue_reason :: "string option"
  dv_protocol_mode :: protocol_mode
  dv_attempt :: int
  dv_enqueue_seq :: int
  dv_validated_offset :: int
  dv_accepted_at :: "int option"
  dv_failure :: "(string option \<times> string option) option"
  dv_result :: "(int option \<times> int option \<times> int option) option"
  dv_reconciliation_reason :: "string option"
  dv_reconciliation_deadline :: "int option"
  dv_device_fence :: "fence_view option"

record artifact_view =
  av_artifact_id :: string
  av_url :: string
  av_display_filename :: "string option"
  av_byte_size :: "int option"
  av_sha256 :: "string option"
  av_entry_count :: "int option"
  av_created_at :: "int option"

record snapshot =
  s_job_id :: job_id
  s_client_request_id :: string
  s_revision :: int
  s_state :: job_state
  s_dispatch_enabled :: bool
  s_dispatch_paused_reason :: "string option"
  s_mode :: push_mode
  s_dest_path :: string
  s_source_label :: string
  s_declared_file_count :: int
  s_declared_total_bytes :: int
  s_actual_file_count :: "int option"
  s_actual_total_bytes :: "int option"
  s_created_at :: int
  s_create_expires_at :: int
  s_updated_at :: int
  s_terminal_at :: "int option"
  s_failure :: "(string option \<times> string option) option"
  s_artifact :: "artifact_view option"
  s_aggregate :: "(string \<times> int) list"
  s_devices :: "(device_id \<times> device_view) list"

text \<open>Truthiness of a nullable text column.\<close>

definition truthy :: "string option \<Rightarrow> bool" where
  "truthy v = (case v of None \<Rightarrow> False | Some t \<Rightarrow> t \<noteq> [])"

definition failure_payload :: "string option \<Rightarrow> string option \<Rightarrow> (string option \<times> string option) option" where
  "failure_payload code detail = (if truthy code \<or> truthy detail then Some (code, detail) else None)"

text \<open>
  The job that last enqueued work for a device, where an opaque fence is displayed:
  \<^verbatim>\<open>ORDER BY d.enqueue_seq DESC LIMIT 1\<close>.
\<close>

definition latest_job_id :: "db \<Rightarrow> device_id \<Rightarrow> job_id option" where
  "latest_job_id s d =
     map_option d_job_id (first_row (order_by (\<lambda>r. - d_enqueue_seq r)
       (filter (\<lambda>r. get_job s (d_job_id r) \<noteq> None) (device_rows_of s d))))"

definition visible_fence :: "db \<Rightarrow> job_id \<Rightarrow> device_id \<Rightarrow> fence_view option" where
  "visible_fence s j d =
     (case get_fence s d of
        None \<Rightarrow> None
      | Some f \<Rightarrow>
          if f_blocking_job_id f = Some j \<or> f_blocking_job_id f = None \<and> latest_job_id s d = Some j
          then Some \<lparr>fv_blocking_job_id = f_blocking_job_id f,
                 fv_blocking_opaque_identity = f_blocking_opaque_identity f,
                 fv_blocking_attempt = f_blocking_attempt f, fv_protocol_mode = f_protocol_mode f,
                 fv_reason = f_reason f, fv_created_at = f_created_at f, fv_updated_at = f_updated_at f\<rparr>
          else None)"

definition device_payload :: "db \<Rightarrow> job_id \<Rightarrow> device_row \<Rightarrow> device_view" where
  "device_payload s j r =
     \<lparr>dv_state = d_state r, dv_queue_reason = d_queue_reason r, dv_protocol_mode = d_protocol_mode r,
      dv_attempt = d_attempt r, dv_enqueue_seq = d_enqueue_seq r, dv_validated_offset = d_validated_offset r,
      dv_accepted_at = d_accepted_at r, dv_failure = failure_payload (d_failure_code r) (d_failure_detail r),
      dv_result = (if d_terminal_at r \<noteq> None then Some (d_added r, d_updated r, d_deleted r) else None),
      dv_reconciliation_reason = d_reconciliation_reason r,
      dv_reconciliation_deadline = d_reconciliation_deadline r,
      dv_device_fence = visible_fence s j (d_device_id r)\<rparr>"

definition artifact_payload :: "db \<Rightarrow> job_row \<Rightarrow> artifact_view option" where
  "artifact_payload s job =
     (case j_artifact_id job of
        None \<Rightarrow> None
      | Some a \<Rightarrow>
          if a = [] then None
          else (let row = get_artifact s a in
            Some \<lparr>av_artifact_id = a, av_url = ''/artifacts/'' @ a,
              av_display_filename = map_option a_display_filename row,
              av_byte_size = map_option a_byte_size row, av_sha256 = map_option a_sha256 row,
              av_entry_count = map_option a_entry_count row, av_created_at = map_option a_created_at row\<rparr>))"

definition snapshot_of :: "db \<Rightarrow> job_id \<Rightarrow> mdm_error + snapshot" where
  "snapshot_of s j =
     (case get_job s j of
        None \<Rightarrow> Inl (StoreNotFound j)
      | Some job \<Rightarrow>
          let rows = order_by d_target_ordinal (job_devices s j) in
          Inr \<lparr>s_job_id = j_job_id job, s_client_request_id = j_client_request_id job,
            s_revision = j_revision job, s_state = j_state job, s_dispatch_enabled = j_dispatch_enabled job,
            s_dispatch_paused_reason = j_dispatch_paused_reason job, s_mode = j_mode job,
            s_dest_path = j_dest_path job, s_source_label = j_source_label job,
            s_declared_file_count = j_declared_file_count job,
            s_declared_total_bytes = j_declared_total_bytes job,
            s_actual_file_count = j_actual_file_count job, s_actual_total_bytes = j_actual_total_bytes job,
            s_created_at = j_created_at job, s_create_expires_at = j_create_expires_at job,
            s_updated_at = j_updated_at job, s_terminal_at = j_terminal_at job,
            s_failure = failure_payload (j_failure_code job) (j_failure_detail job),
            s_artifact = artifact_payload s job,
            s_aggregate = aggregate_device_states (map d_state rows),
            s_devices = map (\<lambda>r. (d_device_id r, device_payload s j r)) rows\<rparr>)"

text \<open>Every mutation of one assignment ends with the same three statements.\<close>

definition finish_device_change :: "job_id \<Rightarrow> int \<Rightarrow> db \<Rightarrow> mdm_error + snapshot \<times> db" where
  "finish_device_change j timestamp s =
     rbind (rederive_job j timestamp (increment_revision j timestamp s)) (\<lambda>s'.
     rbind (snapshot_of s' j) (\<lambda>snap. Inr (snap, s')))"

end
