(* ===== verification/Push_Store.thy ===== *)
theory Push_Store
  imports Push_Schema
begin

text \<open>
  The operations of \<^verbatim>\<open>PushJobStore\<close>, one definition per method. Each returns its result (or the
  exception it raises) with the database it leaves behind; \<open>now\<close> is the value of
  \<^verbatim>\<open>now_ms()\<close> inside the transaction.
\<close>

section \<open>Creation and upload\<close>

definition new_job_row :: "canonical_request \<Rightarrow> job_id \<Rightarrow> int \<Rightarrow> int \<Rightarrow> job_row" where
  "new_job_row req j now expires =
     \<lparr>j_job_id = j, j_client_request_id = client_request_id req,
      j_request_fingerprint = fingerprint req, j_revision = 1, j_state = J_CREATED, j_mode = mode req,
      j_dest_path = dest_path req, j_source_label = display_name (source req),
      j_declared_file_count = declared_file_count (source req),
      j_declared_total_bytes = declared_total_bytes (source req),
      j_actual_file_count = None, j_actual_total_bytes = None, j_artifact_id = None,
      j_dispatch_enabled = False, j_dispatch_paused_reason = None, j_created_at = now,
      j_create_expires_at = expires, j_upload_started_at = None, j_packaging_started_at = None,
      j_ready_at = None, j_dispatch_started_at = None, j_updated_at = now, j_terminal_at = None,
      j_failure_code = None, j_failure_detail = None\<rparr>"

definition new_device_row ::
  "job_id \<Rightarrow> device_id \<Rightarrow> int \<Rightarrow> int \<Rightarrow> protocol_mode \<Rightarrow> string list \<Rightarrow> int \<Rightarrow> device_row" where
  "new_device_row j d seq ordinal protocol capabilities now =
     \<lparr>d_job_id = j, d_device_id = d, d_enqueue_seq = seq, d_target_ordinal = ordinal,
      d_protocol_mode = protocol, d_create_capabilities = sort (remdups capabilities),
      d_dispatch_capabilities = None, d_state = D_QUEUED, d_queue_reason = Some ''awaiting_dispatch'',
      d_attempt = 1, d_accept_replay_count = 0, d_validated_offset = 0, d_accept_deadline = None,
      d_accepted_at = None, d_transfer_completed_at = None, d_validation_started_at = None,
      d_validation_completed_at = None, d_apply_started_at = None, d_updated_at = now,
      d_terminal_at = None, d_failure_code = None, d_failure_detail = None, d_added = None,
      d_updated = None, d_deleted = None, d_reconciliation_reason = None,
      d_reconciliation_deadline = None\<rparr>"

fun insert_targets ::
  "job_id \<Rightarrow> (device_id \<rightharpoonup> protocol_mode \<times> string list) \<Rightarrow> int \<Rightarrow> int \<Rightarrow> int \<Rightarrow> device_id list \<Rightarrow> db \<Rightarrow> mdm_error + db" where
  "insert_targets j protocols now seq ordinal [] s = Inr s"
| "insert_targets j protocols now seq ordinal (d # ds) s =
     (case protocols d of
        None \<Rightarrow> Inl (KeyError d)
      | Some (protocol, capabilities) \<Rightarrow>
          rbind (insert_device (new_device_row j d seq ordinal protocol capabilities now) s)
            (insert_targets j protocols now (seq + 1) (ordinal + 1) ds))"

text \<open>\<open>new_id\<close> is the fresh \<^verbatim>\<open>str(uuid.uuid4())\<close>; the flag says whether a job was created.\<close>

definition create_job ::
  "canonical_request \<Rightarrow> (device_id \<rightharpoonup> protocol_mode \<times> string list) \<Rightarrow> int \<Rightarrow> job_id \<Rightarrow> int \<Rightarrow> db \<Rightarrow>
   (mdm_error + bool \<times> snapshot) \<times> db" where
  "create_job req protocols create_timeout_ms new_id now = transact (\<lambda>s.
     case lookup_row j_client_request_id (client_request_id req) (db_jobs s) of
       Some existing \<Rightarrow>
         if j_request_fingerprint existing \<noteq> fingerprint req
         then Inl (StoreConflict ''client_request_id was already used for a different request'')
         else rbind (snapshot_of s (j_job_id existing)) (\<lambda>snap. Inr ((False, snap), s))
     | None \<Rightarrow>
         rbind (insert_job (new_job_row req new_id now (now + create_timeout_ms)) s) (\<lambda>s1.
         let (start_seq, s2) = next_enqueue_seq s1 (int (length (target_devices req))) in
         rbind (insert_targets new_id protocols now start_seq 0 (target_devices req) s2) (\<lambda>s3.
         rbind (snapshot_of s3 new_id) (\<lambda>snap. Inr ((True, snap), s3)))))"

definition interrupt_expired :: "int \<Rightarrow> job_row \<Rightarrow> job_row" where
  "interrupt_expired now r = r\<lparr>j_state := J_INTERRUPTED, j_revision := j_revision r + 1,
     j_updated_at := now, j_terminal_at := Some now,
     j_failure_code := Some ''upload_not_started_timeout'',
     j_failure_detail := Some ''upload did not start before create_expires_at''\<rparr>"

text \<open>
  \<^verbatim>\<open>start_upload\<close> is the one operation that commits and then raises: past the deadline it
  interrupts the job, commits, and raises \<^verbatim>\<open>UploadDeadlineExpired\<close> with the snapshot.
\<close>

datatype upload_outcome = Upload_started snapshot | UploadDeadlineExpired snapshot | Upload_refused mdm_error

definition start_upload :: "job_id \<Rightarrow> int \<Rightarrow> db \<Rightarrow> upload_outcome \<times> db" where
  "start_upload j now s =
     (case get_job s j of
        None \<Rightarrow> (Upload_refused (StoreNotFound j), s)
      | Some row \<Rightarrow>
          if j_state row \<noteq> J_CREATED
          then (Upload_refused (StoreConflict (''job is '' @ job_state_value (j_state row) @ '', not created'')), s)
          else if j_create_expires_at row \<le> now then
            let s' = update_job j (interrupt_expired now) s in
            (case snapshot_of s' j of
               Inl e \<Rightarrow> (Upload_refused e, s)
             | Inr snap \<Rightarrow> (UploadDeadlineExpired snap, s'))
          else
            let s' = update_job j (\<lambda>r. r\<lparr>j_state := J_UPLOADING, j_revision := j_revision r + 1,
                       j_upload_started_at := Some now, j_updated_at := now\<rparr>) s in
            (case snapshot_of s' j of
               Inl e \<Rightarrow> (Upload_refused e, s)
             | Inr snap \<Rightarrow> (Upload_started snap, s')))"

definition simple_job_transition ::
  "job_id \<Rightarrow> job_state \<Rightarrow> job_state \<Rightarrow> (job_row \<Rightarrow> job_row) \<Rightarrow> int \<Rightarrow> db \<Rightarrow> (mdm_error + snapshot) \<times> db" where
  "simple_job_transition j expected target extra now = transact (\<lambda>s.
     case get_job s j of
       None \<Rightarrow> Inl (StoreNotFound j)
     | Some row \<Rightarrow>
         if j_state row \<noteq> expected
         then Inl (StoreConflict (''job is '' @ job_state_value (j_state row) @ '', expected '' @ job_state_value expected))
         else rbind (validate_job_transition (j_state row) target) (\<lambda>_.
           let s' = update_job j (\<lambda>r. extra (r\<lparr>j_state := target, j_revision := j_revision r + 1,
                      j_updated_at := now\<rparr>)) s in
           rbind (snapshot_of s' j) (\<lambda>snap. Inr (snap, s'))))"

text \<open>\<open>now0\<close> is the clock read while the arguments are built, before the transaction.\<close>

definition mark_packaging ::
  "job_id \<Rightarrow> int \<Rightarrow> int \<Rightarrow> int \<Rightarrow> int \<Rightarrow> db \<Rightarrow> (mdm_error + snapshot) \<times> db" where
  "mark_packaging j file_count total_bytes now0 now =
     simple_job_transition j J_UPLOADING J_PACKAGING
       (\<lambda>r. r\<lparr>j_actual_file_count := Some file_count, j_actual_total_bytes := Some total_bytes,
              j_packaging_started_at := Some now0\<rparr>) now"

record published_artifact =
  p_artifact_id :: string
  p_storage_name :: string
  p_display_filename :: string
  p_byte_size :: int
  p_sha256 :: string
  p_entry_count :: int

definition publish_artifact :: "job_id \<Rightarrow> published_artifact \<Rightarrow> int \<Rightarrow> db \<Rightarrow> (mdm_error + snapshot) \<times> db" where
  "publish_artifact j a now = transact (\<lambda>s.
     case get_job s j of
       None \<Rightarrow> Inl (StoreNotFound j)
     | Some row \<Rightarrow>
         if j_state row \<noteq> J_PACKAGING
         then Inl (StoreConflict (''job is '' @ job_state_value (j_state row) @ '', not packaging''))
         else
           rbind (insert_artifact \<lparr>a_artifact_id = p_artifact_id a, a_storage_name = p_storage_name a,
               a_display_filename = p_display_filename a, a_byte_size = p_byte_size a,
               a_sha256 = p_sha256 a, a_entry_count = p_entry_count a, a_created_at = now,
               a_retention_state = ''retained''\<rparr> s) (\<lambda>s1.
           let s2 = update_job j (\<lambda>r. r\<lparr>j_state := J_READY, j_artifact_id := Some (p_artifact_id a),
                      j_ready_at := Some now, j_revision := j_revision r + 1, j_updated_at := now\<rparr>) s1 in
           rbind (snapshot_of s2 j) (\<lambda>snap. Inr (snap, s2))))"

definition fail_pre_dispatch ::
  "job_id \<Rightarrow> job_state \<Rightarrow> string \<Rightarrow> string \<Rightarrow> int \<Rightarrow> db \<Rightarrow> (mdm_error + snapshot) \<times> db" where
  "fail_pre_dispatch j target code detail now s =
     (if target \<notin> {J_FAILED, J_INTERRUPTED}
      then (Inl (ValueError ''pre-dispatch failure must be failed or interrupted''), s)
      else transact (\<lambda>s.
        case get_job s j of
          None \<Rightarrow> Inl (StoreNotFound j)
        | Some row \<Rightarrow>
            rbind (validate_job_transition (j_state row) target) (\<lambda>_.
              let s' = update_job j (\<lambda>r. r\<lparr>j_state := target, j_revision := j_revision r + 1,
                         j_updated_at := now, j_terminal_at := Some now, j_failure_code := Some code,
                         j_failure_detail := Some detail\<rparr>) s in
              rbind (snapshot_of s' j) (\<lambda>snap. Inr (snap, s')))) s)"

definition enable_dispatch :: "job_id \<Rightarrow> int \<Rightarrow> db \<Rightarrow> (mdm_error + bool \<times> snapshot) \<times> db" where
  "enable_dispatch j now = transact (\<lambda>s.
     case get_job s j of
       None \<Rightarrow> Inl (StoreNotFound j)
     | Some row \<Rightarrow>
         let state = j_state row in
         if state \<in> {J_READY, J_RUNNING, J_RECONCILING} then
           (if j_dispatch_enabled row
            then rbind (snapshot_of s j) (\<lambda>snap. Inr ((False, snap), s))
            else
              let s' = update_job j (\<lambda>r. r\<lparr>j_state := (if state = J_READY then J_RUNNING else state),
                         j_dispatch_enabled := True, j_dispatch_paused_reason := None,
                         j_dispatch_started_at := (case j_dispatch_started_at r of None \<Rightarrow> Some now | Some t \<Rightarrow> Some t),
                         j_revision := j_revision r + 1, j_updated_at := now\<rparr>) s in
              rbind (snapshot_of s' j) (\<lambda>snap. Inr ((True, snap), s')))
         else if is_terminal_job_state state
         then rbind (snapshot_of s j) (\<lambda>snap. Inr ((False, snap), s))
         else Inl (StoreConflict (''job cannot be dispatched from state '' @ job_state_value state)))"

section \<open>Device transitions\<close>

text \<open>
  The column assignments a caller may pass in \<^verbatim>\<open>fields\<close>; \<open>F_other\<close> stands for a column outside
  \<^verbatim>\<open>allowed_columns\<close>, which the method refuses.
\<close>

datatype device_field =
    F_queue_reason "string option"
  | F_accept_replay_count int
  | F_validated_offset int
  | F_accept_deadline "int option"
  | F_accepted_at "int option"
  | F_transfer_completed_at "int option"
  | F_validation_started_at "int option"
  | F_validation_completed_at "int option"
  | F_apply_started_at "int option"
  | F_terminal_at "int option"
  | F_failure_code "string option"
  | F_failure_detail "string option"
  | F_added "int option"
  | F_updated "int option"
  | F_deleted "int option"
  | F_reconciliation_reason "string option"
  | F_reconciliation_deadline "int option"
  | F_dispatch_capabilities "string list"
  | F_other string

fun apply_field :: "device_field \<Rightarrow> device_row \<Rightarrow> device_row" where
  "apply_field (F_queue_reason v) r = r\<lparr>d_queue_reason := v\<rparr>"
| "apply_field (F_accept_replay_count v) r = r\<lparr>d_accept_replay_count := v\<rparr>"
| "apply_field (F_validated_offset v) r = r\<lparr>d_validated_offset := v\<rparr>"
| "apply_field (F_accept_deadline v) r = r\<lparr>d_accept_deadline := v\<rparr>"
| "apply_field (F_accepted_at v) r = r\<lparr>d_accepted_at := v\<rparr>"
| "apply_field (F_transfer_completed_at v) r = r\<lparr>d_transfer_completed_at := v\<rparr>"
| "apply_field (F_validation_started_at v) r = r\<lparr>d_validation_started_at := v\<rparr>"
| "apply_field (F_validation_completed_at v) r = r\<lparr>d_validation_completed_at := v\<rparr>"
| "apply_field (F_apply_started_at v) r = r\<lparr>d_apply_started_at := v\<rparr>"
| "apply_field (F_terminal_at v) r = r\<lparr>d_terminal_at := v\<rparr>"
| "apply_field (F_failure_code v) r = r\<lparr>d_failure_code := v\<rparr>"
| "apply_field (F_failure_detail v) r = r\<lparr>d_failure_detail := v\<rparr>"
| "apply_field (F_added v) r = r\<lparr>d_added := v\<rparr>"
| "apply_field (F_updated v) r = r\<lparr>d_updated := v\<rparr>"
| "apply_field (F_deleted v) r = r\<lparr>d_deleted := v\<rparr>"
| "apply_field (F_reconciliation_reason v) r = r\<lparr>d_reconciliation_reason := v\<rparr>"
| "apply_field (F_reconciliation_deadline v) r = r\<lparr>d_reconciliation_deadline := v\<rparr>"
| "apply_field (F_dispatch_capabilities v) r = r\<lparr>d_dispatch_capabilities := Some v\<rparr>"
| "apply_field (F_other c) r = r"

fun is_other :: "device_field \<Rightarrow> bool" where
  "is_other (F_other c) = True"
| "is_other _ = False"

fun is_terminal_at :: "device_field \<Rightarrow> bool" where
  "is_terminal_at (F_terminal_at v) = True"
| "is_terminal_at _ = False"

definition stamp_terminal :: "device_state \<Rightarrow> int \<Rightarrow> device_field list \<Rightarrow> device_field list" where
  "stamp_terminal target now flds =
     (if target \<in> TERMINAL_DEVICE_STATES \<and> \<not> list_ex is_terminal_at flds
      then flds @ [F_terminal_at (Some now)] else flds)"

text \<open>
  \<open>expected = None\<close> is the method's \<^verbatim>\<open>expected=None\<close>: any current state. The conflict message's
  list of expected states, which follows the iteration order of a set, is left out.
\<close>

definition transition_device ::
  "job_id \<Rightarrow> device_id \<Rightarrow> device_state set option \<Rightarrow> device_state \<Rightarrow> device_field list \<Rightarrow> bool \<Rightarrow> int \<Rightarrow> db \<Rightarrow>
   (mdm_error + snapshot) \<times> db" where
  "transition_device j d expected target flds allow_terminal_idempotent now s =
     (if list_ex is_other flds then (Inl (ValueError ''unsupported device fields''), s)
      else transact (\<lambda>s.
        case get_device s j d of
          None \<Rightarrow> Inl (StoreNotFound (j @ ''/'' @ d))
        | Some row \<Rightarrow>
            if d_state row = target \<and> allow_terminal_idempotent
            then rbind (snapshot_of s j) (\<lambda>snap. Inr (snap, s))
            else if (case expected of None \<Rightarrow> False | Some E \<Rightarrow> d_state row \<notin> E)
            then Inl (StoreConflict (''device assignment is '' @ device_state_value (d_state row)))
            else rbind (validate_device_transition (d_state row) target) (\<lambda>_.
              rbind (update_device j d (\<lambda>r. fold apply_field (stamp_terminal target now flds)
                       (r\<lparr>d_state := target, d_updated_at := now\<rparr>)) s)
                (finish_device_change j now))) s)"

definition mark_dispatching ::
  "job_id \<Rightarrow> device_id \<Rightarrow> string list \<Rightarrow> int \<Rightarrow> int \<Rightarrow> db \<Rightarrow> (mdm_error + snapshot) \<times> db" where
  "mark_dispatching j d capabilities accept_deadline =
     transition_device j d (Some {D_WAITING_TRANSFER}) D_DISPATCHING
       [F_dispatch_capabilities (sort (remdups capabilities)), F_accept_deadline (Some accept_deadline),
        F_reconciliation_reason None, F_reconciliation_deadline None] False"

definition mark_reconciling ::
  "job_id \<Rightarrow> device_id \<Rightarrow> device_state set \<Rightarrow> string \<Rightarrow> int \<Rightarrow> int \<Rightarrow> db \<Rightarrow> (mdm_error + snapshot) \<times> db" where
  "mark_reconciling j d expected reason deadline =
     transition_device j d (Some expected) D_RECONCILING
       [F_reconciliation_reason (Some reason), F_reconciliation_deadline (Some deadline),
        F_accept_deadline None] False"

section \<open>Terminal results\<close>

record terminal_result =
  t_success :: bool
  t_added :: int
  t_updated :: int
  t_deleted :: int
  t_failure_code :: "string option"
  t_failure_detail :: "string option"

definition result_target :: "terminal_result \<Rightarrow> device_state" where
  "result_target t = (if t_success t then D_SUCCEEDED else D_FAILED)"

definition same_terminal_result :: "device_row \<Rightarrow> terminal_result \<Rightarrow> bool" where
  "same_terminal_result row t =
     (d_state row = result_target t \<and>
      (d_failure_code row, d_failure_detail row, d_added row, d_updated row, d_deleted row) =
      (t_failure_code t, t_failure_detail t, Some (t_added t), Some (t_updated t), Some (t_deleted t)))"

definition settle_states :: "device_state set" where
  "settle_states = {D_DISPATCHING, D_DOWNLOADING, D_VALIDATING, D_APPLYING, D_RECONCILING}"

definition write_result :: "terminal_result \<Rightarrow> int \<Rightarrow> device_row \<Rightarrow> device_row" where
  "write_result t now r = r\<lparr>d_state := result_target t, d_queue_reason := None, d_updated_at := now,
     d_terminal_at := Some now, d_failure_code := t_failure_code t, d_failure_detail := t_failure_detail t,
     d_added := Some (t_added t), d_updated := Some (t_updated t), d_deleted := Some (t_deleted t),
     d_accept_deadline := None, d_reconciliation_reason := None, d_reconciliation_deadline := None\<rparr>"

definition delete_matching_fence :: "device_id \<Rightarrow> job_id \<Rightarrow> int \<Rightarrow> db \<Rightarrow> db" where
  "delete_matching_fence d j attempt s =
     s\<lparr>db_fences := delete_rows (\<lambda>f. f_device_id f = d \<and> f_blocking_job_id f = Some j \<and>
          f_blocking_attempt f = Some attempt) (db_fences s)\<rparr>"

text \<open>
  \<open>settle_result\<close>: the answer is \<open>(accepted, refusal reason, snapshot)\<close>. A status other than
  success or fail is refused before the transaction and has no value of \<open>terminal_result\<close>.
\<close>

definition settle_result ::
  "job_id \<Rightarrow> device_id \<Rightarrow> int \<Rightarrow> terminal_result \<Rightarrow> int \<Rightarrow> db \<Rightarrow>
   (mdm_error + bool \<times> string option \<times> snapshot) \<times> db" where
  "settle_result j d attempt t now s =
     (if attempt \<noteq> 1 then (Inl (StoreConflict ''stale_attempt''), s)
      else transact (\<lambda>s.
        case get_device s j d of
          None \<Rightarrow> Inl (StoreNotFound (j @ ''/'' @ d))
        | Some row \<Rightarrow>
            if d_attempt row \<noteq> attempt
            then rbind (snapshot_of s j) (\<lambda>snap. Inr ((False, Some ''stale_attempt'', snap), s))
            else if d_state row \<in> TERMINAL_DEVICE_STATES then
              rbind (snapshot_of s j) (\<lambda>snap.
                Inr ((same_terminal_result row t,
                      if same_terminal_result row t then None else Some ''conflicting_terminal_result'', snap), s))
            else if d_state row \<notin> settle_states
            then rbind (snapshot_of s j) (\<lambda>snap. Inr ((False, Some ''unexpected_result_state'', snap), s))
            else
              rbind (update_device j d (write_result t now) s) (\<lambda>s1.
              rbind (finish_device_change j now (delete_matching_fence d j attempt s1)) (\<lambda>(snap, s2).
                Inr ((True, None, snap), s2)))) s)"

section \<open>Queries and created-job deadlines\<close>

definition active_assignment_for_device :: "db \<Rightarrow> device_id \<Rightarrow> device_row option" where
  "active_assignment_for_device s d =
     first_row (filter (\<lambda>r. is_active r \<and> get_job s (d_job_id r) \<noteq> None) (device_rows_of s d))"

definition artifact_record :: "db \<Rightarrow> string \<Rightarrow> artifact_row option" where
  "artifact_record s a = get_artifact s a"

definition get_snapshot :: "db \<Rightarrow> job_id \<Rightarrow> mdm_error + snapshot" where
  "get_snapshot s j = snapshot_of s j"

definition expired_created :: "db \<Rightarrow> int \<Rightarrow> job_id list" where
  "expired_created s timestamp =
     map j_job_id (filter (\<lambda>r. j_state r = J_CREATED \<and> j_create_expires_at r \<le> timestamp) (db_jobs s))"

definition expire_created ::
  "job_id \<Rightarrow> int option \<Rightarrow> int \<Rightarrow> db \<Rightarrow> (mdm_error + snapshot option) \<times> db" where
  "expire_created j expected_deadline now = transact (\<lambda>s.
     case get_job s j of
       None \<Rightarrow> Inr (None, s)
     | Some row \<Rightarrow>
         if j_state row \<noteq> J_CREATED then Inr (None, s)
         else if (case expected_deadline of None \<Rightarrow> False | Some dl \<Rightarrow> j_create_expires_at row \<noteq> dl)
         then Inr (None, s)
         else if now < j_create_expires_at row then Inr (None, s)
         else
           let s' = update_job j (interrupt_expired now) s in
           rbind (snapshot_of s' j) (\<lambda>snap. Inr (Some snap, s')))"

section \<open>Startup recovery\<close>

definition add_touched :: "job_id \<Rightarrow> job_id list \<Rightarrow> job_id list" where
  "add_touched j touched = (if j \<in> set touched then touched else touched @ [j])"

fun recover_jobs :: "int \<Rightarrow> job_row list \<Rightarrow> db \<times> job_id list \<times> job_id list \<Rightarrow> db \<times> job_id list \<times> job_id list" where
  "recover_jobs now [] acc = acc"
| "recover_jobs now (row # rows) (s, cleanup, touched) =
     (let j = j_job_id row in
      recover_jobs now rows
       (if j_state row = J_CREATED \<and> j_create_expires_at row \<le> now then
          (update_job j (interrupt_expired now) s, cleanup @ [j], add_touched j touched)
        else if j_state row \<in> {J_UPLOADING, J_PACKAGING} then
          (update_job j (\<lambda>r. r\<lparr>j_state := J_INTERRUPTED, j_revision := j_revision r + 1,
             j_updated_at := now, j_terminal_at := Some now, j_failure_code := Some ''server_restart'',
             j_failure_detail := Some ''server restarted during non-resumable upload or packaging''\<rparr>) s,
           cleanup @ [j], add_touched j touched)
        else if j_state row \<in> {J_RUNNING, J_RECONCILING} then
          (update_job j (\<lambda>r. r\<lparr>j_dispatch_enabled := False,
             j_dispatch_paused_reason := Some ''server_restart'', j_revision := j_revision r + 1,
             j_updated_at := now\<rparr>) s,
           cleanup, add_touched j touched)
        else (s, cleanup, touched)))"

definition recover_device_row :: "int \<Rightarrow> int \<Rightarrow> int \<Rightarrow> device_row \<Rightarrow> device_row" where
  "recover_device_row accept_ms full_ms now r =
     (if d_state r = D_WAITING_TRANSFER then
        r\<lparr>d_state := D_QUEUED, d_queue_reason := Some ''dispatch_paused'', d_updated_at := now\<rparr>
      else if d_state r = D_DISPATCHING then
        r\<lparr>d_state := D_RECONCILING, d_reconciliation_reason := Some ''server_restart_before_accept'',
          d_reconciliation_deadline := Some (now + accept_ms), d_accept_deadline := None, d_updated_at := now\<rparr>
      else if d_state r \<in> {D_DOWNLOADING, D_VALIDATING, D_APPLYING} then
        r\<lparr>d_state := D_RECONCILING, d_reconciliation_reason := Some ''server_restart_after_accept'',
          d_reconciliation_deadline := Some (now + full_ms), d_accept_deadline := None, d_updated_at := now\<rparr>
      else if d_state r = D_RECONCILING then
        r\<lparr>d_reconciliation_reason := Some (if d_accepted_at r = None then ''server_restart_before_accept''
                                            else ''server_restart_after_accept''),
          d_reconciliation_deadline := Some (now + (if d_accepted_at r = None then accept_ms else full_ms)),
          d_accept_deadline := None, d_updated_at := now\<rparr>
      else r)"

fun recover_devices ::
  "int \<Rightarrow> int \<Rightarrow> int \<Rightarrow> device_row list \<Rightarrow> db \<times> job_id list \<Rightarrow> mdm_error + db \<times> job_id list" where
  "recover_devices accept_ms full_ms now [] acc = Inr acc"
| "recover_devices accept_ms full_ms now (row # rows) (s, touched) =
     (if is_active row then
        rbind (update_device (d_job_id row) (d_device_id row) (recover_device_row accept_ms full_ms now) s) (\<lambda>s'.
          recover_devices accept_ms full_ms now rows (s', add_touched (d_job_id row) touched))
      else recover_devices accept_ms full_ms now rows (s, touched))"

text \<open>
  \<^verbatim>\<open>recover_startup_sync\<close>: snapshots of the touched jobs and the jobs whose work directory must be
  removed. The source iterates \<^verbatim>\<open>touched\<close> as a set; each iteration concerns its own job only.
\<close>

definition recover_startup_sync ::
  "int \<Rightarrow> int \<Rightarrow> int \<Rightarrow> db \<Rightarrow> (mdm_error + snapshot list \<times> job_id list) \<times> db" where
  "recover_startup_sync accept_ms full_ms now = transact (\<lambda>s.
     let (s1, cleanup, touched) = recover_jobs now (db_jobs s) (s, [], []) in
     rbind (recover_devices accept_ms full_ms now (db_devices s1) (s1, touched)) (\<lambda>(s2, touched2).
     rbind (rfold (\<lambda>j. rederive_job j now) touched2 s2) (\<lambda>s3.
     rbind (rmap (snapshot_of s3) (sort touched2)) (\<lambda>snaps. Inr ((snaps, cleanup), s3)))))"

end
