(* ===== verification/Py_Json_Decode.thy ===== *)
theory Py_Json_Decode
  imports Py_Json
begin

text \<open>
  \<^verbatim>\<open>json.loads\<close>: the decoder the server applies to a stored opaque fence identity. It follows the
  scanner of Python's \<^verbatim>\<open>json\<close> module: white space is skipped only where the grammar allows it, a
  repeated key keeps its first position and its last value, control characters inside a string
  are refused. A number with a fraction or an exponent is kept as its literal, and an escape above
  code point 255 is refused, since strings here have code points below 256. The recursion is on a
  counter that starts at the length of the text plus one: every recursive call has consumed a
  character.
\<close>

section \<open>Decoder\<close>

definition json_ws :: "char \<Rightarrow> bool" where
  "json_ws c = (c = CHR '' '' \<or> c = CHR 0x09 \<or> c = CHR 0x0A \<or> c = CHR 0x0D)"

definition skip_ws :: "string \<Rightarrow> string" where
  "skip_ws s = dropWhile json_ws s"

definition short_escape :: "char \<Rightarrow> char option" where
  "short_escape e =
     (if e = CHR 0x22 \<or> e = CHR 0x5C \<or> e = CHR ''/'' then Some e
      else if e = CHR ''b'' then Some (CHR 0x08)
      else if e = CHR ''f'' then Some (CHR 0x0C)
      else if e = CHR ''n'' then Some (CHR 0x0A)
      else if e = CHR ''r'' then Some (CHR 0x0D)
      else if e = CHR ''t'' then Some (CHR 0x09)
      else None)"

definition hex4 :: "string \<Rightarrow> int option" where
  "hex4 s = (if length s = 4 \<and> list_all (\<lambda>c. hex_val c \<noteq> None) s
     then Some (fold (\<lambda>c a. 16 * a + the (hex_val c)) s 0) else None)"

text \<open>The characters after an opening quote, up to the closing one.\<close>

fun scan_string :: "string \<Rightarrow> (string \<times> string) option" where
  "scan_string [] = None"
| "scan_string (c # cs) =
     (if c = CHR 0x22 then Some ([], cs)
      else if c = CHR 0x5C then
        (case cs of
           [] \<Rightarrow> None
         | e # r \<Rightarrow>
             if e = CHR ''u'' then
               (case hex4 (take 4 r) of
                  None \<Rightarrow> None
                | Some n \<Rightarrow> if 255 < n then None
                    else map_option (\<lambda>(t, u). (char_of n # t, u)) (scan_string (drop 4 r)))
             else
               (case short_escape e of
                  None \<Rightarrow> None
                | Some x \<Rightarrow> map_option (\<lambda>(t, u). (x # t, u)) (scan_string r)))
      else if (of_char c :: int) < 32 then None
      else map_option (\<lambda>(t, u). (c # t, u)) (scan_string cs))"

definition digits_value :: "string \<Rightarrow> int" where
  "digits_value ds = fold (\<lambda>c a. 10 * a + int (digit_value c)) ds 0"

definition scan_fraction :: "string \<Rightarrow> string" where
  "scan_fraction s =
     (case s of
        [] \<Rightarrow> []
      | c # r \<Rightarrow> if c = CHR ''.'' \<and> takeWhile is_digit r \<noteq> [] then c # takeWhile is_digit r else [])"

definition scan_exponent :: "string \<Rightarrow> string" where
  "scan_exponent s =
     (case s of
        [] \<Rightarrow> []
      | c # r \<Rightarrow>
          if c = CHR ''e'' \<or> c = CHR ''E'' then
            (let sg = (if r \<noteq> [] \<and> (hd r = CHR ''+'' \<or> hd r = CHR ''-'') then [hd r] else []);
                 ds = takeWhile is_digit (drop (length sg) r)
             in if ds = [] then [] else c # sg @ ds)
          else [])"

definition scan_number :: "string \<Rightarrow> (json \<times> string) option" where
  "scan_number s =
     (let neg = (s \<noteq> [] \<and> hd s = CHR ''-''); t = (if neg then tl s else s) in
      if t = [] \<or> \<not> is_digit (hd t) then None
      else (let ip = (if hd t = CHR ''0'' then [hd t] else takeWhile is_digit t);
                r1 = drop (length ip) t;
                fr = scan_fraction r1;
                r2 = drop (length fr) r1;
                ex = scan_exponent r2;
                rest = drop (length ex) r2
            in Some (if fr = [] \<and> ex = []
                     then JInt (if neg then - digits_value ip else digits_value ip)
                     else JFloat ((if neg then ''-'' else []) @ ip @ fr @ ex), rest)))"

text \<open>\<^verbatim>\<open>d[k] = v\<close> on the items of a dict.\<close>

fun dict_set :: "string \<Rightarrow> json \<Rightarrow> jobject \<Rightarrow> jobject" where
  "dict_set k v [] = [(k, v)]"
| "dict_set k v ((k', v') # kvs) = (if k' = k then (k, v) # kvs else (k', v') # dict_set k v kvs)"

fun scan_value :: "nat \<Rightarrow> string \<Rightarrow> (json \<times> string) option"
  and scan_elements :: "nat \<Rightarrow> json list \<Rightarrow> string \<Rightarrow> (json \<times> string) option"
  and scan_members :: "nat \<Rightarrow> jobject \<Rightarrow> string \<Rightarrow> (json \<times> string) option" where
  "scan_value 0 s = None"
| "scan_value (Suc n) s =
     (if s = [] then None
      else if hd s = CHR 0x22 then map_option (\<lambda>(t, r). (JStr t, r)) (scan_string (tl s))
      else if hd s = CHR ''{'' then
        (let r = skip_ws (tl s) in
         if r \<noteq> [] \<and> hd r = CHR ''}'' then Some (JObj [], tl r) else scan_members n [] r)
      else if hd s = CHR ''['' then
        (let r = skip_ws (tl s) in
         if r \<noteq> [] \<and> hd r = CHR '']'' then Some (JArr [], tl r) else scan_elements n [] r)
      else if prefix ''null'' s then Some (JNull, drop 4 s)
      else if prefix ''true'' s then Some (JBool True, drop 4 s)
      else if prefix ''false'' s then Some (JBool False, drop 5 s)
      else if scan_number s \<noteq> None then scan_number s
      else if prefix ''NaN'' s then Some (JFloat ''nan'', drop 3 s)
      else if prefix ''Infinity'' s then Some (JFloat ''inf'', drop 8 s)
      else if prefix ''-Infinity'' s then Some (JFloat ''-inf'', drop 9 s)
      else None)"
| "scan_elements 0 acc s = None"
| "scan_elements (Suc n) acc s =
     (case scan_value n s of
        None \<Rightarrow> None
      | Some (v, r) \<Rightarrow>
          (let r = skip_ws r in
           if r \<noteq> [] \<and> hd r = CHR '']'' then Some (JArr (acc @ [v]), tl r)
           else if r \<noteq> [] \<and> hd r = CHR '','' then scan_elements n (acc @ [v]) (skip_ws (tl r))
           else None))"
| "scan_members 0 acc s = None"
| "scan_members (Suc n) acc s =
     (if s = [] \<or> hd s \<noteq> CHR 0x22 then None
      else (case scan_string (tl s) of
        None \<Rightarrow> None
      | Some (k, r) \<Rightarrow>
          (let r = skip_ws r in
           if r = [] \<or> hd r \<noteq> CHR '':'' then None
           else (case scan_value n (skip_ws (tl r)) of
             None \<Rightarrow> None
           | Some (v, u) \<Rightarrow>
               (let u = skip_ws u in
                if u \<noteq> [] \<and> hd u = CHR ''}'' then Some (JObj (dict_set k v acc), tl u)
                else if u \<noteq> [] \<and> hd u = CHR '','' then
                  scan_members n (dict_set k v acc) (skip_ws (tl u))
                else None)))))"

definition json_loads :: "string \<Rightarrow> json option" where
  "json_loads s =
     (case scan_value (Suc (length s)) (skip_ws s) of
        None \<Rightarrow> None
      | Some (v, r) \<Rightarrow> if skip_ws r = [] then Some v else None)"

section \<open>Reading a printed object back\<close>

definition plain_char :: "char \<Rightarrow> bool" where
  "plain_char c = (c \<noteq> CHR 0x22 \<and> c \<noteq> CHR 0x5C \<and> 32 \<le> (of_char c :: int))"

lemma scan_string_plain:
  "\<forall>c \<in> set u. plain_char c \<Longrightarrow> scan_string (u @ CHR 0x22 # r) = Some (u, r)"
  by (induction u) (auto simp: plain_char_def)

lemma dumps_str_plain: "\<forall>c \<in> set u. plain_char c \<Longrightarrow> dumps_str u = CHR 0x22 # u @ [CHR 0x22]"
proof -
  assume a: "\<forall>c \<in> set u. plain_char c"
  have e: "escape_char c = [c]" if p: "plain_char c" for c
  proof -
    have "of_char c \<noteq> (of_char (CHR 0x22) :: int)" "of_char c \<noteq> (of_char (CHR 0x5C) :: int)"
      using p by (auto simp only: plain_char_def of_char_eq_iff)
    with p show ?thesis
      by (simp add: escape_char_def Let_def plain_char_def del: of_char_eq_iff)
  qed
  from a have "concat (map escape_char u) = u"
    by (induction u) (auto simp: e)
  then show ?thesis by (simp add: dumps_str_def quote_def)
qed

lemma uuid_str_plain: "\<forall>c \<in> set (uuid_str n). plain_char c"
proof -
  have h: "plain_char (hex_char d)" if "0 \<le> d" "d < 16" for d
    using that of_hex_char [OF that] hex_char_neq [OF that, of "CHR 0x22"]
      hex_char_neq [OF that, of "CHR 0x5C"]
    by (simp add: plain_char_def split: if_splits)
  have "c \<in> set (hex_fixed 32 n) \<or> c = CHR ''-''" if "c \<in> set (uuid_str n)" for c
    using that by (auto simp: uuid_str_def Let_def simp del: hex_fixed.simps
        dest: in_set_takeD in_set_dropD)
  moreover have "plain_char (CHR ''-'')" by (simp add: plain_char_def)
  ultimately show ?thesis using set_hex_fixed [of 32 n] h
    by (smt (verit, best) atLeastLessThan_iff image_iff subsetD)
qed

end
