(* ===== verification/Push_Manager.thy ===== *)
theory Push_Manager
  imports Push_Store Py_Json_Decode
begin

text \<open>
  The operations of \<^verbatim>\<open>PushJobManager\<close>: queue claims, fences, reconciliation policy and the
  artifact checks that run at startup, one definition per method over the database of
  \<open>Push_Schema\<close>.
\<close>

section \<open>Opaque identities\<close>

definition uuid4_text :: "json \<Rightarrow> string option" where
  "uuid4_text v =
     (case str_of v of
        None \<Rightarrow> None
      | Some t \<Rightarrow> (case uuid_parse t of
            None \<Rightarrow> None
          | Some n \<Rightarrow> if uuid_version n = Some 4 then Some (uuid_str n) else None))"

fun is_bool :: "json \<Rightarrow> bool" where
  "is_bool (JBool b) = True"
| "is_bool _ = False"

definition canonical_opaque_job_identity :: "jobject \<Rightarrow> string option" where
  "canonical_opaque_job_identity active =
     (let attempt = jget active ''attempt''; artifact = jget active ''artifact_id'' in
      if is_bool attempt \<or> \<not> equals_one attempt then None
      else (case uuid4_text (jget active ''job_id'') of
        None \<Rightarrow> None
      | Some job \<Rightarrow>
          if artifact = JNull
          then Some (json_dumps (JObj [(''job_id'', JStr job), (''attempt'', JInt 1)]))
          else (case uuid4_text artifact of
            None \<Rightarrow> None
          | Some art \<Rightarrow> Some (json_dumps (JObj [(''job_id'', JStr job), (''attempt'', JInt 1),
                           (''artifact_id'', JStr art)])))))"

definition unknown_active_token :: string where
  "unknown_active_token = ''{'' @ dumps_str ''token'' @ '':'' @ dumps_str ''unknown-active-job'' @ ''}''"

definition opaque_identity_for_active :: "jobject \<Rightarrow> string" where
  "opaque_identity_for_active active =
     (case canonical_opaque_job_identity active of Some c \<Rightarrow> c | None \<Rightarrow> unknown_active_token)"

text \<open>\<^verbatim>\<open>json.loads\<close> where the caller goes on only with an object.\<close>

definition loads_object :: "string \<Rightarrow> jobject option" where
  "loads_object t = (case json_loads t of Some (JObj kvs) \<Rightarrow> Some kvs | _ \<Rightarrow> None)"

definition parse_opaque_job_identity :: "string option \<Rightarrow> jobject option" where
  "parse_opaque_job_identity v =
     (case v of
        None \<Rightarrow> None
      | Some t \<Rightarrow>
          if t = [] \<or> 2048 < length t then None
          else Option.bind (loads_object t) (\<lambda>decoded.
            Option.bind (canonical_opaque_job_identity decoded) loads_object))"

definition verify_schema_sync :: "db \<Rightarrow> mdm_error + unit" where
  "verify_schema_sync s =
     raise_if (db_schema_version s \<noteq> Some SCHEMA_VERSION) (RuntimeError ''unsupported push job schema version'')"

section \<open>Queries\<close>

definition find_idempotent_job :: "db \<Rightarrow> string \<Rightarrow> string \<Rightarrow> mdm_error + snapshot option" where
  "find_idempotent_job s request_id fp =
     (case lookup_row j_client_request_id request_id (db_jobs s) of
        None \<Rightarrow> Inr None
      | Some row \<Rightarrow>
          if j_request_fingerprint row \<noteq> fp
          then Inl (StoreConflict ''client_request_id is already associated with a different request'')
          else rbind (snapshot_of s (j_job_id row)) (\<lambda>snap. Inr (Some snap)))"

text \<open>
  The four SELECTs of \<^verbatim>\<open>list_snapshots\<close> in the order the source adds them; rows with equal
  ordering columns, which SQL leaves unordered, are in table order here.
\<close>

definition listed_job_ids :: "db \<Rightarrow> int \<Rightarrow> int \<Rightarrow> job_id list" where
  "listed_job_ids s recent_limit terminal_cutoff_ms =
     (let newest = order_by (\<lambda>r. - j_updated_at r) (db_jobs s);
          live = filter (\<lambda>r. j_state r \<in> NON_TERMINAL_JOB_VALUES) newest;
          recent = take (nat (max 0 recent_limit))
            (filter (\<lambda>r. j_state r \<notin> NON_TERMINAL_JOB_VALUES \<and> terminal_cutoff_ms \<le> j_updated_at r) newest);
          owners = List.map_filter f_blocking_job_id (db_fences s);
          displays = List.map_filter (\<lambda>f. latest_job_id s (f_device_id f))
            (filter (\<lambda>f. f_blocking_job_id f = None) (db_fences s))
      in rev (remdups (rev (map j_job_id live @ map j_job_id recent @ owners @ displays))))"

definition list_snapshots :: "db \<Rightarrow> int \<Rightarrow> int \<Rightarrow> mdm_error + snapshot list" where
  "list_snapshots s recent_limit terminal_cutoff_ms =
     rbind (rmap (snapshot_of s) (listed_job_ids s recent_limit terminal_cutoff_ms)) (\<lambda>snaps.
       Inr (order_by (\<lambda>p. - s_updated_at p) snaps))"

definition due :: "int option \<Rightarrow> int \<Rightarrow> bool" where
  "due deadline timestamp = (case deadline of None \<Rightarrow> False | Some t \<Rightarrow> t \<le> timestamp)"

definition expired_reconciliations :: "db \<Rightarrow> int \<Rightarrow> device_row list" where
  "expired_reconciliations s timestamp =
     order_by (\<lambda>r. the (d_reconciliation_deadline r)) (order_by d_enqueue_seq
       (filter (\<lambda>r. d_state r = D_RECONCILING \<and> due (d_reconciliation_deadline r) timestamp) (db_devices s)))"

definition expired_acceptances :: "db \<Rightarrow> int \<Rightarrow> device_row list" where
  "expired_acceptances s timestamp =
     order_by (\<lambda>r. the (d_accept_deadline r)) (order_by d_enqueue_seq
       (filter (\<lambda>r. d_state r = D_DISPATCHING \<and> d_accepted_at r = None \<and> due (d_accept_deadline r) timestamp)
         (db_devices s)))"

definition next_created_deadline :: "db \<Rightarrow> (job_id \<times> int) option" where
  "next_created_deadline s =
     map_option (\<lambda>r. (j_job_id r, j_create_expires_at r))
       (first_row (order_by j_create_expires_at (order_by j_job_id
         (filter (\<lambda>r. j_state r = J_CREATED) (db_jobs s)))))"

definition assignment :: "db \<Rightarrow> job_id \<Rightarrow> device_id \<Rightarrow> (device_row \<times> job_row) option" where
  "assignment s j d =
     (case get_device s j d of
        None \<Rightarrow> None
      | Some row \<Rightarrow> map_option (\<lambda>job. (row, job)) (get_job s j))"

definition fenced_assignment_for_device ::
  "db \<Rightarrow> device_id \<Rightarrow> (fence_row \<times> device_state option \<times> string option) option" where
  "fenced_assignment_for_device s d =
     map_option (\<lambda>f. (f,
         (case f_blocking_job_id f of None \<Rightarrow> None | Some j \<Rightarrow> map_option d_state (get_device s j d)),
         (case f_blocking_job_id f of
            None \<Rightarrow> None
          | Some j \<Rightarrow> (case get_job s j of None \<Rightarrow> None | Some job \<Rightarrow> j_artifact_id job))))
       (get_fence s d)"

definition opaque_reconcile_target :: "db \<Rightarrow> device_id \<Rightarrow> jobject option" where
  "opaque_reconcile_target s d =
     (case get_fence s d of
        None \<Rightarrow> None
      | Some f \<Rightarrow>
          if f_blocking_job_id f \<noteq> None \<or> f_protocol_mode f \<noteq> JOB_V1 then None
          else parse_opaque_job_identity (f_blocking_opaque_identity f))"

section \<open>Dispatch claims\<close>

definition mark_acceptance_reconciling ::
  "job_id \<Rightarrow> device_id \<Rightarrow> int \<Rightarrow> int \<Rightarrow> int \<Rightarrow> db \<Rightarrow> (mdm_error + bool \<times> snapshot) \<times> db" where
  "mark_acceptance_reconciling j d expected_accept_deadline reconciliation_deadline now = transact (\<lambda>s.
     case get_device s j d of
       None \<Rightarrow> Inl (StoreNotFound (j @ ''/'' @ d))
     | Some row \<Rightarrow>
         let exact_deadline = (d_accept_deadline row = Some expected_accept_deadline) in
         if d_state row = D_RECONCILING \<and> d_accepted_at row = None \<and> exact_deadline \<and>
            d_reconciliation_reason row = Some ''command_accept_timeout''
         then rbind (snapshot_of s j) (\<lambda>snap. Inr ((False, snap), s))
         else if d_state row \<noteq> D_DISPATCHING \<or> d_accepted_at row \<noteq> None \<or> \<not> exact_deadline
         then Inl (StoreConflict ''accept deadline no longer owns dispatch'')
         else rbind (validate_device_transition (d_state row) D_RECONCILING) (\<lambda>_.
           rbind (update_device j d (\<lambda>r. r\<lparr>d_state := D_RECONCILING,
                    d_reconciliation_reason := Some ''command_accept_timeout'',
                    d_reconciliation_deadline := Some reconciliation_deadline, d_updated_at := now\<rparr>) s) (\<lambda>s1.
           rbind (finish_device_change j now s1) (\<lambda>(snap, s2). Inr ((True, snap), s2)))))"

definition min_queued_seq :: "db \<Rightarrow> device_id \<Rightarrow> int option" where
  "min_queued_seq s d =
     first_row (sort (map d_enqueue_seq (filter (\<lambda>r. d_state r = D_QUEUED \<and>
       (case get_job s (d_job_id r) of None \<Rightarrow> False | Some job \<Rightarrow> j_state job \<in> NON_TERMINAL_JOB_VALUES))
       (device_rows_of s d))))"

definition claimable :: "db \<Rightarrow> device_id list \<Rightarrow> device_row \<Rightarrow> bool" where
  "claimable s online r =
     (d_state r = D_QUEUED \<and> d_device_id r \<in> set online \<and>
      (case get_job s (d_job_id r) of
         None \<Rightarrow> False
       | Some job \<Rightarrow> j_dispatch_enabled job \<and> j_state job \<in> {J_RUNNING, J_RECONCILING}) \<and>
      get_fence s (d_device_id r) = None \<and>
      \<not> list_ex is_active (device_rows_of s (d_device_id r)) \<and>
      min_queued_seq s (d_device_id r) = Some (d_enqueue_seq r))"

definition claim_row :: "db \<Rightarrow> device_id list \<Rightarrow> device_row option" where
  "claim_row s online = first_row (order_by d_enqueue_seq (filter (claimable s online) (db_devices s)))"

definition claim_update :: "int \<Rightarrow> device_row \<Rightarrow> device_row" where
  "claim_update now r = r\<lparr>d_state := D_WAITING_TRANSFER, d_queue_reason := None, d_updated_at := now\<rparr>"

text \<open>
  \<open>claim_next\<close>: the claimed assignment with the job snapshot. An \<^verbatim>\<open>IntegrityError\<close> (the active
  index) rolls back and claims nothing.
\<close>

definition claim_next ::
  "device_id list \<Rightarrow> int \<Rightarrow> db \<Rightarrow> (mdm_error + (device_row \<times> snapshot) option) \<times> db" where
  "claim_next online now s =
     (if online = [] then (Inr None, s)
      else (case claim_row s online of
        None \<Rightarrow> (Inr None, s)
      | Some row \<Rightarrow>
          let j = d_job_id row; d = d_device_id row;
              p = (\<lambda>r. d_key r = (j, d) \<and> d_state r = D_QUEUED) in
          if length (filter p (db_devices s)) \<noteq> 1 then (Inr None, s)
          else (case rbind (update_devices_where p (claim_update now) s) (\<lambda>s1.
              rbind (finish_device_change j now s1) (\<lambda>(snap, s2).
                case get_device s2 j d of
                  None \<Rightarrow> Inl (AssertionError)
                | Some a \<Rightarrow> Inr (Some (a, snap), s2))) of
            Inl (IntegrityError m) \<Rightarrow> (Inr None, s)
          | Inl e \<Rightarrow> (Inl e, s)
          | Inr (a, s') \<Rightarrow> (Inr a, s'))))"

definition prepare_dispatch ::
  "job_id \<Rightarrow> device_id \<Rightarrow> protocol_mode \<Rightarrow> string list \<Rightarrow> int option \<Rightarrow> int \<Rightarrow> db \<Rightarrow> (mdm_error + snapshot) \<times> db" where
  "prepare_dispatch j d protocol live_capabilities accept_deadline now = transact (\<lambda>s.
     case get_device s j d of
       None \<Rightarrow> Inl (StoreNotFound (j @ ''/'' @ d))
     | Some row \<Rightarrow>
         if d_attempt row \<noteq> 1 then Inl (StoreConflict ''stale_attempt'')
         else rbind (validate_device_transition (d_state row) D_DISPATCHING) (\<lambda>_.
           let p = (\<lambda>r. d_key r = (j, d) \<and> d_state r = D_WAITING_TRANSFER) in
           rbind (update_devices_where p (\<lambda>r. r\<lparr>d_state := D_DISPATCHING, d_protocol_mode := protocol,
                    d_dispatch_capabilities := Some (sort (remdups live_capabilities)),
                    d_accept_deadline := accept_deadline, d_updated_at := now\<rparr>) s) (\<lambda>s1.
           if length (filter p (db_devices s)) \<noteq> 1
           then Inl (StoreConflict ''assignment changed before dispatch'')
           else finish_device_change j now s1)))"

section \<open>Fences\<close>

definition visible_job_ids :: "db \<Rightarrow> device_id \<Rightarrow> job_id option \<Rightarrow> job_id list" where
  "visible_job_ids s d blocking =
     (let ids = fence_visible_job_ids s d;
          ids1 = (case blocking of
              None \<Rightarrow> ids
            | Some b \<Rightarrow> if b \<noteq> [] \<and> b \<notin> set ids \<and> get_job s b \<noteq> None then ids @ [b] else ids)
      in (case get_fence s d of
            None \<Rightarrow> ids1
          | Some f \<Rightarrow>
              if f_blocking_job_id f \<noteq> None then ids1
              else (case latest_job_id s d of
                  None \<Rightarrow> ids1
                | Some j \<Rightarrow> if j \<in> set ids1 then ids1 else ids1 @ [j])))"

text \<open>A revision for every affected job, then their snapshots.\<close>

definition bump_all :: "job_id list \<Rightarrow> int \<Rightarrow> db \<Rightarrow> db" where
  "bump_all ids timestamp s = fold (\<lambda>j. increment_revision j timestamp) ids s"

definition publish_bumped :: "job_id list \<Rightarrow> int \<Rightarrow> db \<Rightarrow> mdm_error + snapshot list \<times> db" where
  "publish_bumped ids timestamp s =
     (let s' = bump_all ids timestamp s in
      rbind (rmap (snapshot_of s') ids) (\<lambda>snaps. Inr (snaps, s')))"

definition unconfirmed_row :: "string \<Rightarrow> int \<Rightarrow> device_row \<Rightarrow> device_row" where
  "unconfirmed_row detail t r = r\<lparr>d_state := D_UNCONFIRMED, d_terminal_at := Some t,
     d_updated_at := t, d_failure_code := Some ''reconciliation_timeout'',
     d_failure_detail := Some (take 2000 detail), d_reconciliation_reason := None,
     d_reconciliation_deadline := None, d_accept_deadline := None\<rparr>"

definition unconfirmed_fence ::
  "job_id \<Rightarrow> device_id \<Rightarrow> string option \<Rightarrow> string \<Rightarrow> protocol_mode \<Rightarrow> int \<Rightarrow> fence_row" where
  "unconfirmed_fence j d process_instance_id detail protocol t =
     \<lparr>f_device_id = d, f_blocking_job_id = Some j, f_blocking_opaque_identity = None,
      f_blocking_attempt = Some 1, f_protocol_mode = protocol,
      f_blocking_process_instance_id = process_instance_id, f_reason = take 2000 detail,
      f_created_at = t, f_updated_at = t\<rparr>"

definition mark_unconfirmed ::
  "job_id \<Rightarrow> device_id \<Rightarrow> string option \<Rightarrow> string \<Rightarrow> int option \<Rightarrow> int option \<Rightarrow> int \<Rightarrow> db \<Rightarrow>
   (mdm_error + snapshot list) \<times> db" where
  "mark_unconfirmed j d process_instance_id detail expected_deadline observed_now now = transact (\<lambda>s.
     case get_device s j d of
       None \<Rightarrow> Inl (StoreNotFound (j @ ''/'' @ d))
     | Some row \<Rightarrow>
         if d_attempt row \<noteq> 1 then Inl (StoreConflict ''stale_attempt'')
         else if d_state row \<noteq> D_RECONCILING then Inl (StoreConflict ''assignment is not reconciling'')
         else
           let timestamp = (case observed_now of None \<Rightarrow> now | Some t \<Rightarrow> t) in
           if (case expected_deadline of
                 None \<Rightarrow> False
               | Some dl \<Rightarrow> d_reconciliation_deadline row \<noteq> Some dl \<or> timestamp < dl)
           then Inl (StoreConflict ''stale reconciliation deadline'')
           else
             rbind (update_device j d (unconfirmed_row detail timestamp) s) (\<lambda>s1.
             rbind (upsert_fence (unconfirmed_fence j d process_instance_id detail (d_protocol_mode row) timestamp) s1) (\<lambda>s2.
             let ids = visible_job_ids s2 d (Some j) in
             rbind (rfold (\<lambda>a t. rederive_job a timestamp (increment_revision a timestamp t)) ids s2) (\<lambda>s3.
             rbind (rmap (snapshot_of s3) ids) (\<lambda>snaps. Inr (snaps, s3))))))"

definition add_opaque_fence ::
  "device_id \<Rightarrow> string \<Rightarrow> protocol_mode \<Rightarrow> string option \<Rightarrow> string \<Rightarrow> int \<Rightarrow> db \<Rightarrow> (mdm_error + snapshot list) \<times> db" where
  "add_opaque_fence d opaque_identity protocol process_instance_id reason now s =
     (if opaque_identity = [] \<or> 2048 < length opaque_identity
      then (Inl (StoreConflict ''opaque fence identity is invalid''), s)
      else transact (\<lambda>s.
        if (case get_fence s d of
              None \<Rightarrow> False
            | Some f \<Rightarrow>
                (f_blocking_job_id f, f_blocking_opaque_identity f, f_blocking_attempt f, f_protocol_mode f,
                 f_blocking_process_instance_id f, f_reason f) =
                (None, Some opaque_identity, None, protocol, process_instance_id, take 2000 reason))
        then Inr ([], s)
        else rbind (upsert_fence \<lparr>f_device_id = d, f_blocking_job_id = None,
               f_blocking_opaque_identity = Some opaque_identity, f_blocking_attempt = None,
               f_protocol_mode = protocol, f_blocking_process_instance_id = process_instance_id,
               f_reason = take 2000 reason, f_created_at = now, f_updated_at = now\<rparr> s) (\<lambda>s1.
             publish_bumped (visible_job_ids s1 d None) now s1)) s)"

definition clear_fence_on_process_replacement ::
  "device_id \<Rightarrow> string option \<Rightarrow> bool \<Rightarrow> int \<Rightarrow> db \<Rightarrow> (mdm_error + snapshot list) \<times> db" where
  "clear_fence_on_process_replacement d process_instance_id has_job_v1 now = transact (\<lambda>s.
     case get_fence s d of
       None \<Rightarrow> Inr ([], s)
     | Some f \<Rightarrow>
         if \<not> has_job_v1 \<or> \<not> truthy process_instance_id then Inr ([], s)
         else
           let old_process = f_blocking_process_instance_id f;
               replaced = (old_process \<noteq> None \<and> old_process \<noteq> process_instance_id \<or> old_process = None) in
           if \<not> replaced then Inr ([], s)
           else publish_bumped (visible_job_ids s d (f_blocking_job_id f)) now (delete_fence d s))"

definition fence_matches :: "fence_row option \<Rightarrow> job_id \<Rightarrow> int \<Rightarrow> bool" where
  "fence_matches fence j attempt =
     (case fence of
        None \<Rightarrow> False
      | Some f \<Rightarrow> f_blocking_job_id f = Some j \<and> f_blocking_attempt f = Some attempt)"

text \<open>Delete the device's fence and give every job that displayed it a revision.\<close>

definition clear_fence :: "job_id \<Rightarrow> device_id \<Rightarrow> int \<Rightarrow> db \<Rightarrow> mdm_error + snapshot list \<times> db" where
  "clear_fence j d now s =
     (let s1 = delete_fence d s in publish_bumped (visible_job_ids s1 d (Some j)) now s1)"

definition clear_matching_fence ::
  "job_id \<Rightarrow> device_id \<Rightarrow> int \<Rightarrow> int \<Rightarrow> db \<Rightarrow> (mdm_error + snapshot list) \<times> db" where
  "clear_matching_fence j d attempt now s =
     (if attempt \<noteq> 1 then (Inr [], s)
      else transact (\<lambda>s.
        if \<not> fence_matches (get_fence s d) j attempt then Inr ([], s) else clear_fence j d now s) s)"

definition clear_matching_opaque_fence ::
  "device_id \<Rightarrow> job_id \<Rightarrow> json \<Rightarrow> int \<Rightarrow> db \<Rightarrow> (mdm_error + bool \<times> snapshot list) \<times> db" where
  "clear_matching_opaque_fence d j attempt now s =
     (case Option.bind (canonical_opaque_job_identity [(''job_id'', JStr j), (''attempt'', attempt)]) loads_object of
        None \<Rightarrow> (Inr (False, []), s)
      | Some expected \<Rightarrow> transact (\<lambda>s.
          case get_fence s d of
            None \<Rightarrow> Inr ((False, []), s)
          | Some f \<Rightarrow>
              if f_blocking_job_id f \<noteq> None \<or> f_protocol_mode f \<noteq> JOB_V1 then Inr ((False, []), s)
              else (case parse_opaque_job_identity (f_blocking_opaque_identity f) of
                  None \<Rightarrow> Inr ((False, []), s)
                | Some stored \<Rightarrow>
                    if jget stored ''job_id'' \<noteq> jget expected ''job_id'' \<or>
                       jget stored ''attempt'' \<noteq> jget expected ''attempt''
                    then Inr ((False, []), s)
                    else rbind (publish_bumped (visible_job_ids s d None) now (delete_fence d s)) (\<lambda>(snaps, s').
                      Inr ((True, snaps), s')))) s)"

definition settle_late_fenced_result ::
  "job_id \<Rightarrow> device_id \<Rightarrow> int \<Rightarrow> int \<Rightarrow> db \<Rightarrow> (mdm_error + bool \<times> snapshot list) \<times> db" where
  "settle_late_fenced_result j d attempt now s =
     (if attempt \<noteq> 1 then (Inr (False, []), s)
      else transact (\<lambda>s.
        case get_device s j d of
          None \<Rightarrow> Inr ((False, []), s)
        | Some row \<Rightarrow>
            if d_attempt row \<noteq> 1 \<or> d_state row \<noteq> D_UNCONFIRMED then Inr ((False, []), s)
            else (case get_fence s d of
                None \<Rightarrow> rbind (snapshot_of s j) (\<lambda>snap. Inr ((True, [snap]), s))
              | Some f \<Rightarrow>
                  if \<not> fence_matches (Some f) j 1 then Inr ((False, []), s)
                  else rbind (clear_fence j d now s) (\<lambda>(snaps, s'). Inr ((True, snaps), s')))) s)"

section \<open>Reconciliation reports\<close>

definition active_phase :: "string option \<Rightarrow> device_state option" where
  "active_phase phase =
     (if phase = Some ''downloading'' then Some D_DOWNLOADING
      else if phase = Some ''validating'' then Some D_VALIDATING
      else if phase = Some ''applying'' then Some D_APPLYING
      else None)"

definition replayable :: "device_row \<Rightarrow> bool \<Rightarrow> string \<Rightarrow> bool" where
  "replayable row dispatch_enabled status =
     (status = ''absent'' \<and> d_accepted_at row = None \<and>
      d_reconciliation_reason row \<in> {Some ''command_accept_timeout'', Some ''disconnect_before_accept''} \<and>
      d_accept_replay_count row < 1 \<and> dispatch_enabled)"

text \<open>The three UPDATEs of \<^verbatim>\<open>reconcile_report\<close>, and the choice between them.\<close>

definition report_active :: "device_state \<Rightarrow> int \<Rightarrow> device_row \<Rightarrow> device_row" where
  "report_active target now r = r\<lparr>d_state := target,
     d_accepted_at := (case d_accepted_at r of None \<Rightarrow> Some now | Some t \<Rightarrow> Some t),
     d_accept_deadline := None, d_reconciliation_reason := None,
     d_reconciliation_deadline := None, d_updated_at := now\<rparr>"

definition report_requeued :: "int \<Rightarrow> device_row \<Rightarrow> device_row" where
  "report_requeued now r = r\<lparr>d_state := D_QUEUED, d_queue_reason := Some ''command_accept_replay'',
     d_accept_replay_count := d_accept_replay_count r + 1, d_accept_deadline := None,
     d_reconciliation_reason := None, d_reconciliation_deadline := None, d_failure_code := None,
     d_failure_detail := None, d_updated_at := now\<rparr>"

definition report_interrupted :: "string \<Rightarrow> string option \<Rightarrow> int \<Rightarrow> device_row \<Rightarrow> device_row" where
  "report_interrupted status detail now r = r\<lparr>d_state := D_INTERRUPTED, d_terminal_at := Some now,
     d_failure_code := Some (if status = ''interrupted'' then ''client_restarted'' else ''client_state_absent''),
     d_failure_detail := Some (take 2000 (if truthy detail then the detail else ''client reported '' @ status)),
     d_accept_deadline := None, d_reconciliation_reason := None,
     d_reconciliation_deadline := None, d_updated_at := now\<rparr>"

definition report_update ::
  "device_row \<Rightarrow> bool \<Rightarrow> string \<Rightarrow> string option \<Rightarrow> string option \<Rightarrow> int \<Rightarrow>
   mdm_error + string \<times> (device_row \<Rightarrow> device_row)" where
  "report_update row dispatch_enabled status phase detail now =
     (if status = ''active'' then
        (case active_phase phase of
           None \<Rightarrow> Inl (StoreConflict ''invalid active phase'')
         | Some target \<Rightarrow> rbind (validate_device_transition (d_state row) target) (\<lambda>_.
             Inr (''active'', report_active target now)))
      else if status \<in> {''absent'', ''interrupted''} then
        (if replayable row dispatch_enabled status
         then rbind (validate_device_transition (d_state row) D_QUEUED) (\<lambda>_.
           Inr (''requeued'', report_requeued now))
         else rbind (validate_device_transition (d_state row) D_INTERRUPTED) (\<lambda>_.
           Inr (''interrupted'', report_interrupted status detail now)))
      else Inl (StoreConflict ''invalid reconciliation status''))"

definition reconcile_report ::
  "job_id \<Rightarrow> device_id \<Rightarrow> int \<Rightarrow> string \<Rightarrow> string option \<Rightarrow> string option \<Rightarrow> int \<Rightarrow> db \<Rightarrow>
   (mdm_error + string \<times> snapshot list) \<times> db" where
  "reconcile_report j d attempt status phase detail now s =
     (if attempt \<noteq> 1 then (Inl (StoreConflict ''stale_attempt''), s)
      else transact (\<lambda>s.
        case assignment s j d of
          None \<Rightarrow> Inl (StoreNotFound (j @ ''/'' @ d))
        | Some (row, job) \<Rightarrow>
            if d_attempt row \<noteq> 1 then Inl (StoreConflict ''stale_attempt'')
            else if d_state row = D_UNCONFIRMED \<and> status \<in> {''absent'', ''interrupted''} then
              (if \<not> fence_matches (get_fence s d) j attempt
               then Inl (StoreConflict ''exact reconciliation fence is absent'')
               else rbind (clear_fence j d now s) (\<lambda>(snaps, s'). Inr ((''fence_cleared'', snaps), s')))
            else if d_state row \<noteq> D_RECONCILING then Inl (StoreConflict ''assignment is not reconciling'')
            else rbind (report_update row (j_dispatch_enabled job) status phase detail now) (\<lambda>(outcome, f).
              rbind (update_device j d f s) (\<lambda>s1.
              rbind (finish_device_change j now s1) (\<lambda>(snap, s2). Inr ((outcome, [snap]), s2))))) s)"

section \<open>Artifact files at startup\<close>

text \<open>
  The artifact directory is the list of its entries with whether each is a regular file
  (\<^verbatim>\<open>None\<close> when the directory does not exist). \<open>path_suffix\<close> and \<open>path_stem\<close> are
  \<^verbatim>\<open>pathlib\<close>'s: the part from the last dot, unless the name starts or ends with it.
\<close>

definition split_suffix :: "string \<Rightarrow> string \<times> string" where
  "split_suffix name =
     (let ext = rev (takeWhile (\<lambda>c. c \<noteq> CHR ''.'') (rev name));
          stem = take (length name - length ext - 1) name
      in if CHR ''.'' \<in> set name \<and> stem \<noteq> [] \<and> ext \<noteq> [] then (stem, CHR ''.'' # ext) else (name, []))"

definition is_orphan :: "string set \<Rightarrow> string \<times> bool \<Rightarrow> bool" where
  "is_orphan referenced entry =
     (case entry of (name, is_file) \<Rightarrow>
        let (stem, suffix) = split_suffix name in
        is_file \<and> lower suffix = ''.zip'' \<and>
        (case uuid_parse stem of None \<Rightarrow> False | Some n \<Rightarrow> uuid_version n = Some 4) \<and> name \<notin> referenced)"

definition orphan_artifacts_sync :: "(string \<times> bool) list option \<Rightarrow> db \<Rightarrow> string list" where
  "orphan_artifacts_sync listing s =
     (let referenced = set (map a_storage_name (db_artifacts s)) in
      case listing of
        None \<Rightarrow> []
      | Some entries \<Rightarrow> sort (map fst (filter (is_orphan referenced) entries)))"

definition missing_artifacts :: "(string \<Rightarrow> bool) \<Rightarrow> db \<Rightarrow> (job_id \<times> job_state \<times> string) list" where
  "missing_artifacts present s =
     concat (map (\<lambda>job. case j_artifact_id job of
         None \<Rightarrow> []
       | Some a \<Rightarrow> (case get_artifact s a of
             None \<Rightarrow> []
           | Some art \<Rightarrow>
               if j_state job \<in> {J_READY, J_RUNNING, J_RECONCILING} \<and> \<not> present (a_storage_name art)
               then [(j_job_id job, j_state job, a_storage_name art)] else [])) (db_jobs s))"

definition missing_detail :: "string \<Rightarrow> string" where
  "missing_detail name = ''referenced immutable artifact '' @ name @ '' is missing''"

definition fail_missing_artifact :: "int \<Rightarrow> job_id \<times> job_state \<times> string \<Rightarrow> db \<Rightarrow> mdm_error + db" where
  "fail_missing_artifact now m s =
     (case m of (j, state, name) \<Rightarrow>
        if state = J_READY
        then Inr (update_job j (\<lambda>r. r\<lparr>j_state := J_FAILED, j_dispatch_enabled := False,
                    j_failure_code := Some ''artifact_missing'', j_failure_detail := Some (missing_detail name),
                    j_terminal_at := Some now, j_revision := j_revision r + 1, j_updated_at := now\<rparr>) s)
        else rbind (update_devices_where
                 (\<lambda>r. d_job_id r = j \<and> d_state r \<in> {D_QUEUED, D_WAITING_TRANSFER, D_DISPATCHING, D_DOWNLOADING})
                 (\<lambda>r. r\<lparr>d_state := D_FAILED, d_terminal_at := Some now, d_failure_code := Some ''artifact_missing'',
                       d_failure_detail := Some (missing_detail name), d_updated_at := now\<rparr>) s) (\<lambda>s1.
               rederive_job j now (increment_revision j now s1)))"

definition reconcile_missing_artifacts_sync ::
  "(string \<Rightarrow> bool) \<Rightarrow> int \<Rightarrow> db \<Rightarrow> (mdm_error + snapshot list) \<times> db" where
  "reconcile_missing_artifacts_sync present now s =
     (let missing = missing_artifacts present s in
      if missing = [] then (Inr [], s)
      else transact (\<lambda>s.
        rbind (rfold (fail_missing_artifact now) missing s) (\<lambda>s1.
        rbind (rmap (snapshot_of s1) (map fst missing)) (\<lambda>snaps. Inr (snaps, s1)))) s)"

end
