(* ===== verification/Push_Invariants.thy ===== *)
theory Push_Invariants
  imports Push_Manager
begin

text \<open>
  What every database operation keeps. A job and its device rows form an aggregate; each
  primitive statement has a law that says how it changes the aggregate of every job and a law that
  it keeps the keys of the tables. On top of them: the well-formedness of one aggregate, and the
  relation one operation may establish between an aggregate before and after.
\<close>

section \<open>Aggregates\<close>

type_synonym agg = "job_row option \<times> device_row list"

definition agg :: "db \<Rightarrow> job_id \<Rightarrow> agg" where
  "agg s j = (get_job s j, job_devices s j)"

named_theorems agg_simps \<open>the aggregates after a primitive statement\<close>

definition key_fields :: "device_row \<Rightarrow> job_id \<times> device_id \<times> int" where
  "key_fields r = (d_job_id r, d_device_id r, d_enqueue_seq r)"

lemma list_all2_member: "list_all2 P xs ys \<Longrightarrow> x \<in> set xs \<Longrightarrow> \<exists>y \<in> set ys. P x y"
  by (induction rule: list_all2_induct) auto

lemma list_all2_member2: "list_all2 P xs ys \<Longrightarrow> y \<in> set ys \<Longrightarrow> \<exists>x \<in> set xs. P x y"
  by (induction rule: list_all2_induct) auto

lemma update_rows_filter:
  "(\<And>r. q (f r) = q r) \<Longrightarrow> filter q (update_rows p f rows) = update_rows p f (filter q rows)"
  by (induction rows) (auto simp: update_rows_def)

lemma agg_update_job [agg_simps]:
  assumes "\<And>r. j_job_id (f r) = j_job_id r"
  shows "agg (update_job j f s) k = (if k = j then (map_option f (get_job s j), job_devices s j) else agg s k)"
proof -
  have "get_job (update_job j f s) k = (if k = j then map_option f (get_job s j) else get_job s k)"
    using lookup_row_SomeD [of j_job_id k "db_jobs s"]
    by (cases "get_job s k") (auto simp: get_job_def update_job_def lookup_update_rows [of j_job_id, OF assms])
  then show ?thesis
    by (simp add: agg_def job_devices_def update_job_def)
qed

lemma agg_update_devices_where [agg_simps]:
  assumes "update_devices_where p f s = Inr s'" and "\<And>r. d_job_id (f r) = d_job_id r"
  shows "agg s' k = (get_job s k, update_rows p f (job_devices s k))"
  using assms
  by (auto simp: update_devices_where_def agg_def get_job_def job_devices_def Let_def
      update_rows_filter [of "\<lambda>r. d_job_id r = k"] split: if_splits)

lemma agg_fences [agg_simps]: "agg (s\<lparr>db_fences := fs\<rparr>) k = agg s k"
  by (simp add: agg_def get_job_def job_devices_def)

lemma agg_artifacts [agg_simps]: "agg (s\<lparr>db_artifacts := fs\<rparr>) k = agg s k"
  by (simp add: agg_def get_job_def job_devices_def)

lemma agg_next_seq [agg_simps]: "agg (s\<lparr>db_next_enqueue_seq := v\<rparr>) k = agg s k"
  by (simp add: agg_def get_job_def job_devices_def)

lemma agg_delete_fence [agg_simps]: "agg (delete_fence d s) k = agg s k"
  by (simp add: delete_fence_def agg_fences)

lemma agg_delete_matching_fence [agg_simps]: "agg (delete_matching_fence d j a s) k = agg s k"
  by (simp add: delete_matching_fence_def agg_fences)

lemma agg_upsert_fence [agg_simps]: "upsert_fence f s = Inr s' \<Longrightarrow> agg s' k = agg s k"
  by (auto simp: upsert_fence_def agg_fences split: if_splits option.splits)

lemma agg_insert_artifact [agg_simps]: "insert_artifact a s = Inr s' \<Longrightarrow> agg s' k = agg s k"
  by (auto simp: insert_artifact_def agg_artifacts split: if_splits)

definition bump :: "int \<Rightarrow> job_row \<Rightarrow> job_row" where
  "bump t r = r\<lparr>j_revision := j_revision r + 1, j_updated_at := t\<rparr>"

lemma agg_increment_revision [agg_simps]:
  "agg (increment_revision j t s) k =
    (if k = j then (map_option (bump t) (get_job s j), job_devices s j) else agg s k)"
proof -
  have "(\<lambda>r. r\<lparr>j_revision := j_revision r + 1, j_updated_at := t\<rparr>) = bump t"
    by (simp add: fun_eq_iff bump_def)
  then show ?thesis
    by (simp add: increment_revision_def agg_simps bump_def)
qed

text \<open>\<open>rederive_row\<close>: what \<open>rederive_job\<close> does to the row of a job with device rows.\<close>

definition never_rederived :: "job_state set" where
  "never_rederived = {J_CREATED, J_UPLOADING, J_PACKAGING, J_READY, J_INTERRUPTED, J_FAILED}"

definition rederive_row :: "int \<Rightarrow> device_row list \<Rightarrow> job_row \<Rightarrow> job_row" where
  "rederive_row t ds r =
     (if j_state r \<in> never_rederived then r
      else (case derive_dispatched_job_state (map d_state ds) of
          Inl e \<Rightarrow> r
        | Inr derived \<Rightarrow>
            if derived = j_state r then r
            else r\<lparr>j_state := derived,
                j_terminal_at := (if is_terminal_job_state derived then Some t else None),
                j_updated_at := t\<rparr>))"

lemma map_option_same: "get_job s j = Some r \<Longrightarrow> f r = r \<Longrightarrow> map_option f (get_job s j) = get_job s j"
  by simp

lemma agg_rederive_job [agg_simps]:
  assumes "rederive_job j t s = Inr s'"
  shows "agg s' k = (if k = j then (map_option (rederive_row t (job_devices s j)) (get_job s j), job_devices s j)
                     else agg s k)"
proof -
  from assms obtain r where r: "get_job s j = Some r"
    by (auto simp: rederive_job_def split: option.splits)
  show ?thesis
  proof (cases "j_state r \<in> never_rederived")
    case True
    with assms r have "s' = s" by (simp add: rederive_job_def never_rederived_def)
    with True r show ?thesis by (simp add: rederive_row_def agg_def)
  next
    case False
    with assms r obtain derived where
      d: "derive_dispatched_job_state (map d_state (job_devices s j)) = Inr derived" and
      s': "s' = (if derived = j_state r then s else update_job j (\<lambda>r. r\<lparr>j_state := derived,
                j_terminal_at := (if is_terminal_job_state derived then Some t else None),
                j_updated_at := t\<rparr>) s)"
      by (auto simp: rederive_job_def never_rederived_def rbind_eq_Inr split: if_splits)
    show ?thesis
    proof (cases "derived = j_state r")
      case True
      with False r d s' show ?thesis by (simp add: rederive_row_def agg_def)
    next
      case neq: False
      with False r d s' show ?thesis by (simp add: agg_simps rederive_row_def)
    qed
  qed
qed

lemma fst_agg [simp]: "fst (agg s j) = get_job s j" and snd_agg [simp]: "snd (agg s j) = job_devices s j"
  by (simp_all add: agg_def)

lemma get_job_eq_of_agg: "agg s' j = (a, ds) \<Longrightarrow> get_job s' j = a \<and> job_devices s' j = ds"
  by (simp add: agg_def)

lemma agg_finish_device_change:
  assumes "finish_device_change j t s = Inr (snap, s')"
  shows "agg s' k = (if k = j then (map_option (rederive_row t (job_devices s j) \<circ> bump t) (get_job s j), job_devices s j)
                     else agg s k)"
proof -
  have a: "get_job (increment_revision j t s) j = map_option (bump t) (get_job s j)"
    "job_devices (increment_revision j t s) j = job_devices s j"
    using agg_increment_revision [of j t s j] by (simp_all add: agg_def)
  from assms have r: "rederive_job j t (increment_revision j t s) = Inr s'"
    by (auto simp: finish_device_change_def rbind_eq_Inr)
  show ?thesis
    using agg_rederive_job [OF r, of k] a
    by (auto simp: agg_increment_revision option.map_comp)
qed

section \<open>Legal changes\<close>

text \<open>
  The state changes of one device row: those of the transition table, and the settlement of a
  result, which may report success before the intermediate phases were observed.
\<close>

definition device_change :: "device_state \<Rightarrow> device_state \<Rightarrow> bool" where
  "device_change a b \<longleftrightarrow> b = a \<or> b \<in> DEVICE_TRANSITIONS a \<or>
     a \<in> {D_DISPATCHING, D_DOWNLOADING, D_VALIDATING} \<and> b = D_SUCCEEDED"

definition job_change :: "job_state \<Rightarrow> job_state \<Rightarrow> bool" where
  "job_change a b \<longleftrightarrow> b = a \<or> b \<in> JOB_TRANSITIONS a"

lemma device_change_terminal: "device_change a b \<Longrightarrow> a \<in> TERMINAL_DEVICE_STATES \<Longrightarrow> b = a"
  by (cases a) (auto simp: device_change_def state_set_defs)

lemma device_change_active:
  "device_change a b \<Longrightarrow> b \<in> ACTIVE_DEVICE_STATES \<Longrightarrow>
     a \<in> ACTIVE_DEVICE_STATES \<or> a = D_QUEUED \<and> b = D_WAITING_TRANSFER"
  by (cases a) (auto simp: device_change_def state_set_defs)

lemma job_change_terminal: "job_change a b \<Longrightarrow> a \<in> TERMINAL_JOB_STATES \<Longrightarrow> b = a"
  by (cases a) (auto simp: job_change_def state_set_defs)

lemma validate_device_change: "validate_device_transition a b = Inr u \<Longrightarrow> device_change a b"
  using device_life.validate_iff [of a b] by (auto simp: device_change_def)

lemma validate_job_change: "validate_job_transition a b = Inr u \<Longrightarrow> job_change a b"
  using job_life.validate_iff [of a b] by (auto simp: job_change_def)

text \<open>
  The state of a job against the states of its devices. A running job may have terminal devices
  only: dispatch can be enabled for a job all of whose devices already failed.
\<close>

definition dispatched_exact :: "job_state set" where
  "dispatched_exact = {J_RECONCILING, J_SUCCEEDED, J_COMPLETED_WITH_ERRORS}"

definition job_consistent :: "job_state \<Rightarrow> device_state list \<Rightarrow> bool" where
  "job_consistent st xs \<longleftrightarrow> xs \<noteq> [] \<and>
     (st \<in> never_rederived \<longrightarrow> set xs \<inter> ACTIVE_DEVICE_STATES = {}) \<and>
     (st \<in> dispatched_exact \<longrightarrow> derive_dispatched_job_state xs = Inr st) \<and>
     (st = J_RUNNING \<longrightarrow>
        derive_dispatched_job_state xs = Inr J_RUNNING \<or> set xs \<subseteq> TERMINAL_DEVICE_STATES)"

lemma job_state_classes:
  "st \<in> never_rederived \<or> st \<in> dispatched_exact \<or> st = J_RUNNING"
  by (cases st) (simp_all add: never_rederived_def dispatched_exact_def)

lemma terminal_not_active: "set xs \<subseteq> TERMINAL_DEVICE_STATES \<Longrightarrow> set xs \<inter> ACTIVE_DEVICE_STATES = {}"
  by (auto simp: device_state_cases_terminal)

lemma derived_consistent:
  assumes "derive_dispatched_job_state xs = Inr d"
  shows "job_consistent d xs"
proof -
  have "xs \<noteq> []" using assms by (auto simp: derive_dispatched_job_state_def)
  moreover have "set xs \<inter> ACTIVE_DEVICE_STATES = {}" if "d \<in> never_rederived"
    using that derive_dispatched [OF assms] derive_terminal_iff [OF assms] terminal_not_active
    by (auto simp: never_rederived_def TERMINAL_JOB_STATES_def)
  ultimately show ?thesis
    using assms by (simp add: job_consistent_def)
qed

lemma all_terminal_frozen:
  "list_all2 device_change xs ys \<Longrightarrow> set xs \<subseteq> TERMINAL_DEVICE_STATES \<Longrightarrow> ys = xs"
  by (induction rule: list_all2_induct) (auto dest: device_change_terminal)

definition rederived :: "job_state \<Rightarrow> device_state list \<Rightarrow> job_state" where
  "rederived st ys =
     (if st \<in> never_rederived then st
      else (case derive_dispatched_job_state ys of Inl e \<Rightarrow> st | Inr d \<Rightarrow> d))"

lemma consistent_rederived:
  assumes c: "job_consistent st xs" and ch: "list_all2 device_change xs ys"
    and act: "set ys \<inter> ACTIVE_DEVICE_STATES = {} \<or> set xs \<inter> ACTIVE_DEVICE_STATES \<noteq> {} \<or>
      st \<in> {J_RUNNING, J_RECONCILING}"
  shows "job_consistent (rederived st ys) ys \<and> job_change st (rederived st ys)"
proof -
  have ne: "ys \<noteq> []" using c ch by (auto simp: job_consistent_def)
  then obtain d where d: "derive_dispatched_job_state ys = Inr d"
    using derive_total by blast
  consider (never) "st \<in> never_rederived" | (live) "st \<in> {J_RUNNING, J_RECONCILING}"
    | (settled) "st \<in> {J_SUCCEEDED, J_COMPLETED_WITH_ERRORS}"
    by (cases st) (simp_all add: never_rederived_def)
  then show ?thesis
  proof cases
    case never
    then have "set xs \<inter> ACTIVE_DEVICE_STATES = {}" "st \<notin> {J_RUNNING, J_RECONCILING}"
      using c by (auto simp: job_consistent_def never_rederived_def)
    with act have "set ys \<inter> ACTIVE_DEVICE_STATES = {}" by blast
    with never ne show ?thesis
      by (auto simp: rederived_def job_consistent_def job_change_def never_rederived_def dispatched_exact_def)
  next
    case live
    then have "rederived st ys = d" using d by (auto simp: rederived_def never_rederived_def)
    moreover have "job_change st d" using derive_dispatched [OF d] live by (auto simp: job_change_def)
    ultimately show ?thesis using derived_consistent [OF d] by simp
  next
    case settled
    then have x: "derive_dispatched_job_state xs = Inr st"
      using c by (auto simp: job_consistent_def dispatched_exact_def)
    with settled have "set xs \<subseteq> TERMINAL_DEVICE_STATES"
      using derive_terminal_iff [OF x] by (auto simp: TERMINAL_JOB_STATES_def)
    then have "ys = xs" by (rule all_terminal_frozen [OF ch])
    with x c settled show ?thesis
      by (auto simp: rederived_def job_change_def never_rederived_def)
  qed
qed

section \<open>Aggregates: well-formedness and evolution\<close>

definition device_ok :: "device_row \<Rightarrow> bool" where
  "device_ok r \<longleftrightarrow> d_attempt r = 1 \<and> 0 \<le> d_accept_replay_count r \<and> d_accept_replay_count r \<le> 1"

definition job_row_ok :: "job_row \<Rightarrow> bool" where
  "job_row_ok r \<longleftrightarrow> 1 \<le> j_revision r \<and>
     (j_state r \<in> TERMINAL_JOB_STATES \<longleftrightarrow> j_terminal_at r \<noteq> None) \<and>
     (j_state r \<in> {J_CREATED, J_UPLOADING, J_PACKAGING} \<longrightarrow> j_artifact_id r = None) \<and>
     (j_state r \<in> {J_READY, J_RUNNING} \<union> dispatched_exact \<longrightarrow> j_artifact_id r \<noteq> None) \<and>
     (j_dispatch_enabled r \<longrightarrow> j_artifact_id r \<noteq> None \<and> j_state r \<noteq> J_READY)"

definition agg_ok :: "agg \<Rightarrow> bool" where
  "agg_ok A = (case fst A of
     None \<Rightarrow> snd A = []
   | Some r \<Rightarrow> job_row_ok r \<and> job_consistent (j_state r) (map d_state (snd A)) \<and> list_all device_ok (snd A))"

definition device_evolves :: "device_row \<Rightarrow> device_row \<Rightarrow> bool" where
  "device_evolves r r' \<longleftrightarrow> key_fields r' = key_fields r \<and> d_target_ordinal r' = d_target_ordinal r \<and>
     d_create_capabilities r' = d_create_capabilities r \<and> d_attempt r' = d_attempt r \<and>
     device_change (d_state r) (d_state r') \<and> d_accept_replay_count r \<le> d_accept_replay_count r'"

definition request_fields ::
  "job_row \<Rightarrow> job_id \<times> string \<times> string \<times> push_mode \<times> string \<times> string \<times> int \<times> int \<times> int \<times> int" where
  "request_fields r = (j_job_id r, j_client_request_id r, j_request_fingerprint r, j_mode r, j_dest_path r,
     j_source_label r, j_declared_file_count r, j_declared_total_bytes r, j_created_at r, j_create_expires_at r)"

definition job_evolves :: "job_row \<Rightarrow> job_row \<Rightarrow> bool" where
  "job_evolves r r' \<longleftrightarrow> request_fields r' = request_fields r \<and> job_change (j_state r) (j_state r') \<and>
     (j_artifact_id r \<noteq> None \<longrightarrow> j_artifact_id r' = j_artifact_id r) \<and> j_revision r \<le> j_revision r'"

text \<open>
  One operation on one aggregate: a job is never removed, its request never changes, states follow
  the tables, and any change at all raises the revision.
\<close>

definition agg_step :: "agg \<Rightarrow> agg \<Rightarrow> bool" where
  "agg_step A B = (case fst A of
     None \<Rightarrow> (case fst B of
         None \<Rightarrow> snd B = snd A
       | Some r' \<Rightarrow> j_revision r' = 1 \<and> j_state r' = J_CREATED \<and> list_all (\<lambda>d. d_state d = D_QUEUED) (snd B))
   | Some r \<Rightarrow> (case fst B of
         None \<Rightarrow> False
       | Some r' \<Rightarrow> job_evolves r r' \<and> list_all2 device_evolves (snd A) (snd B) \<and>
           (B \<noteq> A \<longrightarrow> j_revision r < j_revision r')))"

lemma device_evolves_refl [simp]: "device_evolves r r"
  by (simp add: device_evolves_def device_change_def)

lemma job_evolves_refl [simp]: "job_evolves r r"
  by (simp add: job_evolves_def job_change_def)

lemma agg_step_refl [simp]: "agg_step A A"
  by (auto simp: agg_step_def list_all2_refl split: option.splits)

lemma job_evolves_state_revision: "job_evolves r r' \<Longrightarrow> j_revision r \<le> j_revision r'"
  by (simp add: job_evolves_def)

lemma evolves_update_rows:
  assumes "\<And>d. d \<in> set ds \<Longrightarrow> p d \<Longrightarrow> device_evolves d (f d)"
  shows "list_all2 device_evolves ds (update_rows p f ds)"
  using assms by (induction ds) (auto simp: update_rows_def)

lemma rederive_row_fields:
  "request_fields (rederive_row t ds r) = request_fields r"
  "j_artifact_id (rederive_row t ds r) = j_artifact_id r"
  "j_revision (rederive_row t ds r) = j_revision r"
  "j_dispatch_enabled (rederive_row t ds r) = j_dispatch_enabled r"
  "j_job_id (rederive_row t ds r) = j_job_id r"
  "j_client_request_id (rederive_row t ds r) = j_client_request_id r"
  "j_state (rederive_row t ds r) = rederived (j_state r) (map d_state ds)"
  by (auto simp: rederive_row_def rederived_def request_fields_def split: sum.splits)

lemma rederive_row_ok:
  assumes "job_row_ok r" and "job_change (j_state r) (rederived (j_state r) (map d_state ds))"
  shows "job_row_ok (rederive_row t ds r)"
proof (cases "j_state r \<in> never_rederived \<or> rederived (j_state r) (map d_state ds) = j_state r")
  case True
  then have "rederive_row t ds r = r"
    by (cases "derive_dispatched_job_state (map d_state ds)") (auto simp: rederive_row_def rederived_def)
  with assms show ?thesis by simp
next
  case False
  then obtain d where d: "derive_dispatched_job_state (map d_state ds) = Inr d"
    by (cases "derive_dispatched_job_state (map d_state ds)") (auto simp: rederived_def)
  with False have "d \<noteq> j_state r" by (auto simp: rederived_def)
  with False d have e: "rederive_row t ds r = r\<lparr>j_state := d,
      j_terminal_at := (if is_terminal_job_state d then Some t else None), j_updated_at := t\<rparr>"
    by (simp add: rederive_row_def)
  have "j_state r \<in> {J_RUNNING} \<union> dispatched_exact"
    using False job_state_classes [of "j_state r"] by blast
  with assms(1) have "j_artifact_id r \<noteq> None" by (auto simp: job_row_ok_def)
  moreover have "d \<notin> {J_CREATED, J_UPLOADING, J_PACKAGING, J_READY}"
    using derive_dispatched [OF d] by auto
  moreover have "1 \<le> j_revision r" using assms(1) by (simp add: job_row_ok_def)
  ultimately show ?thesis
    by (simp add: e job_row_ok_def is_terminal_job_state_def)
qed

lemma bump_fields [simp]:
  "request_fields (bump t r) = request_fields r" "j_state (bump t r) = j_state r"
  "j_artifact_id (bump t r) = j_artifact_id r" "j_revision (bump t r) = j_revision r + 1"
  "j_dispatch_enabled (bump t r) = j_dispatch_enabled r" "j_job_id (bump t r) = j_job_id r"
  "j_client_request_id (bump t r) = j_client_request_id r"
  by (simp_all add: bump_def request_fields_def)

lemma bump_ok: "job_row_ok r \<Longrightarrow> job_row_ok (bump t r)"
  by (simp add: job_row_ok_def bump_def)

text \<open>
  The law every change of device rows rests on: legal row changes, one revision, one rederivation.
\<close>

lemma device_change_law:
  assumes ok: "agg_ok (Some r, ds)" and ev: "list_all2 device_evolves ds ds'"
    and dok: "list_all device_ok ds'"
    and act: "list_ex is_active ds' \<longrightarrow> list_ex is_active ds \<or> j_state r \<in> {J_RUNNING, J_RECONCILING}"
    and same: "request_fields r1 = request_fields r" "j_state r1 = j_state r" "j_artifact_id r1 = j_artifact_id r"
      "j_revision r1 > j_revision r" "job_row_ok r1"
  shows "agg_ok (Some (rederive_row t ds' r1), ds') \<and> agg_step (Some r, ds) (Some (rederive_row t ds' r1), ds')"
proof -
  have c: "job_consistent (j_state r) (map d_state ds)" and r: "job_row_ok r"
    using ok by (auto simp: agg_ok_def)
  have ch: "list_all2 device_change (map d_state ds) (map d_state ds')"
    using ev by (auto simp: list_all2_conv_all_nth device_evolves_def)
  have e: "set (map d_state xs) \<inter> ACTIVE_DEVICE_STATES \<noteq> {} \<longleftrightarrow> list_ex is_active xs" for xs
    by (induction xs) (auto simp: is_active_def)
  have R: "job_consistent (rederived (j_state r) (map d_state ds')) (map d_state ds') \<and>
      job_change (j_state r) (rederived (j_state r) (map d_state ds'))"
    using consistent_rederived [OF c ch] act e by blast
  have "job_row_ok (rederive_row t ds' r1)"
    using R rederive_row_ok same(2,5) by simp
  with R dok have "agg_ok (Some (rederive_row t ds' r1), ds')"
    by (simp add: agg_ok_def rederive_row_fields same)
  moreover have "agg_step (Some r, ds) (Some (rederive_row t ds' r1), ds')"
    using R ev same by (auto simp: agg_step_def job_evolves_def rederive_row_fields)
  ultimately show ?thesis by blast
qed

text \<open>The law of a change that concerns the job row only.\<close>

lemma job_change_law:
  assumes ok: "agg_ok (Some r, ds)" and ev: "job_evolves r r'" and rev: "j_revision r < j_revision r'"
    and rok: "job_row_ok r'" and c: "job_consistent (j_state r') (map d_state ds)"
  shows "agg_ok (Some r', ds) \<and> agg_step (Some r, ds) (Some r', ds)"
  using assms by (auto simp: agg_ok_def agg_step_def list_all2_refl)

section \<open>Keys\<close>

definition keys_ok :: "db \<Rightarrow> bool" where
  "keys_ok s \<longleftrightarrow>
     distinct (map j_job_id (db_jobs s)) \<and> distinct (map j_client_request_id (db_jobs s)) \<and>
     distinct (map d_key (db_devices s)) \<and> distinct (map d_enqueue_seq (db_devices s)) \<and>
     active_index_ok (db_devices s) \<and> d_job_id ` set (db_devices s) \<subseteq> j_job_id ` set (db_jobs s) \<and>
     distinct (map f_device_id (db_fences s)) \<and>
     distinct (map a_artifact_id (db_artifacts s)) \<and> distinct (map a_storage_name (db_artifacts s)) \<and>
     (\<forall>r \<in> set (db_jobs s). \<forall>a. j_artifact_id r = Some a \<longrightarrow> a \<in> a_artifact_id ` set (db_artifacts s)) \<and>
     (\<exists>n. db_next_enqueue_seq s = Some n \<and> d_enqueue_seq ` set (db_devices s) \<subseteq> {..<n})"

lemma keys_update_job:
  assumes "keys_ok s" and "\<And>r. j_job_id (f r) = j_job_id r" "\<And>r. j_client_request_id (f r) = j_client_request_id r"
    "\<And>r. j_artifact_id (f r) = j_artifact_id r"
  shows "keys_ok (update_job j f s)"
proof -
  have "j_job_id ` set (update_rows p f rows) = j_job_id ` set rows" for p rows
    using map_key_update_rows [of j_job_id f p rows] assms(2) by (metis list.set_map)
  then show ?thesis
    using assms by (auto simp: keys_ok_def update_job_def table_simps)
qed

lemma keys_update_devices:
  assumes "keys_ok s" and "update_devices_where p f s = Inr s'" and "\<And>r. key_fields (f r) = key_fields r"
  shows "keys_ok s'"
proof -
  let ?rows = "update_rows p f (db_devices s)"
  have k: "d_key (f r) = d_key r" "d_enqueue_seq (f r) = d_enqueue_seq r" "d_job_id (f r) = d_job_id r" for r
    using assms(3) [of r] by (simp_all add: key_fields_def)
  have s': "s' = s\<lparr>db_devices := ?rows\<rparr>" and a: "active_index_ok ?rows"
    using assms(2) by (auto simp: update_devices_where_def Let_def split: if_splits)
  have m: "map d_key ?rows = map d_key (db_devices s)" "map d_enqueue_seq ?rows = map d_enqueue_seq (db_devices s)"
    "map d_job_id ?rows = map d_job_id (db_devices s)"
    using k by (auto simp: map_key_update_rows)
  have "d_job_id ` set ?rows = d_job_id ` set (db_devices s)"
    "d_enqueue_seq ` set ?rows = d_enqueue_seq ` set (db_devices s)"
    using m by (metis list.set_map)+
  then show ?thesis
    using assms(1) m a unfolding keys_ok_def s' by simp
qed

lemma keys_delete_fences: "keys_ok s \<Longrightarrow> keys_ok (s\<lparr>db_fences := delete_rows p (db_fences s)\<rparr>)"
  by (auto simp: keys_ok_def delete_rows_def distinct_map_filter)

lemma keys_delete_fence: "keys_ok s \<Longrightarrow> keys_ok (delete_fence d s)"
  by (simp add: delete_fence_def keys_delete_fences)

lemma keys_delete_matching_fence: "keys_ok s \<Longrightarrow> keys_ok (delete_matching_fence d j a s)"
  by (simp add: delete_matching_fence_def keys_delete_fences)

lemma keys_upsert_fence:
  assumes "keys_ok s" and "upsert_fence f s = Inr s'"
  shows "keys_ok s'"
proof -
  have "map f_device_id (update_rows (\<lambda>r. f_device_id r = f_device_id f) (\<lambda>_. f\<lparr>f_created_at := c\<rparr>) rows) =
      map f_device_id rows" for c rows
    by (auto simp: update_rows_def)
  then obtain fs where "s' = s\<lparr>db_fences := fs\<rparr>"
    "map f_device_id fs = map f_device_id (db_fences s) \<or>
     map f_device_id fs = map f_device_id (db_fences s) @ [f_device_id f] \<and> f_device_id f \<notin> f_device_id ` set (db_fences s)"
    using assms(2) lookup_row_None_iff [of f_device_id "f_device_id f" "db_fences s"]
    by (force simp: upsert_fence_def get_fence_def split: if_splits option.splits)
  moreover have "distinct (map f_device_id (db_fences s))" using assms(1) by (simp add: keys_ok_def)
  ultimately have "s' = s\<lparr>db_fences := fs\<rparr>" "distinct (map f_device_id fs)"
    by (auto simp: distinct_append)
  then show ?thesis
    using assms(1) unfolding keys_ok_def by simp
qed

lemma keys_increment_revision: "keys_ok s \<Longrightarrow> keys_ok (increment_revision j t s)"
  unfolding increment_revision_def by (rule keys_update_job) simp_all

lemma keys_rederive_job:
  assumes "keys_ok s" and "rederive_job j t s = Inr s'"
  shows "keys_ok s'"
proof -
  have "s' = s \<or> (\<exists>d c. s' = update_job j (\<lambda>r. r\<lparr>j_state := d, j_terminal_at := c, j_updated_at := t\<rparr>) s)"
    using assms(2) by (auto simp: rederive_job_def rbind_eq_Inr split: option.splits if_splits)
  then show ?thesis
    using assms(1) keys_update_job [of s] by fastforce
qed

lemma keys_finish_device_change:
  "keys_ok s \<Longrightarrow> finish_device_change j t s = Inr (snap, s') \<Longrightarrow> keys_ok s'"
  by (auto simp: finish_device_change_def rbind_eq_Inr intro: keys_rederive_job keys_increment_revision)

lemmas keys_intros = keys_update_job keys_update_devices keys_delete_fence keys_delete_matching_fence
  keys_upsert_fence keys_increment_revision keys_rederive_job keys_finish_device_change

text \<open>The fences are not concerned by job and device statements.\<close>

lemma fences_update_job [simp]: "db_fences (update_job j f s) = db_fences s"
  by (simp add: update_job_def)

lemma fences_increment [simp]: "db_fences (increment_revision j t s) = db_fences s"
  by (simp add: increment_revision_def)

lemma fences_update_devices: "update_devices_where p f s = Inr s' \<Longrightarrow> db_fences s' = db_fences s"
  by (auto simp: update_devices_where_def Let_def split: if_splits)

lemma fences_rederive: "rederive_job j t s = Inr s' \<Longrightarrow> db_fences s' = db_fences s"
  by (auto simp: rederive_job_def rbind_eq_Inr split: option.splits if_splits)

lemma fences_finish: "finish_device_change j t s = Inr (snap, s') \<Longrightarrow> db_fences s' = db_fences s"
  by (auto simp: finish_device_change_def rbind_eq_Inr dest: fences_rederive)

section \<open>The invariant\<close>

text \<open>
  A fence names either an opaque execution or a job of the server, and in the second case the
  assignment of that job to the device ended unconfirmed.
\<close>

definition fence_ok :: "db \<Rightarrow> fence_row \<Rightarrow> bool" where
  "fence_ok s f = (case f_blocking_job_id f of
     None \<Rightarrow> f_blocking_opaque_identity f \<noteq> None
   | Some j \<Rightarrow> f_blocking_opaque_identity f = None \<and> f_blocking_attempt f = Some 1 \<and>
       (\<exists>r \<in> set (job_devices s j). d_device_id r = f_device_id f \<and> d_state r = D_UNCONFIRMED))"

definition db_inv :: "db \<Rightarrow> bool" where
  "db_inv s \<longleftrightarrow> keys_ok s \<and> (\<forall>k. agg_ok (agg s k)) \<and> (\<forall>f \<in> set (db_fences s). fence_ok s f)"

definition inv_step :: "db \<Rightarrow> db \<Rightarrow> bool" where
  "inv_step s s' \<longleftrightarrow> db_inv s' \<and> (\<forall>k. agg_step (agg s k) (agg s' k))"

lemma inv_step_refl: "db_inv s \<Longrightarrow> inv_step s s"
  by (simp add: inv_step_def)

lemma agg_step_unconfirmed:
  assumes "agg_step (agg s j) (agg s' j)" and "get_job s j \<noteq> None"
    and "r \<in> set (job_devices s j)" "d_device_id r = d" "d_state r = D_UNCONFIRMED"
  shows "\<exists>r' \<in> set (job_devices s' j). d_device_id r' = d \<and> d_state r' = D_UNCONFIRMED"
proof -
  have "list_all2 device_evolves (job_devices s j) (job_devices s' j)"
    using assms(1,2) by (auto simp: agg_step_def split: option.splits)
  then obtain r' where "r' \<in> set (job_devices s' j)" "device_evolves r r'"
    using assms(3) by (blast dest: list_all2_member)
  then show ?thesis
    using assms(4,5) device_change_terminal [of "d_state r" "d_state r'"]
    by (auto simp: device_evolves_def key_fields_def TERMINAL_DEVICE_STATES_def)
qed

lemma fence_ok_step:
  assumes "fence_ok s f" and "\<And>k. agg_ok (agg s k)" and "\<And>k. agg_step (agg s k) (agg s' k)"
  shows "fence_ok s' f"
proof (cases "f_blocking_job_id f")
  case None
  with assms(1) show ?thesis by (simp add: fence_ok_def)
next
  case (Some j)
  with assms(1) obtain r where r: "r \<in> set (job_devices s j)" "d_device_id r = f_device_id f" "d_state r = D_UNCONFIRMED"
    by (auto simp: fence_ok_def)
  have "get_job s j \<noteq> None"
    using assms(2) [of j] r(1) by (cases "get_job s j") (auto simp: agg_ok_def)
  from agg_step_unconfirmed [OF assms(3) this r] Some assms(1)
  show ?thesis by (simp add: fence_ok_def)
qed

lemma inv_stepI:
  assumes "db_inv s" and "keys_ok s'" and "\<And>f. f \<in> set (db_fences s') \<Longrightarrow> f \<in> set (db_fences s) \<or> fence_ok s' f"
    and "\<And>k. agg_ok (agg s' k) \<and> agg_step (agg s k) (agg s' k)"
  shows "inv_step s s'"
  using assms fence_ok_step unfolding db_inv_def inv_step_def by blast

end
