(* ===== verification/Push_Steps.thy ===== *)
theory Push_Steps
  imports Push_Invariants
begin

text \<open>
  Every mutating operation of the store and of the manager keeps the invariant and changes each
  aggregate by one legal step: one lemma per operation, by the laws of \<open>Push_Invariants\<close>.
\<close>

section \<open>Transactions\<close>

text \<open>An operation that raises leaves the database as it was.\<close>

lemma transact_cases:
  assumes "transact body s = (x, s')"
  shows "s' = s \<or> (\<exists>a. body s = Inr (a, s') \<and> x = Inr a)"
  using assms by (auto simp: transact_def split: sum.splits prod.splits)

lemma transact_step:
  assumes "transact body s = (x, s')" and "db_inv s"
    and "\<And>a. body s = Inr (a, s') \<Longrightarrow> inv_step s s'"
  shows "inv_step s s'"
  using transact_cases [OF assms(1)] assms(2,3) inv_step_refl by auto

lemma agg_lookup: "get_job s j = Some r \<Longrightarrow> agg s j = (Some r, job_devices s j)"
  by (simp add: agg_def)

lemma inv_agg: "db_inv s \<Longrightarrow> get_job s j = Some r \<Longrightarrow> agg_ok (Some r, job_devices s j)"
  by (metis db_inv_def agg_lookup)

lemma inv_job_ok:
  assumes "db_inv s" and "get_job s j = Some r"
  shows "job_row_ok r" and "job_consistent (j_state r) (map d_state (job_devices s j))"
  using inv_agg [OF assms] by (auto simp: agg_ok_def)

lemma job_update_step:
  assumes "db_inv s" and "get_job s j = Some r"
    and "\<And>r. j_job_id (f r) = j_job_id r" "\<And>r. j_client_request_id (f r) = j_client_request_id r"
    and k: "keys_ok (update_job j f s)"
    and "job_evolves r (f r)" "j_revision r < j_revision (f r)" "job_row_ok (f r)"
    and "job_consistent (j_state (f r)) (map d_state (job_devices s j))"
  shows "inv_step s (update_job j f s)"
proof (rule inv_stepI [OF assms(1) k])
  fix k
  show "agg_ok (agg (update_job j f s) k) \<and> agg_step (agg s k) (agg (update_job j f s) k)"
  proof (cases "k = j")
    case True
    with assms(2) show ?thesis
      using job_change_law [OF inv_agg [OF assms(1,2)] assms(6-9)]
      by (simp add: agg_update_job [OF assms(3)] agg_lookup)
  next
    case False
    then show ?thesis
      using assms(1) by (simp add: agg_update_job [OF assms(3)] db_inv_def)
  qed
qed simp

lemma consistent_frozen:
  "job_consistent a xs \<Longrightarrow> a \<in> never_rederived \<Longrightarrow> b \<in> never_rederived \<Longrightarrow> job_consistent b xs"
  by (auto simp: job_consistent_def never_rederived_def dispatched_exact_def)

section \<open>Job rows\<close>

text \<open>A change of the job row that keeps its artifact.\<close>

lemma job_row_step:
  assumes "db_inv s" and "get_job s j = Some r"
    and "\<And>r. request_fields (f r) = request_fields r" and "\<And>r. j_artifact_id (f r) = j_artifact_id r"
    and "job_change (j_state r) (j_state (f r))" "j_revision (f r) = j_revision r + 1" "job_row_ok (f r)"
    and "j_state r \<in> never_rederived \<and> j_state (f r) \<in> never_rederived \<or> j_state (f r) = j_state r"
  shows "inv_step s (update_job j f s)"
proof -
  have k: "j_job_id (f x) = j_job_id x" "j_client_request_id (f x) = j_client_request_id x" for x
    using assms(3) [of x] by (simp_all add: request_fields_def)
  have "keys_ok (update_job j f s)"
    using assms(1) keys_update_job [OF _ k] assms(4) by (simp add: db_inv_def)
  moreover have "job_consistent (j_state (f r)) (map d_state (job_devices s j))"
    using inv_job_ok [OF assms(1,2)] assms(8) consistent_frozen by metis
  ultimately show ?thesis
    using job_update_step [OF assms(1,2) k] assms(3-7) by (simp add: job_evolves_def)
qed

lemma interrupt_expired_step:
  assumes "db_inv s" and "get_job s j = Some r" and "j_state r = J_CREATED"
  shows "inv_step s (update_job j (interrupt_expired now) s)"
  using inv_job_ok(1) [OF assms(1,2)] assms(3)
  by (intro job_row_step [OF assms(1,2)])
    (auto simp: interrupt_expired_def request_fields_def job_change_def job_row_ok_def
      TERMINAL_JOB_STATES_def never_rederived_def dispatched_exact_def)

lemma start_upload_step:
  assumes "start_upload j now s = (x, s')" and "db_inv s"
  shows "inv_step s s'"
proof -
  consider "s' = s" | r where "get_job s j = Some r" "j_state r = J_CREATED"
      "s' = update_job j (interrupt_expired now) s"
    | r where "get_job s j = Some r" "j_state r = J_CREATED"
      "s' = update_job j (\<lambda>r. r\<lparr>j_state := J_UPLOADING, j_revision := j_revision r + 1,
                       j_upload_started_at := Some now, j_updated_at := now\<rparr>) s"
    using assms(1) by (auto simp: start_upload_def Let_def split: option.splits if_splits sum.splits)
  then show ?thesis
  proof cases
    case 3
    then show ?thesis
      using inv_job_ok(1) [OF assms(2) 3(1)] unfolding 3(3)
      by (intro job_row_step [OF assms(2) 3(1)])
        (auto simp: request_fields_def job_change_def job_row_ok_def TERMINAL_JOB_STATES_def
          never_rederived_def dispatched_exact_def)
  qed (use assms(2) inv_step_refl interrupt_expired_step in auto)
qed

lemma expire_created_step:
  assumes "expire_created j expected now s = (x, s')" and "db_inv s"
  shows "inv_step s s'"
  using assms inv_step_refl interrupt_expired_step [OF assms(2), of j]
  by (auto simp: expire_created_def transact_def Let_def rbind_eq_Inr split: option.splits if_splits sum.splits
      elim!: rbind.elims)

lemma mark_packaging_step:
  assumes "mark_packaging j n b now0 now s = (x, s')" and "db_inv s"
  shows "inv_step s s'"
  using assms(1) unfolding mark_packaging_def simple_job_transition_def
proof (rule transact_step [OF _ assms(2)])
  let ?f = "\<lambda>r. (r\<lparr>j_state := J_PACKAGING, j_revision := j_revision r + 1, j_updated_at := now\<rparr>)
    \<lparr>j_actual_file_count := Some n, j_actual_total_bytes := Some b, j_packaging_started_at := Some now0\<rparr>"
  fix a
  assume "(case get_job s j of
       None \<Rightarrow> Inl (StoreNotFound j)
     | Some row \<Rightarrow>
         if j_state row \<noteq> J_UPLOADING
         then Inl (StoreConflict (''job is '' @ job_state_value (j_state row) @ '', expected '' @ job_state_value J_UPLOADING))
         else rbind (validate_job_transition (j_state row) J_PACKAGING) (\<lambda>_.
           let s' = update_job j ?f s in
           rbind (snapshot_of s' j) (\<lambda>snap. Inr (snap, s')))) = Inr (a, s')"
  then obtain r where r: "get_job s j = Some r" "j_state r = J_UPLOADING" "s' = update_job j ?f s"
    by (auto simp: rbind_eq_Inr Let_def split: option.splits if_splits)
  show "inv_step s s'"
    using inv_job_ok(1) [OF assms(2) r(1)] r(2) unfolding r(3)
    by (intro job_row_step [OF assms(2) r(1)])
      (auto simp: request_fields_def job_change_def job_row_ok_def TERMINAL_JOB_STATES_def
        never_rederived_def dispatched_exact_def)
qed

lemma keys_publish:
  assumes "keys_ok s" and "insert_artifact a s = Inr s1" and "\<And>r. j_job_id (f r) = j_job_id r"
    and "\<And>r. j_client_request_id (f r) = j_client_request_id r"
    and "\<And>r. j_artifact_id (f r) = Some (a_artifact_id a)"
  shows "keys_ok (update_job j f s1)"
proof -
  have s1: "s1 = s\<lparr>db_artifacts := db_artifacts s @ [a]\<rparr>"
    and n: "a_artifact_id a \<notin> a_artifact_id ` set (db_artifacts s)" "a_storage_name a \<notin> a_storage_name ` set (db_artifacts s)"
    using assms(2) by (auto simp: insert_artifact_def split: if_splits)
  have i: "j_job_id ` set (update_rows p f rows) = j_job_id ` set rows" for p rows
    using map_key_update_rows [of j_job_id f p rows] assms(3) by (metis list.set_map)
  have art: "\<forall>r \<in> set (update_rows p f (db_jobs s)). \<forall>b. j_artifact_id r = Some b \<longrightarrow>
      b \<in> a_artifact_id ` set (db_artifacts s @ [a])" for p
    using assms(1,5) by (auto simp: keys_ok_def set_update_rows)
  show ?thesis
    using assms(1,3,4) n i art unfolding keys_ok_def s1 update_job_def
    by (simp add: map_key_update_rows)
qed

lemma publish_artifact_step:
  assumes "publish_artifact j a now s = (x, s')" and "db_inv s"
  shows "inv_step s s'"
proof -
  let ?f = "\<lambda>r. r\<lparr>j_state := J_READY, j_artifact_id := Some (p_artifact_id a),
                      j_ready_at := Some now, j_revision := j_revision r + 1, j_updated_at := now\<rparr>"
  consider "s' = s" | r row s1 where "get_job s j = Some r" "j_state r = J_PACKAGING"
      "a_artifact_id row = p_artifact_id a" "insert_artifact row s = Inr s1" "s' = update_job j ?f s1"
    using assms(1)
    by (force simp: publish_artifact_def transact_def rbind_eq_Inr rbind_eq_Inl Let_def
        split: option.splits if_splits sum.splits)
  then show ?thesis
  proof cases
    case 2
    have same: "agg s1 k = agg s k" for k
      by (rule agg_insert_artifact [OF 2(4)])
    have g: "get_job s1 j = Some r" "job_devices s1 j = job_devices s j"
      using same [of j] 2(1) by (simp_all add: agg_def)
    have ok: "job_row_ok r" "job_consistent (j_state r) (map d_state (job_devices s j))"
      by (rule inv_job_ok [OF assms(2) 2(1)])+
    have r': "agg_ok (Some (?f r), job_devices s j) \<and> agg_step (Some r, job_devices s j) (Some (?f r), job_devices s j)"
    proof (rule job_change_law [OF inv_agg [OF assms(2) 2(1)]])
      show "job_consistent (j_state (?f r)) (map d_state (job_devices s j))"
        using consistent_frozen [OF ok(2)] 2(2) by (simp add: never_rederived_def)
    qed (use ok(1) 2(2) in \<open>auto simp: job_evolves_def request_fields_def job_change_def job_row_ok_def
          TERMINAL_JOB_STATES_def dispatched_exact_def\<close>)
    show ?thesis
    proof (rule inv_stepI [OF assms(2)])
      show "keys_ok s'"
        unfolding 2(5) using assms(2) 2(3,4) by (intro keys_publish [of s row]) (auto simp: db_inv_def)
      show "f \<in> set (db_fences s) \<or> fence_ok s' f" if "f \<in> set (db_fences s')" for f
        using that 2(4,5) by (auto simp: insert_artifact_def split: if_splits)
      show "agg_ok (agg s' k) \<and> agg_step (agg s k) (agg s' k)" for k
        using r' assms(2) 2(1) g by (simp add: 2(5) agg_update_job same agg_lookup db_inv_def)
    qed
  qed (use assms(2) inv_step_refl in auto)
qed

definition pre_dispatch :: "job_state set" where
  "pre_dispatch = {J_CREATED, J_UPLOADING, J_PACKAGING, J_READY}"

lemma fail_pre_dispatch_step:
  assumes "fail_pre_dispatch j target code detail now s = (x, s')" and "db_inv s"
    and "\<And>r. get_job s j = Some r \<Longrightarrow> j_state r \<notin> {J_RUNNING, J_RECONCILING}"
  shows "inv_step s s'"
proof -
  let ?f = "\<lambda>r. r\<lparr>j_state := target, j_revision := j_revision r + 1, j_updated_at := now,
     j_terminal_at := Some now, j_failure_code := Some code, j_failure_detail := Some detail\<rparr>"
  consider "s' = s" | r where "get_job s j = Some r" "target \<in> {J_FAILED, J_INTERRUPTED}"
      "validate_job_transition (j_state r) target = Inr ()" "s' = update_job j ?f s"
    using assms(1)
    by (auto simp: fail_pre_dispatch_def transact_def rbind_eq_Inr rbind_eq_Inl Let_def
        split: option.splits if_splits sum.splits)
  then show ?thesis
  proof cases
    case 2
    have c: "job_change (j_state r) target" by (rule validate_job_change [OF 2(3)])
    have "j_state r \<in> never_rederived"
      using c 2(2) assms(3) [OF 2(1)] by (cases "j_state r") (auto simp: job_change_def never_rederived_def)
    with c 2(2) inv_job_ok(1) [OF assms(2) 2(1)] show ?thesis
      unfolding 2(4)
      by (intro job_row_step [OF assms(2) 2(1)])
        (auto simp: request_fields_def job_row_ok_def TERMINAL_JOB_STATES_def never_rederived_def
          dispatched_exact_def)
  qed (use assms(2) inv_step_refl in auto)
qed

lemma consistent_ready_running: "job_consistent J_READY xs \<Longrightarrow> job_consistent J_RUNNING xs"
proof -
  assume c: "job_consistent J_READY xs"
  then have ne: "xs \<noteq> []" and na: "set xs \<inter> ACTIVE_DEVICE_STATES = {}"
    by (auto simp: job_consistent_def never_rederived_def)
  show ?thesis
  proof (cases "D_QUEUED \<in> set xs")
    case True
    moreover have "D_RECONCILING \<notin> set xs" using na by (auto simp: ACTIVE_DEVICE_STATES_def)
    ultimately have "derive_dispatched_job_state xs = Inr J_RUNNING"
      using ne by (auto simp: derive_dispatched_job_state_def list_ex_iff)
    with ne show ?thesis by (simp add: job_consistent_def never_rederived_def dispatched_exact_def)
  next
    case False
    with na have "set xs \<subseteq> TERMINAL_DEVICE_STATES"
      by (auto simp: device_state_cases_terminal)
    with ne show ?thesis by (simp add: job_consistent_def never_rederived_def dispatched_exact_def)
  qed
qed

lemma enable_dispatch_step:
  assumes "enable_dispatch j now s = (x, s')" and "db_inv s"
  shows "inv_step s s'"
proof -
  define f where "f st r = r\<lparr>j_state := (if st = J_READY then J_RUNNING else st),
     j_dispatch_enabled := True, j_dispatch_paused_reason := None,
     j_dispatch_started_at := (case j_dispatch_started_at r of None \<Rightarrow> Some now | Some t \<Rightarrow> Some t),
     j_revision := j_revision r + 1, j_updated_at := now\<rparr>" for st and r :: job_row
  consider "s' = s" | r where "get_job s j = Some r" "j_state r \<in> {J_READY, J_RUNNING, J_RECONCILING}"
      "s' = update_job j (f (j_state r)) s"
    using assms(1)
    by (auto simp: f_def [abs_def] enable_dispatch_def transact_def rbind_eq_Inr rbind_eq_Inl Let_def
        split: option.splits if_splits sum.splits)
  then show ?thesis
  proof cases
    case 2
    have ok: "job_row_ok r" "job_consistent (j_state r) (map d_state (job_devices s j))"
      by (rule inv_job_ok [OF assms(2) 2(1)])+
    have c: "job_consistent (j_state (f (j_state r) r)) (map d_state (job_devices s j))"
      using ok(2) consistent_ready_running by (auto simp: f_def)
    have "keys_ok (update_job j (f (j_state r)) s)"
      using assms(2) by (intro keys_update_job) (auto simp: f_def db_inv_def)
    moreover have "job_evolves r (f (j_state r) r)"
      using 2(2) by (auto simp: f_def job_evolves_def request_fields_def job_change_def)
    moreover have "job_row_ok (f (j_state r) r)"
      using 2(2) ok(1) unfolding job_row_ok_def f_def
      by (elim insertE emptyE) (simp_all add: TERMINAL_JOB_STATES_def dispatched_exact_def)
    ultimately show ?thesis
      using c unfolding 2(3) by (intro job_update_step [OF assms(2) 2(1)]) (simp_all add: f_def)
  qed (use assms(2) inv_step_refl in auto)
qed

section \<open>Device rows\<close>

definition dispatching_job :: "db \<Rightarrow> job_id \<Rightarrow> bool" where
  "dispatching_job s j = (case get_job s j of None \<Rightarrow> False | Some r \<Rightarrow> j_state r \<in> {J_RUNNING, J_RECONCILING})"

definition row_change_ok :: "db \<Rightarrow> job_id \<Rightarrow> device_row \<Rightarrow> device_row \<Rightarrow> bool" where
  "row_change_ok s j r r' \<longleftrightarrow> device_evolves r r' \<and> device_ok r' \<and>
     (is_active r' \<longrightarrow> is_active r \<or> dispatching_job s j)"

lemma row_change_ok_update_rows:
  assumes "\<And>r. r \<in> set ds \<Longrightarrow> p r \<Longrightarrow> row_change_ok s j r (f r)" and "list_all device_ok ds"
  shows "list_all2 device_evolves ds (update_rows p f ds)" and "list_all device_ok (update_rows p f ds)"
    and "list_ex is_active (update_rows p f ds) \<longrightarrow> list_ex is_active ds \<or> dispatching_job s j"
  using assms
  by (auto simp: update_rows_def list_all_iff list_ex_iff row_change_ok_def list.rel_map intro!: list.rel_refl_strong)

text \<open>Rows of one job change, the job gets a revision and is rederived.\<close>

lemma devices_agg_step:
  assumes "db_inv s" and "get_job s j = Some r"
    and "\<And>r. r \<in> set (job_devices s j) \<Longrightarrow> p r \<Longrightarrow> row_change_ok s j r (f r)"
    and "ds' = update_rows p f (job_devices s j)"
  shows "agg_ok (Some (rederive_row t ds' (bump t r)), ds') \<and>
    agg_step (Some r, job_devices s j) (Some (rederive_row t ds' (bump t r)), ds')"
proof -
  have ok: "agg_ok (Some r, job_devices s j)" by (rule inv_agg [OF assms(1,2)])
  then have d: "list_all device_ok (job_devices s j)" and r: "job_row_ok r" by (auto simp: agg_ok_def)
  have c: "list_all2 device_evolves (job_devices s j) ds'" "list_all device_ok ds'"
    "list_ex is_active ds' \<longrightarrow> list_ex is_active (job_devices s j) \<or> dispatching_job s j"
    unfolding assms(4) using row_change_ok_update_rows [of "job_devices s j" p s j f] assms(3) d by auto
  show ?thesis
    using c(3) assms(2)
    by (intro device_change_law [OF ok c(1,2)]) (auto simp: dispatching_job_def bump_ok r)
qed

lemma update_rows_other_job:
  "(\<And>r. p r \<Longrightarrow> d_job_id r = j) \<Longrightarrow> k \<noteq> j \<Longrightarrow> update_rows p f (job_devices s k) = job_devices s k"
  by (rule update_rows_same) (auto simp: job_devices_def)

lemma key_fields_job: "key_fields (f r) = key_fields r \<Longrightarrow> d_job_id (f r) = d_job_id r"
  by (simp add: key_fields_def)

lemma get_job_increment:
  "get_job (increment_revision j t s) k = (if k = j then map_option (bump t) (get_job s j) else get_job s k)"
  using agg_increment_revision [of j t s k] by (simp add: agg_def split: if_splits)

lemma agg_bump_rederive:
  assumes "rederive_job j t (increment_revision j t s) = Inr s'"
  shows "agg s' k = (if k = j then (map_option (rederive_row t (job_devices s j) \<circ> bump t) (get_job s j), job_devices s j)
                     else agg s k)"
proof -
  have a: "get_job (increment_revision j t s) j = map_option (bump t) (get_job s j)"
    "job_devices (increment_revision j t s) j = job_devices s j"
    using agg_increment_revision [of j t s j] by (simp_all add: agg_def)
  show ?thesis
    using agg_rederive_job [OF assms, of k] a
    by (auto simp: agg_increment_revision option.map_comp)
qed

lemma rederive_has_job: "rederive_job j t (increment_revision j t s) = Inr x \<Longrightarrow> \<exists>r. get_job s j = Some r"
  by (cases "get_job s j") (auto simp: rederive_job_def get_job_increment)

lemma finish_rederive:
  "finish_device_change j t s = Inr (snap, s') \<Longrightarrow> rederive_job j t (increment_revision j t s) = Inr s'"
  by (auto simp: finish_device_change_def rbind_eq_Inr)

lemma devices_rederive_step:
  assumes inv: "db_inv s" and upd: "update_devices_where p f s = Inr s1"
    and mid: "\<And>k. agg s2 k = agg s1 k" "keys_ok s1 \<Longrightarrow> keys_ok s2" "set (db_fences s2) \<subseteq> set (db_fences s1)"
    and fin: "rederive_job j t (increment_revision j t s2) = Inr s'"
    and key: "\<And>r. key_fields (f r) = key_fields r" and sel: "\<And>r. p r \<Longrightarrow> d_job_id r = j"
    and ev: "\<And>r. r \<in> set (job_devices s j) \<Longrightarrow> p r \<Longrightarrow> row_change_ok s j r (f r)"
  shows "inv_step s s' \<and> (\<forall>k. k \<noteq> j \<longrightarrow> agg s' k = agg s k)"
proof -
  have a1: "agg s2 k = (get_job s k, update_rows p f (job_devices s k))" for k
    using agg_update_devices_where [OF upd, of k] key key_fields_job mid(1) by metis
  have other: "agg s' k = agg s k" if "k \<noteq> j" for k
    using that a1 [of k] update_rows_other_job [of p j k f s] sel
    by (simp add: agg_bump_rederive [OF fin] agg_def [of s])
  have g: "get_job s2 j = get_job s j" "job_devices s2 j = update_rows p f (job_devices s j)"
    using a1 [of j] by (simp_all add: agg_def)
  obtain r where r: "get_job s j = Some r"
    using rederive_has_job [OF fin] g(1) by auto
  have "inv_step s s'"
  proof (rule inv_stepI [OF inv])
    show "keys_ok s'"
      using keys_rederive_job [OF keys_increment_revision [OF mid(2)] fin] keys_update_devices [OF _ upd key] inv
      by (simp add: db_inv_def)
    show "x \<in> set (db_fences s) \<or> fence_ok s' x" if "x \<in> set (db_fences s')" for x
      using that mid(3) fences_rederive [OF fin] fences_update_devices [OF upd] by auto
    show "agg_ok (agg s' k) \<and> agg_step (agg s k) (agg s' k)" for k
    proof (cases "k = j")
      case True
      then show ?thesis
        using devices_agg_step [OF inv r, of p f "job_devices s2 j" t] ev r
        by (simp add: agg_bump_rederive [OF fin] g agg_lookup)
    next
      case False
      with other inv show ?thesis by (simp add: db_inv_def)
    qed
  qed
  with other show ?thesis by blast
qed

lemma devices_update_step:
  assumes "db_inv s" and "update_devices_where p f s = Inr s1"
    and "\<And>k. agg s2 k = agg s1 k" "keys_ok s1 \<Longrightarrow> keys_ok s2" "set (db_fences s2) \<subseteq> set (db_fences s1)"
    and "finish_device_change j t s2 = Inr (snap, s')"
    and "\<And>r. key_fields (f r) = key_fields r" and "\<And>r. p r \<Longrightarrow> d_job_id r = j"
    and "\<And>r. r \<in> set (job_devices s j) \<Longrightarrow> p r \<Longrightarrow> row_change_ok s j r (f r)"
  shows "inv_step s s'"
  using devices_rederive_step [OF assms(1-5) finish_rederive [OF assms(6)]] assms(7-9) by blast

lemma get_device_iff:
  "keys_ok s \<Longrightarrow> get_device s j d = Some r \<longleftrightarrow> r \<in> set (db_devices s) \<and> d_job_id r = j \<and> d_device_id r = d"
  unfolding get_device_def keys_ok_def by (subst lookup_row_Some_iff) auto

lemma get_device_job: "get_device s j d = Some r \<Longrightarrow> r \<in> set (job_devices s j) \<and> d_device_id r = d"
  by (auto simp: get_device_def job_devices_def dest!: lookup_row_SomeD)

lemma unique_device:
  assumes "db_inv s" and "get_device s j d = Some row"
    and "r \<in> set (job_devices s j)" and "d_key r = (j, d)"
  shows "r = row"
proof -
  have "keys_ok s" using assms(1) by (simp add: db_inv_def)
  then have "get_device s j d = Some r"
    using assms(3,4) by (subst get_device_iff) (auto simp: job_devices_def)
  with assms(2) show ?thesis by simp
qed

lemma inv_device_ok: "db_inv s \<Longrightarrow> get_device s j d = Some row \<Longrightarrow> device_ok row"
proof -
  assume i: "db_inv s" and g: "get_device s j d = Some row"
  have "agg_ok (agg s j)" using i by (simp add: db_inv_def)
  with get_device_job [OF g] show "device_ok row"
    by (cases "get_job s j") (auto simp: agg_ok_def list_all_iff)
qed

text \<open>The usual case: one row, addressed by its key.\<close>

lemma device_update_step:
  assumes inv: "db_inv s" and row: "get_device s j d = Some row"
    and upd: "update_device j d f s = Inr s1" and fin: "finish_device_change j t s1 = Inr (snap, s')"
    and key: "\<And>r. key_fields (f r) = key_fields r" and ev: "row_change_ok s j row (f row)"
  shows "inv_step s s'"
  using inv upd [unfolded update_device_def] _ _ _ fin key
proof (rule devices_update_step)
  show "row_change_ok s j r (f r)" if "r \<in> set (job_devices s j)" "d_key r = (j, d)" for r
    using unique_device [OF inv row that] ev by simp
qed auto

section \<open>Transitions and results\<close>

lemma key_fields_state [simp]: "key_fields (r\<lparr>d_state := a, d_updated_at := b\<rparr>) = key_fields r"
  by (simp add: key_fields_def)

lemma delete_matching_fence_subset: "set (db_fences (delete_matching_fence d j a s)) \<subseteq> set (db_fences s)"
  by (auto simp: delete_matching_fence_def delete_rows_def)

fun sets_replay_count :: "device_field \<Rightarrow> bool" where
  "sets_replay_count (F_accept_replay_count v) = True"
| "sets_replay_count _ = False"

lemma apply_fields_keep:
  "key_fields (fold apply_field fs r) = key_fields r"
  "d_target_ordinal (fold apply_field fs r) = d_target_ordinal r"
  "d_create_capabilities (fold apply_field fs r) = d_create_capabilities r"
  "d_attempt (fold apply_field fs r) = d_attempt r" "d_state (fold apply_field fs r) = d_state r"
proof -
  have a: "key_fields (apply_field f r) = key_fields r"
    "d_target_ordinal (apply_field f r) = d_target_ordinal r"
    "d_create_capabilities (apply_field f r) = d_create_capabilities r"
    "d_attempt (apply_field f r) = d_attempt r" "d_state (apply_field f r) = d_state r" for f r
    by (cases f; simp add: key_fields_def)+
  show "key_fields (fold apply_field fs r) = key_fields r"
    "d_target_ordinal (fold apply_field fs r) = d_target_ordinal r"
    "d_create_capabilities (fold apply_field fs r) = d_create_capabilities r"
    "d_attempt (fold apply_field fs r) = d_attempt r" "d_state (fold apply_field fs r) = d_state r"
    by (induction fs arbitrary: r) (simp_all add: a)
qed

lemma apply_fields_replay:
  "\<not> list_ex sets_replay_count fs \<Longrightarrow> d_accept_replay_count (fold apply_field fs r) = d_accept_replay_count r"
proof (induction fs arbitrary: r)
  case (Cons f fs)
  then show ?case by (cases f) simp_all
qed simp

lemma stamp_terminal_replay: "list_ex sets_replay_count (stamp_terminal t now fs) = list_ex sets_replay_count fs"
  by (simp add: stamp_terminal_def)

text \<open>A row whose key, target data and counters stay and whose state makes a legal step.\<close>

lemma row_change_okI:
  assumes "device_ok r" and "key_fields r' = key_fields r" "d_target_ordinal r' = d_target_ordinal r"
    "d_create_capabilities r' = d_create_capabilities r" "d_attempt r' = d_attempt r"
    and "d_accept_replay_count r' = d_accept_replay_count r"
    and "device_change (d_state r) (d_state r')"
    and "d_state r' = D_WAITING_TRANSFER \<longrightarrow> d_state r = D_WAITING_TRANSFER \<or> dispatching_job s j"
  shows "row_change_ok s j r r'"
  using assms device_change_active [OF assms(7)]
  by (auto simp: row_change_ok_def device_ok_def device_evolves_def is_active_def ACTIVE_DEVICE_STATES_def)

lemma transition_device_step:
  assumes "transition_device j d expected target flds idem now s = (x, s')" and inv: "db_inv s"
    and "target \<noteq> D_WAITING_TRANSFER" and "\<not> list_ex sets_replay_count flds"
  shows "inv_step s s'"
proof -
  let ?f = "\<lambda>r. fold apply_field (stamp_terminal target now flds) (r\<lparr>d_state := target, d_updated_at := now\<rparr>)"
  consider "s' = s" | row snap s1 where "get_device s j d = Some row"
      "validate_device_transition (d_state row) target = Inr ()"
      "update_device j d ?f s = Inr s1" "finish_device_change j now s1 = Inr (snap, s')"
    using assms(1)
    by (auto simp: transition_device_def transact_def rbind_eq_Inr rbind_eq_Inl
        split: option.splits if_splits sum.splits)
  then show ?thesis
  proof cases
    case 2
    have "row_change_ok s j row (?f row)"
      using inv_device_ok [OF inv 2(1)] validate_device_change [OF 2(2)] assms(3,4)
      by (intro row_change_okI)
        (simp_all add: apply_fields_keep apply_fields_replay stamp_terminal_replay)
    then show ?thesis
      using device_update_step [OF inv 2(1) 2(3,4)] by (simp add: apply_fields_keep)
  qed (use inv inv_step_refl in auto)
qed

lemma mark_dispatching_step:
  "mark_dispatching j d caps dl now s = (x, s') \<Longrightarrow> db_inv s \<Longrightarrow> inv_step s s'"
  unfolding mark_dispatching_def by (erule (1) transition_device_step) simp_all

lemma mark_reconciling_step:
  "mark_reconciling j d expected reason dl now s = (x, s') \<Longrightarrow> db_inv s \<Longrightarrow> inv_step s s'"
  unfolding mark_reconciling_def by (erule (1) transition_device_step) simp_all

lemma settle_result_step:
  assumes "settle_result j d attempt t now s = (x, s')" and inv: "db_inv s"
  shows "inv_step s s'"
proof -
  consider "s' = s" | row snap s1 where "get_device s j d = Some row" "d_state row \<in> settle_states"
      "update_device j d (write_result t now) s = Inr s1"
      "finish_device_change j now (delete_matching_fence d j attempt s1) = Inr (snap, s')"
    using assms(1)
    by (auto simp: settle_result_def transact_def rbind_eq_Inr rbind_eq_Inl
        split: option.splits if_splits sum.splits prod.splits)
  then show ?thesis
  proof cases
    case 2
    have ev: "row_change_ok s j row (write_result t now row)"
      using inv_device_ok [OF inv 2(1)] 2(2)
      by (intro row_change_okI)
        (auto simp: write_result_def key_fields_def settle_states_def device_change_def result_target_def)
    show ?thesis
      using inv 2(3) [unfolded update_device_def] _ _ _ 2(4)
    proof (rule devices_update_step)
      show "row_change_ok s j r (write_result t now r)" if "r \<in> set (job_devices s j)" "d_key r = (j, d)" for r
        using unique_device [OF inv 2(1) that] ev by simp
    qed (auto simp: agg_simps keys_delete_matching_fence write_result_def key_fields_def
        dest: delete_matching_fence_subset [THEN subsetD])
  qed (use inv inv_step_refl in auto)
qed

lemma mark_acceptance_reconciling_step:
  assumes "mark_acceptance_reconciling j d a dl now s = (x, s')" and inv: "db_inv s"
  shows "inv_step s s'"
proof -
  let ?f = "\<lambda>r. r\<lparr>d_state := D_RECONCILING, d_reconciliation_reason := Some ''command_accept_timeout'',
                    d_reconciliation_deadline := Some dl, d_updated_at := now\<rparr>"
  consider "s' = s" | row snap s1 where "get_device s j d = Some row"
      "validate_device_transition (d_state row) D_RECONCILING = Inr ()"
      "update_device j d ?f s = Inr s1" "finish_device_change j now s1 = Inr (snap, s')"
    using assms(1)
    by (auto simp: mark_acceptance_reconciling_def transact_def rbind_eq_Inr rbind_eq_Inl Let_def
        split: option.splits if_splits sum.splits prod.splits)
  then show ?thesis
  proof cases
    case 2
    have "row_change_ok s j row (?f row)"
      using inv_device_ok [OF inv 2(1)] validate_device_change [OF 2(2)]
      by (intro row_change_okI) (simp_all add: key_fields_def)
    then show ?thesis
      using device_update_step [OF inv 2(1) 2(3,4)] by (simp add: key_fields_def)
  qed (use inv inv_step_refl in auto)
qed

lemma prepare_dispatch_step:
  assumes "prepare_dispatch j d protocol caps dl now s = (x, s')" and inv: "db_inv s"
  shows "inv_step s s'"
proof -
  let ?f = "\<lambda>r. r\<lparr>d_state := D_DISPATCHING, d_protocol_mode := protocol,
     d_dispatch_capabilities := Some (sort (remdups caps)), d_accept_deadline := dl, d_updated_at := now\<rparr>"
  let ?p = "\<lambda>r. d_key r = (j, d) \<and> d_state r = D_WAITING_TRANSFER"
  consider "s' = s" | row snap s1 where "get_device s j d = Some row"
      "validate_device_transition (d_state row) D_DISPATCHING = Inr ()"
      "update_devices_where ?p ?f s = Inr s1" "finish_device_change j now s1 = Inr (snap, s')"
    using assms(1)
    by (auto simp: prepare_dispatch_def transact_def rbind_eq_Inr rbind_eq_Inl Let_def
        split: option.splits if_splits sum.splits prod.splits)
  then show ?thesis
  proof cases
    case 2
    have ev: "row_change_ok s j row (?f row)"
      using inv_device_ok [OF inv 2(1)] validate_device_change [OF 2(2)]
      by (intro row_change_okI) (simp_all add: key_fields_def)
    show ?thesis
      using inv 2(3) _ _ _ 2(4)
    proof (rule devices_update_step)
      show "row_change_ok s j r (?f r)" if "r \<in> set (job_devices s j)" "?p r" for r
        using unique_device [OF inv 2(1) that(1)] that(2) ev by simp
    qed (auto simp: key_fields_def)
  qed (use inv inv_step_refl in auto)
qed

section \<open>Claims\<close>

lemma claim_rowD:
  assumes "claim_row s online = Some r"
  shows "r \<in> set (db_devices s)" and "claimable s online r"
    and "\<And>r'. r' \<in> set (db_devices s) \<Longrightarrow> claimable s online r' \<Longrightarrow> d_enqueue_seq r \<le> d_enqueue_seq r'"
  using first_row_order_by_least [OF assms [unfolded claim_row_def]] by auto

lemma claim_next_cases:
  assumes "claim_next online now s = (x, s')"
  shows "s' = s \<or> (\<exists>row snap s1 a. claim_row s online = Some row \<and> x = Inr (Some (a, snap)) \<and>
    update_devices_where (\<lambda>r. d_key r = (d_job_id row, d_device_id row) \<and> d_state r = D_QUEUED) (claim_update now) s = Inr s1 \<and>
    finish_device_change (d_job_id row) now s1 = Inr (snap, s') \<and>
    get_device s' (d_job_id row) (d_device_id row) = Some a)"
  using assms
  by (auto simp: claim_next_def Let_def rbind_eq_Inr split: option.splits if_splits sum.splits mdm_error.splits prod.splits)

lemma claim_next_step:
  assumes "claim_next online now s = (x, s')" and inv: "db_inv s"
  shows "inv_step s s'"
proof -
  consider "s' = s" | row snap s1 where "claim_row s online = Some row"
      "update_devices_where (\<lambda>r. d_key r = (d_job_id row, d_device_id row) \<and> d_state r = D_QUEUED) (claim_update now) s = Inr s1"
      "finish_device_change (d_job_id row) now s1 = Inr (snap, s')"
    using claim_next_cases [OF assms(1)] by auto
  then show ?thesis
  proof cases
    case 2
    have d: "dispatching_job s (d_job_id row)"
      using claim_rowD(2) [OF 2(1)] by (auto simp: claimable_def dispatching_job_def split: option.splits)
    have ok: "device_ok r" if "r \<in> set (job_devices s (d_job_id row))" for r
    proof -
      have "agg_ok (agg s (d_job_id row))" using inv by (simp add: db_inv_def)
      with that show ?thesis by (cases "get_job s (d_job_id row)") (auto simp: agg_ok_def list_all_iff)
    qed
    show ?thesis
      using inv 2(2) _ _ _ 2(3)
    proof (rule devices_update_step)
      show "row_change_ok s (d_job_id row) r (claim_update now r)"
        if "r \<in> set (job_devices s (d_job_id row))" "d_key r = (d_job_id row, d_device_id row) \<and> d_state r = D_QUEUED" for r
        using ok [OF that(1)] that(2) d
        by (intro row_change_okI) (auto simp: claim_update_def key_fields_def device_change_def)
    qed (auto simp: claim_update_def key_fields_def)
  qed (use inv inv_step_refl in auto)
qed

section \<open>Fences\<close>

lemma agg_bump_all [agg_simps]:
  "distinct ids \<Longrightarrow> agg (bump_all ids t s) k =
    (if k \<in> set ids then (map_option (bump t) (get_job s k), job_devices s k) else agg s k)"
proof (induction ids arbitrary: s)
  case (Cons i ids)
  have "get_job (increment_revision i t s) k = (if k = i then map_option (bump t) (get_job s k) else get_job s k)"
    "job_devices (increment_revision i t s) k = job_devices s k"
    using agg_increment_revision [of i t s k] by (auto simp: agg_def split: if_splits)
  with Cons show ?case
    by (auto simp: bump_all_def agg_increment_revision)
qed (simp add: bump_all_def)

lemma keys_bump_all: "keys_ok s \<Longrightarrow> keys_ok (bump_all ids t s)"
  unfolding bump_all_def by (induction ids arbitrary: s) (auto intro: keys_increment_revision)

lemma fences_bump_all [simp]: "db_fences (bump_all ids t s) = db_fences s"
  unfolding bump_all_def by (induction ids arbitrary: s) auto

lemma distinct_visible_job_ids: "distinct (visible_job_ids s d b)"
proof -
  have "distinct (fence_visible_job_ids s d)" by (simp add: fence_visible_job_ids_def)
  then show ?thesis
    by (auto simp: visible_job_ids_def Let_def split: option.splits)
qed

lemma fence_ok_cong: "(\<And>k. job_devices s' k = job_devices s k) \<Longrightarrow> fence_ok s' f = fence_ok s f"
  by (simp add: fence_ok_def split: option.splits)

lemma bumped_agg:
  assumes "agg_ok A"
  shows "agg_ok (map_option (bump t) (fst A), snd A) \<and> agg_step A (map_option (bump t) (fst A), snd A)"
proof (cases "fst A")
  case None
  with assms show ?thesis by (auto simp: agg_ok_def agg_step_def)
next
  case (Some r)
  with assms have "agg_ok (Some r, snd A)" "job_row_ok r" "job_consistent (j_state r) (map d_state (snd A))"
    by (auto simp: agg_ok_def)
  moreover have "A = (Some r, snd A)" using Some by (metis prod.collapse)
  ultimately show ?thesis
    using job_change_law [of r "snd A" "bump t r"] Some
    by (simp add: job_evolves_def job_change_def bump_ok)
qed

lemma publish_bumped_step:
  assumes inv: "db_inv s" and same: "\<And>k. agg s1 k = agg s k" and "keys_ok s1"
    and f: "\<And>f. f \<in> set (db_fences s1) \<Longrightarrow> f \<in> set (db_fences s) \<or> fence_ok s1 f"
    and ids: "distinct ids" and p: "publish_bumped ids t s1 = Inr (snaps, s')"
  shows "inv_step s s'"
proof -
  have s': "s' = bump_all ids t s1" using p by (auto simp: publish_bumped_def Let_def rbind_eq_Inr)
  have g: "get_job s1 k = get_job s k" "job_devices s1 k = job_devices s k" for k
    using same [of k] by (simp_all add: agg_def)
  have dv: "job_devices s' k = job_devices s1 k" for k
    using agg_bump_all [OF ids, of t s1 k] by (simp add: s' agg_def split: if_splits)
  show ?thesis
  proof (rule inv_stepI [OF inv])
    show "keys_ok s'" unfolding s' by (rule keys_bump_all) fact
    show "x \<in> set (db_fences s) \<or> fence_ok s' x" if "x \<in> set (db_fences s')" for x
      using that f [of x] fence_ok_cong [OF dv] by (simp add: s')
    show "agg_ok (agg s' k) \<and> agg_step (agg s k) (agg s' k)" for k
      using bumped_agg [of "agg s k" t] inv by (simp add: s' agg_bump_all [OF ids] g same db_inv_def)
  qed
qed

lemma add_opaque_fence_step:
  assumes "add_opaque_fence d oid protocol process reason now s = (x, s')" and inv: "db_inv s"
  shows "inv_step s s'"
proof -
  define f where "f = \<lparr>f_device_id = d, f_blocking_job_id = None,
               f_blocking_opaque_identity = Some oid, f_blocking_attempt = None,
               f_protocol_mode = protocol, f_blocking_process_instance_id = process,
               f_reason = take 2000 reason, f_created_at = now, f_updated_at = now\<rparr>"
  consider "s' = s" | s1 snaps where "upsert_fence f s = Inr s1"
      "publish_bumped (visible_job_ids s1 d None) now s1 = Inr (snaps, s')"
    using assms(1)
    by (auto simp: add_opaque_fence_def f_def transact_def rbind_eq_Inr rbind_eq_Inl
        split: if_splits sum.splits prod.splits)
  then show ?thesis
  proof cases
    case 2
    have "x \<in> set (db_fences s) \<or> fence_ok s1 x" if "x \<in> set (db_fences s1)" for x
      using that 2(1)
      by (auto simp: upsert_fence_def f_def fence_ok_def set_update_rows split: if_splits option.splits)
    then show ?thesis
      using 2 inv keys_upsert_fence [OF _ 2(1)] agg_upsert_fence [OF 2(1)] distinct_visible_job_ids
      by (intro publish_bumped_step [OF inv, of s1 "visible_job_ids s1 d None" now snaps])
        (auto simp: db_inv_def)
  qed (use inv inv_step_refl in auto)
qed

lemma delete_fence_publish_step:
  assumes "publish_bumped ids t (delete_fence d s) = Inr (snaps, s')" and "distinct ids" and "db_inv s"
  shows "inv_step s s'"
  using assms(3)
  by (intro publish_bumped_step [OF assms(3) _ _ _ assms(2,1)])
    (auto simp: agg_simps db_inv_def keys_delete_fence delete_fence_def delete_rows_def
      intro: keys_delete_fence [unfolded delete_fence_def delete_rows_def])

lemma clear_fence_step: "clear_fence j d now s = Inr (snaps, s') \<Longrightarrow> db_inv s \<Longrightarrow> inv_step s s'"
  unfolding clear_fence_def Let_def by (erule delete_fence_publish_step [OF _ distinct_visible_job_ids])

lemma clear_fence_on_process_replacement_step:
  assumes "clear_fence_on_process_replacement d process v1 now s = (x, s')" and "db_inv s"
  shows "inv_step s s'"
  using assms(1) inv_step_refl [OF assms(2)] delete_fence_publish_step [OF _ distinct_visible_job_ids assms(2)]
  by (auto simp: clear_fence_on_process_replacement_def transact_def Let_def
      split: option.splits if_splits sum.splits prod.splits)

lemma clear_matching_fence_step:
  assumes "clear_matching_fence j d attempt now s = (x, s')" and "db_inv s"
  shows "inv_step s s'"
  using assms(1) inv_step_refl [OF assms(2)] clear_fence_step [OF _ assms(2)]
  by (auto simp: clear_matching_fence_def transact_def split: if_splits sum.splits prod.splits)

lemma settle_late_fenced_result_step:
  assumes "settle_late_fenced_result j d attempt now s = (x, s')" and "db_inv s"
  shows "inv_step s s'"
  using assms(1) inv_step_refl [OF assms(2)] clear_fence_step [OF _ assms(2)]
  by (auto simp: settle_late_fenced_result_def transact_def rbind_eq_Inr rbind_eq_Inl
      split: option.splits if_splits sum.splits prod.splits)

lemma clear_matching_opaque_fence_step:
  assumes "clear_matching_opaque_fence d j attempt now s = (x, s')" and "db_inv s"
  shows "inv_step s s'"
  using assms(1) inv_step_refl [OF assms(2)] delete_fence_publish_step [OF _ distinct_visible_job_ids assms(2)]
  by (auto simp: clear_matching_opaque_fence_def transact_def rbind_eq_Inr rbind_eq_Inl
      split: option.splits if_splits sum.splits prod.splits)

section \<open>Reconciliation\<close>

lemma report_update_cases:
  assumes "report_update row enabled status phase detail now = Inr (outcome, f)" and "d_state row = D_RECONCILING"
    and "device_ok row"
  shows "row_change_ok s j row (f row)" and "\<And>r. key_fields (f r) = key_fields r"
proof -
  consider (active) target where "active_phase phase = Some target" "f = report_active target now"
    | (requeued) "d_accept_replay_count row < 1" "f = report_requeued now"
    | (interrupted) "f = report_interrupted status detail now"
    using assms(1) unfolding report_update_def replayable_def
    by (auto simp: rbind_eq_Inr split: if_splits option.splits)
  then have "row_change_ok s j row (f row) \<and> (\<forall>r. key_fields (f r) = key_fields r)"
  proof cases
    case active
    then have "target \<in> {D_DOWNLOADING, D_VALIDATING, D_APPLYING}"
      by (auto simp: active_phase_def split: if_splits)
    with active assms(2,3) show ?thesis
      by (intro conjI row_change_okI) (auto simp: report_active_def key_fields_def device_change_def)
  next
    case requeued
    with assms(2,3) show ?thesis
      by (simp add: report_requeued_def row_change_ok_def device_evolves_def key_fields_def device_ok_def
          device_change_def is_active_def ACTIVE_DEVICE_STATES_def)
  next
    case interrupted
    with assms(2,3) show ?thesis
      by (intro conjI row_change_okI) (auto simp: report_interrupted_def key_fields_def device_change_def)
  qed
  then show "row_change_ok s j row (f row)" "key_fields (f r) = key_fields r" for r by auto
qed

lemma reconcile_report_step:
  assumes "reconcile_report j d attempt status phase detail now s = (x, s')" and inv: "db_inv s"
  shows "inv_step s s'"
proof -
  consider "s' = s" | snaps where "clear_fence j d now s = Inr (snaps, s')"
    | row job outcome f s1 snap where "assignment s j d = Some (row, job)" "d_state row = D_RECONCILING"
      "report_update row (j_dispatch_enabled job) status phase detail now = Inr (outcome, f)"
      "update_device j d f s = Inr s1" "finish_device_change j now s1 = Inr (snap, s')"
    using assms(1)
    by (auto simp: reconcile_report_def transact_def rbind_eq_Inr rbind_eq_Inl
        split: option.splits if_splits sum.splits prod.splits)
  then show ?thesis
  proof cases
    case 3
    have g: "get_device s j d = Some row"
      using 3(1) by (auto simp: assignment_def split: option.splits)
    show ?thesis
      using device_update_step [OF inv g 3(4,5)] report_update_cases [OF 3(3,2) inv_device_ok [OF inv g]] by auto
  qed (use inv inv_step_refl clear_fence_step in auto)
qed

text \<open>The loop of \<^verbatim>\<open>mark_unconfirmed\<close>: a revision and a rederivation for every affected job.\<close>

lemma agg_bump_rederive_all:
  assumes "rfold (\<lambda>a u. rederive_job a t (increment_revision a t u)) ids s = Inr s'" and "distinct ids"
  shows "agg s' k = (if k \<in> set ids then (map_option (rederive_row t (job_devices s k) \<circ> bump t) (get_job s k), job_devices s k)
                     else agg s k)"
  using assms
proof (induction ids arbitrary: s)
  case (Cons i ids)
  then obtain s1 where s1: "rederive_job i t (increment_revision i t s) = Inr s1"
    and r: "rfold (\<lambda>a u. rederive_job a t (increment_revision a t u)) ids s1 = Inr s'"
    by (auto simp: rbind_eq_Inr)
  have a: "agg s1 k = (if k = i then (map_option (rederive_row t (job_devices s i) \<circ> bump t) (get_job s i), job_devices s i)
                     else agg s k)"
    by (rule agg_bump_rederive [OF s1])
  then have g: "k \<noteq> i \<Longrightarrow> get_job s1 k = get_job s k \<and> job_devices s1 k = job_devices s k"
    by (simp add: agg_def)
  show ?case
    using Cons.IH [OF r] Cons.prems(2) a g by (cases "k = i") (auto simp: comp_def)
qed simp

lemma keys_bump_rederive_all:
  "rfold (\<lambda>a u. rederive_job a t (increment_revision a t u)) ids s = Inr s' \<Longrightarrow> keys_ok s \<Longrightarrow>
     keys_ok s' \<and> db_fences s' = db_fences s"
proof (induction ids arbitrary: s)
  case (Cons i ids)
  then obtain s1 where s1: "rederive_job i t (increment_revision i t s) = Inr s1"
    and r: "rfold (\<lambda>a u. rederive_job a t (increment_revision a t u)) ids s1 = Inr s'"
    by (auto simp: rbind_eq_Inr)
  have "keys_ok s1" "db_fences s1 = db_fences s"
    using keys_rederive_job [OF keys_increment_revision s1] Cons.prems(2) fences_rederive [OF s1] by auto
  with Cons.IH [OF r] show ?case by simp
qed simp

lemma active_job_dispatching:
  assumes "db_inv s" and "r \<in> set (job_devices s j)" and "is_active r"
  shows "dispatching_job s j"
proof -
  have ok: "agg_ok (agg s j)" using assms(1) by (simp add: db_inv_def)
  obtain job where job: "get_job s j = Some job"
    using ok assms(2) by (cases "get_job s j") (auto simp: agg_ok_def)
  with ok have c: "job_consistent (j_state job) (map d_state (job_devices s j))"
    by (simp add: agg_ok_def)
  have a: "d_state r \<in> set (map d_state (job_devices s j)) \<inter> ACTIVE_DEVICE_STATES"
    using assms(2,3) by (auto simp: is_active_def)
  then have n: "\<not> set (map d_state (job_devices s j)) \<subseteq> TERMINAL_DEVICE_STATES"
    by (auto simp: device_state_cases_terminal)
  have "j_state job \<notin> never_rederived" using c a by (auto simp: job_consistent_def)
  moreover have "j_state job \<notin> {J_SUCCEEDED, J_COMPLETED_WITH_ERRORS}"
  proof
    assume t: "j_state job \<in> {J_SUCCEEDED, J_COMPLETED_WITH_ERRORS}"
    then have x: "derive_dispatched_job_state (map d_state (job_devices s j)) = Inr (j_state job)"
      using c by (auto simp: job_consistent_def dispatched_exact_def)
    from derive_terminal_iff [OF x] t n show False by (auto simp: TERMINAL_JOB_STATES_def)
  qed
  ultimately show ?thesis
    using job job_state_classes [of "j_state job"] by (auto simp: dispatching_job_def dispatched_exact_def)
qed

lemma fence_visible_iff:
  "j \<in> set (fence_visible_job_ids s d) \<longleftrightarrow>
    (\<exists>job \<in> set (db_jobs s). j_job_id job = j \<and> j_state job \<in> NON_TERMINAL_JOB_VALUES) \<and>
    (\<exists>r \<in> set (job_devices s j). d_device_id r = d)"
  by (auto simp: fence_visible_job_ids_def device_rows_of_def job_devices_def list_ex_iff)

lemma visible_job_ids_superset: "set (fence_visible_job_ids s d) \<subseteq> set (visible_job_ids s d b)"
  by (auto simp: visible_job_ids_def Let_def split: option.splits)

lemma get_job_in: "get_job s j = Some r \<Longrightarrow> r \<in> set (db_jobs s) \<and> j_job_id r = j"
  by (auto simp: get_job_def dest: lookup_row_SomeD)

lemma mark_unconfirmed_cases:
  assumes "mark_unconfirmed j d process detail expected observed now s = (x, s')"
  shows "s' = s \<or> (\<exists>row t s1 s2. get_device s j d = Some row \<and> d_state row = D_RECONCILING \<and>
      (case expected of None \<Rightarrow> True | Some dl \<Rightarrow> d_reconciliation_deadline row = Some dl \<and> dl \<le> t) \<and>
      update_device j d (unconfirmed_row detail t) s = Inr s1 \<and>
      upsert_fence (unconfirmed_fence j d process detail (d_protocol_mode row) t) s1 = Inr s2 \<and>
      rfold (\<lambda>a u. rederive_job a t (increment_revision a t u)) (visible_job_ids s2 d (Some j)) s2 = Inr s')"
  using assms unfolding mark_unconfirmed_def
  by (auto simp: transact_def rbind_eq_Inr rbind_eq_Inl Let_def not_less
      split: option.splits if_splits sum.splits prod.splits)

text \<open>A revision and a rederivation of a job whose devices do not change.\<close>

lemma bump_rederive_agg:
  fixes k :: job_id
  assumes "db_inv s"
  defines "A \<equiv> agg s k"
  shows "agg_ok (map_option (rederive_row t (snd A) \<circ> bump t) (fst A), snd A) \<and>
    agg_step A (map_option (rederive_row t (snd A) \<circ> bump t) (fst A), snd A)"
proof (cases "get_job s k")
  case None
  moreover have "agg_ok A" using assms by (simp add: db_inv_def)
  ultimately show ?thesis
    by (auto simp: A_def agg_ok_def agg_step_def agg_def)
next
  case (Some r)
  have "job_devices s k = update_rows (\<lambda>_. False) id (job_devices s k)"
    by (simp add: update_rows_def)
  from devices_agg_step [OF assms(1) Some _ this, of t] Some show ?thesis
    by (simp add: A_def agg_lookup)
qed

lemma unconfirmed_fence_ok:
  assumes "upsert_fence (unconfirmed_fence j d process detail protocol t) s1 = Inr s2"
    and "x \<in> set (db_fences s2)" and "r \<in> set (job_devices s j)" "d_device_id r = d" "d_state r = D_UNCONFIRMED"
  shows "x \<in> set (db_fences s1) \<or> fence_ok s x"
proof -
  have "x \<in> set (db_fences s1) \<or> (\<exists>c. x = (unconfirmed_fence j d process detail protocol t)\<lparr>f_created_at := c\<rparr>)"
    using assms(1,2)
    by (force simp: upsert_fence_def set_update_rows unconfirmed_fence_def split: if_splits option.splits)
  with assms(3-5) show ?thesis
    by (auto simp: fence_ok_def unconfirmed_fence_def)
qed

lemma mark_unconfirmed_step:
  assumes "mark_unconfirmed j d process detail expected observed now s = (x, s')" and inv: "db_inv s"
  shows "inv_step s s'"
proof -
  let ?f = "unconfirmed_row detail" and ?p = "\<lambda>r. d_key r = (j, d)"
  consider "s' = s" | row t s1 s2 where "get_device s j d = Some row" "d_state row = D_RECONCILING"
      "update_devices_where ?p (?f t) s = Inr s1"
      "upsert_fence (unconfirmed_fence j d process detail (d_protocol_mode row) t) s1 = Inr s2"
      "rfold (\<lambda>a u. rederive_job a t (increment_revision a t u)) (visible_job_ids s2 d (Some j)) s2 = Inr s'"
    using mark_unconfirmed_cases [OF assms(1)] by (auto simp: update_device_def)
  then show ?thesis
  proof cases
    case 2
    have fk: "key_fields (?f t r) = key_fields r" for r by (simp add: unconfirmed_row_def key_fields_def)
    have agg2: "agg s2 k = (get_job s k, update_rows ?p (?f t) (job_devices s k))" for k
      using agg_update_devices_where [OF 2(3), of k] agg_upsert_fence [OF 2(4)] by (simp add: unconfirmed_row_def)
    then have g2: "get_job s2 k = get_job s k" "job_devices s2 k = update_rows ?p (?f t) (job_devices s k)" for k
      by (simp_all add: agg_def)
    note row = get_device_job [OF 2(1)]
    have "is_active row" using 2(2) by (simp add: is_active_def ACTIVE_DEVICE_STATES_def)
    with inv row obtain job where job: "get_job s j = Some job" "j_state job \<in> {J_RUNNING, J_RECONCILING}"
      using active_job_dispatching [of s row j] by (auto simp: dispatching_job_def split: option.splits)
    have "d_key row = (j, d)" using 2(1) by (auto simp: get_device_def dest: lookup_row_SomeD)
    with row have new: "?f t row \<in> set (job_devices s2 j)" by (force simp: g2 set_update_rows)
    have "j \<in> set (fence_visible_job_ids s2 d)"
      using job new get_job_in [of s2 j job] row g2(1) [of j]
      by (auto simp: fence_visible_iff NON_TERMINAL_JOB_VALUES_def unconfirmed_row_def
          intro!: bexI [of _ "?f t row"] bexI [of _ job])
    then have jin: "j \<in> set (visible_job_ids s2 d (Some j))" using visible_job_ids_superset by blast
    note agg3 = agg_bump_rederive_all [OF 2(5) distinct_visible_job_ids]
    have fin: "keys_ok s' \<and> db_fences s' = db_fences s2"
      using keys_bump_rederive_all [OF 2(5)] keys_upsert_fence [OF _ 2(4)] keys_update_devices [OF _ 2(3) fk] inv
      by (simp add: db_inv_def)
    have dv: "job_devices s' k = job_devices s2 k" for k
      using agg3 [of k] by (simp add: agg_def split: if_splits)
    have ev: "row_change_ok s j r (?f t r)" if "r \<in> set (job_devices s j)" "?p r" for r
      using unique_device [OF inv 2(1) that] inv_device_ok [OF inv 2(1)] 2(2)
      by (intro row_change_okI) (auto simp: unconfirmed_row_def key_fields_def device_change_def)
    show ?thesis
    proof (rule inv_stepI [OF inv])
      show "x \<in> set (db_fences s) \<or> fence_ok s' x" if "x \<in> set (db_fences s')" for x
        using unconfirmed_fence_ok [OF 2(4), of x "?f t row" s'] that fin new row fences_update_devices [OF 2(3)]
        by (simp add: dv unconfirmed_row_def)
      show "agg_ok (agg s' k) \<and> agg_step (agg s k) (agg s' k)" for k
      proof (cases "k = j")
        case True
        then show ?thesis
          using devices_agg_step [OF inv job(1), of ?p "?f t" "job_devices s2 j" t] ev job jin
          by (simp add: agg3 g2 agg_lookup)
      next
        case False
        then have "job_devices s2 k = job_devices s k" "agg s2 k = agg s k"
          using update_rows_other_job [of ?p j k "?f t" s] by (simp_all add: g2 agg2 agg_def)
        then show ?thesis
          using bump_rederive_agg [OF inv, of t k] inv by (simp add: agg3 g2 db_inv_def)
      qed
    qed (use fin in simp)
  qed (use inv inv_step_refl in auto)
qed

end
