(* ===== verification/Push_Recovery.thy ===== *)
theory Push_Recovery
  imports Push_Steps
begin

text \<open>
  The operations that touch many rows at once: job creation, startup recovery and the check for
  missing artifact files. Each is first reduced to its effect on every aggregate, then to one
  legal step.
\<close>

section \<open>Creation\<close>

lemma keys_insert_device:
  assumes "keys_ok s" and "insert_device r s = Inr s'" and "db_next_enqueue_seq s = Some n" and "d_enqueue_seq r < n"
  shows "keys_ok s' \<and> s' = s\<lparr>db_devices := db_devices s @ [r]\<rparr>"
proof -
  have s': "s' = s\<lparr>db_devices := db_devices s @ [r]\<rparr>" and c: "active_index_ok (db_devices s @ [r])"
    "d_key r \<notin> d_key ` set (db_devices s)" "d_enqueue_seq r \<notin> d_enqueue_seq ` set (db_devices s)"
    "get_job s (d_job_id r) \<noteq> None"
    using assms(2) by (auto simp: insert_device_def split: if_splits)
  have "d_job_id r \<in> j_job_id ` set (db_jobs s)"
    using c(4) by (simp add: get_job_def lookup_row_None_iff)
  then show ?thesis
    using assms(1,3,4) c unfolding keys_ok_def s' by simp
qed

text \<open>The rows \<open>insert_targets\<close> appends.\<close>

fun target_rows ::
  "job_id \<Rightarrow> (device_id \<rightharpoonup> protocol_mode \<times> string list) \<Rightarrow> int \<Rightarrow> int \<Rightarrow> int \<Rightarrow> device_id list \<Rightarrow> device_row list" where
  "target_rows j protocols now seq ordinal [] = []"
| "target_rows j protocols now seq ordinal (d # ds) =
     new_device_row j d seq ordinal (fst (the (protocols d))) (snd (the (protocols d))) now #
     target_rows j protocols now (seq + 1) (ordinal + 1) ds"

lemma insert_targets_rows:
  assumes "insert_targets j protocols now seq ordinal ds s = Inr s'" and "keys_ok s"
    and "db_next_enqueue_seq s = Some n" and "seq + int (length ds) \<le> n"
  shows "keys_ok s' \<and> s' = s\<lparr>db_devices := db_devices s @ target_rows j protocols now seq ordinal ds\<rparr>"
  using assms
proof (induction ds arbitrary: s seq ordinal)
  case (Cons d ds)
  then obtain protocol caps s1 where p: "protocols d = Some (protocol, caps)" and
    s1: "insert_device (new_device_row j d seq ordinal protocol caps now) s = Inr s1" and
    r: "insert_targets j protocols now (seq + 1) (ordinal + 1) ds s1 = Inr s'"
    by (auto simp: rbind_eq_Inr split: option.splits)
  have "d_enqueue_seq (new_device_row j d seq ordinal protocol caps now) < n"
    using Cons.prems(4) by (simp add: new_device_row_def)
  then have k: "keys_ok s1" "s1 = s\<lparr>db_devices := db_devices s @ [new_device_row j d seq ordinal protocol caps now]\<rparr>"
    using keys_insert_device [OF Cons.prems(2) s1 Cons.prems(3)] by blast+
  with Cons.IH [OF r] Cons.prems(3,4) p show ?case by auto
qed simp

lemma target_rows_props:
  "\<forall>r \<in> set (target_rows j protocols now seq ordinal ds). d_job_id r = j \<and> d_state r = D_QUEUED \<and> device_ok r"
  "length (target_rows j protocols now seq ordinal ds) = length ds"
  "map d_device_id (target_rows j protocols now seq ordinal ds) = ds"
  by (induction ds arbitrary: seq ordinal) (auto simp: new_device_row_def device_ok_def)

lemma create_job_cases:
  assumes "create_job req protocols timeout new_id now s = (x, s')"
  shows "s' = s \<or> (\<exists>s1 s3 snap. insert_job (new_job_row req new_id now (now + timeout)) s = Inr s1 \<and>
    insert_targets new_id protocols now (case db_next_enqueue_seq s1 of None \<Rightarrow> 1 | Some v \<Rightarrow> v) 0 (target_devices req)
      (s1\<lparr>db_next_enqueue_seq := Some ((case db_next_enqueue_seq s1 of None \<Rightarrow> 1 | Some v \<Rightarrow> v) +
          int (length (target_devices req)))\<rparr>) = Inr s' \<and> x = Inr (True, snap) \<and> snapshot_of s' new_id = Inr snap)"
  using assms unfolding create_job_def transact_def next_enqueue_seq_def
  by (auto simp: rbind_eq_Inr rbind_eq_Inl Let_def split: option.splits if_splits sum.splits prod.splits)

lemma keys_new_job:
  assumes "keys_ok s" and "insert_job r s = Inr s1" and "j_artifact_id r = None"
    and "db_next_enqueue_seq s = Some n" and "n \<le> m"
  shows "keys_ok (s1\<lparr>db_next_enqueue_seq := Some m\<rparr>)"
proof -
  have s1: "s1 = s\<lparr>db_jobs := db_jobs s @ [r]\<rparr>" and n: "j_job_id r \<notin> j_job_id ` set (db_jobs s)"
    "j_client_request_id r \<notin> j_client_request_id ` set (db_jobs s)"
    using assms(2) by (auto simp: insert_job_def split: if_splits)
  have "d_enqueue_seq ` set (db_devices s) \<subseteq> {..<m}"
    using assms(1,4,5) by (auto simp: keys_ok_def)
  then show ?thesis
    using assms(1,3) n unfolding keys_ok_def s1 by auto
qed

lemma create_job_step:
  assumes "create_job req protocols timeout new_id now s = (x, s')" and inv: "db_inv s"
    and "target_devices req \<noteq> []"
  shows "inv_step s s'"
proof -
  let ?r = "new_job_row req new_id now (now + timeout)" and ?n = "int (length (target_devices req))"
  obtain n where n: "db_next_enqueue_seq s = Some n" using inv by (auto simp: db_inv_def keys_ok_def)
  consider "s' = s" | s1 where "insert_job ?r s = Inr s1"
    "insert_targets new_id protocols now n 0 (target_devices req) (s1\<lparr>db_next_enqueue_seq := Some (n + ?n)\<rparr>) = Inr s'"
    using create_job_cases [OF assms(1)] n by (auto simp: insert_job_def split: if_splits)
  then show ?thesis
  proof cases
    case 2
    let ?rows = "target_rows new_id protocols now n 0 (target_devices req)"
    have s1: "s1 = s\<lparr>db_jobs := db_jobs s @ [?r]\<rparr>" and new: "new_id \<notin> j_job_id ` set (db_jobs s)"
      using 2(1) by (auto simp: insert_job_def new_job_row_def split: if_splits)
    have "keys_ok (s1\<lparr>db_next_enqueue_seq := Some (n + ?n)\<rparr>)"
      using inv 2(1) n by (intro keys_new_job [of s ?r]) (auto simp: db_inv_def new_job_row_def)
    from insert_targets_rows [OF 2(2) this, of "n + ?n"]
    have k: "keys_ok s'" and s': "s' = s1\<lparr>db_next_enqueue_seq := Some (n + ?n), db_devices := db_devices s @ ?rows\<rparr>"
      by (auto simp: s1)
    have none: "get_job s new_id = None" using new by (simp add: get_job_def lookup_row_None_iff)
    then have empty: "job_devices s new_id = []"
      using inv by (auto simp: db_inv_def agg_ok_def dest!: spec [of _ new_id])
    have rows: "filter (\<lambda>r. d_job_id r = k) ?rows = (if k = new_id then ?rows else [])" for k
      using target_rows_props(1) [of new_id protocols now n 0 "target_devices req"]
      by (auto simp: filter_id_conv filter_empty_conv)
    have a: "agg s' k = (if k = new_id then (Some ?r, ?rows) else agg s k)" for k
      using none empty rows
      by (auto simp: s' s1 agg_def get_job_def lookup_row_append_new job_devices_def new_job_row_def split: option.splits)
    have ne: "?rows \<noteq> []" using assms(3) target_rows_props(2) [of new_id protocols now n 0 "target_devices req"] by auto
    have q: "set (map d_state ?rows) \<inter> ACTIVE_DEVICE_STATES = {}" "list_all device_ok ?rows"
      "list_all (\<lambda>d. d_state d = D_QUEUED) ?rows"
      using target_rows_props(1) [of new_id protocols now n 0 "target_devices req"]
      by (auto simp: ACTIVE_DEVICE_STATES_def list_all_iff)
    show ?thesis
    proof (rule inv_stepI [OF inv k])
      show "agg_ok (agg s' k) \<and> agg_step (agg s k) (agg s' k)" for k
      proof (cases "k = new_id")
        case True
        with ne q none empty show ?thesis
          by (simp add: a agg_ok_def agg_step_def new_job_row_def job_row_ok_def job_consistent_def
              TERMINAL_JOB_STATES_def never_rederived_def dispatched_exact_def)
      qed (use inv in \<open>simp add: a db_inv_def\<close>)
    qed (simp add: s' s1)
  qed (use inv inv_step_refl in auto)
qed

section \<open>Missing artifact files\<close>

lemma fail_missing_artifact_step:
  assumes "fail_missing_artifact now (j, state, name) s = Inr s'" and inv: "db_inv s"
    and job: "get_job s j = Some r" "j_state r = state" "state \<in> {J_READY, J_RUNNING, J_RECONCILING}"
  shows "inv_step s s' \<and> (\<forall>k. k \<noteq> j \<longrightarrow> agg s' k = agg s k)"
proof (cases "state = J_READY")
  case True
  let ?f = "\<lambda>r. r\<lparr>j_state := J_FAILED, j_dispatch_enabled := False,
     j_failure_code := Some ''artifact_missing'', j_failure_detail := Some (missing_detail name),
     j_terminal_at := Some now, j_revision := j_revision r + 1, j_updated_at := now\<rparr>"
  have s': "s' = update_job j ?f s" using assms(1) True by (simp add: fail_missing_artifact_def)
  have "inv_step s s'"
    unfolding s' using inv_job_ok(1) [OF inv job(1)] job(2) True
    by (intro job_row_step [OF inv job(1)])
      (auto simp: request_fields_def job_change_def job_row_ok_def TERMINAL_JOB_STATES_def never_rederived_def
        dispatched_exact_def)
  then show ?thesis by (simp add: s' agg_update_job)
next
  case False
  let ?f = "\<lambda>r. r\<lparr>d_state := D_FAILED, d_terminal_at := Some now, d_failure_code := Some ''artifact_missing'',
                       d_failure_detail := Some (missing_detail name), d_updated_at := now\<rparr>"
  let ?p = "\<lambda>r. d_job_id r = j \<and> d_state r \<in> {D_QUEUED, D_WAITING_TRANSFER, D_DISPATCHING, D_DOWNLOADING}"
  obtain s1 where s1: "update_devices_where ?p ?f s = Inr s1"
    and fin: "rederive_job j now (increment_revision j now s1) = Inr s'"
    using assms(1) False by (auto simp: fail_missing_artifact_def rbind_eq_Inr)
  have "agg_ok (Some r, job_devices s j)" by (rule inv_agg [OF inv job(1)])
  then have ok: "x \<in> set (job_devices s j) \<Longrightarrow> device_ok x" for x by (simp add: agg_ok_def list_all_iff)
  show ?thesis
    using inv s1 _ _ _ fin
  proof (rule devices_rederive_step)
    show "row_change_ok s j x (?f x)" if "x \<in> set (job_devices s j)" "?p x" for x
      using ok [OF that(1)] that(2) by (intro row_change_okI) (auto simp: key_fields_def device_change_def)
  qed (auto simp: key_fields_def)
qed

lemma fail_missing_all_step:
  assumes "rfold (fail_missing_artifact now) ms s = Inr s'" and "db_inv s" and "distinct (map fst ms)"
    and "\<forall>(j, state, name) \<in> set ms. \<exists>r. get_job s j = Some r \<and> j_state r = state \<and> state \<in> {J_READY, J_RUNNING, J_RECONCILING}"
  shows "inv_step s s' \<and> (\<forall>k. k \<notin> fst ` set ms \<longrightarrow> agg s' k = agg s k)"
  using assms
proof (induction ms arbitrary: s)
  case Nil
  then show ?case using inv_step_refl by auto
next
  case (Cons m ms)
  obtain j state name where m: "m = (j, state, name)" by (cases m)
  obtain s1 where s1: "fail_missing_artifact now m s = Inr s1" and r: "rfold (fail_missing_artifact now) ms s1 = Inr s'"
    using Cons.prems(1) by (auto simp: rbind_eq_Inr)
  obtain row where "get_job s j = Some row" "j_state row = state" "state \<in> {J_READY, J_RUNNING, J_RECONCILING}"
    using Cons.prems(4) m by auto
  then have 1: "inv_step s s1" "\<And>k. k \<noteq> j \<Longrightarrow> agg s1 k = agg s k"
    using fail_missing_artifact_step [OF s1 [unfolded m] Cons.prems(2)] by auto
  have g: "get_job s1 k = get_job s k" if "k \<noteq> j" for k
    using 1(2) [OF that] by (simp add: agg_def)
  have nj: "j \<notin> fst ` set ms" using Cons.prems(3) m by simp
  have "\<forall>(k, state, name) \<in> set ms. \<exists>r. get_job s1 k = Some r \<and> j_state r = state \<and> state \<in> {J_READY, J_RUNNING, J_RECONCILING}"
  proof clarify
    fix k st nm
    assume i: "(k, st, nm) \<in> set ms"
    then have "k \<noteq> j" using nj by force
    with i Cons.prems(4) g show "\<exists>r. get_job s1 k = Some r \<and> j_state r = st \<and> st \<in> {J_READY, J_RUNNING, J_RECONCILING}"
      by fastforce
  qed
  with Cons.IH [OF r] 1(1) Cons.prems(3)
  have 2: "inv_step s1 s'" "\<And>k. k \<notin> fst ` set ms \<Longrightarrow> agg s' k = agg s1 k"
    by (auto simp: inv_step_def)
  have "agg_step (agg s k) (agg s' k)" for k
    using 1 2 nj by (cases "k = j") (metis inv_step_def)+
  with 1 2 nj m show ?case by (auto simp: inv_step_def)
qed

lemma missing_artifacts_props:
  assumes "keys_ok s"
  shows "distinct (map fst (missing_artifacts present s))"
    and "\<forall>(j, state, name) \<in> set (missing_artifacts present s).
      \<exists>r. get_job s j = Some r \<and> j_state r = state \<and> state \<in> {J_READY, J_RUNNING, J_RECONCILING}"
proof -
  define g where "g job = (case j_artifact_id job of
         None \<Rightarrow> []
       | Some a \<Rightarrow> (case get_artifact s a of
             None \<Rightarrow> []
           | Some art \<Rightarrow>
               if j_state job \<in> {J_READY, J_RUNNING, J_RECONCILING} \<and> \<not> present (a_storage_name art)
               then [(j_job_id job, j_state job, a_storage_name art)] else []))" for job :: job_row
  have m: "missing_artifacts present s = concat (map g (db_jobs s))"
    by (simp add: missing_artifacts_def g_def [abs_def])
  have g1: "map fst (g job) = [] \<or> map fst (g job) = [j_job_id job]" for job
    by (auto simp: g_def split: option.splits)
  have "distinct (map j_job_id jobs) \<Longrightarrow>
      distinct (map fst (concat (map g jobs))) \<and> set (map fst (concat (map g jobs))) \<subseteq> j_job_id ` set jobs" for jobs
  proof (induction jobs)
    case (Cons job jobs)
    define ids where "ids = map fst (concat (map g jobs))"
    from Cons have "distinct ids" "set ids \<subseteq> j_job_id ` set jobs" "j_job_id job \<notin> j_job_id ` set jobs"
      unfolding ids_def by simp_all
    moreover have "map fst (concat (map g (job # jobs))) = map fst (g job) @ ids"
      by (simp add: ids_def)
    ultimately show ?case using g1 [of job] by (elim disjE) auto
  qed simp
  with assms show "distinct (map fst (missing_artifacts present s))"
    by (simp add: m keys_ok_def)
  have "get_job s (j_job_id r) = Some r" if "r \<in> set (db_jobs s)" for r
    using that assms by (auto simp: get_job_def lookup_row_Some_iff keys_ok_def)
  then show "\<forall>(j, state, name) \<in> set (missing_artifacts present s).
      \<exists>r. get_job s j = Some r \<and> j_state r = state \<and> state \<in> {J_READY, J_RUNNING, J_RECONCILING}"
    by (auto simp: m g_def split: option.splits if_splits)
qed

lemma reconcile_missing_artifacts_step:
  assumes "reconcile_missing_artifacts_sync present now s = (x, s')" and inv: "db_inv s"
  shows "inv_step s s'"
proof -
  have k: "keys_ok s" using inv by (simp add: db_inv_def)
  consider "s' = s" | "rfold (fail_missing_artifact now) (missing_artifacts present s) s = Inr s'"
    using assms(1)
    by (auto simp: reconcile_missing_artifacts_sync_def transact_def Let_def rbind_eq_Inr rbind_eq_Inl
        split: if_splits sum.splits prod.splits)
  then show ?thesis
  proof cases
    case 2
    from fail_missing_all_step [OF this inv missing_artifacts_props [OF k]] show ?thesis by blast
  qed (use inv inv_step_refl in auto)
qed

section \<open>Startup recovery\<close>

text \<open>What the first loop does to the row of one job, and which jobs it touches.\<close>

definition recovers :: "int \<Rightarrow> job_row \<Rightarrow> bool" where
  "recovers now r \<longleftrightarrow> j_state r = J_CREATED \<and> j_create_expires_at r \<le> now \<or>
     j_state r \<in> {J_UPLOADING, J_PACKAGING, J_RUNNING, J_RECONCILING}"

definition recover_job_row :: "int \<Rightarrow> job_row \<Rightarrow> job_row" where
  "recover_job_row now r =
     (if j_state r = J_CREATED \<and> j_create_expires_at r \<le> now then interrupt_expired now r
      else if j_state r \<in> {J_UPLOADING, J_PACKAGING} then
        r\<lparr>j_state := J_INTERRUPTED, j_revision := j_revision r + 1, j_updated_at := now,
          j_terminal_at := Some now, j_failure_code := Some ''server_restart'',
          j_failure_detail := Some ''server restarted during non-resumable upload or packaging''\<rparr>
      else if j_state r \<in> {J_RUNNING, J_RECONCILING} then
        r\<lparr>j_dispatch_enabled := False, j_dispatch_paused_reason := Some ''server_restart'',
          j_revision := j_revision r + 1, j_updated_at := now\<rparr>
      else r)"

lemma recover_job_row_keys:
  "request_fields (recover_job_row now r) = request_fields r"
  "j_artifact_id (recover_job_row now r) = j_artifact_id r"
  by (simp_all add: recover_job_row_def interrupt_expired_def request_fields_def)

lemma update_job_id: "update_job j (\<lambda>r. r) s = s"
  by (simp add: update_job_def update_rows_def)

lemma recover_jobs_Cons:
  obtains f c where "recover_jobs now (row # rows) (s, cleanup, touched) =
      recover_jobs now rows (update_job (j_job_id row) f s, c,
        if recovers now row then add_touched (j_job_id row) touched else touched)"
    "f row = recover_job_row now row" "\<And>r. request_fields (f r) = request_fields r"
    "\<And>r. j_artifact_id (f r) = j_artifact_id r"
proof -
  consider (a) "j_state row = J_CREATED \<and> j_create_expires_at row \<le> now" | (b) "j_state row \<in> {J_UPLOADING, J_PACKAGING}"
    | (c) "j_state row \<in> {J_RUNNING, J_RECONCILING}"
    | (d) "\<not> (j_state row = J_CREATED \<and> j_create_expires_at row \<le> now)"
      "j_state row \<notin> {J_UPLOADING, J_PACKAGING}" "j_state row \<notin> {J_RUNNING, J_RECONCILING}"
    by blast
  then show ?thesis
  proof cases
    case a
    then show ?thesis
      by (intro that [of "interrupt_expired now" "cleanup @ [j_job_id row]"])
        (simp_all add: recovers_def recover_job_row_def interrupt_expired_def request_fields_def Let_def)
  next
    case b
    then show ?thesis
      by (intro that [of "\<lambda>r. r\<lparr>j_state := J_INTERRUPTED, j_revision := j_revision r + 1,
             j_updated_at := now, j_terminal_at := Some now, j_failure_code := Some ''server_restart'',
             j_failure_detail := Some ''server restarted during non-resumable upload or packaging''\<rparr>"
            "cleanup @ [j_job_id row]"])
        (auto simp: recovers_def recover_job_row_def request_fields_def Let_def)
  next
    case c
    then show ?thesis
      by (intro that [of "\<lambda>r. r\<lparr>j_dispatch_enabled := False,
             j_dispatch_paused_reason := Some ''server_restart'', j_revision := j_revision r + 1,
             j_updated_at := now\<rparr>" cleanup])
        (auto simp: recovers_def recover_job_row_def request_fields_def Let_def)
  next
    case d
    then show ?thesis
      by (intro that [of "\<lambda>r. r" cleanup]) (auto simp: recovers_def recover_job_row_def Let_def update_job_id)
  qed
qed

lemma add_touched_props: "set (add_touched j t) = insert j (set t)" "distinct t \<Longrightarrow> distinct (add_touched j t)"
  by (auto simp: add_touched_def)

lemma recover_jobs_effect:
  assumes "recover_jobs now rows (s, cleanup, touched) = (s', cleanup', touched')"
    and "distinct (map j_job_id rows)" and "\<And>r. r \<in> set rows \<Longrightarrow> get_job s (j_job_id r) = Some r"
    and "keys_ok s" and "distinct touched"
  shows "keys_ok s' \<and> db_fences s' = db_fences s \<and> db_devices s' = db_devices s \<and> distinct touched' \<and>
    set touched' = set touched \<union> j_job_id ` {r \<in> set rows. recovers now r} \<and>
    (\<forall>k. get_job s' k = (if k \<in> j_job_id ` set rows then map_option (recover_job_row now) (get_job s k) else get_job s k))"
  using assms
proof (induction rows arbitrary: s cleanup touched)
  case (Cons row rows)
  let ?t = "if recovers now row then add_touched (j_job_id row) touched else touched"
  obtain f c where st: "recover_jobs now (row # rows) (s, cleanup, touched) =
      recover_jobs now rows (update_job (j_job_id row) f s, c, ?t)"
    and f: "f row = recover_job_row now row" "\<And>r. request_fields (f r) = request_fields r"
      "\<And>r. j_artifact_id (f r) = j_artifact_id r"
    using recover_jobs_Cons [of now row rows s cleanup touched] by metis
  let ?s = "update_job (j_job_id row) f s"
  have fk: "j_job_id (f r) = j_job_id r" "j_client_request_id (f r) = j_client_request_id r" for r
    using f(2) [of r] by (simp_all add: request_fields_def)
  have g: "get_job ?s k = (if k = j_job_id row then Some (recover_job_row now row) else get_job s k)" for k
    using agg_update_job [of f "j_job_id row" s k, OF fk(1)] Cons.prems(3) [of row] f(1)
    by (simp add: agg_def split: if_splits)
  have k: "keys_ok ?s" using keys_update_job [OF Cons.prems(4) fk f(3)] .
  have nr: "j_job_id row \<notin> j_job_id ` set rows" using Cons.prems(2) by simp
  have r: "get_job ?s (j_job_id r) = Some r" if "r \<in> set rows" for r
  proof -
    have "j_job_id r \<noteq> j_job_id row" using that nr by (metis image_eqI)
    then show ?thesis using that Cons.prems(3) [of r] g [of "j_job_id r"] by simp
  qed
  have t: "distinct ?t" "set ?t = set touched \<union> (if recovers now row then {j_job_id row} else {})"
    using Cons.prems(5) add_touched_props by auto
  have IH: "keys_ok s' \<and> db_fences s' = db_fences ?s \<and> db_devices s' = db_devices ?s \<and> distinct touched' \<and>
    set touched' = set ?t \<union> j_job_id ` {r \<in> set rows. recovers now r} \<and>
    (\<forall>k. get_job s' k = (if k \<in> j_job_id ` set rows then map_option (recover_job_row now) (get_job ?s k) else get_job ?s k))"
    using Cons.IH [OF _ _ r k t(1)] Cons.prems(1,2) st by simp
  have dv: "db_devices ?s = db_devices s" by (simp add: update_job_def)
  have "get_job s' k = (if k \<in> j_job_id ` set (row # rows) then map_option (recover_job_row now) (get_job s k) else get_job s k)" for k
    using IH g [of k] nr Cons.prems(3) [of row] by auto
  moreover have "set touched' = set touched \<union> j_job_id ` {r \<in> set (row # rows). recovers now r}"
    using IH t(2) by auto
  ultimately show ?case using IH dv by simp
qed simp

lemma recover_device_row_keep:
  "key_fields (recover_device_row a b now r) = key_fields r"
  "d_target_ordinal (recover_device_row a b now r) = d_target_ordinal r"
  "d_create_capabilities (recover_device_row a b now r) = d_create_capabilities r"
  "d_attempt (recover_device_row a b now r) = d_attempt r"
  "d_accept_replay_count (recover_device_row a b now r) = d_accept_replay_count r"
  by (simp_all add: recover_device_row_def key_fields_def)

lemma recover_device_row_state:
  "d_state (recover_device_row a b now r) =
    (if d_state r = D_WAITING_TRANSFER then D_QUEUED
     else if is_active r then D_RECONCILING else d_state r)"
  by (cases "d_state r") (simp_all add: recover_device_row_def is_active_def ACTIVE_DEVICE_STATES_def)

lemma recover_devices_effect:
  assumes "recover_devices a b now rows (s, touched) = Inr (s', touched')"
    and "distinct (map d_key rows)" and "distinct touched" and "keys_ok s"
  shows "db_fences s' = db_fences s \<and> keys_ok s' \<and> db_jobs s' = db_jobs s \<and>
    db_devices s' = update_rows (\<lambda>r. d_key r \<in> d_key ` {x \<in> set rows. is_active x}) (recover_device_row a b now) (db_devices s) \<and>
    distinct touched' \<and> set touched' = set touched \<union> d_job_id ` {x \<in> set rows. is_active x}"
  using assms
proof (induction rows arbitrary: s touched)
  case Nil
  then show ?case by (simp add: update_rows_def)
next
  case (Cons row rows)
  let ?g = "recover_device_row a b now" and ?K = "\<lambda>rs. d_key ` {x \<in> set rs. is_active x}"
  have gk: "d_key (?g r) = d_key r" for r
    using recover_device_row_keep(1) [of a b now r] by (simp add: key_fields_def)
  show ?case
  proof (cases "is_active row")
    case False
    then have "?K (row # rows) = ?K rows" "{x \<in> set (row # rows). is_active x} = {x \<in> set rows. is_active x}" by auto
    with False Cons.IH [of s touched] Cons.prems show ?thesis by simp
  next
    case True
    then obtain s1 where s1: "update_devices_where (\<lambda>r. d_key r = d_key row) ?g s = Inr s1"
      and r: "recover_devices a b now rows (s1, add_touched (d_job_id row) touched) = Inr (s', touched')"
      using Cons.prems(1) by (auto simp: update_device_def rbind_eq_Inr)
    have k1: "keys_ok s1" using keys_update_devices [OF Cons.prems(4) s1] recover_device_row_keep(1) by blast
    have e1: "db_devices s1 = update_rows (\<lambda>r. d_key r = d_key row) ?g (db_devices s)"
      "db_jobs s1 = db_jobs s" "db_fences s1 = db_fences s"
      using s1 by (auto simp: update_devices_where_def Let_def split: if_splits)
    have nk: "d_key row \<notin> ?K rows" using Cons.prems(2) by auto
    have K: "?K (row # rows) = insert (d_key row) (?K rows)" using True by auto
    have "update_rows (\<lambda>r. d_key r \<in> ?K rows) ?g (update_rows (\<lambda>r. d_key r = d_key row) ?g (db_devices s)) =
        update_rows (\<lambda>r. d_key r \<in> ?K (row # rows)) ?g (db_devices s)"
      unfolding K using nk gk by (auto simp: update_rows_def)
    moreover have "{x \<in> set (row # rows). is_active x} = insert row {x \<in> set rows. is_active x}" using True by auto
    ultimately show ?thesis
      using Cons.IH [OF r _ _ k1] Cons.prems(2,3) e1 add_touched_props by (simp add: insert_commute)
  qed
qed

lemma rederive_all_effect:
  assumes "rfold (\<lambda>j. rederive_job j t) ids s = Inr s'" and "distinct ids" and "keys_ok s"
  shows "keys_ok s' \<and> db_fences s' = db_fences s \<and>
    agg s' k = (if k \<in> set ids then (map_option (rederive_row t (job_devices s k)) (get_job s k), job_devices s k)
                else agg s k)"
  using assms
proof (induction ids arbitrary: s)
  case (Cons i ids)
  then obtain s1 where s1: "rederive_job i t s = Inr s1" and r: "rfold (\<lambda>j. rederive_job j t) ids s1 = Inr s'"
    by (auto simp: rbind_eq_Inr)
  note a = agg_rederive_job [OF s1, of k]
  have g: "k \<noteq> i \<Longrightarrow> get_job s1 k = get_job s k \<and> job_devices s1 k = job_devices s k"
    using a by (simp add: agg_def)
  have "keys_ok s1" "db_fences s1 = db_fences s"
    using keys_rederive_job [OF Cons.prems(3) s1] fences_rederive [OF s1] by auto
  with Cons.IH [OF r] Cons.prems(2) a g show ?case by (cases "k = i") auto
qed simp

text \<open>One aggregate across a restart.\<close>

lemma recover_agg_dispatching:
  fixes a b now :: int
  assumes inv: "db_inv s" and job: "get_job s k = Some r" and st: "j_state r \<in> {J_RUNNING, J_RECONCILING}"
  defines "ds' \<equiv> update_rows is_active (recover_device_row a b now) (job_devices s k)"
  shows "agg_ok (Some (rederive_row now ds' (recover_job_row now r)), ds') \<and>
    agg_step (Some r, job_devices s k) (Some (rederive_row now ds' (recover_job_row now r)), ds')"
proof -
  have ok: "agg_ok (Some r, job_devices s k)" by (rule inv_agg [OF inv job])
  then have d: "x \<in> set (job_devices s k) \<Longrightarrow> device_ok x" and r: "job_row_ok r" for x
    by (auto simp: agg_ok_def list_all_iff)
  have ev: "row_change_ok s k x (recover_device_row a b now x)" if "x \<in> set (job_devices s k)" "is_active x" for x
    using d [OF that(1)] that(2)
    by (intro row_change_okI) (auto simp: recover_device_row_keep recover_device_row_state device_change_def
        is_active_def ACTIVE_DEVICE_STATES_def)
  have r': "recover_job_row now r = r\<lparr>j_dispatch_enabled := False, j_dispatch_paused_reason := Some ''server_restart'',
          j_revision := j_revision r + 1, j_updated_at := now\<rparr>"
    using st by (auto simp: recover_job_row_def)
  have "list_all2 device_evolves (job_devices s k) ds'" "list_all device_ok ds'"
    unfolding ds'_def using row_change_ok_update_rows [of "job_devices s k" is_active s k] ev d
    by (auto simp: list_all_iff)
  then show ?thesis
    using st r by (intro device_change_law [OF ok]) (auto simp: r' request_fields_def job_row_ok_def)
qed

lemma recover_agg_pre_dispatch:
  assumes inv: "db_inv s" and job: "get_job s k = Some r" and st: "j_state r \<notin> {J_RUNNING, J_RECONCILING}"
  shows "agg_ok (Some (recover_job_row now r), job_devices s k) \<and>
    agg_step (Some r, job_devices s k) (Some (recover_job_row now r), job_devices s k)"
proof (cases "recovers now r")
  case True
  then have n: "j_state r \<in> {J_CREATED, J_UPLOADING, J_PACKAGING}" using st by (auto simp: recovers_def)
  have s': "j_state (recover_job_row now r) = J_INTERRUPTED" "j_revision (recover_job_row now r) = j_revision r + 1"
    "j_terminal_at (recover_job_row now r) = Some now" "j_dispatch_enabled (recover_job_row now r) = j_dispatch_enabled r"
    using True st by (auto simp: recovers_def recover_job_row_def interrupt_expired_def)
  have "job_row_ok (recover_job_row now r)"
    using inv_job_ok(1) [OF inv job] n s' recover_job_row_keys [of now r]
    by (auto simp: job_row_ok_def TERMINAL_JOB_STATES_def dispatched_exact_def)
  moreover have "job_consistent (j_state (recover_job_row now r)) (map d_state (job_devices s k))"
    using consistent_frozen [OF inv_job_ok(2) [OF inv job]] n s'(1) by (auto simp: never_rederived_def)
  moreover have "job_evolves r (recover_job_row now r)"
    using n s' recover_job_row_keys [of now r] by (auto simp: job_evolves_def job_change_def)
  ultimately show ?thesis
    using job_change_law [OF inv_agg [OF inv job]] s'(2) by simp
next
  case False
  then have "recover_job_row now r = r" by (auto simp: recovers_def recover_job_row_def)
  then show ?thesis using inv_agg [OF inv job] by simp
qed

lemma recover_startup_cases:
  assumes "recover_startup_sync a b now s = (x, s')"
  obtains "s' = s" | s1 cleanup t1 s2 t2 snaps where
    "recover_jobs now (db_jobs s) (s, [], []) = (s1, cleanup, t1)"
    "recover_devices a b now (db_devices s1) (s1, t1) = Inr (s2, t2)"
    "rfold (\<lambda>j. rederive_job j now) t2 s2 = Inr s'" "x = Inr (snaps, cleanup)"
    "rmap (snapshot_of s') (sort t2) = Inr snaps"
proof -
  obtain s1 cleanup t1 where 1: "recover_jobs now (db_jobs s) (s, [], []) = (s1, cleanup, t1)"
    by (metis prod_cases3)
  show ?thesis
  proof (cases "s' = s")
    case False
    then obtain s2 t2 snaps where "recover_devices a b now (db_devices s1) (s1, t1) = Inr (s2, t2)"
      "rfold (\<lambda>j. rederive_job j now) t2 s2 = Inr s'" "x = Inr (snaps, cleanup)"
      "rmap (snapshot_of s') (sort t2) = Inr snaps"
      using assms 1
      by (auto simp: recover_startup_sync_def transact_def rbind_eq_Inr rbind_eq_Inl split: sum.splits prod.splits)
    with 1 that show ?thesis by blast
  qed (use that in blast)
qed

text \<open>The effect of a recovery that commits, aggregate by aggregate.\<close>

lemma recover_startup_effect:
  assumes inv: "db_inv s" and 1: "recover_jobs now (db_jobs s) (s, [], []) = (s1, cleanup, t1)"
    and 2: "recover_devices a b now (db_devices s1) (s1, t1) = Inr (s2, t2)"
    and 3: "rfold (\<lambda>j. rederive_job j now) t2 s2 = Inr s'"
  defines "ds' \<equiv> \<lambda>k. update_rows is_active (recover_device_row a b now) (job_devices s k)"
  shows "keys_ok s' \<and> db_fences s' = db_fences s \<and> distinct t2 \<and>
    set t2 = j_job_id ` {r \<in> set (db_jobs s). recovers now r} \<union> d_job_id ` {x \<in> set (db_devices s). is_active x} \<and>
    (\<forall>k. agg s' k = (map_option ((if k \<in> set t2 then rederive_row now (ds' k) else (\<lambda>r. r)) \<circ> recover_job_row now) (get_job s k), ds' k))"
proof -
  have keys: "keys_ok s" using inv by (simp add: db_inv_def)
  then have dj: "distinct (map j_job_id (db_jobs s))" and dd: "distinct (map d_key (db_devices s))"
    by (auto simp: keys_ok_def)
  have g: "get_job s (j_job_id r) = Some r" if "r \<in> set (db_jobs s)" for r
    using that dj by (auto simp: get_job_def lookup_row_Some_iff)
  note e1 = recover_jobs_effect [OF 1 dj g keys]
  have j1: "get_job s1 k = map_option (recover_job_row now) (get_job s k)" for k
    using e1 lookup_row_None_iff [of j_job_id k "db_jobs s"] by (auto simp: get_job_def)
  have e2: "db_fences s2 = db_fences s" "keys_ok s2" "db_jobs s2 = db_jobs s1" "distinct t2"
    "set t2 = j_job_id ` {r \<in> set (db_jobs s). recovers now r} \<union> d_job_id ` {x \<in> set (db_devices s). is_active x}"
    "db_devices s2 = update_rows (\<lambda>r. d_key r \<in> d_key ` {x \<in> set (db_devices s). is_active x}) (recover_device_row a b now) (db_devices s)"
    using recover_devices_effect [OF 2] e1 dd by simp_all
  have inj: "d_key r = d_key x \<Longrightarrow> r = x" if "r \<in> set (db_devices s)" "x \<in> set (db_devices s)" for r x
    using dd that by (auto simp: distinct_map inj_on_def)
  have dv: "db_devices s2 = update_rows is_active (recover_device_row a b now) (db_devices s)"
    unfolding e2(6) update_rows_def using inj by (intro map_cong refl) (metis (mono_tags, lifting) imageE image_eqI mem_Collect_eq)
  have jd: "job_devices s2 k = ds' k" for k
    using recover_device_row_keep(1) key_fields_job
    by (auto simp: dv job_devices_def ds'_def intro!: update_rows_filter)
  have j2: "get_job s2 k = map_option (recover_job_row now) (get_job s k)" for k
    using j1 [of k] e2(3) by (simp add: get_job_def)
  show ?thesis
    using rederive_all_effect [OF 3 e2(4,2)] e2(1,4,5) jd j2
    by (auto simp: option.map_comp agg_def comp_def)
qed

lemma g_unique:
  "db_inv s \<Longrightarrow> r \<in> set (db_jobs s) \<Longrightarrow> x \<in> set (db_jobs s) \<Longrightarrow> j_job_id r = j_job_id x \<Longrightarrow> r = x"
  by (auto simp: db_inv_def keys_ok_def distinct_map inj_on_def)

lemma recover_startup_step:
  assumes "recover_startup_sync a b now s = (x, s')" and inv: "db_inv s"
  shows "inv_step s s'"
  using assms(1)
proof (cases rule: recover_startup_cases)
  case 1
  with inv inv_step_refl show ?thesis by auto
next
  case (2 s1 cleanup t1 s2 t2 snaps)
  let ?ds = "\<lambda>k. update_rows is_active (recover_device_row a b now) (job_devices s k)"
  note e = recover_startup_effect [OF inv 2(1-3)]
  show ?thesis
  proof (rule inv_stepI [OF inv])
    show "agg_ok (agg s' k) \<and> agg_step (agg s k) (agg s' k)" for k
    proof (cases "get_job s k")
      case None
      moreover have "agg_ok (agg s k)" using inv by (simp add: db_inv_def)
      ultimately show ?thesis using e by (auto simp: agg_ok_def agg_step_def update_rows_def)
    next
      case (Some r)
      then have r: "r \<in> set (db_jobs s)" "j_job_id r = k" by (auto dest: get_job_in)
      show ?thesis
      proof (cases "j_state r \<in> {J_RUNNING, J_RECONCILING}")
        case True
        then have "k \<in> set t2" using e r by (auto simp: recovers_def)
        with e Some recover_agg_dispatching [OF inv Some True, of now a b] show ?thesis
          by (simp add: agg_lookup)
      next
        case False
        then have na: "\<not> is_active x" if "x \<in> set (job_devices s k)" for x
          using active_job_dispatching [OF inv that] Some by (auto simp: dispatching_job_def)
        then have ds: "?ds k = job_devices s k" by (auto intro: update_rows_same)
        have "rederive_row now (job_devices s k) (recover_job_row now r) = recover_job_row now r" if "k \<in> set t2"
        proof -
          have "recovers now r"
            using that e na r g_unique [OF inv] by (force simp: job_devices_def)
          then have "j_state (recover_job_row now r) = J_INTERRUPTED"
            using False by (auto simp: recovers_def recover_job_row_def interrupt_expired_def)
          then show ?thesis by (simp add: rederive_row_def never_rederived_def)
        qed
        with e ds Some recover_agg_pre_dispatch [OF inv Some False, of now] show ?thesis
          by (auto simp: agg_lookup)
      qed
    qed
  qed (use e in auto)
qed

end
