(* ===== verification/Transition_Systems.thy ===== *)
theory Transition_Systems
  imports Main
begin

text \<open>
  What a client gets from a transition system with an invariant, and from one whose steps move every
  component of the state by an evolution relation. The job database, the transfer waiters and the
  dispatch scheduler interpret these interfaces.
\<close>

locale invariant_system =
  fixes start :: 's and step :: "'s \<Rightarrow> 's \<Rightarrow> bool" and ok :: "'s \<Rightarrow> bool"
  assumes start_ok: "ok start"
    and step_ok: "step s s' \<Longrightarrow> ok s \<Longrightarrow> ok s'"
begin

definition reachable :: "'s \<Rightarrow> bool" where
  "reachable s \<longleftrightarrow> step\<^sup>*\<^sup>* start s"

lemma steps_ok: "step\<^sup>*\<^sup>* s s' \<Longrightarrow> ok s \<Longrightarrow> ok s'"
  by (induction rule: rtranclp_induct) (auto intro: step_ok)

lemma reachable_ok: "reachable s \<Longrightarrow> ok s"
  unfolding reachable_def using steps_ok start_ok by blast

lemma reachable_steps: "reachable s \<Longrightarrow> step\<^sup>*\<^sup>* s s' \<Longrightarrow> reachable s'"
  by (simp add: reachable_def)

end

text \<open>Every step moves each component of the state by an evolution relation.\<close>

locale evolving_system = invariant_system start step ok
  for start :: 's and step and ok +
  fixes view :: "'s \<Rightarrow> 'k \<Rightarrow> 'v" and evolves :: "'v \<Rightarrow> 'v \<Rightarrow> bool"
  assumes step_evolves: "step s s' \<Longrightarrow> ok s \<Longrightarrow> evolves (view s k) (view s' k)"
begin

lemma steps_evolve: "step\<^sup>*\<^sup>* s s' \<Longrightarrow> ok s \<Longrightarrow> evolves\<^sup>*\<^sup>* (view s k) (view s' k)"
proof (induction rule: rtranclp_induct)
  case (step y z)
  then have "evolves (view y k) (view z k)" using steps_ok step_evolves by blast
  with step show ?case by (meson rtranclp.rtrancl_into_rtrancl)
qed simp

lemma stable:
  assumes "\<And>v w. P v \<Longrightarrow> evolves v w \<Longrightarrow> P w" and "step\<^sup>*\<^sup>* s s'" and "ok s" and "P (view s k)"
  shows "P (view s' k)"
  using steps_evolve [OF assms(2,3)] assms(4) by (induction rule: rtranclp_induct) (auto intro: assms(1))

end

end
