(* ===== verification/Push_Reachable.thy ===== *)
theory Push_Reachable
  imports Push_Recovery Transition_Systems
begin

text \<open>
  The database as a transition system: \<open>store_step\<close> is one call of a mutating operation of the
  store or the manager with any arguments and any clock value, a run is a sequence of such calls
  from an initialized empty database file. The interfaces of \<open>Transition_Systems\<close>, an invariant and
  a law on every aggregate, are interpreted on the model here.
\<close>

section \<open>The database as a transition system\<close>

text \<open>
  The side conditions say how the server calls an operation: a create request names at least one
  target (\<open>canonical_targets\<close> refuses an empty list); a row enters \<^verbatim>\<open>waiting_transfer\<close> through
  \<^verbatim>\<open>claim_next\<close> only and no caller of \<^verbatim>\<open>transition_device\<close> sets the replay counter; and
  \<^verbatim>\<open>fail_pre_dispatch\<close> is called for a job that is not dispatched, as its name says.
\<close>

inductive store_step :: "db \<Rightarrow> db \<Rightarrow> bool" where
  S_create: "create_job req protocols timeout new_id now s = (x, s') \<Longrightarrow> target_devices req \<noteq> [] \<Longrightarrow> store_step s s'"
| S_start_upload: "start_upload j now s = (u, s') \<Longrightarrow> store_step s s'"
| S_mark_packaging: "mark_packaging j n b now0 now s = (p, s') \<Longrightarrow> store_step s s'"
| S_publish: "publish_artifact j a now s = (p, s') \<Longrightarrow> store_step s s'"
| S_fail: "fail_pre_dispatch j target code detail now s = (p, s') \<Longrightarrow>
    (\<And>r. get_job s j = Some r \<Longrightarrow> j_state r \<notin> {J_RUNNING, J_RECONCILING}) \<Longrightarrow> store_step s s'"
| S_enable: "enable_dispatch j now s = (x, s') \<Longrightarrow> store_step s s'"
| S_transition: "transition_device j d expected target flds idem now s = (p, s') \<Longrightarrow>
    target \<noteq> D_WAITING_TRANSFER \<Longrightarrow> \<not> list_ex sets_replay_count flds \<Longrightarrow> store_step s s'"
| S_mark_dispatching: "mark_dispatching j d caps dl now s = (p, s') \<Longrightarrow> store_step s s'"
| S_mark_reconciling: "mark_reconciling j d exp reason dl now s = (p, s') \<Longrightarrow> store_step s s'"
| S_settle: "settle_result j d attempt t now s = (y, s') \<Longrightarrow> store_step s s'"
| S_expire: "expire_created j deadline now s = (z, s') \<Longrightarrow> store_step s s'"
| S_recover: "recover_startup_sync accept_ms full_ms now s = (w, s') \<Longrightarrow> store_step s s'"
| S_acceptance: "mark_acceptance_reconciling j d a dl now s = (x, s') \<Longrightarrow> store_step s s'"
| S_claim: "claim_next online now s = (c, s') \<Longrightarrow> store_step s s'"
| S_prepare: "prepare_dispatch j d protocol caps deadline now s = (p, s') \<Longrightarrow> store_step s s'"
| S_unconfirmed: "mark_unconfirmed j d process detail deadline observed now s = (l, s') \<Longrightarrow> store_step s s'"
| S_opaque: "add_opaque_fence d oid protocol process detail now s = (l, s') \<Longrightarrow> store_step s s'"
| S_replaced: "clear_fence_on_process_replacement d process v1 now s = (l, s') \<Longrightarrow> store_step s s'"
| S_clear: "clear_matching_fence j d attempt now s = (l, s') \<Longrightarrow> store_step s s'"
| S_clear_opaque: "clear_matching_opaque_fence d j att now s = (bl, s') \<Longrightarrow> store_step s s'"
| S_late: "settle_late_fenced_result j d attempt now s = (bl, s') \<Longrightarrow> store_step s s'"
| S_report: "reconcile_report j d attempt status phase info now s = (rl, s') \<Longrightarrow> store_step s s'"
| S_missing: "reconcile_missing_artifacts_sync present now s = (l, s') \<Longrightarrow> store_step s s'"

lemma store_step_inv: "store_step s s' \<Longrightarrow> db_inv s \<Longrightarrow> inv_step s s'"
proof (induction rule: store_step.induct)
  case (S_fail j target code detail now s p s')
  then show ?case by (blast intro: fail_pre_dispatch_step)
next
  case (S_transition j d expected target flds idem now s p s')
  then show ?case by (blast intro: transition_device_step)
next
  case (S_create req protocols timeout new_id now s x s')
  then show ?case by (blast intro: create_job_step)
qed (blast intro: start_upload_step mark_packaging_step publish_artifact_step enable_dispatch_step
    mark_dispatching_step mark_reconciling_step settle_result_step expire_created_step recover_startup_step
    mark_acceptance_reconciling_step claim_next_step prepare_dispatch_step mark_unconfirmed_step
    add_opaque_fence_step clear_fence_on_process_replacement_step clear_matching_fence_step
    clear_matching_opaque_fence_step settle_late_fenced_result_step reconcile_report_step
    reconcile_missing_artifacts_step)+

definition start_db :: db where
  "start_db = initialize empty_db"

lemma start_inv: "db_inv start_db"
  by (simp add: start_db_def initialize_def empty_db_def db_inv_def keys_ok_def active_index_ok_def agg_def
      get_job_def job_devices_def lookup_row_def agg_ok_def)

interpretation store: invariant_system start_db store_step db_inv
  by unfold_locales (use start_inv store_step_inv in \<open>auto simp: inv_step_def\<close>)

interpretation aggregates: evolving_system start_db store_step db_inv agg agg_step
  by unfold_locales (use store_step_inv in \<open>auto simp: inv_step_def\<close>)

definition db_reachable :: "db \<Rightarrow> bool" where
  "db_reachable s \<longleftrightarrow> store_step\<^sup>*\<^sup>* start_db s"

lemma reachable_iff: "db_reachable s \<longleftrightarrow> store.reachable s"
  by (simp add: db_reachable_def store.reachable_def)

lemma reachable_inv: "db_reachable s \<Longrightarrow> db_inv s"
  using store.reachable_ok by (simp add: reachable_iff)

lemma reachable_start: "db_reachable start_db"
  by (simp add: db_reachable_def)

lemma reachable_step: "db_reachable s \<Longrightarrow> store_step s s' \<Longrightarrow> db_reachable s'"
  unfolding db_reachable_def by (rule rtranclp.rtrancl_into_rtrancl)

end
