(* ===== verification/Transfer_Registry.thy ===== *)
theory Transfer_Registry
  imports Mdm_Prelude Transition_Systems "HOL-Library.AList"
begin

text \<open>
  \<^verbatim>\<open>transfer_registry.py\<close>: the table of waiters for transfer slots, shared by install and push jobs.
  A future of \<^verbatim>\<open>asyncio\<close> is a number, its state an entry of a heap, so that two tables that hold
  the same future see the same outcome; a Python dictionary is the association list of its items in
  insertion order, which \<open>AList.update\<close> and \<open>AList.delete\<close> change as Python does.
\<close>

section \<open>Futures\<close>

datatype 'a future = Pending | Result 'a | Cancelled

type_synonym fut = nat
type_synonym 'a heap = "'a future list"

definition future_at :: "'a heap \<Rightarrow> fut \<Rightarrow> 'a future option" where
  "future_at h f = (if f < length h then Some (h ! f) else None)"

definition pending :: "'a heap \<Rightarrow> fut \<Rightarrow> bool" where
  "pending h f \<longleftrightarrow> future_at h f = Some Pending"

text \<open>\<^verbatim>\<open>set_result\<close> and \<^verbatim>\<open>cancel\<close>, which every caller guards with \<^verbatim>\<open>not future.done()\<close>.\<close>

definition resolve :: "fut \<Rightarrow> 'a future \<Rightarrow> 'a heap \<Rightarrow> 'a heap" where
  "resolve f v h = (if pending h f then h[f := v] else h)"

text \<open>How one operation may change a future: it is created pending and completed at most once.\<close>

definition fut_evolves :: "'a future option \<Rightarrow> 'a future option \<Rightarrow> bool" where
  "fut_evolves v w \<longleftrightarrow> v = w \<or> (v = None \<and> w \<noteq> None) \<or> (v = Some Pending \<and> w \<noteq> None)"

lemma future_at_append: "future_at (h @ [v]) f = (if f = length h then Some v else future_at h f)"
  by (auto simp: future_at_def nth_append)

lemma future_at_update: "future_at (h[f := v]) g = (if g = f \<and> f < length h then Some v else future_at h g)"
  by (auto simp: future_at_def)

lemma future_at_resolve:
  "future_at (resolve f v h) g = (if g = f \<and> pending h f then Some v else future_at h g)"
  by (auto simp: resolve_def pending_def future_at_update) (auto simp: future_at_def split: if_splits)

lemma pending_resolve: "v \<noteq> Pending \<Longrightarrow> pending (resolve f v h) g \<longleftrightarrow> g \<noteq> f \<and> pending h g"
  by (auto simp: pending_def future_at_resolve)

lemma pending_append: "pending (h @ [Pending]) f \<longleftrightarrow> f = length h \<or> pending h f"
  by (auto simp: pending_def future_at_append)

lemma pending_length: "pending h f \<Longrightarrow> f < length h"
  by (auto simp: pending_def future_at_def split: if_splits)

lemma length_resolve [simp]: "length (resolve f v h) = length h"
  by (simp add: resolve_def)

lemma fut_evolves_resolve: "fut_evolves (future_at h g) (future_at (resolve f v h) g)"
  by (auto simp: fut_evolves_def future_at_resolve pending_def)

lemma fut_evolves_append: "fut_evolves (future_at h g) (future_at (h @ [v]) g)"
  by (auto simp: fut_evolves_def future_at_append) (auto simp: future_at_def)

lemma fut_evolves_refl [simp]: "fut_evolves v v"
  by (simp add: fut_evolves_def)

lemma fut_evolves_done: "fut_evolves v w \<Longrightarrow> v = Some x \<Longrightarrow> x \<noteq> Pending \<Longrightarrow> w = Some x"
  by (auto simp: fut_evolves_def)

section \<open>Keys\<close>

datatype transfer_kind = K_install | K_push

record transfer_key =
  k_kind :: transfer_kind
  k_device_id :: string
  k_job_id :: "string option"
  k_attempt :: "int option"

text \<open>\<^verbatim>\<open>TransferKey.__post_init__\<close>.\<close>

definition TransferKey ::
  "transfer_kind \<Rightarrow> string \<Rightarrow> string option \<Rightarrow> int option \<Rightarrow> mdm_error + transfer_key" where
  "TransferKey kind device job attempt =
     (let key = \<lparr>k_kind = kind, k_device_id = device, k_job_id = job, k_attempt = attempt\<rparr> in
      case kind of
        K_push \<Rightarrow> if job = None \<or> job = Some [] \<or> attempt \<noteq> Some 1
          then Inl (ValueError ''push transfer keys require job_id and attempt=1'') else Inr key
      | K_install \<Rightarrow> if job \<noteq> None \<or> attempt \<noteq> None
          then Inl (ValueError ''install transfer keys do not carry push identity'') else Inr key)"

section \<open>The registry\<close>

record waiters =
  w_heap :: "string heap"
  w_futures :: "(transfer_key \<times> fut) list"

definition w_get :: "waiters \<Rightarrow> transfer_key \<Rightarrow> fut option" where
  "w_get w key = map_of (w_futures w) key"

definition create_future :: "waiters \<Rightarrow> fut \<times> waiters" where
  "create_future w = (length (w_heap w), w\<lparr>w_heap := w_heap w @ [Pending]\<rparr>)"

definition cancel_future :: "fut \<Rightarrow> waiters \<Rightarrow> waiters" where
  "cancel_future f w = w\<lparr>w_heap := resolve f Cancelled (w_heap w)\<rparr>"

definition register :: "transfer_key \<Rightarrow> fut \<Rightarrow> waiters \<Rightarrow> mdm_error + waiters" where
  "register key future w =
     (if (case w_get w key of None \<Rightarrow> False | Some current \<Rightarrow> pending (w_heap w) current)
      then Inl (RuntimeError ''transfer waiter already registered'')
      else Inr (w\<lparr>w_futures := AList.update key future (w_futures w)\<rparr>))"

definition release_exact :: "transfer_key \<Rightarrow> string \<Rightarrow> waiters \<Rightarrow> bool \<times> waiters" where
  "release_exact key reason w =
     (case w_get w key of
        None \<Rightarrow> (False, w)
      | Some future \<Rightarrow>
          if \<not> pending (w_heap w) future then (False, w)
          else (True, w\<lparr>w_heap := resolve future (Result reason) (w_heap w)\<rparr>))"

fun release_items ::
  "string \<Rightarrow> string \<Rightarrow> (transfer_key \<times> fut) list \<Rightarrow> string heap \<Rightarrow> transfer_key list \<times> string heap" where
  "release_items device_id reason [] h = ([], h)"
| "release_items device_id reason ((key, future) # items) h =
     (if k_device_id key = device_id \<and> pending h future
      then (let (released, h') = release_items device_id reason items (resolve future (Result reason) h)
            in (key # released, h'))
      else release_items device_id reason items h)"

definition release_all_for_device :: "string \<Rightarrow> string \<Rightarrow> waiters \<Rightarrow> transfer_key list \<times> waiters" where
  "release_all_for_device device_id reason w =
     (let (released, h) = release_items device_id reason (w_futures w) (w_heap w)
      in (released, w\<lparr>w_heap := h\<rparr>))"

definition remove_if_same :: "transfer_key \<Rightarrow> fut \<Rightarrow> waiters \<Rightarrow> bool \<times> waiters" where
  "remove_if_same key future w =
     (if w_get w key \<noteq> Some future then (False, w)
      else (True, w\<lparr>w_futures := AList.delete key (w_futures w)\<rparr>))"

definition w_len :: "waiters \<Rightarrow> nat" where
  "w_len w = length (w_futures w)"

definition no_waiters :: waiters where
  "no_waiters = \<lparr>w_heap = [], w_futures = []\<rparr>"

section \<open>Effects on the table and on the futures\<close>

lemma register_get:
  "register k f w = Inr w' \<Longrightarrow> w_get w' k' = (if k' = k then Some f else w_get w k')"
  by (auto simp: register_def w_get_def update_conv' split: if_splits option.splits)

lemma register_heap: "register k f w = Inr w' \<Longrightarrow> w_heap w' = w_heap w"
  by (auto simp: register_def split: if_splits option.splits)

lemma register_not_pending:
  "register k f w = Inr w' \<Longrightarrow> w_get w k = Some g \<Longrightarrow> \<not> pending (w_heap w) g"
  by (auto simp: register_def split: if_splits)

lemma remove_get:
  "w_get (snd (remove_if_same k f w)) k' = (if k' = k \<and> w_get w k = Some f then None else w_get w k')"
  by (auto simp: remove_if_same_def w_get_def delete_conv')

lemma remove_heap [simp]: "w_heap (snd (remove_if_same k f w)) = w_heap w"
  by (simp add: remove_if_same_def)

lemma release_exact_get [simp]: "w_get (snd (release_exact k r w)) k' = w_get w k'"
  by (auto simp: release_exact_def w_get_def split: option.splits)

lemma release_exact_future:
  "future_at (w_heap (snd (release_exact k r w))) g =
    (if w_get w k = Some g \<and> pending (w_heap w) g then Some (Result r) else future_at (w_heap w) g)"
  by (auto simp: release_exact_def future_at_resolve split: option.splits)

lemma release_all_get [simp]: "w_get (snd (release_all_for_device d r w)) k = w_get w k"
  by (simp add: release_all_for_device_def w_get_def split: prod.splits)

lemma release_items_future:
  "future_at (snd (release_items d r items h)) g =
    (if pending h g \<and> (\<exists>k. (k, g) \<in> set items \<and> k_device_id k = d) then Some (Result r) else future_at h g)"
proof (induction d r items h rule: release_items.induct)
  case (2 d r key future items h)
  show ?case
  proof (cases "k_device_id key = d \<and> pending h future")
    case True
    then show ?thesis
      using 2(1) by (auto simp: split_beta pending_resolve future_at_resolve Let_def)
  next
    case False
    then show ?thesis using 2(2) by (auto simp: pending_def)
  qed
qed simp

lemma release_items_keys:
  "distinct (map snd items) \<Longrightarrow>
   fst (release_items d r items h) = map fst (filter (\<lambda>(k, f). k_device_id k = d \<and> pending h f) items)"
proof (induction d r items h rule: release_items.induct)
  case (2 d r key future items h)
  have "filter (\<lambda>a. k_device_id (fst a) = d \<and> pending (resolve future (Result r) h) (snd a)) items =
    filter (\<lambda>a. k_device_id (fst a) = d \<and> pending h (snd a)) items"
    using 2(3) by (intro filter_cong) (auto simp: pending_resolve)
  with 2 show ?case by (auto simp: split_beta Let_def)
qed simp

section \<open>The registry as a transition system\<close>

text \<open>
  One call of a client. A client registers a future it has just created, as \<^verbatim>\<open>push_scheduler.py\<close>
  and the install handler do.
\<close>

inductive waiter_step :: "waiters \<Rightarrow> waiters \<Rightarrow> bool" where
  W_create: "create_future w = (f, w') \<Longrightarrow> waiter_step w w'"
| W_register: "register key f w = Inr w' \<Longrightarrow> f < length (w_heap w) \<Longrightarrow> f \<notin> snd ` set (w_futures w) \<Longrightarrow>
    waiter_step w w'"
| W_release: "release_exact key reason w = (b, w') \<Longrightarrow> waiter_step w w'"
| W_release_all: "release_all_for_device d reason w = (ks, w') \<Longrightarrow> waiter_step w w'"
| W_remove: "remove_if_same key f w = (b, w') \<Longrightarrow> waiter_step w w'"
| W_cancel: "waiter_step w (cancel_future f w)"

definition waiters_ok :: "waiters \<Rightarrow> bool" where
  "waiters_ok w \<longleftrightarrow> distinct (map fst (w_futures w)) \<and> distinct (map snd (w_futures w)) \<and>
     (\<forall>f \<in> snd ` set (w_futures w). f < length (w_heap w))"

lemma update_distinct_snd:
  "distinct (map snd al) \<Longrightarrow> v \<notin> snd ` set al \<Longrightarrow> distinct (map snd (AList.update k v al))"
proof (induction al)
  case (Cons a al)
  have "snd ` set (AList.update k v al) \<subseteq> insert v (snd ` set al)"
    by (induction al) auto
  with Cons show ?case by auto
qed simp

lemma update_snd_subset: "snd ` set (AList.update k v al) \<subseteq> insert v (snd ` set al)"
  by (induction al) auto

lemma release_items_length [simp]: "length (snd (release_items d r items h)) = length h"
  by (induction d r items h rule: release_items.induct) (auto simp: split_beta Let_def)

lemma waiter_step_ok: "waiter_step w w' \<Longrightarrow> waiters_ok w \<Longrightarrow> waiters_ok w'"
proof (induction rule: waiter_step.induct)
  case (W_register key f w w')
  then have w': "w' = w\<lparr>w_futures := AList.update key f (w_futures w)\<rparr>"
    by (auto simp: register_def split: if_splits)
  have "\<forall>g \<in> snd ` set (w_futures w'). g < length (w_heap w)"
    using W_register(2,4) update_snd_subset [of key f "w_futures w"] unfolding w' waiters_ok_def by fastforce
  then show ?case
    using W_register(3,4) by (simp add: w' waiters_ok_def distinct_update update_distinct_snd)
next
  case (W_remove key f w b w')
  then have "w' = w \<or> w' = w\<lparr>w_futures := filter (\<lambda>(k, v). key \<noteq> k) (w_futures w)\<rparr>"
    by (auto simp: remove_if_same_def AList.delete_eq split: if_splits)
  with W_remove show ?case by (auto simp: waiters_ok_def intro: distinct_map_filter) (metis snd_conv)
qed (auto simp: waiters_ok_def create_future_def release_exact_def release_all_for_device_def cancel_future_def
    split_beta split: if_splits option.splits)

lemma waiter_step_evolves: "waiter_step w w' \<Longrightarrow> fut_evolves (future_at (w_heap w) f) (future_at (w_heap w') f)"
proof (induction rule: waiter_step.induct)
  case (W_release_all d reason w ks w')
  then show ?case
    by (auto simp: release_all_for_device_def split_beta release_items_future fut_evolves_def pending_def
        split: if_splits)
next
  case (W_release key reason w b w')
  then show ?case
    using release_exact_future [of key reason w f] by (auto simp: fut_evolves_def pending_def)
qed (auto simp: create_future_def register_def remove_if_same_def cancel_future_def fut_evolves_resolve
    fut_evolves_append split: if_splits)

interpretation registry: invariant_system no_waiters waiter_step waiters_ok
  by unfold_locales (simp add: no_waiters_def waiters_ok_def, rule waiter_step_ok)

interpretation outcomes: evolving_system no_waiters waiter_step waiters_ok "\<lambda>w. future_at (w_heap w)" fut_evolves
  by unfold_locales (rule waiter_step_evolves)

section \<open>Properties\<close>


text \<open>
  Releasing a device answers exactly its waiters: every waiter of the device that was pending
  gets the reason and its key is reported, no waiter of the device is pending afterwards, and every
  other future is untouched.
\<close>

theorem release_all_for_device_exact:
  assumes "waiter_step\<^sup>*\<^sup>* no_waiters w" and "release_all_for_device d reason w = (released, w')"
  shows "(\<forall>k f. w_get w k = Some f \<and> k_device_id k = d \<longrightarrow> \<not> pending (w_heap w') f) \<and>
    set released = {k. k_device_id k = d \<and> (\<exists>f. w_get w k = Some f \<and> pending (w_heap w) f)} \<and>
    (\<forall>f. future_at (w_heap w') f =
       (if pending (w_heap w) f \<and> (\<exists>k. w_get w k = Some f \<and> k_device_id k = d) then Some (Result reason)
        else future_at (w_heap w) f))"
proof -
  have ok: "waiters_ok w" using assms(1) registry.reachable_ok by (simp add: registry.reachable_def)
  then have get: "w_get w k = Some f \<longleftrightarrow> (k, f) \<in> set (w_futures w)" for k f
    by (simp add: waiters_ok_def w_get_def)
  have eq: "released = fst (release_items d reason (w_futures w) (w_heap w))"
    "w_heap w' = snd (release_items d reason (w_futures w) (w_heap w))"
    using assms(2) by (auto simp: release_all_for_device_def split: prod.splits)
  have "future_at (w_heap w') f =
       (if pending (w_heap w) f \<and> (\<exists>k. w_get w k = Some f \<and> k_device_id k = d) then Some (Result reason)
        else future_at (w_heap w) f)" for f
    by (simp add: eq(2) release_items_future get)
  moreover have "set released = {k. k_device_id k = d \<and> (\<exists>f. w_get w k = Some f \<and> pending (w_heap w) f)}"
    using ok by (force simp: eq(1) release_items_keys waiters_ok_def get)
  ultimately show ?thesis by (auto simp: pending_def)
qed

section \<open>A concrete registry\<close>

definition demo_key :: "string \<Rightarrow> transfer_key" where
  "demo_key d = \<lparr>k_kind = K_push, k_device_id = d, k_job_id = Some ''j1'', k_attempt = Some 1\<rparr>"

definition enroll :: "transfer_key \<Rightarrow> waiters \<Rightarrow> waiters" where
  "enroll key w = (case create_future w of (f, w1) \<Rightarrow> (case register key f w1 of Inl e \<Rightarrow> w1 | Inr w2 \<Rightarrow> w2))"

lemma enroll_steps: "waiters_ok w \<Longrightarrow> waiter_step\<^sup>*\<^sup>* w (enroll key w)"
proof -
  assume ok: "waiters_ok w"
  obtain f w1 where c: "create_future w = (f, w1)" by fastforce
  then have f: "f < length (w_heap w1)" "f \<notin> snd ` set (w_futures w1)"
    using ok by (auto simp: create_future_def waiters_ok_def dest!: bspec)
  have "waiter_step\<^sup>*\<^sup>* w w1" using W_create [OF c] by blast
  then show ?thesis
    using c f by (auto simp: enroll_def intro: W_register rtranclp.rtrancl_into_rtrancl split: sum.splits)
qed

definition demo_waiters :: waiters where
  "demo_waiters = snd (release_exact (demo_key ''b'') ''done'' (enroll (demo_key ''b'') (enroll (demo_key ''a'') no_waiters)))"

lemma demo_waiters_reachable: "waiter_step\<^sup>*\<^sup>* no_waiters demo_waiters"
proof -
  have a: "waiter_step\<^sup>*\<^sup>* no_waiters (enroll (demo_key ''a'') no_waiters)"
    by (rule enroll_steps [OF registry.start_ok])
  then have "waiter_step\<^sup>*\<^sup>* no_waiters (enroll (demo_key ''b'') (enroll (demo_key ''a'') no_waiters))"
    using enroll_steps registry.steps_ok [OF a registry.start_ok] by (meson rtranclp_trans)
  then show ?thesis
    unfolding demo_waiters_def using W_release [OF surjective_pairing] by (meson rtranclp.rtrancl_into_rtrancl)
qed


theorem release_all_for_device_exact_witness:
  "set (fst (release_all_for_device ''a'' ''offline'' demo_waiters)) = {demo_key ''a''} \<and>
   \<not> pending (w_heap (snd (release_all_for_device ''a'' ''offline'' demo_waiters))) 0"
proof -
  have "w_get demo_waiters (demo_key ''a'') = Some 0" "k_device_id (demo_key ''a'') = ''a''" by code_simp+
  moreover have "fst (release_all_for_device ''a'' ''offline'' demo_waiters) = [demo_key ''a'']" by code_simp
  ultimately show ?thesis
    using release_all_for_device_exact [OF demo_waiters_reachable surjective_pairing, of "''a''" "''offline''"] by auto
qed

end
