(* ===== verification/Push_Publication.thy ===== *)
theory Push_Publication
  imports Push_Manager Transition_Systems "HOL-Library.AList"
begin

text \<open>
  Publication of job snapshots to the admin consoles (\<^verbatim>\<open>publish\<close> and \<^verbatim>\<open>_publication_loop\<close> of
  \<^verbatim>\<open>push_runtime.py\<close>): snapshots that are not newer than the last one published for the job are
  dropped, pending ones are coalesced per job, and one task forwards them.
\<close>

record publication =
  pub_revisions :: "(job_id \<times> int) list"
  pub_pending :: "(job_id \<times> snapshot) list"
  pub_events :: "(job_id \<times> int \<times> snapshot) list"
  pub_wake :: bool

definition published_revision :: "publication \<Rightarrow> job_id \<Rightarrow> int" where
  "published_revision p j = (case map_of (pub_revisions p) j of None \<Rightarrow> - 1 | Some r \<Rightarrow> r)"

definition publish :: "snapshot \<Rightarrow> publication \<Rightarrow> publication" where
  "publish snap p =
     (if s_revision snap \<le> published_revision p (s_job_id snap) then p
      else p\<lparr>pub_revisions := AList.update (s_job_id snap) (s_revision snap) (pub_revisions p),
             pub_pending := AList.update (s_job_id snap) snap (pub_pending p), pub_wake := True\<rparr>)"

text \<open>
  One turn of the inner loop of \<^verbatim>\<open>_publication_loop\<close>: \<^verbatim>\<open>popitem\<close> removes the last item, and the
  event is handed to \<^verbatim>\<open>forward_to_admins\<close>, whose failures are logged.
\<close>

definition publication_turn :: "publication \<Rightarrow> publication" where
  "publication_turn p =
     (if pub_pending p = [] then p
      else let (j, snap) = last (pub_pending p)
           in p\<lparr>pub_pending := butlast (pub_pending p), pub_events := pub_events p @ [(j, s_revision snap, snap)]\<rparr>)"

text \<open>The inner loop when nothing is published meanwhile.\<close>

function publication_drain :: "publication \<Rightarrow> publication" where
  "publication_drain p = (if pub_pending p = [] then p else publication_drain (publication_turn p))"
  by auto

termination
  by (relation "measure (\<lambda>p. length (pub_pending p))") (auto simp: publication_turn_def split: prod.splits)

declare publication_drain.simps [simp del]

definition no_publication :: publication where
  "no_publication = \<lparr>pub_revisions = [], pub_pending = [], pub_events = [], pub_wake = False\<rparr>"

inductive publication_step :: "publication \<Rightarrow> publication \<Rightarrow> bool" where
  PUB_publish: "publication_step p (publish snap p)"
| PUB_turn: "publication_step p (publication_turn p)"

section \<open>Invariant\<close>

definition job_events :: "publication \<Rightarrow> job_id \<Rightarrow> int list" where
  "job_events p j = map (fst \<circ> snd) (filter (\<lambda>e. fst e = j) (pub_events p))"

text \<open>The revisions of a job in the order its admins get them, the pending one last.\<close>

definition job_stream :: "publication \<Rightarrow> job_id \<Rightarrow> int list" where
  "job_stream p j = job_events p j @ (case map_of (pub_pending p) j of None \<Rightarrow> [] | Some snap \<Rightarrow> [s_revision snap])"

definition stream_ok :: "int list \<Rightarrow> int option \<Rightarrow> bool" where
  "stream_ok xs newest \<longleftrightarrow> sorted_wrt (<) xs \<and>
     (case newest of None \<Rightarrow> xs = [] | Some r \<Rightarrow> xs \<noteq> [] \<and> last xs = r)"

definition publication_ok :: "publication \<Rightarrow> bool" where
  "publication_ok p \<longleftrightarrow> distinct (map fst (pub_pending p)) \<and>
     (\<forall>j. stream_ok (job_stream p j) (map_of (pub_revisions p) j))"

lemma stream_ok_last: "stream_ok xs (Some r) \<Longrightarrow> x \<in> set xs \<Longrightarrow> x \<le> r"
  by (cases xs rule: rev_cases) (auto simp: stream_ok_def sorted_wrt_append)

lemma publish_stream:
  assumes "published_revision p (s_job_id snap) < s_revision snap"
  shows "job_stream (publish snap p) j =
    (if j = s_job_id snap then job_events p j @ [s_revision snap] else job_stream p j)"
  using assms by (auto simp: publish_def job_stream_def job_events_def update_conv')

lemma publish_ok:
  assumes ok: "publication_ok p"
  shows "publication_ok (publish snap p)"
proof (cases "s_revision snap \<le> published_revision p (s_job_id snap)")
  case True
  then show ?thesis using ok by (simp add: publish_def)
next
  case False
  let ?j = "s_job_id snap"
  have st: "stream_ok (job_stream p ?j) (map_of (pub_revisions p) ?j)"
    using ok by (simp add: publication_ok_def)
  have "\<forall>x \<in> set (job_stream p ?j). x < s_revision snap"
    using st stream_ok_last False
    by (cases "map_of (pub_revisions p) ?j") (fastforce simp: published_revision_def stream_ok_def)+
  then have "stream_ok (job_events p ?j @ [s_revision snap]) (Some (s_revision snap))"
    using st by (auto simp: stream_ok_def job_stream_def sorted_wrt_append split: option.splits)
  moreover have "pub_revisions (publish snap p) = AList.update ?j (s_revision snap) (pub_revisions p)"
    "distinct (map fst (pub_pending (publish snap p)))"
    using ok False by (simp_all add: publish_def publication_ok_def distinct_update)
  ultimately show ?thesis
    using ok False by (simp add: publication_ok_def publish_stream update_conv')
qed

lemma turn_stream:
  assumes "distinct (map fst (pub_pending p))"
  shows "job_stream (publication_turn p) j = job_stream p j"
proof (cases "pub_pending p" rule: rev_cases)
  case (snoc xs e)
  obtain i snap where e: "e = (i, snap)" by fastforce
  have "map_of xs i = None" using assms by (simp add: snoc e map_of_eq_None_iff)
  then show ?thesis
    by (auto simp: publication_turn_def job_stream_def job_events_def snoc e map_add_def split: option.splits)
qed (simp add: publication_turn_def)

lemma turn_ok: "publication_ok p \<Longrightarrow> publication_ok (publication_turn p)"
proof -
  assume ok: "publication_ok p"
  have "distinct (map fst (pub_pending (publication_turn p)))"
    using ok by (auto simp: publication_ok_def publication_turn_def map_butlast distinct_butlast split: prod.splits)
  moreover have "pub_revisions (publication_turn p) = pub_revisions p"
    by (simp add: publication_turn_def split: prod.splits)
  ultimately show ?thesis
    using ok by (simp add: publication_ok_def turn_stream)
qed

interpretation publication: invariant_system no_publication publication_step publication_ok
proof unfold_locales
  show "publication_ok no_publication"
    by (simp add: publication_ok_def stream_ok_def no_publication_def job_stream_def job_events_def)
  show "publication_ok p'" if "publication_step p p'" "publication_ok p" for p p'
    using that by (induction rule: publication_step.induct) (auto intro: publish_ok turn_ok)
qed

lemma drain_runs:
  "publication_step\<^sup>*\<^sup>* p (publication_drain p) \<and> pub_pending (publication_drain p) = [] \<and>
   pub_revisions (publication_drain p) = pub_revisions p"
proof (induction p rule: publication_drain.induct)
  case (1 p)
  have r: "pub_revisions (publication_turn p) = pub_revisions p"
    by (simp add: publication_turn_def split: prod.splits)
  show ?case
  proof (cases "pub_pending p = []")
    case False
    then have "publication_drain p = publication_drain (publication_turn p)" by (simp add: publication_drain.simps)
    with 1 [OF False] r PUB_turn show ?thesis by (metis converse_rtranclp_into_rtranclp)
  qed (simp add: publication_drain.simps)
qed

section \<open>Properties\<close>

text \<open>
  (C39) Consoles never go back and never miss the last word: over any sequence of publications and
  loop turns the events of a job carry strictly increasing revisions, and once the loop has drained
  the queue the last event of every job carries the newest revision published for it.
\<close>

theorem publication_monotone:
  assumes "publication_step\<^sup>*\<^sup>* no_publication p"
  shows "sorted_wrt (<) (job_events p j) \<and> pub_pending (publication_drain p) = [] \<and>
    (case map_of (pub_revisions p) j of None \<Rightarrow> job_events p j = []
     | Some r \<Rightarrow> job_events (publication_drain p) j \<noteq> [] \<and> last (job_events (publication_drain p) j) = r)"
proof -
  have ok: "publication_ok p"
    using assms publication.reachable_ok by (simp add: publication.reachable_def)
  then have d: "publication_ok (publication_drain p)" "pub_pending (publication_drain p) = []"
    "pub_revisions (publication_drain p) = pub_revisions p"
    using drain_runs [of p] publication.steps_ok by auto
  have "job_stream (publication_drain p) j = job_events (publication_drain p) j"
    by (simp add: job_stream_def d(2))
  then have "stream_ok (job_events (publication_drain p) j) (map_of (pub_revisions p) j)"
    using d by (metis publication_ok_def)
  moreover have "stream_ok (job_stream p j) (map_of (pub_revisions p) j)"
    using ok by (simp add: publication_ok_def)
  ultimately show ?thesis
    using d(2) by (auto simp: stream_ok_def job_stream_def sorted_wrt_append split: option.splits)
qed

definition demo_snapshot :: "job_id \<Rightarrow> int \<Rightarrow> snapshot" where
  "demo_snapshot j r = \<lparr>s_job_id = j, s_client_request_id = ''r'', s_revision = r, s_state = J_RUNNING,
     s_dispatch_enabled = True, s_dispatch_paused_reason = None, s_mode = PUSH, s_dest_path = ''/sdcard/x'',
     s_source_label = ''x'', s_declared_file_count = 1, s_declared_total_bytes = 1, s_actual_file_count = None,
     s_actual_total_bytes = None, s_created_at = 0, s_create_expires_at = 0, s_updated_at = 0,
     s_terminal_at = None, s_failure = None, s_artifact = None, s_aggregate = [], s_devices = []\<rparr>"

definition demo_publication :: publication where
  "demo_publication = publish (demo_snapshot ''j'' 2) (publish (demo_snapshot ''j'' 4)
     (publication_turn (publish (demo_snapshot ''j'' 3) (publish (demo_snapshot ''j'' 1) no_publication))))"

lemma publish_run:
  "publication_step\<^sup>*\<^sup>* p0 p \<Longrightarrow> publication_step\<^sup>*\<^sup>* p0 (publish snap p)"
  by (rule rtranclp.rtrancl_into_rtrancl) (auto intro: PUB_publish)

lemma turn_run: "publication_step\<^sup>*\<^sup>* p0 p \<Longrightarrow> publication_step\<^sup>*\<^sup>* p0 (publication_turn p)"
  by (rule rtranclp.rtrancl_into_rtrancl) (auto intro: PUB_turn)

lemma demo_publication_reachable: "publication_step\<^sup>*\<^sup>* no_publication demo_publication"
  unfolding demo_publication_def
  by (intro publish_run turn_run rtranclp.rtrancl_refl)

theorem publication_monotone_witness:
  "job_events demo_publication ''j'' = [3] \<and> last (job_events (publication_drain demo_publication) ''j'') = 4"
proof -
  have "map_of (pub_revisions demo_publication) ''j'' = Some 4" "job_events demo_publication ''j'' = [3]"
    by code_simp+
  then show ?thesis using publication_monotone [OF demo_publication_reachable, of "''j''"] by simp
qed

end
