(* ===== verification/Push_Scheduler.thy ===== *)
theory Push_Scheduler
  imports Push_Reachable Transfer_Registry Push_Publication
begin

text \<open>
  The dispatch scheduler (\<^verbatim>\<open>push_scheduler.py\<close>) over the job database, the transfer registry and
  the publication queue. A coroutine is the stage at which it is suspended; one step of a task runs
  the code up to the next point where it waits for a slot, a socket or a future. What the outside
  world decides, the clock and whether a send succeeds, are arguments.
\<close>

section \<open>State\<close>

text \<open>
  \<open>ls_ref\<close> and \<open>ls_ws\<close> are the identities of the session object and of its socket, which the source
  compares with \<^verbatim>\<open>is\<close>.
\<close>

record live_session =
  ls_ref :: nat
  ls_device_id :: device_id
  ls_session_id :: string
  ls_ws :: nat
  ls_capabilities :: "string list"
  ls_process_instance_id :: "string option"
  ls_http_base :: string

text \<open>The constructor arguments that decide behaviour; time-outs in milliseconds.\<close>

record sched_config =
  cf_accept_ms :: int
  cf_accept_reconciliation_ms :: int
  cf_reconciliation_ms :: int
  cf_allow_legacy :: bool

text \<open>The local variables of \<^verbatim>\<open>_dispatch_assignment_inner\<close> once the waiters are registered.\<close>

record dispatch_ctx =
  c_job :: job_id
  c_device :: device_id
  c_attempt :: int
  c_key :: transfer_key
  c_session :: live_session
  c_protocol :: protocol_mode
  c_transfer :: fut
  c_accept :: "fut option"
  c_accept_deadline :: "int option"

datatype stage =
    T_slot device_row snapshot
  | T_prepare dispatch_ctx
  | T_send dispatch_ctx snapshot
  | T_legacy dispatch_ctx
  | T_accept dispatch_ctx snapshot
  | T_accept_timeout dispatch_ctx
  | T_transfer dispatch_ctx
  | T_transfer_timeout dispatch_ctx
  | T_fail job_id device_id "device_state set" string string
  | T_requeue job_id device_id string
  | T_recover job_id device_id int string

type_synonym task = nat
type_synonym owned = "transfer_key \<times> fut \<times> fut option"
type_synonym accept_key = "job_id \<times> device_id \<times> int"

record sched =
  sc_db :: db
  sc_waiters :: waiters
  sc_accept_heap :: "(string \<times> jobject) heap"
  sc_accept :: "(accept_key \<times> fut) list"
  sc_owned :: "(task \<times> owned) list"
  sc_tasks :: "(task \<times> stage) list"
  sc_sessions :: "(device_id \<times> live_session) list"
  sc_pub :: publication
  sc_sent :: "(live_session \<times> json) list"
  sc_wake :: bool

definition wake :: "sched \<Rightarrow> sched" where
  "wake st = st\<lparr>sc_wake := True\<rparr>"

definition publish_snapshot :: "snapshot \<Rightarrow> sched \<Rightarrow> sched" where
  "publish_snapshot snap st = st\<lparr>sc_pub := publish snap (sc_pub st)\<rparr>"

definition live :: "sched \<Rightarrow> device_id \<Rightarrow> live_session option" where
  "live st d = map_of (sc_sessions st) d"

text \<open>A database call of the scheduler, and a transition followed by its publication.\<close>

definition on_db :: "(db \<Rightarrow> (mdm_error + 'a) \<times> db) \<Rightarrow> sched \<Rightarrow> (mdm_error + 'a) \<times> sched" where
  "on_db op st = (case op (sc_db st) of (r, s') \<Rightarrow> (r, st\<lparr>sc_db := s'\<rparr>))"

definition publishing :: "(db \<Rightarrow> (mdm_error + snapshot) \<times> db) \<Rightarrow> sched \<Rightarrow> (mdm_error + snapshot) \<times> sched" where
  "publishing op st = (case on_db op st of
       (Inl e, st') \<Rightarrow> (Inl e, st')
     | (Inr snap, st') \<Rightarrow> (Inr snap, publish_snapshot snap st'))"

fun is_conflict :: "mdm_error \<Rightarrow> bool" where
  "is_conflict (StoreConflict m) = True"
| "is_conflict _ = False"

fun is_connection :: "mdm_error \<Rightarrow> bool" where
  "is_connection (ConnectionError m) = True"
| "is_connection _ = False"

section \<open>Commands\<close>

definition protocol_for :: "bool \<Rightarrow> live_session \<Rightarrow> protocol_mode option" where
  "protocol_for allow_legacy session =
     (if CAP_PUSH_JOB_ID_V1 \<in> set (ls_capabilities session) then Some JOB_V1
      else if allow_legacy then Some LEGACY else None)"

fun json_str :: "string option \<Rightarrow> json" where
  "json_str None = JNull" | "json_str (Some s) = JStr s"

fun json_int :: "int option \<Rightarrow> json" where
  "json_int None = JNull" | "json_int (Some i) = JInt i"

definition rstrip_slash :: "string \<Rightarrow> string" where
  "rstrip_slash s = rev (dropWhile (\<lambda>c. c = CHR ''/'') (rev s))"

text \<open>
  \<^verbatim>\<open>urljoin(base, path)\<close> for a base that ends in a slash and a relative path without scheme or dot
  segments: the concatenation.
\<close>

definition join_url :: "string \<Rightarrow> string \<Rightarrow> string" where
  "join_url http_base url = (rstrip_slash http_base @ ''/'') @ dropWhile (\<lambda>c. c = CHR ''/'') url"

definition command ::
  "snapshot \<Rightarrow> device_id \<Rightarrow> protocol_mode \<Rightarrow> string \<Rightarrow> mdm_error + jobject" where
  "command snap device_id protocol http_base =
     (case s_artifact snap of
        None \<Rightarrow> Inl AssertionError
      | Some artifact \<Rightarrow>
          let url = join_url http_base (av_url artifact);
              common = [(''type'', JStr ''EXECUTE_PUSH_FILES''), (''bundle_url'', JStr url),
                (''bundle_filename'', json_str (av_display_filename artifact)),
                (''dest_path'', JStr (s_dest_path snap)), (''delete_extras'', JBool (s_mode snap = SYNC))] in
          if protocol = JOB_V1 then
            (case map_of (s_devices snap) device_id of
               None \<Rightarrow> Inl (KeyError device_id)
             | Some view \<Rightarrow> Inr (common @
                 [(''job_id'', JStr (s_job_id snap)), (''attempt'', JInt (dv_attempt view)),
                  (''revision'', JInt (s_revision snap)), (''artifact_id'', JStr (av_artifact_id artifact)),
                  (''artifact_url'', JStr url), (''artifact_size'', json_int (av_byte_size artifact)),
                  (''artifact_sha256'', json_str (av_sha256 artifact))]))
          else Inr common)"

text \<open>\<open>net = None\<close>: the frame was sent; \<open>Some m\<close>: the send raised or timed out with message \<open>m\<close>.\<close>

definition send_exact_reconcile ::
  "string option \<Rightarrow> live_session \<Rightarrow> job_id \<Rightarrow> int \<Rightarrow> string option \<Rightarrow> sched \<Rightarrow> (mdm_error + unit) \<times> sched" where
  "send_exact_reconcile net session job_id attempt artifact_id st =
     (let payload = JObj [(''type'', JStr ''PUSH_RECONCILE_REQUEST''),
        (''jobs'', JArr [JObj [(''job_id'', JStr job_id), (''attempt'', JInt attempt),
          (''artifact_id'', json_str artifact_id)]])] in
      if map_option ls_ref (live st (ls_device_id session)) \<noteq> Some (ls_ref session)
      then (Inl (ConnectionError ''device owner changed before reconcile request''), st)
      else (case net of
          Some m \<Rightarrow> (Inl (ConnectionError m), st)
        | None \<Rightarrow> (Inr (), st\<lparr>sc_sent := sc_sent st @ [(session, payload)]\<rparr>)))"

definition send_reconcile ::
  "string option \<Rightarrow> live_session \<Rightarrow> snapshot \<Rightarrow> device_id \<Rightarrow> sched \<Rightarrow> (mdm_error + unit) \<times> sched" where
  "send_reconcile net session snap device_id st =
     (case map_of (s_devices snap) device_id of
        None \<Rightarrow> (Inl (KeyError device_id), st)
      | Some view \<Rightarrow> send_exact_reconcile net session (s_job_id snap) (dv_attempt view)
          (map_option av_artifact_id (s_artifact snap)) st)"

section \<open>Outcomes of a dispatch\<close>

text \<open>\<^verbatim>\<open>_fail_current\<close> and \<^verbatim>\<open>_requeue_after_send_race\<close>: a conflict means somebody else decided.\<close>

definition fail_current ::
  "job_id \<Rightarrow> device_id \<Rightarrow> device_state set \<Rightarrow> string \<Rightarrow> string \<Rightarrow> int \<Rightarrow> sched \<Rightarrow> (mdm_error + unit) \<times> sched" where
  "fail_current j d expected code detail now st =
     (case publishing (transition_device j d (Some expected) D_FAILED
         [F_failure_code (Some code), F_failure_detail (Some (take 2000 detail)), F_accept_deadline None,
          F_reconciliation_reason None, F_reconciliation_deadline None] False now) st of
        (Inl e, st') \<Rightarrow> (if is_conflict e then Inr () else Inl e, wake st')
      | (Inr snap, st') \<Rightarrow> (Inr (), wake st'))"

definition requeue_after_send_race ::
  "job_id \<Rightarrow> device_id \<Rightarrow> string \<Rightarrow> int \<Rightarrow> sched \<Rightarrow> (mdm_error + unit) \<times> sched" where
  "requeue_after_send_race j d detail now st =
     (case publishing (transition_device j d (Some {D_DISPATCHING}) D_QUEUED
         [F_queue_reason (Some ''awaiting_dispatch''), F_accept_deadline None, F_failure_code None,
          F_failure_detail (Some (take 2000 detail))] False now) st of
        (Inl e, st') \<Rightarrow> if is_conflict e then (Inr (), wake st') else (Inl e, st')
      | (Inr snap, st') \<Rightarrow> (Inr (), wake st'))"

text \<open>Requeue behind another job of the device; the answer \<open>False\<close> gives up the transfer slot.\<close>

definition requeue_busy :: "job_id \<Rightarrow> device_id \<Rightarrow> int \<Rightarrow> sched \<Rightarrow> (mdm_error + snapshot) \<times> sched" where
  "requeue_busy j d now =
     publishing (transition_device j d (Some {D_DISPATCHING, D_RECONCILING}) D_QUEUED
       [F_queue_reason (Some ''same_device_job''), F_accept_deadline None] False now)"

text \<open>The publications of a list of snapshots, in order.\<close>

definition publish_snapshots :: "snapshot list \<Rightarrow> sched \<Rightarrow> sched" where
  "publish_snapshots snaps st = fold publish_snapshot snaps st"

text \<open>The last branch of \<^verbatim>\<open>_handle_busy\<close>: an execution the server does not know.\<close>

definition busy_unknown :: "jobject \<Rightarrow> job_id \<Rightarrow> device_id \<Rightarrow> int \<Rightarrow> sched \<Rightarrow> (mdm_error + bool) \<times> sched" where
  "busy_unknown active j d now st =
     (case on_db (add_opaque_fence d (opaque_identity_for_active active)
         (if jget active ''legacy'' = JBool True then LEGACY else JOB_V1)
         (Option.bind (live st d) ls_process_instance_id)
         ''client reported an active Push/Sync execution unknown to this server'' now) st of
        (Inl e, st1) \<Rightarrow> (Inl e, st1)
      | (Inr snaps, st1) \<Rightarrow>
          (case fail_current j d {D_DISPATCHING, D_RECONCILING} ''client_state_conflict''
              ''Device reported an active Push/Sync execution that is not canonical on this server''
              now (publish_snapshots snaps st1) of
             (Inl e, st2) \<Rightarrow> (Inl e, st2)
           | (Inr u, st2) \<Rightarrow> (Inr False, st2)))"

definition active_job_of :: "jobject \<Rightarrow> jobject" where
  "active_job_of payload = (case jget payload ''active_job'' of JObj kvs \<Rightarrow> kvs | _ \<Rightarrow> [])"

definition busy_known ::
  "string option \<Rightarrow> jobject \<Rightarrow> job_id \<Rightarrow> device_id \<Rightarrow> int \<Rightarrow> sched \<Rightarrow> (mdm_error + bool) \<times> sched" where
  "busy_known net active j d now st =
     (case (if equals_one (jget active ''attempt'') then str_of (jget active ''job_id'') else None) of
        None \<Rightarrow> busy_unknown active j d now st
      | Some i \<Rightarrow>
          (case assignment (sc_db st) i d of
             None \<Rightarrow> busy_unknown active j d now st
           | Some (known, job) \<Rightarrow>
               let matches_fence = fence_matches (get_fence (sc_db st) d) i 1 in
               if d_state known \<in> ACTIVE_DEVICE_STATES \<or> d_state known = D_UNCONFIRMED \<and> matches_fence then
                 (case requeue_busy j d now st of
                    (Inl e, st1) \<Rightarrow> (if is_conflict e then Inr False else Inl e, st1)
                  | (Inr snap, st1) \<Rightarrow>
                      (case (if matches_fence then live st1 d else None) of
                         None \<Rightarrow> (Inr False, wake st1)
                       | Some session \<Rightarrow>
                           (case send_exact_reconcile net session i 1 (j_artifact_id job) st1 of
                              (Inl e, st2) \<Rightarrow> (Inl e, st2)
                            | (Inr u, st2) \<Rightarrow> (Inr False, wake st2))))
               else busy_unknown active j d now st))"

text \<open>\<^verbatim>\<open>_handle_busy\<close>; the answer says whether the transfer goes on.\<close>

definition handle_busy ::
  "string option \<Rightarrow> job_id \<Rightarrow> device_id \<Rightarrow> jobject \<Rightarrow> int \<Rightarrow> sched \<Rightarrow> (mdm_error + bool) \<times> sched" where
  "handle_busy net j d payload now st =
     (let active = active_job_of payload in
      if jget active ''legacy'' = JBool True \<and>
         (case active_assignment_for_device (sc_db st) d of
            None \<Rightarrow> False
          | Some row \<Rightarrow> d_job_id row \<noteq> j \<and> d_protocol_mode row = LEGACY) then
        (case requeue_busy j d now st of
           (Inl e, st1) \<Rightarrow> (if is_conflict e then Inr False else Inl e, st1)
         | (Inr snap, st1) \<Rightarrow> (Inr False, wake st1))
      else if jget active ''job_id'' = JStr j \<and> equals_one (jget active ''attempt'') then
        (case publishing (transition_device j d (Some {D_DISPATCHING, D_RECONCILING}) D_DOWNLOADING
             [F_accepted_at (Some now), F_accept_deadline None] False now) st of
           (Inl e, st1) \<Rightarrow> (if is_conflict e then Inr False else Inl e, st1)
         | (Inr snap, st1) \<Rightarrow> (Inr True, st1))
      else busy_known net active j d now st)"

section \<open>Waiters\<close>

text \<open>\<open>TransferKey("push", ...)\<close> guarantees the job and the attempt that the two asserts check.\<close>

definition accept_key_of :: "transfer_key \<Rightarrow> accept_key" where
  "accept_key_of key = (the (k_job_id key), k_device_id key, the (k_attempt key))"

definition clear_accept :: "transfer_key \<Rightarrow> fut option \<Rightarrow> sched \<Rightarrow> sched" where
  "clear_accept key accept_future st =
     (case accept_future of
        None \<Rightarrow> st
      | Some f \<Rightarrow>
          if map_of (sc_accept st) (accept_key_of key) = Some f
          then st\<lparr>sc_accept := AList.delete (accept_key_of key) (sc_accept st),
                  sc_accept_heap := resolve f Cancelled (sc_accept_heap st)\<rparr>
          else st)"

definition clear_dispatch_waiters :: "task \<Rightarrow> transfer_key \<Rightarrow> fut \<Rightarrow> fut option \<Rightarrow> sched \<Rightarrow> sched" where
  "clear_dispatch_waiters t key transfer_future accept_future st =
     (let w = snd (remove_if_same key transfer_future (cancel_future transfer_future (sc_waiters st)));
          st1 = clear_accept key accept_future (st\<lparr>sc_waiters := w\<rparr>);
          st2 = (case map_of (sc_owned st1) t of
              None \<Rightarrow> st1
            | Some (k, f, a) \<Rightarrow> if f = transfer_future then st1\<lparr>sc_owned := AList.delete t (sc_owned st1)\<rparr> else st1)
      in wake st2)"

definition clear_ctx :: "task \<Rightarrow> dispatch_ctx \<Rightarrow> sched \<Rightarrow> sched" where
  "clear_ctx t c st = clear_dispatch_waiters t (c_key c) (c_transfer c) (c_accept c) st"

definition release_key :: "transfer_key \<Rightarrow> string \<Rightarrow> sched \<Rightarrow> sched" where
  "release_key key reason st = st\<lparr>sc_waiters := snd (release_exact key reason (sc_waiters st))\<rparr>"

definition has_live_acceptance_waiter :: "sched \<Rightarrow> job_id \<Rightarrow> device_id \<Rightarrow> int \<Rightarrow> bool" where
  "has_live_acceptance_waiter st j d attempt =
     (case map_of (sc_accept st) (j, d, attempt) of
        None \<Rightarrow> False
      | Some f \<Rightarrow> pending (sc_accept_heap st) f \<and>
          list_ex (\<lambda>(t, k, tf, af). t \<in> fst ` set (sc_tasks st) \<and> TransferKey K_push d (Some j) (Some attempt) = Inr k \<and>
             af = Some f) (sc_owned st))"

definition command_response ::
  "job_id \<Rightarrow> device_id \<Rightarrow> int \<Rightarrow> string \<Rightarrow> jobject \<Rightarrow> sched \<Rightarrow> bool \<times> sched" where
  "command_response j d attempt outcome payload st =
     (case map_of (sc_accept st) (j, d, attempt) of
        None \<Rightarrow> (False, st)
      | Some f \<Rightarrow>
          if \<not> pending (sc_accept_heap st) f then (False, st)
          else (True, st\<lparr>sc_accept_heap := resolve f (Result (outcome, payload)) (sc_accept_heap st)\<rparr>))"

section \<open>Stages of a dispatch task\<close>

definition suspend :: "task \<Rightarrow> stage \<Rightarrow> sched \<Rightarrow> sched" where
  "suspend t g st = st\<lparr>sc_tasks := AList.update t g (sc_tasks st)\<rparr>"

text \<open>\<^verbatim>\<open>_dispatch_done\<close>.\<close>

definition finish :: "task \<Rightarrow> sched \<Rightarrow> sched" where
  "finish t st = wake (st\<lparr>sc_tasks := AList.delete t (sc_tasks st)\<rparr>)"

text \<open>
  An exception leaves \<^verbatim>\<open>_dispatch_assignment_inner\<close>: \<^verbatim>\<open>_recover_unexpected_dispatch_failure\<close> starts by
  giving up the waiters the task still owns. \<open>error_text\<close> is \<^verbatim>\<open>str(error)\<close>.
\<close>

fun error_text :: "mdm_error \<Rightarrow> string" where
  "error_text (PushJobError m) = m"
| "error_text (InvalidTransition m) = m"
| "error_text (StoreConflict m) = m"
| "error_text (StoreNotFound m) = CHR 39 # m @ [CHR 39]"
| "error_text (IntegrityError m) = m"
| "error_text (ValueError m) = m"
| "error_text (KeyError m) = CHR 39 # m @ [CHR 39]"
| "error_text (RuntimeError m) = m"
| "error_text AssertionError = []"
| "error_text (TypeError m) = m"
| "error_text (ConnectionError m) = m"
| "error_text (FileNotFoundError m) = m"
| "error_text (FileExistsError m) = m"
| "error_text (Zip64UnsupportedError m) = m"
| "error_text (StructError m) = m"
| "error_text (AttributeError m) = m"
| "error_text (OSError m) = m"
| "error_text (OverflowError m) = m"

definition enter_recovery :: "task \<Rightarrow> job_id \<Rightarrow> device_id \<Rightarrow> int \<Rightarrow> mdm_error \<Rightarrow> sched \<Rightarrow> sched" where
  "enter_recovery t j d attempt e st =
     (let st1 = (case map_of (sc_owned st) t of
          None \<Rightarrow> st
        | Some (k, f, a) \<Rightarrow> clear_dispatch_waiters t k f a (st\<lparr>sc_owned := AList.delete t (sc_owned st)\<rparr>))
      in suspend t (T_recover j d attempt (error_text e)) st1)"

definition recover_ctx :: "task \<Rightarrow> dispatch_ctx \<Rightarrow> mdm_error \<Rightarrow> sched \<Rightarrow> sched" where
  "recover_ctx t c e st = enter_recovery t (c_job c) (c_device c) (c_attempt c) e st"

text \<open>From the acquired slot to the registered waiters (lines 178 to 228).\<close>

definition register_waiters ::
  "sched_config \<Rightarrow> task \<Rightarrow> transfer_key \<Rightarrow> job_id \<Rightarrow> device_id \<Rightarrow> int \<Rightarrow> live_session \<Rightarrow> protocol_mode \<Rightarrow> int \<Rightarrow>
   sched \<Rightarrow> sched" where
  "register_waiters cfg t key j d attempt session protocol now st =
     (let (f, w) = create_future (sc_waiters st) in
      case register key f w of
        Inl e \<Rightarrow> enter_recovery t j d attempt e (st\<lparr>sc_waiters := w\<rparr>)
      | Inr w' \<Rightarrow>
          let st1 = st\<lparr>sc_waiters := w'\<rparr>;
              af = (if protocol = JOB_V1 then Some (length (sc_accept_heap st)) else None);
              st2 = (case af of
                  None \<Rightarrow> st1
                | Some a \<Rightarrow> st1\<lparr>sc_accept_heap := sc_accept_heap st1 @ [Pending],
                               sc_accept := AList.update (j, d, attempt) a (sc_accept st1)\<rparr>);
              st3 = st2\<lparr>sc_owned := AList.update t (key, f, af) (sc_owned st2)\<rparr>
          in suspend t (T_prepare \<lparr>c_job = j, c_device = d, c_attempt = attempt, c_key = key,
               c_session = session, c_protocol = protocol, c_transfer = f, c_accept = af,
               c_accept_deadline = (if protocol = JOB_V1 then Some (now + cf_accept_ms cfg) else None)\<rparr>) st3)"

definition dispatch_begin :: "sched_config \<Rightarrow> task \<Rightarrow> device_row \<Rightarrow> snapshot \<Rightarrow> int \<Rightarrow> sched \<Rightarrow> sched" where
  "dispatch_begin cfg t row snap now st =
     (let j = s_job_id snap; d = d_device_id row; attempt = d_attempt row in
      case TransferKey K_push d (Some j) (Some attempt) of
        Inl e \<Rightarrow> enter_recovery t j d attempt e st
      | Inr key \<Rightarrow>
          (case live st d of
             None \<Rightarrow> suspend t (T_fail j d {D_WAITING_TRANSFER} ''device_offline_before_dispatch''
                  ''Device went offline before its queue turn'') st
           | Some session \<Rightarrow>
               (case protocol_for (cf_allow_legacy cfg) session of
                  None \<Rightarrow> suspend t (T_fail j d {D_WAITING_TRANSFER} ''capability_changed_before_dispatch''
                       ''Live session no longer supports push_job_id_v1 and legacy fallback is disabled'') st
                | Some protocol \<Rightarrow> register_waiters cfg t key j d attempt session protocol now st)))"

definition dispatch_prepare :: "task \<Rightarrow> dispatch_ctx \<Rightarrow> int \<Rightarrow> sched \<Rightarrow> sched" where
  "dispatch_prepare t c now st =
     (case publishing (prepare_dispatch (c_job c) (c_device c) (c_protocol c) (ls_capabilities (c_session c))
         (c_accept_deadline c) now) st of
        (Inl e, st') \<Rightarrow> recover_ctx t c e (clear_ctx t c st')
      | (Inr snap, st') \<Rightarrow> suspend t (T_send c snap) st')"

text \<open>The final owner check and the send, both under the owner lock of the session.\<close>

definition owns_device :: "sched \<Rightarrow> dispatch_ctx \<Rightarrow> bool" where
  "owns_device st c =
     (case live st (c_device c) of
        None \<Rightarrow> False
      | Some current \<Rightarrow> ls_ref current = ls_ref (c_session c) \<and> ls_session_id current = ls_session_id (c_session c))"

definition dispatch_send :: "string option \<Rightarrow> task \<Rightarrow> dispatch_ctx \<Rightarrow> snapshot \<Rightarrow> sched \<Rightarrow> sched" where
  "dispatch_send net t c snap st =
     (case command snap (c_device c) (c_protocol c) (ls_http_base (c_session c)) of
        Inl e \<Rightarrow> recover_ctx t c e st
      | Inr frame \<Rightarrow>
          if \<not> owns_device st c then
            suspend t (T_requeue (c_job c) (c_device c) ''device WebSocket owner changed before command send'')
              (clear_ctx t c (release_key (c_key c) ''connection_replaced'' st))
          else (case net of
              Some m \<Rightarrow> suspend t (T_fail (c_job c) (c_device c) {D_DISPATCHING} ''command_send_failed''
                  (''Could not send EXECUTE_PUSH_FILES: '' @ m))
                (clear_ctx t c (release_key (c_key c) ''command_send_failed'' st))
            | None \<Rightarrow>
                let st1 = st\<lparr>sc_sent := sc_sent st @ [(c_session c, JObj frame)]\<rparr>
                in suspend t (if c_protocol c = LEGACY then T_legacy c else T_accept c snap) st1))"

definition dispatch_legacy :: "task \<Rightarrow> dispatch_ctx \<Rightarrow> int \<Rightarrow> sched \<Rightarrow> sched" where
  "dispatch_legacy t c now st =
     (case publishing (transition_device (c_job c) (c_device c) (Some {D_DISPATCHING}) D_DOWNLOADING
         [F_accepted_at (Some now), F_accept_deadline None] False now) st of
        (Inl e, st') \<Rightarrow> if is_conflict e then finish t (clear_ctx t c st') else recover_ctx t c e st'
      | (Inr snap, st') \<Rightarrow> suspend t (T_transfer c) st')"

text \<open>The texts of a refusal: the payload's strings where it has them.\<close>

definition rejection :: "jobject \<Rightarrow> string \<times> string" where
  "rejection payload =
     (let reason = (case str_of (jget payload ''reason'') of None \<Rightarrow> ''command_rejected''
            | Some r \<Rightarrow> if r = [] then ''command_rejected'' else r);
          detail = (case str_of (jget payload ''detail'') of None \<Rightarrow> reason
            | Some x \<Rightarrow> if x = [] then reason else x)
      in (reason, detail))"

text \<open>
  \<^verbatim>\<open>_await_acceptance\<close> once the device has answered; the value is its result, whether the task goes on
  to wait for the transfer.
\<close>

definition await_acceptance ::
  "string option \<Rightarrow> dispatch_ctx \<Rightarrow> string \<Rightarrow> jobject \<Rightarrow> int \<Rightarrow> sched \<Rightarrow> (mdm_error + bool) \<times> sched" where
  "await_acceptance net c outcome payload now st =
     (if outcome = ''accepted'' then
        (case publishing (transition_device (c_job c) (c_device c) (Some {D_DISPATCHING, D_RECONCILING}) D_DOWNLOADING
             [F_accepted_at (Some now), F_accept_deadline None, F_reconciliation_reason None,
              F_reconciliation_deadline None] False now) st of
           (Inl e, st') \<Rightarrow> (if is_conflict e then Inr True else Inl e, st')
         | (Inr snap, st') \<Rightarrow> (Inr True, st'))
      else if outcome = ''busy'' then
        (case handle_busy net (c_job c) (c_device c) payload now st of
           (Inl e, st') \<Rightarrow> (Inl e, st')
         | (Inr True, st') \<Rightarrow> (Inr True, st')
         | (Inr False, st') \<Rightarrow> (Inr False, release_key (c_key c) ''device_busy'' st'))
      else
        (case rejection payload of (reason, detail) \<Rightarrow>
           (case fail_current (c_job c) (c_device c) {D_DISPATCHING, D_RECONCILING} reason detail now
               (release_key (c_key c) ''command_rejected'' st) of
              (Inl e, st') \<Rightarrow> (Inl e, st')
            | (Inr u, st') \<Rightarrow> (Inr False, st'))))"

text \<open>\<^verbatim>\<open>_await_acceptance\<close> after the acceptance time-out.\<close>

definition acceptance_timeout ::
  "sched_config \<Rightarrow> string option \<Rightarrow> dispatch_ctx \<Rightarrow> int \<Rightarrow> sched \<Rightarrow> (mdm_error + bool) \<times> sched" where
  "acceptance_timeout cfg net c now st =
     (let give_up = (\<lambda>e. if is_conflict e \<or> is_connection e then Inr False else Inl e) in
      case on_db (mark_acceptance_reconciling (c_job c) (c_device c) (the (c_accept_deadline c))
          (now + cf_accept_reconciliation_ms cfg) now) st of
        (Inl e, st1) \<Rightarrow> (give_up e, st1)
      | (Inr (changed, snap), st1) \<Rightarrow>
          (case send_reconcile net (c_session c) snap (c_device c) (if changed then publish_snapshot snap st1 else st1) of
             (Inl e, st2) \<Rightarrow> (give_up e, st2)
           | (Inr u, st2) \<Rightarrow> (Inr True, st2)))"

text \<open>Both ways on from \<^verbatim>\<open>_await_acceptance\<close> (lines 296 to 310).\<close>

definition after_acceptance :: "task \<Rightarrow> dispatch_ctx \<Rightarrow> (mdm_error + bool) \<times> sched \<Rightarrow> sched" where
  "after_acceptance t c r =
     (case r of
        (Inl e, st) \<Rightarrow> recover_ctx t c e (clear_ctx t c st)
      | (Inr True, st) \<Rightarrow> suspend t (T_transfer c) st
      | (Inr False, st) \<Rightarrow> finish t (clear_ctx t c st))"

text \<open>The transfer time-out: hand the execution to reconciliation, then give up the slot.\<close>

definition transfer_timeout ::
  "sched_config \<Rightarrow> string option \<Rightarrow> dispatch_ctx \<Rightarrow> int \<Rightarrow> sched \<Rightarrow> (mdm_error + unit) \<times> sched" where
  "transfer_timeout cfg net c now st =
     (case active_assignment_for_device (sc_db st) (c_device c) of
        None \<Rightarrow> (Inr (), st)
      | Some row \<Rightarrow>
          if d_job_id row = c_job c \<and> d_attempt row = c_attempt c \<and>
             d_state row \<in> {D_DISPATCHING, D_DOWNLOADING, D_VALIDATING, D_APPLYING} then
            (case publishing (mark_reconciling (c_job c) (c_device c) {d_state row} ''transfer_timeout''
                 (now + cf_reconciliation_ms cfg) now) st of
               (Inl e, st1) \<Rightarrow> (if is_conflict e then Inr () else Inl e, st1)
             | (Inr snap, st1) \<Rightarrow>
                 (case live st1 (c_device c) of
                    None \<Rightarrow> (Inr (), st1)
                  | Some session \<Rightarrow>
                      (case send_reconcile net session snap (c_device c) st1 of
                         (Inl e, st2) \<Rightarrow> (if is_connection e then Inr () else Inl e, st2)
                       | (Inr u, st2) \<Rightarrow> (Inr (), st2))))
          else (Inr (), st))"

text \<open>
  One turn of the loop of \<^verbatim>\<open>_recover_unexpected_dispatch_failure\<close>; \<open>Inl\<close> is an exception, after which
  the source sleeps and tries again.
\<close>

definition recover_reconcile ::
  "string option \<Rightarrow> job_id \<Rightarrow> device_id \<Rightarrow> device_row \<Rightarrow> snapshot \<Rightarrow> sched \<Rightarrow> (mdm_error + unit) \<times> sched" where
  "recover_reconcile net j d row snap st =
     (let st1 = publish_snapshot snap st in
      case live st1 d of
        None \<Rightarrow> (Inr (), st1)
      | Some session \<Rightarrow>
          if d_protocol_mode row \<noteq> JOB_V1 then (Inr (), st1)
          else (case send_reconcile net session snap d st1 of
              (Inl e, st2) \<Rightarrow> (if is_connection e then Inr () else Inl e, st2)
            | (Inr u, st2) \<Rightarrow> (Inr (), st2)))"

definition recover_turn ::
  "sched_config \<Rightarrow> string option \<Rightarrow> job_id \<Rightarrow> device_id \<Rightarrow> int \<Rightarrow> string \<Rightarrow> int \<Rightarrow> sched \<Rightarrow> (mdm_error + unit) \<times> sched" where
  "recover_turn cfg net j d attempt error now st =
     (case assignment (sc_db st) j d of
        None \<Rightarrow> (Inr (), st)
      | Some (row, job) \<Rightarrow>
          if d_attempt row \<noteq> attempt then (Inr (), st)
          else if d_state row = D_WAITING_TRANSFER then
            (case publishing (transition_device j d (Some {D_WAITING_TRANSFER}) D_QUEUED
                 [F_queue_reason (Some ''dispatch_recovery''), F_failure_code None,
                  F_failure_detail (Some (take 2000 error))] False now) st of
               (Inl e, st') \<Rightarrow> (Inl e, st')
             | (Inr snap, st') \<Rightarrow> (Inr (), st'))
          else if d_state row \<in> {D_DISPATCHING, D_DOWNLOADING, D_VALIDATING, D_APPLYING} then
            (case on_db (mark_reconciling j d {d_state row} ''unexpected_dispatch_failure''
                 (now + (if d_state row = D_DISPATCHING \<and> d_accepted_at row = None
                         then cf_accept_reconciliation_ms cfg else cf_reconciliation_ms cfg)) now) st of
               (Inl e, st') \<Rightarrow> (Inl e, st')
             | (Inr snap, st') \<Rightarrow> recover_reconcile net j d row snap st')
          else if d_state row = D_RECONCILING then
            (case get_snapshot (sc_db st) j of
               Inl e \<Rightarrow> (Inl e, st)
             | Inr snap \<Rightarrow> recover_reconcile net j d row snap st)
          else (Inr (), st))"

text \<open>
  One step of a task. A task that waits for a future steps once the future is done; a tail call
  whose database call raises enters recovery.
\<close>

definition tail_call ::
  "task \<Rightarrow> job_id \<Rightarrow> device_id \<Rightarrow> (mdm_error + unit) \<times> sched \<Rightarrow> sched" where
  "tail_call t j d r =
     (case r of (Inl e, st) \<Rightarrow> enter_recovery t j d 1 e st | (Inr u, st) \<Rightarrow> finish t st)"

fun task_step :: "sched_config \<Rightarrow> string option \<Rightarrow> int \<Rightarrow> task \<Rightarrow> stage \<Rightarrow> sched \<Rightarrow> sched option" where
  "task_step cfg net now t (T_slot row snap) st = Some (dispatch_begin cfg t row snap now st)"
| "task_step cfg net now t (T_prepare c) st = Some (dispatch_prepare t c now st)"
| "task_step cfg net now t (T_send c snap) st = Some (dispatch_send net t c snap st)"
| "task_step cfg net now t (T_legacy c) st = Some (dispatch_legacy t c now st)"
| "task_step cfg net now t (T_accept c snap) st =
     (case Option.bind (c_accept c) (future_at (sc_accept_heap st)) of
        Some (Result (outcome, payload)) \<Rightarrow>
          Some (after_acceptance t c (await_acceptance net c outcome payload now st))
      | _ \<Rightarrow> None)"
| "task_step cfg net now t (T_accept_timeout c) st =
     Some (after_acceptance t c (acceptance_timeout cfg net c now st))"
| "task_step cfg net now t (T_transfer c) st =
     (if pending (w_heap (sc_waiters st)) (c_transfer c) then None else Some (finish t (clear_ctx t c st)))"
| "task_step cfg net now t (T_transfer_timeout c) st =
     (case transfer_timeout cfg net c now st of
        (Inl e, st') \<Rightarrow> Some (recover_ctx t c e (clear_ctx t c st'))
      | (Inr u, st') \<Rightarrow> Some (finish t (clear_ctx t c st')))"
| "task_step cfg net now t (T_fail j d expected code detail) st =
     Some (tail_call t j d (fail_current j d expected code detail now st))"
| "task_step cfg net now t (T_requeue j d detail) st =
     Some (tail_call t j d (requeue_after_send_race j d detail now st))"
| "task_step cfg net now t (T_recover j d attempt error) st =
     (case recover_turn cfg net j d attempt error now st of
        (Inl e, st') \<Rightarrow> Some st'
      | (Inr u, st') \<Rightarrow> Some (finish t st'))"

text \<open>\<^verbatim>\<open>asyncio.wait_for\<close> cancels the future it gives up on.\<close>

fun task_timeout :: "task \<Rightarrow> stage \<Rightarrow> sched \<Rightarrow> sched option" where
  "task_timeout t (T_accept c snap) st =
     (case c_accept c of
        None \<Rightarrow> None
      | Some f \<Rightarrow>
          if \<not> pending (sc_accept_heap st) f then None
          else Some (suspend t (T_accept_timeout c) (st\<lparr>sc_accept_heap := resolve f Cancelled (sc_accept_heap st)\<rparr>)))"
| "task_timeout t (T_transfer c) st =
     (if \<not> pending (w_heap (sc_waiters st)) (c_transfer c) then None
      else Some (suspend t (T_transfer_timeout c) (st\<lparr>sc_waiters := cancel_future (c_transfer c) (sc_waiters st)\<rparr>)))"
| "task_timeout t _ st = None"

section \<open>The scheduler loop and late responses\<close>

text \<open>One turn of the inner loop of \<^verbatim>\<open>_run\<close>: claim, and start a task for the claim.\<close>

definition run_turn :: "task \<Rightarrow> int \<Rightarrow> sched \<Rightarrow> sched" where
  "run_turn t now st =
     (case on_db (claim_next (map fst (sc_sessions st)) now) st of
        (Inr (Some (row, snap)), st') \<Rightarrow> suspend t (T_slot row snap) st'
      | (_, st') \<Rightarrow> st')"

definition handle_late_command_response ::
  "string option \<Rightarrow> job_id \<Rightarrow> device_id \<Rightarrow> string \<Rightarrow> jobject \<Rightarrow> int \<Rightarrow> sched \<Rightarrow> (mdm_error + unit) \<times> sched" where
  "handle_late_command_response net j d outcome payload now st =
     (case assignment (sc_db st) j d of
        None \<Rightarrow> (Inr (), st)
      | Some (row, job) \<Rightarrow>
          if d_state row \<noteq> D_RECONCILING then (Inr (), st)
          else (case TransferKey K_push d (Some j) (Some 1) of
              Inl e \<Rightarrow> (Inl e, st)
            | Inr key \<Rightarrow>
                if outcome = ''busy'' then
                  (case get_snapshot (sc_db st) j of
                     Inl e \<Rightarrow> (Inl e, st)
                   | Inr snap \<Rightarrow>
                       (case handle_busy net (s_job_id snap) d payload now st of
                          (Inl e, st') \<Rightarrow> (Inl e, st')
                        | (Inr True, st') \<Rightarrow> (Inr (), st')
                        | (Inr False, st') \<Rightarrow> (Inr (), release_key key ''late_device_busy'' st')))
                else
                  (case rejection payload of (reason, detail) \<Rightarrow>
                     fail_current j d {D_RECONCILING} reason detail now
                       (release_key key ''late_command_rejected'' st))))"

text \<open>
  \<^verbatim>\<open>stop\<close>: every task is cancelled where it waits. The handlers of \<^verbatim>\<open>_dispatch_assignment_inner\<close> give
  the waiters back on cancellation, except while the legacy branch waits for the database.
\<close>

fun cancel_task :: "task \<Rightarrow> stage \<Rightarrow> sched \<Rightarrow> sched" where
  "cancel_task t (T_prepare c) st = clear_ctx t c st"
| "cancel_task t (T_send c snap) st = clear_ctx t c st"
| "cancel_task t (T_accept c snap) st = clear_ctx t c st"
| "cancel_task t (T_accept_timeout c) st = clear_ctx t c st"
| "cancel_task t (T_transfer c) st = clear_ctx t c st"
| "cancel_task t (T_transfer_timeout c) st = clear_ctx t c st"
| "cancel_task t _ st = st"

definition stop :: "sched \<Rightarrow> sched" where
  "stop st =
     (let st1 = fold (\<lambda>(t, g). cancel_task t g) (sc_tasks st) st;
          h = fold (\<lambda>(k, f). resolve f Cancelled) (sc_accept st1) (sc_accept_heap st1)
      in st1\<lparr>sc_tasks := [], sc_accept_heap := h, sc_accept := [], sc_owned := []\<rparr>)"

end
