(* ===== verification/Push_Demo.thy ===== *)
theory Push_Demo
  imports Push_Reachable
begin

text \<open>
  A concrete run of the database, the states at which the theorems on runs are instantiated:
  one push job for two devices is created, uploaded, packaged, published and dispatched; the first
  device's command is lost and its assignment ends unconfirmed behind a fence.
\<close>

definition demo_request :: "string \<Rightarrow> string list \<Rightarrow> canonical_request" where
  "demo_request rid devices = \<lparr>client_request_id = rid, target_devices = devices, mode = PUSH,
     dest_path = ''/sdcard/demo'', source = \<lparr>display_name = ''demo'', declared_file_count = 1,
     declared_total_bytes = 10\<rparr>, fingerprint = ''fp-'' @ rid\<rparr>"

definition demo_protocols :: "device_id \<rightharpoonup> protocol_mode \<times> string list" where
  "demo_protocols d = Some (JOB_V1, [''push_job_id_v1''])"

definition demo_artifact :: published_artifact where
  "demo_artifact = \<lparr>p_artifact_id = ''art1'', p_storage_name = ''art1.zip'', p_display_filename = ''demo.zip'',
     p_byte_size = 10, p_sha256 = ''00'', p_entry_count = 1\<rparr>"

definition demo_created :: db where
  "demo_created = snd (create_job (demo_request ''r1'' [''a'', ''b'']) demo_protocols 1000 ''j1'' 1 start_db)"

definition demo_uploading :: db where
  "demo_uploading = snd (start_upload ''j1'' 2 demo_created)"

definition demo_packaging :: db where
  "demo_packaging = snd (mark_packaging ''j1'' 1 10 3 3 demo_uploading)"

definition demo_ready :: db where
  "demo_ready = snd (publish_artifact ''j1'' demo_artifact 4 demo_packaging)"

definition demo_running :: db where
  "demo_running = snd (enable_dispatch ''j1'' 5 demo_ready)"

definition demo_claimed :: db where
  "demo_claimed = snd (claim_next [''b'', ''a''] 6 demo_running)"

definition demo_dispatched :: db where
  "demo_dispatched = snd (prepare_dispatch ''j1'' ''a'' JOB_V1 [''push_job_id_v1''] (Some 100) 7 demo_claimed)"

definition demo_reconciling :: db where
  "demo_reconciling = snd (mark_acceptance_reconciling ''j1'' ''a'' 100 200 8 demo_dispatched)"

definition demo_unconfirmed :: db where
  "demo_unconfirmed = snd (mark_unconfirmed ''j1'' ''a'' (Some ''p1'') ''lost'' (Some 200) None 201 demo_reconciling)"

lemmas demo_defs = demo_created_def demo_uploading_def demo_packaging_def demo_ready_def demo_running_def
  demo_claimed_def demo_dispatched_def demo_reconciling_def demo_unconfirmed_def

lemma demo_created_step: "store_step start_db demo_created"
  unfolding demo_created_def by (rule S_create [OF surjective_pairing]) (simp add: demo_request_def)

lemma demo_ready_steps: "store_step\<^sup>*\<^sup>* demo_created demo_ready"
  unfolding demo_uploading_def demo_packaging_def demo_ready_def
  by (meson converse_rtranclp_into_rtranclp rtranclp.rtrancl_refl S_start_upload S_mark_packaging S_publish
      surjective_pairing)

lemma demo_unconfirmed_steps: "store_step\<^sup>*\<^sup>* demo_ready demo_unconfirmed"
  unfolding demo_running_def demo_claimed_def demo_dispatched_def demo_reconciling_def demo_unconfirmed_def
  by (meson converse_rtranclp_into_rtranclp rtranclp.rtrancl_refl S_enable S_claim S_prepare S_acceptance
      S_unconfirmed surjective_pairing)

lemma demo_claimed_steps: "store_step\<^sup>*\<^sup>* demo_ready demo_claimed"
  unfolding demo_running_def demo_claimed_def
  by (meson converse_rtranclp_into_rtranclp rtranclp.rtrancl_refl S_enable S_claim surjective_pairing)

lemma reachable_run: "db_reachable s \<Longrightarrow> store_step\<^sup>*\<^sup>* s s' \<Longrightarrow> db_reachable s'"
  using store.reachable_steps by (simp add: reachable_iff)

lemma demo_created_reachable: "db_reachable demo_created"
  by (rule reachable_step [OF reachable_start demo_created_step])

lemma demo_ready_reachable: "db_reachable demo_ready"
  by (rule reachable_run [OF demo_created_reachable demo_ready_steps])

lemma demo_running_reachable: "db_reachable demo_running"
  unfolding demo_running_def by (rule reachable_step [OF demo_ready_reachable S_enable [OF surjective_pairing]])

lemma demo_claimed_reachable: "db_reachable demo_claimed"
  by (rule reachable_run [OF demo_ready_reachable demo_claimed_steps])

lemma demo_unconfirmed_reachable: "db_reachable demo_unconfirmed"
  by (rule reachable_run [OF demo_ready_reachable demo_unconfirmed_steps])

lemma demo_dispatched_reachable: "db_reachable demo_dispatched"
  unfolding demo_dispatched_def by (rule reachable_step [OF demo_claimed_reachable S_prepare [OF surjective_pairing]])

lemma demo_reconciling_reachable: "db_reachable demo_reconciling"
  unfolding demo_reconciling_def by (rule reachable_step [OF demo_dispatched_reachable S_acceptance [OF surjective_pairing]])

text \<open>The requeued command is claimed and dispatched again, and its acceptance is lost again.\<close>

definition demo_lost_again :: "db \<Rightarrow> db" where
  "demo_lost_again s = snd (mark_acceptance_reconciling ''j1'' ''a'' 300 400 31
     (snd (prepare_dispatch ''j1'' ''a'' JOB_V1 [] (Some 300) 30 (snd (claim_next [''a''] 29 s)))))"

lemma demo_lost_again_steps: "store_step\<^sup>*\<^sup>* s (demo_lost_again s)"
  unfolding demo_lost_again_def
  by (meson converse_rtranclp_into_rtranclp rtranclp.rtrancl_refl S_claim S_prepare S_acceptance surjective_pairing)

text \<open>A second job for the first device, created while the first job's command is in flight.\<close>

definition demo_second :: db where
  "demo_second = snd (create_job (demo_request ''r2'' [''a'']) demo_protocols 1000 ''j2'' 8 demo_dispatched)"

lemma demo_second_reachable: "db_reachable demo_second"
  unfolding demo_second_def
  by (rule reachable_step [OF demo_dispatched_reachable S_create [OF surjective_pairing]]) (simp add: demo_request_def)

lemma demo_unconfirmed_row:
  "map_option d_state (get_device demo_unconfirmed ''j1'' ''a'') = Some D_UNCONFIRMED"
  by code_simp

end
