(* ===== verification/Push_Dispatch.thy ===== *)
theory Push_Dispatch
  imports Push_Scheduler Push_Demo
begin

text \<open>
  The dispatch scheduler as a transition system. An interface for tables of waiters, interpreted on
  the transfer registry and on the table of acceptance waiters, gives the ownership discipline of
  the dispatch tasks; every step of the scheduler drives the database through the operations of the
  store and the manager only.
\<close>

section \<open>Tables of waiters and their owners\<close>

locale waiter_table =
  fixes get :: "'w \<Rightarrow> 'k \<Rightarrow> 'f option"
    and pend :: "'w \<Rightarrow> 'f \<Rightarrow> bool"
    and put :: "'k \<Rightarrow> 'f \<Rightarrow> 'w \<Rightarrow> 'w"
    and drop_own :: "'k \<Rightarrow> 'f \<Rightarrow> 'w \<Rightarrow> 'w"
  assumes put_get: "get (put k f w) k' = (if k' = k then Some f else get w k')"
    and put_pend: "pend (put k f w) g = pend w g"
    and drop_get: "get (drop_own k f w) k' = (if k' = k \<and> get w k = Some f then None else get w k')"
    and drop_pend: "pend (drop_own k f w) g \<Longrightarrow> pend w g"
begin

text \<open>Every entry has an owner; every pending future of an owner is in the table.\<close>

definition covered :: "('k \<Rightarrow> bool) \<Rightarrow> 'w \<Rightarrow> ('t \<Rightarrow> ('k \<times> 'f) option) \<Rightarrow> bool" where
  "covered p w own \<longleftrightarrow> (\<forall>k f. p k \<longrightarrow> get w k = Some f \<longrightarrow> (\<exists>t. own t = Some (k, f)))"

definition registered :: "('k \<Rightarrow> bool) \<Rightarrow> 'w \<Rightarrow> ('t \<Rightarrow> ('k \<times> 'f) option) \<Rightarrow> bool" where
  "registered p w own \<longleftrightarrow> (\<forall>t k f. p k \<longrightarrow> own t = Some (k, f) \<longrightarrow> pend w f \<longrightarrow> get w k = Some f)"

definition exclusive :: "('t \<Rightarrow> ('k \<times> 'f) option) \<Rightarrow> bool" where
  "exclusive own \<longleftrightarrow> (\<forall>t t' k k' f. own t = Some (k, f) \<longrightarrow> own t' = Some (k', f) \<longrightarrow> t = t')"

lemma covered_put:
  assumes "covered p w own" and "own t = None"
  shows "covered p (put k f w) (own(t \<mapsto> (k, f)))"
proof (unfold covered_def, intro allI impI)
  fix k' g
  assume a: "p k'" "get (put k f w) k' = Some g"
  show "\<exists>t'. (own(t \<mapsto> (k, f))) t' = Some (k', g)"
  proof (cases "k' = k")
    case False
    then obtain t' where "own t' = Some (k', g)" using a assms(1) by (auto simp: put_get covered_def)
    then have "(own(t \<mapsto> (k, f))) t' = Some (k', g)" using assms(2) by auto
    then show ?thesis by blast
  qed (use a in \<open>auto simp: put_get\<close>)
qed

lemma covered_drop:
  assumes "covered p w own" and "own t = Some (k, f)"
  shows "covered p (drop_own k f w) (own(t := None))"
proof (unfold covered_def, intro allI impI)
  fix k' g
  assume a: "p k'" "get (drop_own k f w) k' = Some g"
  then have g: "get w k' = Some g" "\<not> (k' = k \<and> g = f)" by (auto simp: drop_get split: if_splits)
  then obtain t' where t': "own t' = Some (k', g)" using a assms(1) unfolding covered_def by blast
  then have "t' \<noteq> t" using assms(2) g(2) by auto
  then have "(own(t := None)) t' = Some (k', g)" using t' by simp
  then show "\<exists>t'. (own(t := None)) t' = Some (k', g)" by blast
qed

lemma registered_put:
  assumes "registered p w own" and "\<And>g. get w k = Some g \<Longrightarrow> \<not> pend w g"
  shows "registered p (put k f w) (own(t \<mapsto> (k, f)))"
proof (unfold registered_def, intro allI impI)
  fix t' k' g
  assume a: "p k'" "(own(t \<mapsto> (k, f))) t' = Some (k', g)" "pend (put k f w) g"
  show "get (put k f w) k' = Some g"
  proof (cases "t' = t")
    case False
    then have "get w k' = Some g" using a assms(1) by (auto simp: put_pend registered_def)
    then show ?thesis using a assms(2) by (auto simp: put_get put_pend)
  qed (use a in \<open>auto simp: put_get\<close>)
qed

lemma registered_drop:
  assumes "registered p w own" and "exclusive own" and "own t = Some (k, f)"
  shows "registered p (drop_own k f w) (own(t := None))"
proof (unfold registered_def, intro allI impI)
  fix t' k' f'
  assume a: "p k'" "(own(t := None)) t' = Some (k', f')" "pend (drop_own k f w) f'"
  then have "own t' = Some (k', f')" "t' \<noteq> t" by (auto split: if_splits)
  moreover from this have "get w k' = Some f'" using assms(1) a drop_pend unfolding registered_def by blast
  moreover have "f' \<noteq> f" using assms(2,3) calculation(1,2) unfolding exclusive_def by blast
  ultimately show "get (drop_own k f w) k' = Some f'" by (auto simp: drop_get)
qed

lemma exclusive_put:
  "exclusive own \<Longrightarrow> (\<And>t' k'. own t' \<noteq> Some (k', f)) \<Longrightarrow> exclusive (own(t \<mapsto> (k, f)))"
  unfolding exclusive_def by (auto split: if_splits)

lemma exclusive_drop: "exclusive own \<Longrightarrow> exclusive (own(t := None))"
  unfolding exclusive_def by (auto split: if_splits)

lemma registered_mono:
  "registered p w own \<Longrightarrow> (\<And>k. p k \<Longrightarrow> get w' k = get w k) \<Longrightarrow>
   (\<And>t k f. p k \<Longrightarrow> own t = Some (k, f) \<Longrightarrow> pend w' f \<Longrightarrow> pend w f) \<Longrightarrow> registered p w' own"
  unfolding registered_def by metis

lemma covered_mono:
  "covered p w own \<Longrightarrow> (\<And>k. p k \<Longrightarrow> get w' k = get w k) \<Longrightarrow> covered p w' own"
  unfolding covered_def by metis

end

definition put_waiter :: "transfer_key \<Rightarrow> fut \<Rightarrow> waiters \<Rightarrow> waiters" where
  "put_waiter k f w = w\<lparr>w_futures := AList.update k f (w_futures w)\<rparr>"

definition drop_waiter :: "transfer_key \<Rightarrow> fut \<Rightarrow> waiters \<Rightarrow> waiters" where
  "drop_waiter k f w = snd (remove_if_same k f (cancel_future f w))"

interpretation transfer: waiter_table w_get "\<lambda>w. pending (w_heap w)" put_waiter drop_waiter
proof unfold_locales
  show "w_get (put_waiter k f w) k' = (if k' = k then Some f else w_get w k')" for k f w k'
    by (simp add: put_waiter_def w_get_def update_conv')
  show "w_get (drop_waiter k f w) k' = (if k' = k \<and> w_get w k = Some f then None else w_get w k')" for k f w k'
    by (simp add: drop_waiter_def remove_get) (simp add: w_get_def cancel_future_def)
qed (auto simp: put_waiter_def drop_waiter_def cancel_future_def pending_resolve)

text \<open>The acceptance waiters: the heap with the dictionary of \<^verbatim>\<open>_accept_waiters\<close>.\<close>

type_synonym accept_table = "(string \<times> jobject) heap \<times> (accept_key \<times> fut) list"

definition put_accept :: "accept_key \<Rightarrow> fut \<Rightarrow> accept_table \<Rightarrow> accept_table" where
  "put_accept k f w = (fst w, AList.update k f (snd w))"

definition drop_accept :: "accept_key \<Rightarrow> fut \<Rightarrow> accept_table \<Rightarrow> accept_table" where
  "drop_accept k f w = (if map_of (snd w) k = Some f then (resolve f Cancelled (fst w), AList.delete k (snd w)) else w)"

interpretation accept: waiter_table "\<lambda>w. map_of (snd w)" "\<lambda>w. pending (fst w)" put_accept drop_accept
  by unfold_locales (auto simp: put_accept_def drop_accept_def update_conv' delete_conv' pending_resolve split: if_splits)

section \<open>Steps\<close>

text \<open>
  Keys of the install jobs and of the migration-only push path, which \<^verbatim>\<open>_LegacyTransferAdapter\<close>
  registers beside the scheduler; job ids of the scheduler are UUIDs.
\<close>

definition foreign :: "transfer_key \<Rightarrow> bool" where
  "foreign k \<longleftrightarrow> k_kind k = K_install \<or> (\<exists>j. k_job_id k = Some j \<and> take 7 j = ''legacy-'')"

text \<open>
  A step is a turn of the scheduler loop with a new task, a step or a time-out of a task, a frame of
  a device, or the work of another component: any operation on the database, any change of the
  sessions, a release of waiters, and the adapter's own waiters.
\<close>

inductive sched_step :: "sched_config \<Rightarrow> sched \<Rightarrow> sched \<Rightarrow> bool" for cfg where
  SC_run: "t \<notin> fst ` set (sc_tasks st) \<Longrightarrow> sched_step cfg st (run_turn t now st)"
| SC_task: "map_of (sc_tasks st) t = Some g \<Longrightarrow> task_step cfg net now t g st = Some st' \<Longrightarrow> sched_step cfg st st'"
| SC_timeout: "map_of (sc_tasks st) t = Some g \<Longrightarrow> task_timeout t g st = Some st' \<Longrightarrow> sched_step cfg st st'"
| SC_response: "command_response j d attempt outcome payload st = (b, st') \<Longrightarrow> sched_step cfg st st'"
| SC_late: "handle_late_command_response net j d outcome payload now st = (r, st') \<Longrightarrow> sched_step cfg st st'"
| SC_database: "store_step (sc_db st) s' \<Longrightarrow> sched_step cfg st (st\<lparr>sc_db := s'\<rparr>)"
| SC_sessions: "sched_step cfg st (st\<lparr>sc_sessions := sessions\<rparr>)"
| SC_release: "sched_step cfg st (release_key key reason st)"
| SC_release_all: "sched_step cfg st (st\<lparr>sc_waiters := snd (release_all_for_device d reason (sc_waiters st))\<rparr>)"
| SC_adapter: "foreign key \<Longrightarrow> create_future (sc_waiters st) = (f, w) \<Longrightarrow> register key f w = Inr w' \<Longrightarrow>
    sched_step cfg st (st\<lparr>sc_waiters := w'\<rparr>)"
| SC_adapter_remove: "foreign key \<Longrightarrow> sched_step cfg st (st\<lparr>sc_waiters := snd (remove_if_same key f (sc_waiters st))\<rparr>)"

section \<open>What the outcome handlers leave alone\<close>

text \<open>\<open>quiet\<close>: database operations of the store, and no change of tasks and waiters.\<close>

definition quiet :: "sched \<Rightarrow> sched \<Rightarrow> bool" where
  "quiet st st' \<longleftrightarrow> store_step\<^sup>*\<^sup>* (sc_db st) (sc_db st') \<and> sc_waiters st' = sc_waiters st \<and>
     sc_accept_heap st' = sc_accept_heap st \<and> sc_accept st' = sc_accept st \<and> sc_owned st' = sc_owned st \<and>
     sc_tasks st' = sc_tasks st"

lemma quiet_refl [simp]: "quiet st st"
  by (simp add: quiet_def)

lemma quiet_trans: "quiet st st' \<Longrightarrow> quiet st' st'' \<Longrightarrow> quiet st st''"
  by (auto simp: quiet_def)

lemma quiet_wake [simp]: "quiet st (wake st') = quiet st st'"
  by (simp add: quiet_def wake_def)

lemma quiet_publish [simp]: "quiet st (publish_snapshot snap st') = quiet st st'"
  by (simp add: quiet_def publish_snapshot_def)

lemma quiet_publish_left [simp]: "quiet (publish_snapshot snap st) st' = quiet st st'"
  by (simp add: quiet_def publish_snapshot_def)

lemma quiet_publishes_left [simp]: "quiet (publish_snapshots snaps st) st' = quiet st st'"
  unfolding publish_snapshots_def by (induction snaps arbitrary: st) auto

lemma quiet_publishes [simp]: "quiet st (publish_snapshots snaps st') = quiet st st'"
  unfolding publish_snapshots_def by (induction snaps arbitrary: st') auto

lemma quiet_sent [simp]: "quiet st (st'\<lparr>sc_sent := x\<rparr>) = quiet st st'"
  by (simp add: quiet_def)

lemma on_db_quiet:
  assumes "on_db op st = (q, st')" and "\<And>r s'. op (sc_db st) = (r, s') \<Longrightarrow> store_step (sc_db st) s'"
  shows "quiet st st'"
  using assms by (auto simp: on_db_def quiet_def split: prod.splits)

lemma publishing_quiet:
  assumes "publishing op st = (q, st')" and "\<And>r s'. op (sc_db st) = (r, s') \<Longrightarrow> store_step (sc_db st) s'"
  shows "quiet st st'"
proof -
  obtain q1 st1 where o: "on_db op st = (q1, st1)" by fastforce
  then have "quiet st st1" by (rule on_db_quiet) (rule assms(2))
  with assms(1) o show ?thesis by (cases q1) (auto simp: publishing_def)
qed

lemma opaque_quiet: "on_db (add_opaque_fence d oid protocol process detail now) st = (q, st') \<Longrightarrow> quiet st st'"
  by (erule on_db_quiet) (rule S_opaque)

lemma acceptance_quiet: "on_db (mark_acceptance_reconciling j d a dl now) st = (q, st') \<Longrightarrow> quiet st st'"
  by (erule on_db_quiet) (rule S_acceptance)

lemma on_db_reconciling_quiet: "on_db (mark_reconciling j d e reason dl now) st = (q, st') \<Longrightarrow> quiet st st'"
  by (erule on_db_quiet) (rule S_mark_reconciling)

lemma prepare_quiet: "publishing (prepare_dispatch j d protocol caps dl now) st = (q, st') \<Longrightarrow> quiet st st'"
  by (erule publishing_quiet) (rule S_prepare)

lemma reconciling_quiet: "publishing (mark_reconciling j d exp reason dl now) st = (r, st') \<Longrightarrow> quiet st st'"
  by (erule publishing_quiet) (rule S_mark_reconciling)

lemma transition_quiet:
  assumes "publishing (transition_device j d expected target flds idem now) st = (r, st')"
    and "target \<noteq> D_WAITING_TRANSFER" and "\<not> list_ex sets_replay_count flds"
  shows "quiet st st'"
  using assms(1) by (rule publishing_quiet) (rule S_transition [OF _ assms(2,3)])

lemma fail_current_quiet: "fail_current j d expected code detail now st = (r, st') \<Longrightarrow> quiet st st'"
  unfolding fail_current_def by (auto split: prod.splits sum.splits dest!: transition_quiet)

lemma requeue_race_quiet: "requeue_after_send_race j d detail now st = (r, st') \<Longrightarrow> quiet st st'"
  unfolding requeue_after_send_race_def by (auto split: prod.splits sum.splits if_splits dest!: transition_quiet)

lemma requeue_busy_quiet: "requeue_busy j d now st = (r, st') \<Longrightarrow> quiet st st'"
  unfolding requeue_busy_def by (auto dest!: transition_quiet)

lemma send_exact_quiet: "send_exact_reconcile net session j attempt a st = (r, st') \<Longrightarrow> quiet st st'"
  unfolding send_exact_reconcile_def by (auto simp: Let_def split: if_splits option.splits)

lemma send_reconcile_quiet: "send_reconcile net session snap d st = (r, st') \<Longrightarrow> quiet st st'"
  unfolding send_reconcile_def by (auto split: option.splits dest: send_exact_quiet)

lemma busy_unknown_quiet: "busy_unknown active j d now st = (r, st') \<Longrightarrow> quiet st st'"
  unfolding busy_unknown_def
  by (auto split: sum.splits prod.splits dest!: fail_current_quiet opaque_quiet elim!: quiet_trans) 

lemma busy_known_quiet: "busy_known net active j d now st = (r, st') \<Longrightarrow> quiet st st'"
  unfolding busy_known_def Let_def
  by (auto split: option.splits prod.splits sum.splits if_splits
      dest!: busy_unknown_quiet requeue_busy_quiet send_exact_quiet intro: quiet_trans)

lemma handle_busy_quiet: "handle_busy net j d payload now st = (r, st') \<Longrightarrow> quiet st st'"
  unfolding handle_busy_def Let_def
  by (auto split: prod.splits sum.splits if_splits dest!: busy_known_quiet requeue_busy_quiet transition_quiet)

lemma recover_reconcile_quiet: "recover_reconcile net j d row snap st = (r, st') \<Longrightarrow> quiet st st'"
  unfolding recover_reconcile_def Let_def
  by (auto split: prod.splits sum.splits if_splits option.splits dest!: send_reconcile_quiet)

lemma recover_turn_quiet: "recover_turn cfg net j d attempt error now st = (r, st') \<Longrightarrow> quiet st st'"
  unfolding recover_turn_def
  by (auto split: prod.splits sum.splits if_splits option.splits
      dest!: recover_reconcile_quiet transition_quiet on_db_reconciling_quiet intro: quiet_trans)

lemma transfer_timeout_quiet: "transfer_timeout cfg net c now st = (r, st') \<Longrightarrow> quiet st st'"
  unfolding transfer_timeout_def
  by (auto split: prod.splits sum.splits if_splits option.splits
      dest!: reconciling_quiet send_reconcile_quiet elim!: quiet_trans)

lemma acceptance_timeout_quiet: "acceptance_timeout cfg net c now st = (r, st') \<Longrightarrow> quiet st st'"
  unfolding acceptance_timeout_def Let_def
  by (auto split: prod.splits sum.splits if_splits dest!: send_reconcile_quiet acceptance_quiet elim!: quiet_trans)

section \<open>Ownership of the waiters\<close>

fun ctx_of :: "stage \<Rightarrow> dispatch_ctx option" where
  "ctx_of (T_prepare c) = Some c"
| "ctx_of (T_send c snap) = Some c"
| "ctx_of (T_legacy c) = Some c"
| "ctx_of (T_accept c snap) = Some c"
| "ctx_of (T_accept_timeout c) = Some c"
| "ctx_of (T_transfer c) = Some c"
| "ctx_of (T_transfer_timeout c) = Some c"
| "ctx_of _ = None"

definition own_of :: "dispatch_ctx \<Rightarrow> owned" where
  "own_of c = (c_key c, c_transfer c, c_accept c)"

definition own_transfer :: "(task \<rightharpoonup> owned) \<Rightarrow> task \<Rightarrow> (transfer_key \<times> fut) option" where
  "own_transfer own t = map_option (\<lambda>(k, f, a). (k, f)) (own t)"

definition own_accept :: "(task \<rightharpoonup> owned) \<Rightarrow> task \<Rightarrow> (accept_key \<times> fut) option" where
  "own_accept own t = Option.bind (own t) (\<lambda>(k, f, a). map_option (\<lambda>x. (accept_key_of k, x)) a)"

definition accepts :: "sched \<Rightarrow> accept_table" where
  "accepts st = (sc_accept_heap st, sc_accept st)"

text \<open>The waiters and their owners, and the agreement of \<^verbatim>\<open>_dispatch_waiters\<close> with the tasks.\<close>

definition core_ok :: "waiters \<Rightarrow> accept_table \<Rightarrow> (task \<rightharpoonup> owned) \<Rightarrow> bool" where
  "core_ok w a own \<longleftrightarrow>
     transfer.covered (\<lambda>k. \<not> foreign k) w (own_transfer own) \<and>
     transfer.registered (\<lambda>k. \<not> foreign k) w (own_transfer own) \<and>
     transfer.exclusive (own_transfer own) \<and> accept.covered (\<lambda>k. True) a (own_accept own) \<and>
     (\<forall>t k f. own_transfer own t = Some (k, f) \<longrightarrow> f < length (w_heap w))"

definition in_step :: "(task \<times> stage) list \<Rightarrow> (task \<rightharpoonup> owned) \<Rightarrow> bool" where
  "in_step tasks own \<longleftrightarrow> (\<forall>t. own t = Option.bind (map_of tasks t) (\<lambda>g. map_option own_of (ctx_of g)))"

definition sched_ok :: "sched \<Rightarrow> bool" where
  "sched_ok st \<longleftrightarrow> core_ok (sc_waiters st) (accepts st) (map_of (sc_owned st)) \<and>
     in_step (sc_tasks st) (map_of (sc_owned st))"

lemma own_transfer_upd: "own_transfer (own(t := v)) = (own_transfer own)(t := map_option (\<lambda>(k, f, a). (k, f)) v)"
  by (auto simp: own_transfer_def)

lemma own_accept_upd:
  "own_accept (own(t := v)) =
    (own_accept own)(t := Option.bind v (\<lambda>(k, f, a). map_option (\<lambda>x. (accept_key_of k, x)) a))"
  by (auto simp: own_accept_def)

lemma core_ok_drop:
  assumes ok: "core_ok w a own" and own: "own t = Some (k, f, x)"
  shows "core_ok (drop_waiter k f w) (case x of None \<Rightarrow> a | Some y \<Rightarrow> drop_accept (accept_key_of k) y a) (own(t := None))"
proof -
  have t: "own_transfer own t = Some (k, f)" using own by (simp add: own_transfer_def)
  have l: "length (w_heap (drop_waiter k f w)) = length (w_heap w)"
    by (simp add: drop_waiter_def remove_if_same_def cancel_future_def)
  have "accept.covered (\<lambda>k. True) (case x of None \<Rightarrow> a | Some y \<Rightarrow> drop_accept (accept_key_of k) y a)
      ((own_accept own)(t := None))"
  proof (cases x)
    case None
    then have "own_accept own t = None" using own by (simp add: own_accept_def)
    then have "(own_accept own)(t := None) = own_accept own" by auto
    with ok None show ?thesis by (simp add: core_ok_def)
  next
    case (Some y)
    then have "own_accept own t = Some (accept_key_of k, y)" using own by (simp add: own_accept_def)
    with ok Some show ?thesis by (simp add: core_ok_def accept.covered_drop)
  qed
  with ok t show ?thesis
    unfolding core_ok_def own_transfer_upd own_accept_upd
    by (auto simp: l transfer.exclusive_drop split: if_splits
        intro!: transfer.covered_drop transfer.registered_drop transfer.exclusive_drop)
qed

lemma core_ok_put:
  assumes ok: "core_ok w a own" and own: "own t = None" and new: "create_future w = (f, w1)"
    and reg: "register k f w1 = Inr w2"
    and a2: "a2 = (case x of None \<Rightarrow> a | Some y \<Rightarrow> put_accept (accept_key_of k) y (fst a @ [Pending], snd a))"
  shows "core_ok w2 a2 (own(t \<mapsto> (k, f, x)))"
proof -
  have f: "f = length (w_heap w)" "w1 = w\<lparr>w_heap := w_heap w @ [Pending]\<rparr>"
    using new by (auto simp: create_future_def)
  have w2: "w2 = put_waiter k f w1" using reg by (auto simp: register_def put_waiter_def split: if_splits)
  have range: "own_transfer own t' = Some (k', g) \<Longrightarrow> g < f" for t' k' g
    using ok by (auto simp: core_ok_def f)
  have g: "w_get w1 k' = w_get w k'" for k' by (simp add: f w_get_def)
  have c: "transfer.covered (\<lambda>k. \<not> foreign k) w1 (own_transfer own)"
    "transfer.registered (\<lambda>k. \<not> foreign k) w1 (own_transfer own)"
  proof -
    show "transfer.covered (\<lambda>k. \<not> foreign k) w1 (own_transfer own)"
      using ok g by (auto simp: core_ok_def intro: transfer.covered_mono)
    show "transfer.registered (\<lambda>k. \<not> foreign k) w1 (own_transfer own)"
      by (rule transfer.registered_mono [of _ w]) (use ok range in \<open>auto simp: core_ok_def f pending_append w_get_def\<close>)
  qed
  have none: "own_transfer own t = None" "own_accept own t = None"
    using own by (simp_all add: own_transfer_def own_accept_def)
  have "accept.covered (\<lambda>k. True) a2 ((own_accept own)(t := map_option (\<lambda>y. (accept_key_of k, y)) x))"
  proof (cases x)
    case None
    moreover have "(own_accept own)(t := None) = own_accept own" using none by auto
    ultimately show ?thesis using ok by (simp add: a2 core_ok_def)
  next
    case (Some y)
    have "accept.covered (\<lambda>k. True) (fst a @ [Pending], snd a) (own_accept own)"
      using ok by (auto simp: core_ok_def intro: accept.covered_mono)
    with Some none show ?thesis by (simp add: a2 accept.covered_put)
  qed
  moreover have "transfer.exclusive (own_transfer own)" "length (w_heap w2) = Suc f"
    using ok by (simp_all add: core_ok_def w2 put_waiter_def f)
  ultimately show ?thesis
    using c none range register_not_pending [OF reg]
    unfolding core_ok_def own_transfer_upd own_accept_upd w2
    by (auto intro!: transfer.covered_put transfer.registered_put transfer.exclusive_put split: if_splits
        dest: range)
qed

lemma core_ok_pend:
  assumes "core_ok w a own" and "\<And>k. \<not> foreign k \<Longrightarrow> w_get w' k = w_get w k"
    and "\<And>f. f < length (w_heap w) \<Longrightarrow> pending (w_heap w') f \<Longrightarrow> pending (w_heap w) f"
    and "length (w_heap w) \<le> length (w_heap w')" and "snd a' = snd a"
  shows "core_ok w' a' own"
proof -
  have "accept.covered (\<lambda>k. True) a' (own_accept own)"
    using assms(1,5) by (auto simp: core_ok_def intro: accept.covered_mono)
  moreover have "transfer.registered (\<lambda>k. \<not> foreign k) w' (own_transfer own)"
    by (rule transfer.registered_mono [of _ w]) (use assms in \<open>auto simp: core_ok_def\<close>)
  ultimately show ?thesis
    using assms by (fastforce simp: core_ok_def intro: transfer.covered_mono)
qed

section \<open>Every step keeps the discipline\<close>

lemma quiet_ok: "quiet st st' \<Longrightarrow> sched_ok st' = sched_ok st"
  by (simp add: quiet_def sched_ok_def accepts_def)

lemma quiet_views:
  "quiet st st' \<Longrightarrow> sc_owned st' = sc_owned st \<and> sc_tasks st' = sc_tasks st \<and> sc_waiters st' = sc_waiters st"
  by (simp add: quiet_def)

lemma sched_ok_owned:
  "sched_ok st \<Longrightarrow> map_of (sc_tasks st) t = Some g \<Longrightarrow> map_of (sc_owned st) t = map_option own_of (ctx_of g)"
  by (simp add: sched_ok_def in_step_def)

lemma clear_views:
  assumes "map_of (sc_owned st) t = Some (k, f, x)"
  defines "st' \<equiv> clear_dispatch_waiters t k f x st"
  shows "sc_waiters st' = drop_waiter k f (sc_waiters st)"
    "accepts st' = (case x of None \<Rightarrow> accepts st | Some y \<Rightarrow> drop_accept (accept_key_of k) y (accepts st))"
    "map_of (sc_owned st') = (map_of (sc_owned st))(t := None)" "sc_tasks st' = sc_tasks st" "sc_db st' = sc_db st"
    "sc_sessions st' = sc_sessions st"
  unfolding st'_def clear_dispatch_waiters_def Let_def
  using assms(1)
  by (auto simp: wake_def clear_accept_def drop_waiter_def accepts_def drop_accept_def delete_conv'
      split: option.splits)

lemma clear_core:
  assumes "sched_ok st" and "map_of (sc_owned st) t = Some (k, f, x)"
  defines "st' \<equiv> clear_dispatch_waiters t k f x st"
  shows "core_ok (sc_waiters st') (accepts st') ((map_of (sc_owned st))(t := None))"
  using core_ok_drop [of "sc_waiters st" "accepts st" "map_of (sc_owned st)" t k f x] assms(1,2)
  unfolding st'_def clear_views [OF assms(2)] by (simp add: sched_ok_def)

text \<open>A task that gives its waiters back goes to a stage without waiters or ends.\<close>

lemma in_step_suspend:
  "in_step tasks own \<Longrightarrow> in_step (AList.update t g tasks) (own(t := map_option own_of (ctx_of g)))"
  by (auto simp: in_step_def update_conv')

lemma in_step_finish: "in_step tasks own \<Longrightarrow> in_step (AList.delete t tasks) (own(t := None))"
  by (auto simp: in_step_def delete_conv')

lemma clear_leave:
  assumes ok: "sched_ok st" and t: "map_of (sc_tasks st) t = Some g" "ctx_of g = Some c"
  shows "ctx_of g' = None \<Longrightarrow> sched_ok (suspend t g' (clear_ctx t c st))"
    and "sched_ok (finish t (clear_ctx t c st))"
proof -
  have o: "map_of (sc_owned st) t = Some (c_key c, c_transfer c, c_accept c)"
    using sched_ok_owned [OF ok t(1)] t(2) by (simp add: own_of_def)
  note c = clear_core [OF ok o] and v = clear_views [OF o]
  have i: "in_step (sc_tasks st) (map_of (sc_owned st))" using ok by (simp add: sched_ok_def)
  show "sched_ok (suspend t g' (clear_ctx t c st))" if "ctx_of g' = None"
    using c v in_step_suspend [OF i, of t g'] that
    by (simp add: sched_ok_def suspend_def clear_ctx_def accepts_def)
  show "sched_ok (finish t (clear_ctx t c st))"
    using c v in_step_finish [OF i, of t]
    by (simp add: sched_ok_def finish_def wake_def clear_ctx_def accepts_def)
qed

lemma suspend_same:
  assumes "sched_ok st" and "map_of (sc_tasks st) t = Some g" and "ctx_of g' = ctx_of g"
  shows "sched_ok (suspend t g' st)"
proof -
  have o: "map_of (sc_owned st) t = map_option own_of (ctx_of g)" by (rule sched_ok_owned [OF assms(1,2)])
  have "(map_of (sc_owned st))(t := map_option own_of (ctx_of g')) = map_of (sc_owned st)"
    using o assms(3) by auto
  then show ?thesis
    using assms(1) in_step_suspend [of "sc_tasks st" "map_of (sc_owned st)" t g']
    by (simp add: sched_ok_def suspend_def accepts_def)
qed

lemma finish_free:
  assumes "sched_ok st" and "map_of (sc_tasks st) t = Some g" and "ctx_of g = None"
  shows "sched_ok (finish t st)"
proof -
  have "map_of (sc_owned st) t = None" using sched_ok_owned [OF assms(1,2)] assms(3) by simp
  then have "(map_of (sc_owned st))(t := None) = map_of (sc_owned st)" by auto
  then show ?thesis
    using assms(1) in_step_finish [of "sc_tasks st" "map_of (sc_owned st)" t]
    by (simp add: sched_ok_def finish_def wake_def accepts_def)
qed

lemma clear_delete:
  assumes "map_of (sc_owned st) t = Some (k, f, x)"
  shows "clear_dispatch_waiters t k f x (st\<lparr>sc_owned := AList.delete t (sc_owned st)\<rparr>) =
    clear_dispatch_waiters t k f x st"
  using assms
  by (cases st) (auto simp: clear_dispatch_waiters_def clear_accept_def Let_def delete_conv' split: option.splits)

lemma recover_free:
  assumes "sched_ok st" and "map_of (sc_tasks st) t = Some g" and "ctx_of g = None"
  shows "sched_ok (enter_recovery t j d n e st)"
  using suspend_same [OF assms(1,2)] sched_ok_owned [OF assms(1,2)] assms(3)
  by (simp add: enter_recovery_def)

lemma recover_owner:
  assumes "sched_ok st" and "map_of (sc_tasks st) t = Some g" and "ctx_of g = Some c"
  shows "sched_ok (recover_ctx t c e st)" and "sched_ok (recover_ctx t c e (clear_ctx t c st))"
proof -
  have o: "map_of (sc_owned st) t = Some (c_key c, c_transfer c, c_accept c)"
    using sched_ok_owned [OF assms(1,2)] assms(3) by (simp add: own_of_def)
  have r: "recover_ctx t c e st = suspend t (T_recover (c_job c) (c_device c) (c_attempt c) (error_text e)) (clear_ctx t c st)"
    by (simp add: recover_ctx_def enter_recovery_def o clear_delete [OF o] clear_ctx_def)
  have "map_of (sc_owned (clear_ctx t c st)) t = None"
    using clear_views(3) [OF o] by (simp add: clear_ctx_def)
  then have "recover_ctx t c e (clear_ctx t c st) = recover_ctx t c e st"
    unfolding r by (simp add: recover_ctx_def enter_recovery_def)
  then show "sched_ok (recover_ctx t c e st)" "sched_ok (recover_ctx t c e (clear_ctx t c st))"
    using clear_leave(1) [OF assms] unfolding r by simp_all
qed

lemma register_waiters_ok:
  assumes ok: "sched_ok st" and t: "map_of (sc_tasks st) t = Some g" "ctx_of g = None"
    and key: "TransferKey K_push d (Some j) (Some attempt) = Inr key"
  shows "sched_ok (register_waiters cfg t key j d attempt session protocol now st)"
proof -
  obtain f w where c: "create_future (sc_waiters st) = (f, w)" by fastforce
  then have w: "w_futures w = w_futures (sc_waiters st)" "w_heap w = w_heap (sc_waiters st) @ [Pending]" "f = length (w_heap (sc_waiters st))"
    by (auto simp: create_future_def)
  have o: "map_of (sc_owned st) t = None" using sched_ok_owned [OF ok t(1)] t(2) by simp
  have ak: "accept_key_of key = (j, d, attempt)"
    using key by (auto simp: TransferKey_def accept_key_of_def split: if_splits)
  show ?thesis
  proof (cases "register key f w")
    case (Inl e)
    have "sched_ok (st\<lparr>sc_waiters := w\<rparr>)"
      using ok core_ok_pend [of "sc_waiters st" "accepts st" "map_of (sc_owned st)" w "accepts st"]
      by (auto simp: sched_ok_def accepts_def w w_get_def pending_append)
    then show ?thesis
      using recover_free [of "st\<lparr>sc_waiters := w\<rparr>" t g j d attempt e] t c Inl
      by (simp add: register_waiters_def)
  next
    case (Inr w')
    let ?x = "if protocol = JOB_V1 then Some (length (sc_accept_heap st)) else None"
    let ?a = "case ?x of None \<Rightarrow> accepts st | Some y \<Rightarrow> put_accept (accept_key_of key) y (fst (accepts st) @ [Pending], snd (accepts st))"
    have "core_ok w' ?a ((map_of (sc_owned st))(t \<mapsto> (key, f, ?x)))"
      using ok o c Inr by (intro core_ok_put [of "sc_waiters st" "accepts st"]) (auto simp: sched_ok_def)
    moreover have "in_step (AList.update t (T_prepare ctx) (sc_tasks st)) ((map_of (sc_owned st))(t \<mapsto> (key, f, ?x)))"
      if "own_of ctx = (key, f, ?x)" for ctx
      using in_step_suspend [of "sc_tasks st" "map_of (sc_owned st)" t "T_prepare ctx"] ok that by (simp add: sched_ok_def)
    ultimately show ?thesis
      using c Inr ak
      by (cases "protocol = JOB_V1")
        (simp_all add: register_waiters_def Let_def suspend_def sched_ok_def accepts_def put_accept_def update_conv' own_of_def)
  qed
qed

lemma begin_ok:
  assumes "sched_ok st" and "map_of (sc_tasks st) t = Some (T_slot row snap)"
  shows "sched_ok (dispatch_begin cfg t row snap now st)"
  using suspend_same [OF assms] recover_free [OF assms] register_waiters_ok [OF assms]
  by (auto simp: dispatch_begin_def Let_def split: sum.splits option.splits)

lemma quiet_task:
  assumes "quiet st st'" and "sched_ok st" and "map_of (sc_tasks st) t = Some g"
  shows "sched_ok st'" "map_of (sc_tasks st') t = Some g"
  using assms quiet_ok quiet_views by auto

lemma prepare_ok:
  assumes "sched_ok st" and "map_of (sc_tasks st) t = Some (T_prepare c)"
  shows "sched_ok (dispatch_prepare t c now st)"
proof -
  obtain q st' where p: "publishing (prepare_dispatch (c_job c) (c_device c) (c_protocol c) (ls_capabilities (c_session c))
         (c_accept_deadline c) now) st = (q, st')" by fastforce
  note k = quiet_task [OF prepare_quiet [OF p] assms]
  show ?thesis
    using suspend_same [OF k] recover_owner [OF k] by (auto simp: dispatch_prepare_def p split: sum.splits)
qed

lemma waiters_pend_ok:
  assumes "sched_ok st" and "\<And>k. w_get w k = w_get (sc_waiters st) k"
    and "\<And>f. pending (w_heap w) f \<Longrightarrow> pending (w_heap (sc_waiters st)) f"
    and "length (w_heap w) = length (w_heap (sc_waiters st))"
  shows "sched_ok (st\<lparr>sc_waiters := w\<rparr>)"
  using assms core_ok_pend [of "sc_waiters st" "accepts st" "map_of (sc_owned st)" w "accepts st"]
  by (simp add: sched_ok_def accepts_def)

lemma release_ok: "sched_ok st \<Longrightarrow> sched_ok (release_key key reason st)"
  unfolding release_key_def
  by (rule waiters_pend_ok) (auto simp: pending_def release_exact_future split: if_splits,
      auto simp: release_exact_def split: option.splits)

lemma release_tasks [simp]: "sc_tasks (release_key key reason st) = sc_tasks st"
  by (simp add: release_key_def)

lemma send_ok:
  assumes "sched_ok st" and "map_of (sc_tasks st) t = Some (T_send c snap)"
  shows "sched_ok (dispatch_send net t c snap st)"
proof -
  have r: "sched_ok (release_key k r st)" "map_of (sc_tasks (release_key k r st)) t = Some (T_send c snap)" for k r
    using assms release_ok by auto
  have s: "sched_ok (st\<lparr>sc_sent := x\<rparr>)" "map_of (sc_tasks (st\<lparr>sc_sent := x\<rparr>)) t = Some (T_send c snap)" for x
    using assms by (auto simp: sched_ok_def accepts_def)
  show ?thesis
    using recover_owner [OF assms] clear_leave(1) [OF r] suspend_same [OF s]
    by (auto simp: dispatch_send_def Let_def split: sum.splits option.splits)
qed

lemma legacy_ok:
  assumes "sched_ok st" and "map_of (sc_tasks st) t = Some (T_legacy c)"
  shows "sched_ok (dispatch_legacy t c now st)"
proof -
  obtain q st' where p: "publishing (transition_device (c_job c) (c_device c) (Some {D_DISPATCHING}) D_DOWNLOADING
         [F_accepted_at (Some now), F_accept_deadline None] False now) st = (q, st')" by fastforce
  have "quiet st st'" using p by (rule transition_quiet) simp_all
  note k = quiet_task [OF this assms]
  show ?thesis
    using suspend_same [OF k] recover_owner [OF k] clear_leave(2) [OF k]
    by (auto simp: dispatch_legacy_def p split: sum.splits)
qed

lemma after_acceptance_ok:
  assumes "sched_ok (snd r)" and "map_of (sc_tasks (snd r)) t = Some g" and "ctx_of g = Some c"
  shows "sched_ok (after_acceptance t c r)"
  using recover_owner [OF assms] clear_leave(2) [OF assms] suspend_same [OF assms(1,2)] assms(3)
  by (auto simp: after_acceptance_def split: prod.splits sum.splits bool.splits)

text \<open>\<open>calm\<close>: like \<open>quiet\<close>, but waiters may be answered.\<close>

definition calm :: "sched \<Rightarrow> sched \<Rightarrow> bool" where
  "calm st st' \<longleftrightarrow> store_step\<^sup>*\<^sup>* (sc_db st) (sc_db st') \<and> sc_tasks st' = sc_tasks st \<and> (sched_ok st \<longrightarrow> sched_ok st')"

lemma calm_quiet: "quiet st st' \<Longrightarrow> calm st st'"
  using quiet_ok by (auto simp: calm_def quiet_def)

lemma calm_release: "calm st st' \<Longrightarrow> calm st (release_key key reason st')"
  using release_ok by (auto simp: calm_def release_key_def)

lemma calm_release_left: "calm (release_key key reason st) st' \<Longrightarrow> calm st st'"
  using release_ok by (auto simp: calm_def release_key_def)

lemma await_acceptance_calm: "await_acceptance net c outcome payload now st = (r, st') \<Longrightarrow> calm st st'"
  unfolding await_acceptance_def
  by (auto split: prod.splits sum.splits if_splits bool.splits
      dest!: transition_quiet handle_busy_quiet fail_current_quiet calm_quiet intro: calm_release calm_release_left)

lemma late_response_calm: "handle_late_command_response net j d outcome payload now st = (r, st') \<Longrightarrow> calm st st'"
  unfolding handle_late_command_response_def
  by (auto split: prod.splits sum.splits if_splits bool.splits option.splits simp: calm_quiet
      dest!: handle_busy_quiet fail_current_quiet calm_quiet intro: calm_release calm_release_left)

lemma response_ok: "command_response j d attempt outcome payload st = (b, st') \<Longrightarrow> sched_ok st \<Longrightarrow> sched_ok st'"
  using core_ok_pend [of "sc_waiters st" "accepts st" "map_of (sc_owned st)" "sc_waiters st" "accepts st'"]
  by (auto simp: command_response_def sched_ok_def accepts_def split: option.splits if_splits)

lemma tail_call_ok:
  assumes "quiet st (snd r)" and "sched_ok st" and "map_of (sc_tasks st) t = Some g" and "ctx_of g = None"
  shows "sched_ok (tail_call t j d r)"
  using finish_free [OF quiet_task [OF assms(1-3)] assms(4)] recover_free [OF quiet_task [OF assms(1-3)] assms(4)]
  by (auto simp: tail_call_def split: prod.splits sum.splits)

lemma task_step_ok:
  assumes "task_step cfg net now t g st = Some st'" and "sched_ok st" and "map_of (sc_tasks st) t = Some g"
  shows "sched_ok st'"
proof (cases g)
  case (T_slot row snap)
  then show ?thesis using assms by (auto intro: begin_ok)
next
  case (T_prepare c)
  then show ?thesis using assms by (auto intro: prepare_ok)
next
  case (T_send c snap)
  then show ?thesis using assms by (auto intro: send_ok)
next
  case (T_legacy c)
  then show ?thesis using assms by (auto intro: legacy_ok)
next
  case (T_accept c snap)
  then obtain outcome payload where st': "st' = after_acceptance t c (await_acceptance net c outcome payload now st)"
    using assms(1) by (auto split: option.splits future.splits)
  show ?thesis
    unfolding st' using await_acceptance_calm [of net c outcome payload now st] assms(2,3) T_accept
    by (cases "await_acceptance net c outcome payload now st") (auto simp: calm_def intro!: after_acceptance_ok)
next
  case (T_accept_timeout c)
  then show ?thesis
    using acceptance_timeout_quiet [of cfg net c now st] assms
    by (cases "acceptance_timeout cfg net c now st") (auto dest: quiet_task intro!: after_acceptance_ok)
next
  case (T_transfer c)
  then show ?thesis using assms clear_leave(2) [OF assms(2,3), of c] by (auto split: if_splits)
next
  case (T_transfer_timeout c)
  obtain r st1 where r: "transfer_timeout cfg net c now st = (r, st1)" by fastforce
  note k = quiet_task [OF transfer_timeout_quiet [OF r] assms(2,3)]
  show ?thesis
    using assms(1) T_transfer_timeout r clear_leave(2) [OF k, of c] recover_owner(2) [OF k, of c] by (auto split: sum.splits)
next
  case (T_fail j d expected code detail)
  then show ?thesis
    using assms fail_current_quiet [of j d expected code detail now st "fst (fail_current j d expected code detail now st)"]
    by (auto intro!: tail_call_ok)
next
  case (T_requeue j d detail)
  then show ?thesis
    using assms requeue_race_quiet [of j d detail now st "fst (requeue_after_send_race j d detail now st)"]
    by (auto intro!: tail_call_ok)
next
  case (T_recover j d attempt error)
  obtain r st1 where r: "recover_turn cfg net j d attempt error now st = (r, st1)" by fastforce
  note k = quiet_task [OF recover_turn_quiet [OF r] assms(2,3)]
  show ?thesis
    using assms(1) T_recover r finish_free [OF k] k(1) by (auto split: sum.splits)
qed

lemma task_timeout_ok:
  assumes "task_timeout t g st = Some st'" and "sched_ok st" and "map_of (sc_tasks st) t = Some g"
  shows "sched_ok st'"
proof (cases g)
  case (T_accept c snap)
  then obtain f where f: "st' = suspend t (T_accept_timeout c) (st\<lparr>sc_accept_heap := resolve f Cancelled (sc_accept_heap st)\<rparr>)"
    using assms(1) by (auto split: option.splits if_splits)
  have "sched_ok (st\<lparr>sc_accept_heap := resolve f Cancelled (sc_accept_heap st)\<rparr>)"
    using assms(2) core_ok_pend [of "sc_waiters st" "accepts st" "map_of (sc_owned st)" "sc_waiters st"
        "(resolve f Cancelled (sc_accept_heap st), sc_accept st)"]
    by (simp add: sched_ok_def accepts_def)
  then show ?thesis unfolding f using T_accept assms(3) by (intro suspend_same) auto
next
  case (T_transfer c)
  then have f: "st' = suspend t (T_transfer_timeout c) (st\<lparr>sc_waiters := cancel_future (c_transfer c) (sc_waiters st)\<rparr>)"
    using assms(1) by (auto split: if_splits)
  have "sched_ok (st\<lparr>sc_waiters := cancel_future (c_transfer c) (sc_waiters st)\<rparr>)"
    using assms(2) by (rule waiters_pend_ok) (auto simp: cancel_future_def w_get_def pending_resolve)
  then show ?thesis unfolding f using T_transfer assms(3) by (intro suspend_same) auto
qed (use assms(1) in auto)

section \<open>The database seen from the scheduler\<close>

named_theorems sched_db_simps \<open>operations of the scheduler that leave the database alone\<close>

lemma db_suspend [sched_db_simps]: "sc_db (suspend t g st) = sc_db st"
  by (simp add: suspend_def)

lemma db_finish [sched_db_simps]: "sc_db (finish t st) = sc_db st"
  by (simp add: finish_def wake_def)

lemma db_clear [sched_db_simps]: "sc_db (clear_dispatch_waiters t k f x st) = sc_db st"
  by (auto simp: clear_dispatch_waiters_def clear_accept_def wake_def Let_def split: option.splits)

lemma db_clear_ctx [sched_db_simps]: "sc_db (clear_ctx t c st) = sc_db st"
  by (simp add: clear_ctx_def sched_db_simps)

lemma db_recovery [sched_db_simps]: "sc_db (enter_recovery t j d n e st) = sc_db st"
  by (auto simp: enter_recovery_def sched_db_simps split: option.splits)

lemma db_recover_ctx [sched_db_simps]: "sc_db (recover_ctx t c e st) = sc_db st"
  by (simp add: recover_ctx_def sched_db_simps)

lemma db_release [sched_db_simps]: "sc_db (release_key k r st) = sc_db st"
  by (simp add: release_key_def)

lemma db_register [sched_db_simps]: "sc_db (register_waiters cfg t k j d n session protocol now st) = sc_db st"
  by (auto simp: register_waiters_def sched_db_simps Let_def split: prod.splits sum.splits option.splits)

lemma db_begin [sched_db_simps]: "sc_db (dispatch_begin cfg t row snap now st) = sc_db st"
  by (auto simp: dispatch_begin_def sched_db_simps Let_def split: sum.splits option.splits)

lemma db_send [sched_db_simps]: "sc_db (dispatch_send net t c snap st) = sc_db st"
  by (auto simp: dispatch_send_def sched_db_simps Let_def split: sum.splits option.splits)

lemma db_after_acceptance [sched_db_simps]: "sc_db (after_acceptance t c r) = sc_db (snd r)"
  by (auto simp: after_acceptance_def sched_db_simps split: prod.splits sum.splits bool.splits)

lemma db_tail_call [sched_db_simps]: "sc_db (tail_call t j d r) = sc_db (snd r)"
  by (auto simp: tail_call_def sched_db_simps split: prod.splits sum.splits)

lemma db_timeout: "task_timeout t g st = Some st' \<Longrightarrow> sc_db st' = sc_db st"
  by (cases g) (auto simp: sched_db_simps split: option.splits if_splits)

lemma quiet_db: "quiet st st' \<Longrightarrow> store_step\<^sup>*\<^sup>* (sc_db st) (sc_db st')"
  by (simp add: quiet_def)

lemma calm_db: "calm st st' \<Longrightarrow> store_step\<^sup>*\<^sup>* (sc_db st) (sc_db st')"
  by (simp add: calm_def)

lemma task_step_db:
  assumes "task_step cfg net now t g st = Some st'"
  shows "store_step\<^sup>*\<^sup>* (sc_db st) (sc_db st')"
proof (cases g)
  case (T_prepare c)
  obtain q st1 where p: "publishing (prepare_dispatch (c_job c) (c_device c) (c_protocol c) (ls_capabilities (c_session c))
         (c_accept_deadline c) now) st = (q, st1)" by fastforce
  show ?thesis
    using assms T_prepare quiet_db [OF prepare_quiet [OF p]]
    by (auto simp: dispatch_prepare_def p sched_db_simps split: sum.splits)
next
  case (T_legacy c)
  obtain q st1 where p: "publishing (transition_device (c_job c) (c_device c) (Some {D_DISPATCHING}) D_DOWNLOADING
         [F_accepted_at (Some now), F_accept_deadline None] False now) st = (q, st1)" by fastforce
  have "quiet st st1" using p by (rule transition_quiet) simp_all
  then show ?thesis
    using assms T_legacy quiet_db by (auto simp: dispatch_legacy_def p sched_db_simps split: sum.splits if_splits)
next
  case (T_accept c snap)
  then obtain outcome payload where st': "st' = after_acceptance t c (await_acceptance net c outcome payload now st)"
    using assms by (auto split: option.splits future.splits)
  show ?thesis
    unfolding st' sched_db_simps by (rule calm_db [OF await_acceptance_calm [OF surjective_pairing]])
next
  case (T_accept_timeout c)
  then show ?thesis
    using assms quiet_db [OF acceptance_timeout_quiet [OF surjective_pairing]] by (auto simp: sched_db_simps)
next
  case (T_transfer_timeout c)
  obtain r st1 where r: "transfer_timeout cfg net c now st = (r, st1)" by fastforce
  show ?thesis
    using assms T_transfer_timeout r quiet_db [OF transfer_timeout_quiet [OF r]] by (auto simp: sched_db_simps split: sum.splits)
next
  case (T_fail j d expected code detail)
  then show ?thesis
    using assms quiet_db [OF fail_current_quiet [OF surjective_pairing]] by (auto simp: sched_db_simps)
next
  case (T_requeue j d detail)
  then show ?thesis
    using assms quiet_db [OF requeue_race_quiet [OF surjective_pairing]] by (auto simp: sched_db_simps)
next
  case (T_recover j d attempt error)
  obtain r st1 where r: "recover_turn cfg net j d attempt error now st = (r, st1)" by fastforce
  show ?thesis
    using assms T_recover r quiet_db [OF recover_turn_quiet [OF r]] by (auto simp: sched_db_simps split: sum.splits)
qed (use assms in \<open>auto simp: sched_db_simps split: if_splits\<close>)

lemma run_turn_db: "store_step\<^sup>*\<^sup>* (sc_db st) (sc_db (run_turn t now st))"
proof -
  obtain q st1 where p: "on_db (claim_next (map fst (sc_sessions st)) now) st = (q, st1)" by fastforce
  have "quiet st st1" using p by (rule on_db_quiet) (rule S_claim)
  then show ?thesis
    using quiet_db by (auto simp: run_turn_def p sched_db_simps split: sum.splits option.splits)
qed

lemma run_turn_ok: "sched_ok st \<Longrightarrow> t \<notin> fst ` set (sc_tasks st) \<Longrightarrow> sched_ok (run_turn t now st)"
proof -
  assume ok: "sched_ok st" and t: "t \<notin> fst ` set (sc_tasks st)"
  obtain q st1 where p: "on_db (claim_next (map fst (sc_sessions st)) now) st = (q, st1)" by fastforce
  have q: "quiet st st1" using p by (rule on_db_quiet) (rule S_claim)
  have "map_of (sc_tasks st1) t = None" using t quiet_views [OF q] by (simp add: map_of_eq_None_iff)
  moreover have ok1: "sched_ok st1" using quiet_ok [OF q] ok by simp
  ultimately have "map_of (sc_owned st1) t = None" by (simp add: sched_ok_def in_step_def)
  then have "(map_of (sc_owned st1))(t := None) = map_of (sc_owned st1)" by auto
  then have "sched_ok (suspend t (T_slot row snap) st1)" for row snap
    using ok1 in_step_suspend [of "sc_tasks st1" "map_of (sc_owned st1)" t "T_slot row snap"]
    by (simp add: sched_ok_def suspend_def accepts_def)
  with ok1 show ?thesis by (auto simp: run_turn_def p split: sum.splits option.splits)
qed

lemma sched_step_db: "sched_step cfg st st' \<Longrightarrow> store_step\<^sup>*\<^sup>* (sc_db st) (sc_db st')"
proof (induction rule: sched_step.induct)
  case (SC_response j d attempt outcome payload st b st')
  then show ?case by (auto simp: command_response_def split: option.splits if_splits)
qed (auto simp: sched_db_simps run_turn_db db_timeout intro: task_step_db calm_db late_response_calm)

lemma sched_step_ok: "sched_step cfg st st' \<Longrightarrow> sched_ok st \<Longrightarrow> sched_ok st'"
proof (induction rule: sched_step.induct)
  case (SC_late net j d outcome payload now st r st')
  then show ?case using late_response_calm calm_def by blast
next
  case (SC_release_all st d reason)
  then show ?case
    by (intro waiters_pend_ok)
      (auto simp: release_all_for_device_def split_beta release_items_future pending_def w_get_def split: if_splits)
next
  case (SC_adapter key st f w w')
  then show ?case
    using core_ok_pend [of "sc_waiters st" "accepts st" "map_of (sc_owned st)" w' "accepts st"] register_get [OF SC_adapter(3)]
      register_heap [OF SC_adapter(3)]
    by (fastforce simp: sched_ok_def accepts_def create_future_def pending_append w_get_def)
next
  case (SC_adapter_remove key st f)
  have g: "w_get (snd (remove_if_same key f (sc_waiters st))) k = w_get (sc_waiters st) k" if "\<not> foreign k" for k
    using that SC_adapter_remove(1) by (auto simp: remove_get)
  have c: "core_ok (sc_waiters st) (accepts st) (map_of (sc_owned st))"
    using SC_adapter_remove(2) by (simp add: sched_ok_def)
  have "core_ok (snd (remove_if_same key f (sc_waiters st))) (accepts st) (map_of (sc_owned st))"
    by (rule core_ok_pend [OF c g]) simp_all
  then show ?case using SC_adapter_remove(2) by (simp add: sched_ok_def accepts_def)
next
  case (SC_database st s')
  then show ?case by (simp add: sched_ok_def accepts_def)
next
  case (SC_sessions st sessions)
  then show ?case by (simp add: sched_ok_def accepts_def)
qed (auto intro: run_turn_ok task_step_ok task_timeout_ok response_ok release_ok)

definition start_sched :: "db \<Rightarrow> sched" where
  "start_sched s = \<lparr>sc_db = s, sc_waiters = no_waiters, sc_accept_heap = [], sc_accept = [], sc_owned = [],
     sc_tasks = [], sc_sessions = [], sc_pub = no_publication, sc_sent = [], sc_wake = False\<rparr>"

lemma start_sched_ok: "sched_ok (start_sched s)"
  by (simp add: start_sched_def sched_ok_def core_ok_def in_step_def transfer.covered_def transfer.registered_def
      transfer.exclusive_def accept.covered_def accepts_def own_transfer_def no_waiters_def w_get_def)

interpretation dispatch: invariant_system "start_sched s" "sched_step cfg" sched_ok for s cfg
  by unfold_locales (rule start_sched_ok, rule sched_step_ok)

lemma sched_steps_db: "(sched_step cfg)\<^sup>*\<^sup>* st st' \<Longrightarrow> store_step\<^sup>*\<^sup>* (sc_db st) (sc_db st')"
  by (induction rule: rtranclp_induct) (auto dest: sched_step_db)

text \<open>What the ownership discipline says about the tasks.\<close>

definition waiters_owned :: "sched \<Rightarrow> bool" where
  "waiters_owned st \<longleftrightarrow>
    (\<forall>t g c. map_of (sc_tasks st) t = Some g \<longrightarrow> ctx_of g = Some c \<longrightarrow> \<not> foreign (c_key c) \<longrightarrow>
      pending (w_heap (sc_waiters st)) (c_transfer c) \<longrightarrow> w_get (sc_waiters st) (c_key c) = Some (c_transfer c)) \<and>
    (\<forall>k f. \<not> foreign k \<longrightarrow> w_get (sc_waiters st) k = Some f \<longrightarrow>
      (\<exists>t g c. map_of (sc_tasks st) t = Some g \<and> ctx_of g = Some c \<and> c_key c = k \<and> c_transfer c = f)) \<and>
    (\<forall>k f. map_of (sc_accept st) k = Some f \<longrightarrow>
      (\<exists>t g c. map_of (sc_tasks st) t = Some g \<and> ctx_of g = Some c \<and> accept_key_of (c_key c) = k \<and> c_accept c = Some f))"

lemma sched_ok_waiters:
  assumes ok: "sched_ok st"
  shows "waiters_owned st"
  unfolding waiters_owned_def
proof (intro conjI allI impI)
  have core: "core_ok (sc_waiters st) (accepts st) (map_of (sc_owned st))" using ok by (simp add: sched_ok_def)
  have own: "map_of (sc_owned st) t = Some v \<longleftrightarrow> (\<exists>g c. map_of (sc_tasks st) t = Some g \<and> ctx_of g = Some c \<and> v = own_of c)" for t v
    using ok by (auto simp: sched_ok_def in_step_def bind_eq_Some_conv)
  show "w_get (sc_waiters st) (c_key c) = Some (c_transfer c)"
    if "map_of (sc_tasks st) t = Some g" "ctx_of g = Some c" "\<not> foreign (c_key c)"
      "pending (w_heap (sc_waiters st)) (c_transfer c)" for t g c
  proof -
    have "map_of (sc_owned st) t = Some (own_of c)" using own that by blast
    then have "own_transfer (map_of (sc_owned st)) t = Some (c_key c, c_transfer c)" by (simp add: own_transfer_def own_of_def)
    then show ?thesis using core that(3,4) by (auto simp: core_ok_def transfer.registered_def)
  qed
  show "\<exists>t g c. map_of (sc_tasks st) t = Some g \<and> ctx_of g = Some c \<and> c_key c = k \<and> c_transfer c = f"
    if k: "\<not> foreign k" "w_get (sc_waiters st) k = Some f" for k f
  proof -
    obtain t where "own_transfer (map_of (sc_owned st)) t = Some (k, f)"
      using core k unfolding core_ok_def transfer.covered_def by blast
    then obtain x where "map_of (sc_owned st) t = Some (k, f, x)" by (auto simp: own_transfer_def)
    then show ?thesis using own by (auto simp: own_of_def)
  qed
  show "\<exists>t g c. map_of (sc_tasks st) t = Some g \<and> ctx_of g = Some c \<and> accept_key_of (c_key c) = k \<and> c_accept c = Some f"
    if k: "map_of (sc_accept st) k = Some f" for k f
  proof -
    obtain t where "own_accept (map_of (sc_owned st)) t = Some (k, f)"
      using core k unfolding core_ok_def accept.covered_def accepts_def snd_conv by blast
    then obtain k' f' where "map_of (sc_owned st) t = Some (k', f', Some f)" "accept_key_of k' = k"
      by (auto simp: own_accept_def bind_eq_Some_conv)
    then show ?thesis using own by (fastforce simp: own_of_def)
  qed
qed

section \<open>Properties\<close>


text \<open>
  (C30) No completion window without its exact waiter, and no waiter without its task: while a
  dispatch task holds waiters, a transfer future that is not answered is registered under the
  (device, job, attempt) key of the task; every push waiter in the registry and every acceptance
  waiter belongs to a task that holds it. When no task is left, no such waiter is left.
\<close>

theorem dispatch_waiters_exact:
  assumes "(sched_step cfg)\<^sup>*\<^sup>* (start_sched s) st"
  shows "(\<forall>t g c. map_of (sc_tasks st) t = Some g \<longrightarrow> ctx_of g = Some c \<longrightarrow> \<not> foreign (c_key c) \<longrightarrow>
      pending (w_heap (sc_waiters st)) (c_transfer c) \<longrightarrow> w_get (sc_waiters st) (c_key c) = Some (c_transfer c)) \<and>
    (\<forall>k f. \<not> foreign k \<longrightarrow> w_get (sc_waiters st) k = Some f \<longrightarrow>
      (\<exists>t g c. map_of (sc_tasks st) t = Some g \<and> ctx_of g = Some c \<and> c_key c = k \<and> c_transfer c = f)) \<and>
    (\<forall>k f. map_of (sc_accept st) k = Some f \<longrightarrow>
      (\<exists>t g c. map_of (sc_tasks st) t = Some g \<and> ctx_of g = Some c \<and> accept_key_of (c_key c) = k \<and> c_accept c = Some f))"
  using sched_ok_waiters [of st] dispatch.reachable_ok assms
  unfolding waiters_owned_def dispatch.reachable_def by blast

section \<open>A concrete run\<close>

definition demo_config :: sched_config where
  "demo_config = \<lparr>cf_accept_ms = 100, cf_accept_reconciliation_ms = 1000, cf_reconciliation_ms = 5000,
     cf_allow_legacy = False\<rparr>"

definition demo_session :: live_session where
  "demo_session = \<lparr>ls_ref = 1, ls_device_id = ''a'', ls_session_id = ''s1'', ls_ws = 7, ls_capabilities = [''push_job_id_v1''],
     ls_process_instance_id = Some ''p1'', ls_http_base = ''http://mdm:8080''\<rparr>"

definition demo_online :: sched where
  "demo_online = (start_sched demo_running)\<lparr>sc_sessions := [(''a'', demo_session)]\<rparr>"

definition task_run :: "task \<Rightarrow> int \<Rightarrow> sched \<Rightarrow> sched" where
  "task_run t now st = (case map_of (sc_tasks st) t of None \<Rightarrow> st
     | Some g \<Rightarrow> (case task_step demo_config None now t g st of None \<Rightarrow> st | Some st' \<Rightarrow> st'))"

lemma task_run_steps: "(sched_step demo_config)\<^sup>*\<^sup>* st (task_run t now st)"
  by (auto simp: task_run_def intro: SC_task split: option.splits)

text \<open>Claimed, waiters registered, dispatching committed, command sent.\<close>

definition demo_sent :: sched where
  "demo_sent = task_run 1 9 (task_run 1 8 (task_run 1 7 (run_turn 1 6 demo_online)))"

lemma demo_sent_run: "(sched_step demo_config)\<^sup>*\<^sup>* (start_sched demo_running) demo_sent"
proof -
  have "sched_step demo_config (start_sched demo_running) demo_online"
    unfolding demo_online_def by (rule SC_sessions)
  moreover have "sched_step demo_config demo_online (run_turn 1 6 demo_online)"
    by (rule SC_run) (simp add: demo_online_def start_sched_def)
  ultimately have "(sched_step demo_config)\<^sup>*\<^sup>* (start_sched demo_running) (run_turn 1 6 demo_online)" by simp
  then show ?thesis unfolding demo_sent_def using task_run_steps by (meson rtranclp_trans)
qed


theorem dispatch_waiters_exact_witness:
  "\<exists>k f. \<not> foreign k \<and> w_get (sc_waiters demo_sent) k = Some f \<and>
     (\<exists>t g c. map_of (sc_tasks demo_sent) t = Some g \<and> ctx_of g = Some c \<and> c_key c = k \<and> c_transfer c = f)"
proof -
  have k: "w_get (sc_waiters demo_sent) (demo_key ''a'') = Some 0" by code_simp
  have f: "\<not> foreign (demo_key ''a'')" by (simp add: foreign_def demo_key_def)
  from dispatch_waiters_exact [OF demo_sent_run] k f show ?thesis by blast
qed

end
