(* ===== verification/Device_Policy.thy ===== *)
theory Device_Policy
  imports Py_Json
begin

text \<open>
  \<^verbatim>\<open>device_policy.py\<close>: which commands a registered connection may receive. A registry entry is the
  JSON object of its fields; a list, tuple or set of capabilities is a JSON array.
\<close>

definition PROVISIONAL_POWER_CAPABILITY :: string where
  "PROVISIONAL_POWER_CAPABILITY = ''provisional_power_control_v1''"

definition PROVISIONAL_POWER_COMMANDS :: "string set" where
  "PROVISIONAL_POWER_COMMANDS = {''EXECUTE_REBOOT'', ''EXECUTE_POWER_OFF''}"

definition command_allowed :: "jobject option \<Rightarrow> string option \<Rightarrow> bool" where
  "command_allowed entry cmd =
     (case entry of
        None \<Rightarrow> False
      | Some e \<Rightarrow>
          if jget e ''registration_ready'' \<noteq> JBool True then False
          else if jget e ''identity_kind'' = JStr ''canonical'' then True
          else if jget e ''identity_kind'' = JStr ''legacy'' then cmd = Some ''EXECUTE_INSTALL''
          else if jget e ''identity_kind'' = JStr ''provisional'' then
            (case cmd of None \<Rightarrow> False | Some c \<Rightarrow> c \<in> PROVISIONAL_POWER_COMMANDS) \<and>
            (case jget e ''capabilities'' of
               JArr caps \<Rightarrow> JStr PROVISIONAL_POWER_CAPABILITY \<in> set caps
             | _ \<Rightarrow> False)
          else False)"

text \<open>
  The policy fails closed and knows four levels: whatever the fields of a registry entry, the
  set of commands it may receive is empty, the APK installation alone, the two power commands alone,
  or everything; everything only for a registered canonical identity, and nothing at all before the
  registration is acknowledged.
\<close>

theorem command_allowed_levels:
  "let allowed = {c. command_allowed entry (Some c)} in
   allowed \<in> {{}, {''EXECUTE_INSTALL''}, PROVISIONAL_POWER_COMMANDS, UNIV} \<and>
   (allowed \<noteq> {} \<longrightarrow> (\<exists>e. entry = Some e \<and> jget e ''registration_ready'' = JBool True)) \<and>
   (allowed = UNIV \<or> command_allowed entry None \<longrightarrow> (\<exists>e. entry = Some e \<and> jget e ''identity_kind'' = JStr ''canonical''))"
proof -
  have u: "PROVISIONAL_POWER_COMMANDS \<noteq> UNIV" "{c. c = ''EXECUTE_INSTALL''} \<noteq> UNIV"
    by (auto simp: PROVISIONAL_POWER_COMMANDS_def set_eq_iff intro!: exI [of _ "[]"])
  show ?thesis
    unfolding Let_def
    by (cases entry; cases "jget (the entry) ''capabilities''") (use u in \<open>auto simp: command_allowed_def\<close>)
qed

theorem command_allowed_levels_witness:
  "{c. command_allowed (Some [(''registration_ready'', JBool True), (''identity_kind'', JStr ''legacy'')]) (Some c)} =
     {''EXECUTE_INSTALL''} \<and>
   \<not> command_allowed (Some [(''registration_ready'', JBool True), (''identity_kind'', JStr ''legacy'')]) None"
  using command_allowed_levels [of "Some [(''registration_ready'', JBool True), (''identity_kind'', JStr ''legacy'')]"]
  by (auto simp: command_allowed_def jget_def)

end
