(* ===== verification/Push_Runtime.thy ===== *)
theory Push_Runtime
  imports Push_Dispatch Device_Policy
begin

text \<open>
  The message handlers of \<^verbatim>\<open>push_runtime.py\<close>: registration and disconnection of devices, the job-v1
  and legacy frames of a device, reconciliation deadlines and the dispatch command of an admin. A
  handler runs under the owner lock of its device; it is a function on the state of the runtime, and
  what a database call raises ends it.
\<close>

section \<open>State\<close>

text \<open>
  \<open>rt_devices\<close> is the established server's \<^verbatim>\<open>devices\<close> (socket and fields of an entry), \<open>rt_candidates\<close>
  the newest REGISTER per device, \<open>rt_sessions\<close> the sessions of the runtime, \<open>rt_registry\<close> the
  established server's \<^verbatim>\<open>device_registry\<close>. The scheduler sees the
  sessions through \<^verbatim>\<open>_dispatch_sessions\<close>.
\<close>

record runtime =
  rt_sched :: sched
  rt_sessions :: "(device_id \<times> live_session) list"
  rt_candidates :: "(device_id \<times> nat) list"
  rt_devices :: "(device_id \<times> nat \<times> jobject) list"
  rt_registry :: "(device_id \<times> jobject) list"

definition legacy_owns_device :: "runtime \<Rightarrow> device_id \<Rightarrow> nat \<Rightarrow> bool" where
  "legacy_owns_device rt d ws = (map_option fst (map_of (rt_devices rt) d) = Some ws)"

definition note_registration_candidate :: "device_id \<Rightarrow> nat \<Rightarrow> runtime \<Rightarrow> runtime" where
  "note_registration_candidate d ws rt = rt\<lparr>rt_candidates := AList.update d ws (rt_candidates rt)\<rparr>"

definition dispatchable :: "runtime \<Rightarrow> device_id \<times> live_session \<Rightarrow> bool" where
  "dispatchable rt = (\<lambda>(d, session).
     map_of (rt_candidates rt) d \<in> {None, Some (ls_ws session)} \<and> legacy_owns_device rt d (ls_ws session) \<and>
     command_allowed (map_option snd (map_of (rt_devices rt) d)) None)"

definition dispatch_sessions :: "runtime \<Rightarrow> (device_id \<times> live_session) list" where
  "dispatch_sessions rt = filter (dispatchable rt) (rt_sessions rt)"

text \<open>The scheduler calls \<^verbatim>\<open>_dispatch_sessions\<close> whenever it looks at the sessions.\<close>

definition sync :: "runtime \<Rightarrow> runtime" where
  "sync rt = rt\<lparr>rt_sched := (rt_sched rt)\<lparr>sc_sessions := dispatch_sessions rt\<rparr>\<rparr>"

definition on_sched :: "(sched \<Rightarrow> 'a \<times> sched) \<Rightarrow> runtime \<Rightarrow> 'a \<times> runtime" where
  "on_sched f rt = (case f (rt_sched rt) of (a, st) \<Rightarrow> (a, rt\<lparr>rt_sched := st\<rparr>))"

definition uuid_v4_or_none :: "json \<Rightarrow> string option" where
  "uuid_v4_or_none v = (case v of JStr t \<Rightarrow>
     (case uuid_parse t of None \<Rightarrow> None | Some n \<Rightarrow> if uuid_version n = Some 4 then Some (uuid_str n) else None)
     | _ \<Rightarrow> None)"

section \<open>Disconnection\<close>

text \<open>
  What a lost connection does to the active assignment of its device: back to the queue before the
  dispatch, to reconciliation after it. The same code stands in \<^verbatim>\<open>register_device\<close> and
  \<^verbatim>\<open>disconnect_device\<close>.
\<close>

definition hand_over ::
  "sched_config \<Rightarrow> device_id \<Rightarrow> string \<Rightarrow> int \<Rightarrow> sched \<Rightarrow> (mdm_error + snapshot list) \<times> sched" where
  "hand_over cfg d reason now st =
     (case active_assignment_for_device (sc_db st) d of
        None \<Rightarrow> (Inr [], st)
      | Some row \<Rightarrow>
          (case TransferKey K_push d (Some (d_job_id row)) (Some (d_attempt row)) of
             Inl e \<Rightarrow> (Inl e, st)
           | Inr key \<Rightarrow>
               let st1 = release_key key reason st;
                   state = d_state row;
                   short = (state = D_DISPATCHING \<and> d_accepted_at row = None);
                   answer = (\<lambda>r. case r of (Inl e, st2) \<Rightarrow> (if is_conflict e then Inr [] else Inl e, st2)
                                          | (Inr snap, st2) \<Rightarrow> (Inr [snap], st2)) in
               if state = D_WAITING_TRANSFER then
                 answer (on_db (transition_device (d_job_id row) d (Some {state}) D_QUEUED
                   [F_queue_reason (Some ''awaiting_dispatch'')] False now) st1)
               else if state \<in> {D_DISPATCHING, D_DOWNLOADING, D_VALIDATING, D_APPLYING} then
                 answer (on_db (mark_reconciling (d_job_id row) d {state}
                   (if short then ''disconnect_before_accept'' else ''device_disconnect'')
                   (now + (if short then cf_accept_reconciliation_ms cfg else cf_reconciliation_ms cfg)) now) st1)
               else (Inr [], st1)))"

text \<open>\<^verbatim>\<open>disconnect_device\<close>: \<open>registration_ready\<close> is set to false in the entry of an owning socket.\<close>

definition set_ready :: "bool \<Rightarrow> device_id \<Rightarrow> runtime \<Rightarrow> runtime" where
  "set_ready b d rt =
     rt\<lparr>rt_devices := map (\<lambda>(k, ws, e). (k, ws, if k = d then AList.update ''registration_ready'' (JBool b) e else e))
          (rt_devices rt)\<rparr>"

definition drop_candidate :: "device_id \<Rightarrow> nat \<Rightarrow> runtime \<Rightarrow> runtime" where
  "drop_candidate d ws rt =
     (if map_of (rt_candidates rt) d = Some ws then rt\<lparr>rt_candidates := AList.delete d (rt_candidates rt)\<rparr> else rt)"

definition disconnect_device ::
  "sched_config \<Rightarrow> device_id \<Rightarrow> nat \<Rightarrow> int \<Rightarrow> runtime \<Rightarrow> (mdm_error + unit) \<times> runtime" where
  "disconnect_device cfg d ws now rt =
     (let rt1 = sync (drop_candidate d ws rt) in
      if d = [] then (Inr (), rt)
      else if map_option ls_ws (map_of (rt_sessions rt1) d) \<noteq> Some ws then (Inr (), rt1)
      else
        let rt2 = rt1\<lparr>rt_sessions := AList.delete d (rt_sessions rt1)\<rparr>;
            rt3 = sync (if legacy_owns_device rt2 d ws then set_ready False d rt2 else rt2) in
        (case on_sched (hand_over cfg d ''device_disconnect'' now) rt3 of
           (Inl e, rt4) \<Rightarrow> (Inl e, rt4)
         | (Inr snaps, rt4) \<Rightarrow> (Inr (), rt4\<lparr>rt_sched := publish_snapshots snaps (rt_sched rt4)\<rparr>)))"

section \<open>Frames of a running job\<close>

fun is_missing :: "mdm_error \<Rightarrow> bool" where
  "is_missing (StoreNotFound m) = True"
| "is_missing _ = False"

text \<open>\<^verbatim>\<open>payload.get("attempt") == 1\<close> and \<^verbatim>\<open>isinstance(payload.get("job_id"), str)\<close>.\<close>

definition first_attempt :: "jobject \<Rightarrow> string option" where
  "first_attempt payload = (if equals_one (jget payload ''attempt'') then str_of (jget payload ''job_id'') else None)"

text \<open>A transition whose conflict is nobody's fault, with what is done before the publication.\<close>

definition transition_or_skip ::
  "(mdm_error \<Rightarrow> bool) \<Rightarrow> (sched \<Rightarrow> sched) \<Rightarrow> (db \<Rightarrow> (mdm_error + snapshot) \<times> db) \<Rightarrow> sched \<Rightarrow> (mdm_error + unit) \<times> sched" where
  "transition_or_skip skip before op st =
     (case on_db op st of
        (Inl e, st') \<Rightarrow> (if skip e then Inr () else Inl e, st')
      | (Inr snap, st') \<Rightarrow> (Inr (), publish_snapshot snap (before st')))"

definition release_push :: "job_id \<Rightarrow> device_id \<Rightarrow> string \<Rightarrow> sched \<Rightarrow> sched" where
  "release_push j d reason st =
     release_key \<lparr>k_kind = K_push, k_device_id = d, k_job_id = Some j, k_attempt = Some 1\<rparr> reason st"

definition handle_transfer_complete :: "device_id \<Rightarrow> jobject \<Rightarrow> int \<Rightarrow> sched \<Rightarrow> (mdm_error + unit) \<times> sched" where
  "handle_transfer_complete d payload now st =
     (case first_attempt payload of
        None \<Rightarrow> (Inr (), st)
      | Some j \<Rightarrow>
          (case get_snapshot (sc_db st) j of
             Inl e \<Rightarrow> (if is_missing e then Inr () else Inl e, st)
           | Inr snap \<Rightarrow>
               (case (map_of (s_devices snap) d, s_artifact snap, jget payload ''received_size'') of
                  (Some device, Some artifact, JInt received) \<Rightarrow>
                    if jget payload ''artifact_id'' \<noteq> JStr (av_artifact_id artifact) \<or>
                       Some received \<noteq> av_byte_size artifact \<or> dv_attempt device \<noteq> 1 then (Inr (), st)
                    else transition_or_skip is_conflict (release_push j d ''transfer_complete'')
                      (transition_device j d (Some {D_DOWNLOADING}) D_VALIDATING
                        [F_transfer_completed_at (Some now), F_accept_deadline None, F_reconciliation_reason None,
                         F_reconciliation_deadline None] False now) st
                | _ \<Rightarrow> (Inr (), st))))"

definition handle_validation_complete :: "device_id \<Rightarrow> jobject \<Rightarrow> int \<Rightarrow> sched \<Rightarrow> (mdm_error + unit) \<times> sched" where
  "handle_validation_complete d payload now st =
     (case first_attempt payload of
        None \<Rightarrow> (Inr (), st)
      | Some j \<Rightarrow>
          (case get_snapshot (sc_db st) j of
             Inl e \<Rightarrow> (if is_missing e then Inr () else Inl e, st)
           | Inr snap \<Rightarrow>
               (case (s_artifact snap, map_of (s_devices snap) d, assignment (sc_db st) j d) of
                  (Some artifact, Some device, Some (row, job)) \<Rightarrow>
                    if jget payload ''artifact_id'' \<noteq> JStr (av_artifact_id artifact) \<or>
                       dv_state device \<noteq> D_VALIDATING \<or> d_validation_completed_at row \<noteq> None then (Inr (), st)
                    else transition_or_skip is_conflict (\<lambda>x. x)
                      (transition_device j d (Some {D_VALIDATING}) D_VALIDATING
                        [F_validation_completed_at (Some now)] False now) st
                | _ \<Rightarrow> (Inr (), st))))"

definition handle_phase :: "device_id \<Rightarrow> jobject \<Rightarrow> int \<Rightarrow> sched \<Rightarrow> (mdm_error + unit) \<times> sched" where
  "handle_phase d payload now st =
     (if jget payload ''phase'' \<noteq> JStr ''applying'' then (Inr (), st)
      else (case first_attempt payload of
          None \<Rightarrow> (Inr (), st)
        | Some j \<Rightarrow> transition_or_skip (\<lambda>e. is_conflict e \<or> is_missing e) (\<lambda>x. x)
            (transition_device j d (Some {D_VALIDATING, D_RECONCILING}) D_APPLYING
              [F_apply_started_at (Some now), F_reconciliation_reason None, F_reconciliation_deadline None]
              False now) st))"

section \<open>Terminal results\<close>

definition result_ack :: "job_id \<Rightarrow> bool \<Rightarrow> int option \<Rightarrow> string option \<Rightarrow> json" where
  "result_ack j accepted revision reason =
     JObj ([(''type'', JStr ''PUSH_RESULT_ACK''), (''job_id'', JStr j), (''attempt'', JInt 1),
       (''accepted'', JBool accepted)] @
       (case revision of None \<Rightarrow> [] | Some r \<Rightarrow> [(''revision'', JInt r)]) @
       (if truthy reason then [(''reason'', JStr (the reason))] else []) @
       (if accepted then [] else [(''retryable'', JBool False)]))"

definition send_result_ack ::
  "string option \<Rightarrow> live_session \<Rightarrow> device_id \<Rightarrow> job_id \<Rightarrow> bool \<Rightarrow> int option \<Rightarrow> string option \<Rightarrow> runtime \<Rightarrow> runtime" where
  "send_result_ack net session d j accepted revision reason rt =
     (if map_option ls_ref (map_of (rt_sessions rt) d) \<noteq> Some (ls_ref session) \<or> net \<noteq> None then rt
      else rt\<lparr>rt_sched := (rt_sched rt)\<lparr>sc_sent := sc_sent (rt_sched rt) @
             [(session, result_ack j accepted revision reason)]\<rparr>\<rparr>)"

fun natural :: "json \<Rightarrow> bool" where
  "natural (JInt i) = (0 \<le> i)"
| "natural _ = False"

fun nonnegative_int :: "json \<Rightarrow> int" where
  "nonnegative_int (JInt i) = max 0 i"
| "nonnegative_int _ = 0"

definition result_of_payload :: "jobject \<Rightarrow> terminal_result" where
  "result_of_payload payload =
     (let success = (jget payload ''status'' = JStr ''success'');
          code = (case str_of (jget payload ''failure_code'') of
              None \<Rightarrow> if success then None else Some ''apply_failed''
            | Some c \<Rightarrow> if c = [] then (if success then None else Some ''apply_failed'') else Some (take 128 c));
          detail = (case str_of (jget payload ''detail'') of
              Some x \<Rightarrow> x
            | None \<Rightarrow> (case str_of (jget payload ''error'') of Some x \<Rightarrow> x | None \<Rightarrow> []))
      in \<lparr>t_success = success, t_added = nonnegative_int (jget payload ''added''),
          t_updated = nonnegative_int (jget payload ''updated''), t_deleted = nonnegative_int (jget payload ''deleted''),
          t_failure_code = code, t_failure_detail = Some (take 2000 detail)\<rparr>)"

definition malformed_result :: "jobject \<Rightarrow> bool" where
  "malformed_result payload =
     (jget payload ''status'' \<notin> {JStr ''success'', JStr ''fail''} \<or>
      jget payload ''status'' = JStr ''success'' \<and>
        \<not> list_all (\<lambda>k. natural (jget payload k)) [''added'', ''updated'', ''deleted''])"

definition revision_of :: "job_id \<Rightarrow> snapshot list \<Rightarrow> int option" where
  "revision_of j snaps = map_option s_revision (find (\<lambda>p. s_job_id p = j) snaps)"

definition wake_if :: "bool \<Rightarrow> sched \<Rightarrow> sched" where
  "wake_if b st = (if b then wake st else st)"

text \<open>The assignment ended unconfirmed: a matching late result clears its fence.\<close>

definition late_result ::
  "string option \<Rightarrow> live_session \<Rightarrow> device_id \<Rightarrow> job_id \<Rightarrow> int \<Rightarrow> runtime \<Rightarrow> (mdm_error + unit) \<times> runtime" where
  "late_result net session d j now rt =
     (case on_sched (on_db (settle_late_fenced_result j d 1 now)) rt of
        (Inl e, rt1) \<Rightarrow> (Inl e, rt1)
      | (Inr (accepted, snaps), rt1) \<Rightarrow>
          let st1 = (if accepted then release_push j d ''terminal_result'' (rt_sched rt1) else rt_sched rt1);
              rt2 = rt1\<lparr>rt_sched := wake_if accepted (publish_snapshots snaps st1)\<rparr>
          in (Inr (), send_result_ack net session d j accepted (revision_of j snaps)
                (if accepted then None else Some ''stale_result'') rt2))"

text \<open>
  A commit may change the assignment between the read of \<open>row\<close> and the settlement: an assignment that
  became unconfirmed in between is settled through its fence (lines 1459 to 1479).
\<close>

definition recheck_fence ::
  "device_id \<Rightarrow> job_id \<Rightarrow> bool \<Rightarrow> string option \<Rightarrow> snapshot \<Rightarrow> int \<Rightarrow> runtime \<Rightarrow>
   (mdm_error + bool \<times> string option \<times> snapshot \<times> snapshot list) \<times> runtime" where
  "recheck_fence d j accepted reason snap now rt =
     (if \<not> accepted \<and> reason \<in> {Some ''unexpected_result_state'', Some ''conflicting_terminal_result''} \<and>
         map_option dv_state (map_of (s_devices snap) d) = Some D_UNCONFIRMED
      then (case on_sched (on_db (settle_late_fenced_result j d 1 now)) rt of
          (Inl e, rt1) \<Rightarrow> (Inl e, rt1)
        | (Inr (True, late), rt1) \<Rightarrow>
            (Inr (True, None, (case find (\<lambda>p. s_job_id p = j) late of None \<Rightarrow> snap | Some p \<Rightarrow> p), late), rt1)
        | (Inr (False, late), rt1) \<Rightarrow> (Inr (False, reason, snap, late), rt1))
      else (Inr (accepted, reason, snap, []), rt))"

text \<open>The rest of \<^verbatim>\<open>_handle_result\<close>, from its read of the assignment on.\<close>

definition settle_and_ack ::
  "string option \<Rightarrow> live_session \<Rightarrow> device_id \<Rightarrow> job_id \<Rightarrow> jobject \<Rightarrow> device_row \<Rightarrow> int \<Rightarrow> runtime \<Rightarrow>
   (mdm_error + unit) \<times> runtime" where
  "settle_and_ack net session d j payload row now rt =
     (let was_terminal = (d_state row \<in> {D_SUCCEEDED, D_FAILED, D_INTERRUPTED}) in
      case on_sched (on_db (settle_result j d 1 (result_of_payload payload) now)) rt of
        (Inl e, rt1) \<Rightarrow> (Inl e, rt1)
      | (Inr (settled, why, first), rt1) \<Rightarrow>
          (case recheck_fence d j settled why first now rt1 of
             (Inl e, rt2) \<Rightarrow> (Inl e, rt2)
           | (Inr (accepted, reason, snap, late), rt2) \<Rightarrow>
               let st1 = (if accepted then release_push j d ''terminal_result'' (rt_sched rt2) else rt_sched rt2);
                   st2 = (if accepted \<and> late \<noteq> [] then publish_snapshots late st1
                          else if accepted \<and> \<not> was_terminal then publish_snapshot snap st1 else st1);
                   rt3 = rt2\<lparr>rt_sched := wake_if accepted st2\<rparr>
               in (Inr (), send_result_ack net session d j accepted (Some (s_revision snap)) reason rt3)))"

definition handle_result ::
  "string option \<Rightarrow> live_session \<Rightarrow> device_id \<Rightarrow> jobject \<Rightarrow> int \<Rightarrow> runtime \<Rightarrow> (mdm_error + unit) \<times> runtime" where
  "handle_result net session d payload now rt =
     (case str_of (jget payload ''job_id'') of
        None \<Rightarrow> (Inr (), rt)
      | Some j \<Rightarrow>
          let refuse = (\<lambda>reason. (Inr (), send_result_ack net session d j False None (Some reason) rt)) in
          if \<not> equals_one (jget payload ''attempt'') then refuse ''stale_result''
          else if \<not> hashable (jget payload ''status'') then (Inl unhashable, rt)
          else if malformed_result payload then refuse ''malformed_terminal_result''
          else (case on_sched (on_db (clear_matching_opaque_fence d j (JInt 1) now)) rt of
              (Inl e, rt1) \<Rightarrow> (Inl e, rt1)
            | (Inr (True, snaps), rt1) \<Rightarrow>
                (Inr (), send_result_ack net session d j True (revision_of j snaps) None
                   (rt1\<lparr>rt_sched := wake (publish_snapshots snaps (rt_sched rt1))\<rparr>))
            | (Inr (False, _), rt1) \<Rightarrow>
                (case assignment (sc_db (rt_sched rt1)) j d of
                   None \<Rightarrow> refuse ''unknown_job''
                 | Some (row, job) \<Rightarrow>
                     if d_attempt row \<noteq> 1 then refuse ''stale_result''
                     else if d_state row = D_UNCONFIRMED then late_result net session d j now rt1
                     else settle_and_ack net session d j payload row now rt1)))"

section \<open>Reconciliation reports\<close>

text \<open>\<^verbatim>\<open>status in {"active", "absent", "interrupted"}\<close> of a JSON value.\<close>

definition report_status :: "jobject \<Rightarrow> string option" where
  "report_status payload = (case str_of (jget payload ''status'') of
       None \<Rightarrow> None
     | Some v \<Rightarrow> if v \<in> {''active'', ''absent'', ''interrupted''} then Some v else None)"

definition after_report :: "device_id \<Rightarrow> job_id \<Rightarrow> string option \<Rightarrow> string \<Rightarrow> snapshot list \<Rightarrow> sched \<Rightarrow> sched" where
  "after_report d j phase outcome snaps st =
     (let st1 = publish_snapshots snaps st in
      wake (if outcome \<in> {''requeued'', ''interrupted''} \<or>
               outcome = ''active'' \<and> phase \<in> {Some ''validating'', Some ''applying''}
            then release_push j d outcome st1 else st1))"

definition handle_reconcile_report :: "device_id \<Rightarrow> jobject \<Rightarrow> int \<Rightarrow> sched \<Rightarrow> (mdm_error + unit) \<times> sched" where
  "handle_reconcile_report d payload now st =
     (if first_attempt payload \<noteq> None \<and> \<not> hashable (jget payload ''status'') then (Inl unhashable, st)
      else case (first_attempt payload, report_status payload) of
        (Some j, Some status) \<Rightarrow>
          (case assignment (sc_db st) j d of
             None \<Rightarrow>
               if status = ''active'' then (Inr (), st)
               else (case on_db (clear_matching_opaque_fence d j (JInt 1) now) st of
                   (Inl e, st1) \<Rightarrow> (Inl e, st1)
                 | (Inr (matched, snaps), st1) \<Rightarrow> (Inr (), wake_if matched (publish_snapshots snaps st1)))
           | Some (row, job) \<Rightarrow>
               if d_state row = D_UNCONFIRMED \<and> status \<noteq> ''active'' then
                 (case on_db (clear_matching_fence j d 1 now) st of
                    (Inl e, st1) \<Rightarrow> (Inl e, st1)
                  | (Inr snaps, st1) \<Rightarrow> (Inr (), wake_if (snaps \<noteq> []) (publish_snapshots snaps st1)))
               else if d_state row \<noteq> D_RECONCILING then (Inr (), st)
               else (case on_db (reconcile_report j d 1 status (str_of (jget payload ''phase''))
                      (str_of (jget payload ''detail'')) now) st of
                   (Inl e, st1) \<Rightarrow> (if is_conflict e \<or> is_missing e then Inr () else Inl e, st1)
                 | (Inr (outcome, snaps), st1) \<Rightarrow>
                     (Inr (), after_report d j (str_of (jget payload ''phase'')) outcome snaps st1)))
      | _ \<Rightarrow> (Inr (), st))"

section \<open>Dispatch of a frame\<close>

text \<open>A late acceptance counts as an active report of the exact execution.\<close>

definition late_acceptance :: "device_id \<Rightarrow> job_id \<Rightarrow> jobject \<Rightarrow> int \<Rightarrow> sched \<Rightarrow> (mdm_error + unit) \<times> sched" where
  "late_acceptance d j payload now st =
     (case assignment (sc_db st) j d of
        None \<Rightarrow> (Inr (), st)
      | Some (row, job) \<Rightarrow>
          if d_state row \<noteq> D_RECONCILING then (Inr (), st)
          else (let phase = (case str_of (jget payload ''phase'') of None \<Rightarrow> ''downloading'' | Some p \<Rightarrow> p) in
            case on_db (reconcile_report j d 1 ''active'' (Some phase) None now) st of
              (Inl e, st1) \<Rightarrow> (if is_conflict e \<or> is_missing e then Inr () else Inl e, st1)
            | (Inr (outcome, snaps), st1) \<Rightarrow>
                if outcome \<noteq> ''active'' then (Inr (), st1)
                else let st2 = publish_snapshots snaps st1 in
                  if \<not> hashable (jget payload ''phase'') then (Inl unhashable, st2)
                  else (Inr (), if phase \<in> {''validating'', ''applying''}
                           then release_push j d ''late_accept_after_transfer'' st2 else st2)))"

definition handle_accepted :: "device_id \<Rightarrow> job_id \<Rightarrow> jobject \<Rightarrow> int \<Rightarrow> sched \<Rightarrow> (mdm_error + unit) \<times> sched" where
  "handle_accepted d j payload now st =
     (if \<not> equals_one (jget payload ''attempt'') then (Inr (), st)
      else (case command_response j d 1 ''accepted'' payload st of
          (True, st1) \<Rightarrow> (Inr (), st1)
        | (False, st1) \<Rightarrow> late_acceptance d j payload now st1))"

definition handle_rejected ::
  "string option \<Rightarrow> device_id \<Rightarrow> job_id \<Rightarrow> jobject \<Rightarrow> int \<Rightarrow> sched \<Rightarrow> (mdm_error + unit) \<times> sched" where
  "handle_rejected net d j payload now st =
     (if \<not> equals_one (jget payload ''attempt'') then (Inr (), st)
      else let outcome = (if jget payload ''reason'' = JStr ''device_busy'' then ''busy'' else ''rejected'') in
        case command_response j d 1 outcome payload st of
          (True, st1) \<Rightarrow> (Inr (), st1)
        | (False, st1) \<Rightarrow> handle_late_command_response net j d outcome payload now st1)"

text \<open>\<^verbatim>\<open>_handle_owned_job_v1_message\<close>; the answer of a call without exception is whether the frame is consumed.\<close>

definition consumed :: "(mdm_error + unit) \<times> 's \<Rightarrow> (mdm_error + bool) \<times> 's" where
  "consumed r = (case r of (Inl e, s) \<Rightarrow> (Inl e, s) | (Inr u, s) \<Rightarrow> (Inr True, s))"

definition handle_owned_job_v1_message ::
  "string option \<Rightarrow> live_session \<Rightarrow> device_id \<Rightarrow> jobject \<Rightarrow> int \<Rightarrow> runtime \<Rightarrow> (mdm_error + bool) \<times> runtime" where
  "handle_owned_job_v1_message net session d payload now rt =
     (case str_of (jget payload ''job_id'') of
        None \<Rightarrow> (Inr False, rt)
      | Some j \<Rightarrow>
          let ty = jget payload ''type''; on = (\<lambda>f. consumed (on_sched f rt)) in
          if ty = JStr ''PUSH_JOB_ACCEPTED'' then on (handle_accepted d j payload now)
          else if ty = JStr ''PUSH_JOB_REJECTED'' then on (handle_rejected net d j payload now)
          else if ty = JStr ''PUSH_TRANSFER_COMPLETE'' then on (handle_transfer_complete d payload now)
          else if ty = JStr ''DOWNLOAD_COMPLETE'' then on (handle_validation_complete d payload now)
          else if ty = JStr ''PUSH_PHASE'' then on (handle_phase d payload now)
          else if ty = JStr ''PUSH_FILES_RESULT'' then consumed (handle_result net session d payload now rt)
          else if ty = JStr ''PUSH_RECONCILE_REPORT'' then on (handle_reconcile_report d payload now)
          else (Inr False, rt))"

definition handle_owned_legacy_message ::
  "string option \<Rightarrow> live_session \<Rightarrow> device_id \<Rightarrow> jobject \<Rightarrow> int \<Rightarrow> runtime \<Rightarrow> (mdm_error + bool) \<times> runtime" where
  "handle_owned_legacy_message net session d payload now rt =
     (case active_assignment_for_device (sc_db (rt_sched rt)) d of
        None \<Rightarrow> (Inr False, rt)
      | Some row \<Rightarrow>
          if d_protocol_mode row \<noteq> LEGACY then (Inr False, rt)
          else if jget payload ''type'' = JStr ''DOWNLOAD_COMPLETE'' \<and> jget payload ''task'' = JStr ''push'' then
            consumed (on_sched (\<lambda>st. transition_or_skip is_conflict (\<lambda>x. x)
              (transition_device (d_job_id row) d (Some {D_DOWNLOADING}) D_VALIDATING
                [F_transfer_completed_at (Some now)] False now)
              (release_push (d_job_id row) d ''legacy_download_complete'' st)) rt)
          else if jget payload ''type'' = JStr ''PUSH_FILES_RESULT'' then
            consumed (handle_result net session d
              (AList.update ''attempt'' (JInt 1) (AList.update ''job_id'' (JStr (d_job_id row)) payload)) now rt)
          else (Inr False, rt))"

text \<open>
  \<^verbatim>\<open>handle_device_message\<close>: only the socket that owns the session of the device and is not superseded
  by a newer REGISTER is heard.
\<close>

definition job_v1_types :: "json set" where
  "job_v1_types = {JStr ''PUSH_JOB_ACCEPTED'', JStr ''PUSH_JOB_REJECTED'', JStr ''PUSH_TRANSFER_COMPLETE'',
     JStr ''PUSH_PHASE'', JStr ''PUSH_RECONCILE_REPORT''}"

definition is_job_v1 :: "jobject \<Rightarrow> bool" where
  "is_job_v1 payload =
     (jget payload ''type'' \<in> job_v1_types \<or>
      jget payload ''type'' \<in> {JStr ''DOWNLOAD_COMPLETE'', JStr ''PUSH_FILES_RESULT''} \<and> is_str (jget payload ''job_id''))"

definition is_legacy_push :: "jobject \<Rightarrow> bool" where
  "is_legacy_push payload =
     (jget payload ''type'' = JStr ''DOWNLOAD_COMPLETE'' \<and> jget payload ''task'' = JStr ''push'' \<or>
      jget payload ''type'' = JStr ''PUSH_FILES_RESULT'' \<and> \<not> is_str (jget payload ''job_id''))"

definition hears :: "runtime \<Rightarrow> device_id \<Rightarrow> nat \<Rightarrow> live_session option" where
  "hears rt d ws =
     (if map_of (rt_candidates rt) d \<notin> {None, Some ws} then None
      else (case map_of (rt_sessions rt) d of
          None \<Rightarrow> None
        | Some session \<Rightarrow> if ls_ws session = ws then Some session else None))"

definition handle_device_message ::
  "string option \<Rightarrow> nat \<Rightarrow> device_id \<Rightarrow> jobject \<Rightarrow> int \<Rightarrow> runtime \<Rightarrow> (mdm_error + bool) \<times> runtime" where
  "handle_device_message net ws d payload now rt =
     (if d = [] then (Inr False, rt)
      else if \<not> hashable (jget payload ''type'') then (Inl unhashable, rt)
      else if \<not> (is_job_v1 payload \<or> is_legacy_push payload) then (Inr False, rt)
      else (case hears rt d ws of
          None \<Rightarrow> (Inr (is_job_v1 payload), rt)
        | Some session \<Rightarrow>
            if is_job_v1 payload then handle_owned_job_v1_message net session d payload now rt
            else handle_owned_legacy_message net session d payload now rt))"

section \<open>Registration\<close>

text \<open>
  \<^verbatim>\<open>_registration_active_snapshots\<close>: what a registering device says it is executing. Everything that is
  not the canonical assignment with its artifact becomes an opaque fence.
\<close>

definition registration_active_snapshots ::
  "device_id \<Rightarrow> string option \<Rightarrow> jobject \<Rightarrow> int \<Rightarrow> sched \<Rightarrow> (mdm_error + snapshot list) \<times> sched" where
  "registration_active_snapshots d process active now st =
     (let fence = (\<lambda>text. on_db (add_opaque_fence d (opaque_identity_for_active active) JOB_V1 process text now) st) in
      case (str_of (jget active ''job_id''), str_of (jget active ''phase'')) of
        (Some j, Some phase) \<Rightarrow>
          if \<not> equals_one (jget active ''attempt'') then fence ''REGISTER reported malformed active Push/Sync state''
          else (case assignment (sc_db st) j d of
              None \<Rightarrow> fence ''REGISTER reported an active Push/Sync job unknown to this server''
            | Some (row, job) \<Rightarrow>
                if str_of (jget active ''artifact_id'') = None \<or> str_of (jget active ''artifact_id'') \<noteq> j_artifact_id job then
                  (case fence ''REGISTER active state conflicted with the canonical artifact'' of
                     (Inl e, st1) \<Rightarrow> (Inl e, st1)
                   | (Inr snaps, st1) \<Rightarrow>
                       if d_state row \<in> TERMINAL_DEVICE_STATES then (Inr snaps, st1)
                       else (case on_db (transition_device j d (Some {d_state row}) D_FAILED
                            [F_failure_code (Some ''artifact_identity_mismatch''),
                             F_failure_detail (Some ''REGISTER active artifact did not match the canonical assignment''),
                             F_accept_deadline None, F_reconciliation_reason None, F_reconciliation_deadline None]
                            False now) st1 of
                           (Inl e, st2) \<Rightarrow> (if is_conflict e then Inr snaps else Inl e, st2)
                         | (Inr snap, st2) \<Rightarrow> (Inr (snaps @ [snap]), st2)))
                else if d_state row \<noteq> D_RECONCILING then (Inr [], st)
                else (case on_db (reconcile_report j d 1 ''active'' (Some phase) None now) st of
                    (Inl e, st1) \<Rightarrow> (if is_conflict e then Inr [] else Inl e, st1)
                  | (Inr (outcome, snaps), st1) \<Rightarrow> (Inr (if outcome = ''active'' then snaps else []), st1)))
      | _ \<Rightarrow> fence ''REGISTER reported malformed active Push/Sync state'')"

text \<open>
  \<^verbatim>\<open>request_reconcile\<close>: ask the device about its reconciling assignment, else about the job behind its
  fence, else about the execution an opaque fence names.
\<close>

definition request_reconcile :: "string option \<Rightarrow> device_id \<Rightarrow> runtime \<Rightarrow> (mdm_error + unit) \<times> runtime" where
  "request_reconcile net d rt =
     (case map_of (rt_sessions rt) d of
        None \<Rightarrow> (Inr (), rt)
      | Some session \<Rightarrow> on_sched (\<lambda>st.
          case map_option d_job_id (Option.bind (active_assignment_for_device (sc_db st) d)
                 (\<lambda>row. if d_state row = D_RECONCILING then Some row else None)) of
            Some j \<Rightarrow>
              (case get_snapshot (sc_db st) j of
                 Inl e \<Rightarrow> (Inl e, st)
               | Inr snap \<Rightarrow> send_reconcile net session snap d st)
          | None \<Rightarrow>
              (case fenced_assignment_for_device (sc_db st) d of
                 Some (f, _, artifact) \<Rightarrow>
                   if truthy (f_blocking_job_id f) \<and> f_blocking_attempt f = Some 1
                   then send_exact_reconcile net session (the (f_blocking_job_id f)) 1 artifact st
                   else (case opaque_reconcile_target (sc_db st) d of
                       None \<Rightarrow> (Inr (), st)
                     | Some target \<Rightarrow> send_exact_reconcile net session (the (str_of (jget target ''job_id''))) 1
                         (str_of (jget target ''artifact_id'')) st)
               | None \<Rightarrow> (Inr (), st))) rt)"

text \<open>The capabilities a session may claim: job-v1 needs the identity of the client process.\<close>

definition session_capabilities :: "json \<Rightarrow> string option \<Rightarrow> string list" where
  "session_capabilities caps process =
     (let cs = parse_capabilities caps in
      sorted_list_of_set (if process = None then cs - {CAP_PUSH_JOB_ID_V1} else cs))"

text \<open>
  The database work of \<^verbatim>\<open>register_device\<close>: the snapshots to publish and whether the device must be
  asked about its assignment.
\<close>

definition registration_report ::
  "device_id \<Rightarrow> live_session \<Rightarrow> jobject \<Rightarrow> int \<Rightarrow> sched \<Rightarrow> (mdm_error + snapshot list \<times> bool) \<times> sched" where
  "registration_report d session payload now st =
     (let report = (case jget payload ''push_runtime'' of JObj kvs \<Rightarrow> map_of kvs ''active'' | _ \<Rightarrow> None);
          process = ls_process_instance_id session in
      case report of
        Some (JObj active) \<Rightarrow>
          (case registration_active_snapshots d process active now st of
             (Inl e, st1) \<Rightarrow> (Inl e, st1)
           | (Inr snaps, st1) \<Rightarrow> (Inr (snaps, False), st1))
      | _ \<Rightarrow>
          (case (if report = Some JNull
                 then on_db (clear_fence_on_process_replacement d process
                        (CAP_PUSH_JOB_ID_V1 \<in> set (ls_capabilities session)) now) st
                 else (Inr [], st)) of
             (Inl e, st1) \<Rightarrow> (Inl e, st1)
           | (Inr snaps, st1) \<Rightarrow>
               (Inr (snaps, map_option d_state (active_assignment_for_device (sc_db st1) d) = Some D_RECONCILING), st1)))"

text \<open>
  \<^verbatim>\<open>register_device\<close> for the socket \<open>ws\<close> and the new session object; \<open>net\<close> is the fate of the REGISTERED
  frame. On a failed send the session is removed again and the exception ends the handler before the
  collected snapshots are published.
\<close>

definition register_device ::
  "sched_config \<Rightarrow> string option \<Rightarrow> string option \<Rightarrow> live_session \<Rightarrow> jobject \<Rightarrow> int \<Rightarrow> runtime \<Rightarrow> (mdm_error + unit) \<times> runtime" where
  "register_device cfg net net_reconcile session payload now rt =
     (let d = ls_device_id session; ws = ls_ws session in
      if map_of (rt_candidates rt) d \<noteq> Some ws \<or> \<not> legacy_owns_device rt d ws then (Inr (), rt)
      else
        let replaced = (case map_of (rt_sessions rt) d of None \<Rightarrow> False | Some previous \<Rightarrow> ls_ws previous \<noteq> ws);
            rt1 = sync (if replaced then rt\<lparr>rt_sessions := AList.delete d (rt_sessions rt)\<rparr> else rt) in
        case (if replaced then on_sched (hand_over cfg d ''connection_replaced'' now) rt1 else (Inr [], rt1)) of
          (Inl e, rt2) \<Rightarrow> (Inl e, rt2)
        | (Inr snaps1, rt2) \<Rightarrow>
            (case on_sched (registration_report d session payload now) rt2 of
               (Inl e, rt3) \<Rightarrow> (Inl e, rt3)
             | (Inr (snaps2, needs_reconcile), rt3) \<Rightarrow>
                 (case net of
                    Some m \<Rightarrow> (Inl (ConnectionError m), sync (rt3\<lparr>rt_sessions := AList.delete d (rt_sessions rt3)\<rparr>))
                  | None \<Rightarrow>
                      let frame = JObj [(''type'', JStr ''REGISTERED''), (''session_id'', JStr (ls_session_id session))];
                          rt4 = rt3\<lparr>rt_sessions := AList.update d session (rt_sessions rt3),
                                    rt_sched := publish_snapshots (snaps1 @ snaps2)
                                      ((rt_sched rt3)\<lparr>sc_sent := sc_sent (rt_sched rt3) @ [(session, frame)]\<rparr>)\<rparr>;
                          rt5 = sync (drop_candidate d ws (set_ready True d rt4));
                          rt6 = rt5\<lparr>rt_sched := wake (rt_sched rt5)\<rparr> in
                      if needs_reconcile \<and> command_allowed (map_option snd (map_of (rt_devices rt5) d)) None
                      then (case request_reconcile net_reconcile d rt5 of
                          (Inl e, rt7) \<Rightarrow> (Inl e, rt7)
                        | (Inr u, rt7) \<Rightarrow> (Inr (), rt7\<lparr>rt_sched := wake (rt_sched rt7)\<rparr>))
                      else (Inr (), rt6))))"

section \<open>Deadlines and admin commands\<close>

text \<open>One row of each loop of \<^verbatim>\<open>_reconciliation_housekeeping\<close>; an exception is logged and the row skipped.\<close>

definition expire_acceptance_row ::
  "sched_config \<Rightarrow> string option \<Rightarrow> device_row \<Rightarrow> int \<Rightarrow> runtime \<Rightarrow> runtime" where
  "expire_acceptance_row cfg net row now rt =
     (let j = d_job_id row; d = d_device_id row in
      if has_live_acceptance_waiter (rt_sched rt) j d (d_attempt row) then rt
      else
        let rt' = (case on_sched (on_db (mark_acceptance_reconciling j d (the (d_accept_deadline row))
                (now + cf_accept_reconciliation_ms cfg) now)) rt of
             (Inl e, rt1) \<Rightarrow> rt1
           | (Inr (changed, snap), rt1) \<Rightarrow>
               snd (request_reconcile net d
                 (if changed then rt1\<lparr>rt_sched := publish_snapshot snap (rt_sched rt1)\<rparr> else rt1)))
        in rt'\<lparr>rt_sched := wake (rt_sched rt')\<rparr>)"

definition expire_reconciliation_row :: "device_row \<Rightarrow> int \<Rightarrow> runtime \<Rightarrow> runtime" where
  "expire_reconciliation_row row now rt =
     (let j = d_job_id row; d = d_device_id row in
      case on_sched (on_db (mark_unconfirmed j d (Option.bind (map_of (rt_sessions rt) d) ls_process_instance_id)
          ''reconciliation deadline elapsed without matching evidence'' (d_reconciliation_deadline row) (Some now) now)) rt of
        (Inl e, rt1) \<Rightarrow> rt1
      | (Inr snaps, rt1) \<Rightarrow>
          (case TransferKey K_push d (Some j) (Some (d_attempt row)) of
             Inl e \<Rightarrow> rt1\<lparr>rt_sched := wake (rt_sched rt1)\<rparr>
           | Inr key \<Rightarrow> rt1\<lparr>rt_sched := wake (publish_snapshots snaps (release_key key ''reconciliation_timeout'' (rt_sched rt1)))\<rparr>))"

definition housekeeping :: "sched_config \<Rightarrow> string option \<Rightarrow> int \<Rightarrow> runtime \<Rightarrow> runtime" where
  "housekeeping cfg net now rt =
     (let acceptances = expired_acceptances (sc_db (rt_sched rt)) now;
          rows = expired_reconciliations (sc_db (rt_sched rt)) now
      in fold (\<lambda>row. expire_reconciliation_row row now) rows
           (fold (\<lambda>row. expire_acceptance_row cfg net row now) acceptances rt))"

text \<open>
  The dispatch command of an admin (\<^verbatim>\<open>PUSH_FILES\<close> with a job id): its answer, an error text or the
  acknowledged snapshot.
\<close>

definition admin_push_files :: "job_id \<Rightarrow> int \<Rightarrow> runtime \<Rightarrow> (string + snapshot) \<times> runtime" where
  "admin_push_files j now rt =
     (case on_sched (on_db (enable_dispatch j now)) rt of
        (Inl e, rt1) \<Rightarrow> (Inl (error_text e), rt1)
      | (Inr (changed, snap), rt1) \<Rightarrow>
          (Inr snap, rt1\<lparr>rt_sched := (let st = wake (rt_sched rt1) in if changed then publish_snapshot snap st else st)\<rparr>))"

section \<open>HTTP: creation and upload\<close>

text \<open>
  An answer of the HTTP interface: the status with an error text or with the snapshot whose
  \<^verbatim>\<open>_create_response\<close> is the body.
\<close>

datatype http = H_snapshot int snapshot | H_error int string

fun protocol_mode_value :: "protocol_mode \<Rightarrow> string" where
  "protocol_mode_value JOB_V1 = ''job_v1''"
| "protocol_mode_value LEGACY = ''legacy''"

definition create_response :: "snapshot \<Rightarrow> jobject" where
  "create_response snap =
     [(''job_id'', JStr (s_job_id snap)), (''revision'', JInt (s_revision snap)),
      (''state'', JStr (job_state_value (s_state snap))), (''create_expires_at'', JInt (s_create_expires_at snap)),
      (''upload_url'', JStr (''/api/push-jobs/'' @ s_job_id snap @ ''/upload'')),
      (''targets'', JArr (map (\<lambda>(d, v). JObj [(''device_id'', JStr d),
         (''protocol_mode'', JStr (protocol_mode_value (dv_protocol_mode v)))]) (s_devices snap)))]"

text \<open>The checks of one target device (lines 470 to 492).\<close>

definition admit_target :: "sched_config \<Rightarrow> runtime \<Rightarrow> device_id \<Rightarrow> mdm_error + protocol_mode \<times> string list" where
  "admit_target cfg rt d =
     (let record = map_of (rt_registry rt) d;
          entry = map_option snd (map_of (rt_devices rt) d);
          kind = jget (case entry of Some e \<Rightarrow> e | None \<Rightarrow> (case record of Some r \<Rightarrow> r | None \<Rightarrow> [])) ''identity_kind'' in
      if (case record of None \<Rightarrow> False | Some r \<Rightarrow> jget r ''retired'' = JBool True)
      then Inl (PushJobError (''target device is retired: '' @ d))
      else if kind = JStr ''legacy''
      then Inl (PushJobError (''legacy device only supports APK installation/update: '' @ d))
      else (case map_of (dispatch_sessions rt) d of
          None \<Rightarrow> Inl (PushJobError (''target device is not online: '' @ d))
        | Some session \<Rightarrow>
            (case protocol_for (cf_allow_legacy cfg) session of
               None \<Rightarrow> Inl (PushJobError (''target does not support push_job_id_v1: '' @ d))
             | Some protocol \<Rightarrow> Inr (protocol, ls_capabilities session))))"

definition http_error :: "mdm_error \<Rightarrow> http" where
  "http_error e = (case e of
       StoreConflict m \<Rightarrow> H_error 409 m
     | PushJobError m \<Rightarrow> H_error 422 m
     | InvalidTransition m \<Rightarrow> H_error 422 m
     | ValueError m \<Rightarrow> H_error 422 m
     | _ \<Rightarrow> H_error 500 (error_text e))"

record create_limits =
  cl_max_entries :: int
  cl_max_bytes :: int
  cl_timeout_ms :: int

definition create_job_handler ::
  "(nat list \<Rightarrow> string) \<Rightarrow> sched_config \<Rightarrow> create_limits \<Rightarrow> job_id \<Rightarrow> json \<Rightarrow> int \<Rightarrow> runtime \<Rightarrow> http \<times> runtime" where
  "create_job_handler sha256 cfg lim new_id body now rt =
     (case (case body of JObj kvs \<Rightarrow> canonicalize_create_request sha256 kvs
                | _ \<Rightarrow> Inl (PushJobError ''request body must be a JSON object'')) of
        Inl e \<Rightarrow> (http_error e, rt)
      | Inr req \<Rightarrow>
          (case find_idempotent_job (sc_db (rt_sched rt)) (client_request_id req) (fingerprint req) of
             Inl e \<Rightarrow> (http_error e, rt)
           | Inr (Some existing) \<Rightarrow> (H_snapshot 200 existing, rt)
           | Inr None \<Rightarrow>
               if cl_max_entries lim < declared_file_count (source req)
               then (http_error (PushJobError ''declared file count exceeds the server limit''), rt)
               else if cl_max_bytes lim < declared_total_bytes (source req)
               then (http_error (PushJobError ''declared total bytes exceed the server limit''), rt)
               else (case rmap (admit_target cfg rt) (target_devices req) of
                   Inl e \<Rightarrow> (http_error e, rt)
                 | Inr protocols \<Rightarrow>
                     (case on_sched (on_db (create_job req (map_of (zip (target_devices req) protocols))
                          (cl_timeout_ms lim) new_id now)) rt of
                        (Inl e, rt1) \<Rightarrow> (http_error e, rt1)
                      | (Inr (created, snap), rt1) \<Rightarrow>
                          (H_snapshot (if created then 201 else 200) snap,
                           if created then rt1\<lparr>rt_sched := publish_snapshot snap (rt_sched rt1)\<rparr> else rt1)))))"

text \<open>\<^verbatim>\<open>_record_upload_failure\<close>.\<close>

definition record_upload_failure ::
  "job_id \<Rightarrow> job_state \<Rightarrow> string \<Rightarrow> string \<Rightarrow> int \<Rightarrow> runtime \<Rightarrow> (mdm_error + unit) \<times> runtime" where
  "record_upload_failure j state code detail now rt =
     (case on_sched (\<lambda>st. publishing (fail_pre_dispatch j state code (take 2000 detail) now) st) rt of
        (Inl e, rt1) \<Rightarrow> (if is_conflict e \<or> is_missing e then Inr () else Inl e, rt1\<lparr>rt_sched := wake (rt_sched rt1)\<rparr>)
      | (Inr snap, rt1) \<Rightarrow> (Inr (), rt1\<lparr>rt_sched := wake (rt_sched rt1)\<rparr>))"

end
