(* ===== verification/Push_Properties.thy ===== *)
theory Push_Properties
  imports Push_Demo
begin

text \<open>
  What the database promises to its clients, over every run of its operations: exclusive and
  first-come dispatch, final results, versioned snapshots, derived job states, exact fences,
  idempotent requests and results, and recovery after a restart.
\<close>

section \<open>Facts on reachable databases\<close>

lemma reachable_keys: "db_reachable s \<Longrightarrow> keys_ok s"
  using reachable_inv by (simp add: db_inv_def)

lemma reachable_agg: "db_reachable s \<Longrightarrow> agg_ok (agg s k)"
  using reachable_inv by (simp add: db_inv_def)

lemma active_unique:
  assumes "active_index_ok rows" and "r1 \<in> set rows" "r2 \<in> set rows" "is_active r1" "is_active r2"
    and "d_device_id r1 = d_device_id r2"
  shows "r1 = r2"
proof -
  have "inj_on d_device_id (set (filter is_active rows))"
    using assms(1) by (simp add: active_index_ok_def distinct_map)
  with assms show ?thesis by (auto simp: inj_on_def)
qed

lemma device_state_frozen:
  assumes "agg_step A B" and "fst A \<noteq> None"
    and "r \<in> set (snd A)" and "d_state r \<in> TERMINAL_DEVICE_STATES"
  shows "\<exists>r' \<in> set (snd B). d_device_id r' = d_device_id r \<and> d_state r' = d_state r"
proof -
  have "list_all2 device_evolves (snd A) (snd B)"
    using assms(1,2) by (auto simp: agg_step_def split: option.splits)
  then obtain r' where "r' \<in> set (snd B)" "device_evolves r r'"
    using list_all2_member [OF _ assms(3)] by blast
  then show ?thesis
    using device_change_terminal [of "d_state r" "d_state r'"] assms(4)
    by (auto simp: device_evolves_def key_fields_def)
qed

lemma agg_step_job: "agg_step A B \<Longrightarrow> fst A = Some r \<Longrightarrow> \<exists>r'. fst B = Some r' \<and> job_evolves r r'"
  by (auto simp: agg_step_def split: option.splits)

section \<open>Exclusive dispatch\<close>

text \<open>
  (C1) At most one active assignment per device: in every reachable database two rows of the same
  device that are both in an active state are the same row.
\<close>

theorem one_active_assignment:
  assumes "db_reachable s" and "r1 \<in> set (db_devices s)" and "r2 \<in> set (db_devices s)"
    and "d_state r1 \<in> ACTIVE_DEVICE_STATES" and "d_state r2 \<in> ACTIVE_DEVICE_STATES"
    and "d_device_id r1 = d_device_id r2"
  shows "r1 = r2"
  using active_unique [of "db_devices s" r1 r2] reachable_keys [OF assms(1)] assms(2-6)
  by (auto simp: keys_ok_def is_active_def)

theorem one_active_assignment_witness:
  "\<exists>r1 r2. r1 \<in> set (db_devices demo_claimed) \<and> d_state r1 = D_WAITING_TRANSFER \<and>
     r2 \<in> set (db_devices demo_claimed) \<and> d_state r2 \<in> ACTIVE_DEVICE_STATES \<and> d_device_id r1 = ''a'' \<and> r1 = r2"
proof -
  have "list_ex (\<lambda>r. d_state r = D_WAITING_TRANSFER \<and> d_device_id r = ''a'') (db_devices demo_claimed)"
    by code_simp
  then obtain r where r: "r \<in> set (db_devices demo_claimed)" "d_state r = D_WAITING_TRANSFER" "d_device_id r = ''a''"
    by (auto simp: list_ex_iff)
  then have a: "d_state r \<in> ACTIVE_DEVICE_STATES" by (simp add: ACTIVE_DEVICE_STATES_def)
  from one_active_assignment [OF demo_claimed_reachable r(1) r(1) a a] r a show ?thesis by blast
qed

section \<open>Final results\<close>

text \<open>
  (C6) A terminal assignment is final: once a device's assignment has succeeded, failed, been
  interrupted or ended unconfirmed, no sequence of operations changes its state or removes it.
\<close>

theorem terminal_assignment_final:
  assumes "db_reachable s" and "store_step\<^sup>*\<^sup>* s s'" and "get_device s j d = Some r"
    and "d_state r \<in> TERMINAL_DEVICE_STATES"
  shows "\<exists>r'. get_device s' j d = Some r' \<and> d_state r' = d_state r"
proof -
  have inv: "db_inv s" by (rule reachable_inv [OF assms(1)])
  let ?P = "\<lambda>A. fst A \<noteq> None \<and> (\<exists>x \<in> set (snd A). d_device_id x = d \<and> d_state x = d_state r)"
  have "?P (agg s' j)"
  proof (rule aggregates.stable [where P = ?P, OF _ assms(2) inv])
    show "?P B" if "?P A" "agg_step A B" for A B
      using that assms(4) device_state_frozen [OF that(2)] agg_step_job [OF that(2)] by fastforce
    show "?P (agg s j)"
      using get_device_job [OF assms(3)] reachable_agg [OF assms(1), of j]
      by (auto simp: agg_ok_def split: option.splits)
  qed
  then obtain x where "x \<in> set (job_devices s' j)" "d_device_id x = d" "d_state x = d_state r" by auto
  moreover have "keys_ok s'" using store.steps_ok [OF assms(2) inv] by (simp add: db_inv_def)
  ultimately show ?thesis by (auto simp: get_device_iff job_devices_def)
qed

theorem terminal_assignment_final_witness:
  "\<exists>r'. get_device (snd (recover_startup_sync 1000 5000 300 demo_unconfirmed)) ''j1'' ''a'' = Some r' \<and>
     d_state r' = D_UNCONFIRMED"
proof -
  obtain r where r: "get_device demo_unconfirmed ''j1'' ''a'' = Some r" "d_state r = D_UNCONFIRMED"
    using demo_unconfirmed_row by auto
  have "store_step demo_unconfirmed (snd (recover_startup_sync 1000 5000 300 demo_unconfirmed))"
    by (rule S_recover [OF surjective_pairing])
  then have "store_step\<^sup>*\<^sup>* demo_unconfirmed (snd (recover_startup_sync 1000 5000 300 demo_unconfirmed))" ..
  from terminal_assignment_final [OF demo_unconfirmed_reachable this r(1)] r(2) show ?thesis
    by (simp add: TERMINAL_DEVICE_STATES_def)
qed

text \<open>
  (C8) A job's request never changes and a terminal job state is final, over every run; a job is
  never removed.
\<close>

theorem job_history:
  assumes "db_reachable s" and "store_step\<^sup>*\<^sup>* s s'" and "get_job s j = Some r"
  shows "\<exists>r'. get_job s' j = Some r' \<and> request_fields r' = request_fields r \<and> j_revision r \<le> j_revision r' \<and>
    (j_state r \<in> TERMINAL_JOB_STATES \<longrightarrow> j_state r' = j_state r)"
proof -
  let ?P = "\<lambda>A. \<exists>r'. fst A = Some r' \<and> request_fields r' = request_fields r \<and> j_revision r \<le> j_revision r' \<and>
    (j_state r \<in> TERMINAL_JOB_STATES \<longrightarrow> j_state r' = j_state r)"
  have "?P (agg s' j)"
  proof (rule aggregates.stable [where P = ?P, OF _ assms(2) reachable_inv [OF assms(1)]])
    show "?P B" if "?P A" "agg_step A B" for A B
      using that agg_step_job [OF that(2)] job_change_terminal
      by (fastforce simp: job_evolves_def)
    show "?P (agg s j)" using assms(3) by simp
  qed
  then show ?thesis by simp
qed

theorem job_history_witness:
  "\<exists>r'. get_job demo_unconfirmed ''j1'' = Some r' \<and> 3 \<le> j_revision r' \<and> j_dest_path r' = ''/sdcard/demo''"
proof -
  have "map_option (\<lambda>r. (j_revision r, j_dest_path r)) (get_job demo_ready ''j1'') = Some (4, ''/sdcard/demo'')"
    by code_simp
  then obtain r where r: "get_job demo_ready ''j1'' = Some r" "j_revision r = 4" "j_dest_path r = ''/sdcard/demo''"
    by auto
  from job_history [OF demo_ready_reachable demo_unconfirmed_steps r(1)] r(2,3) show ?thesis
    by (auto simp: request_fields_def)
qed

text \<open>
  (C32) Revisions version the content: one operation either leaves a job row and its device rows
  exactly as they were, or raises the job's revision.
\<close>

theorem revision_versions_content:
  assumes "db_reachable s" and "store_step s s'" and "get_job s j = Some r"
  shows "\<exists>r'. get_job s' j = Some r' \<and>
    (r' = r \<and> job_devices s' j = job_devices s j \<or> j_revision r < j_revision r')"
proof -
  have "agg_step (agg s j) (agg s' j)"
    using store_step_inv [OF assms(2) reachable_inv [OF assms(1)]] by (simp add: inv_step_def)
  with assms(3) show ?thesis by (auto simp: agg_step_def agg_def split: option.splits)
qed

theorem revision_versions_content_witness:
  "\<exists>r'. get_job (snd (claim_next [''b''] 9 demo_claimed)) ''j1'' = Some r' \<and> 6 < j_revision r'"
proof -
  have "map_option j_revision (get_job demo_claimed ''j1'') = Some 6" by code_simp
  then obtain r where r: "get_job demo_claimed ''j1'' = Some r" "j_revision r = 6" by auto
  have s: "store_step demo_claimed (snd (claim_next [''b''] 9 demo_claimed))"
    by (rule S_claim [OF surjective_pairing])
  have "map d_state (job_devices (snd (claim_next [''b''] 9 demo_claimed)) ''j1'') \<noteq> map d_state (job_devices demo_claimed ''j1'')"
    by code_simp
  with revision_versions_content [OF demo_claimed_reachable s r(1)] r(2) show ?thesis by auto
qed

section \<open>Job states and fences\<close>

text \<open>
  (C9) Job states agree with device states in every reachable database: a reconciling, succeeded or
  completed-with-errors job is in the state derived from its devices; a running job is too, unless
  all its devices are terminal; and a job in any other state has no active device.
\<close>

theorem job_state_agrees:
  assumes "db_reachable s" and "get_job s j = Some r"
  shows "(j_state r \<in> {J_RECONCILING, J_SUCCEEDED, J_COMPLETED_WITH_ERRORS} \<longrightarrow>
       derive_dispatched_job_state (map d_state (job_devices s j)) = Inr (j_state r)) \<and>
    (j_state r = J_RUNNING \<longrightarrow> derive_dispatched_job_state (map d_state (job_devices s j)) = Inr J_RUNNING \<or>
       (\<forall>x \<in> set (job_devices s j). d_state x \<in> TERMINAL_DEVICE_STATES)) \<and>
    (j_state r \<in> {J_CREATED, J_UPLOADING, J_PACKAGING, J_READY, J_FAILED, J_INTERRUPTED} \<longrightarrow>
       (\<forall>x \<in> set (job_devices s j). d_state x \<notin> ACTIVE_DEVICE_STATES))"
proof -
  let ?ds = "map d_state (job_devices s j)"
  have "job_consistent (j_state r) ?ds"
    by (rule inv_job_ok(2) [OF reachable_inv [OF assms(1)] assms(2)])
  then have c: "j_state r \<in> never_rederived \<Longrightarrow> set ?ds \<inter> ACTIVE_DEVICE_STATES = {}"
    "j_state r \<in> dispatched_exact \<Longrightarrow> derive_dispatched_job_state ?ds = Inr (j_state r)"
    "j_state r = J_RUNNING \<Longrightarrow> derive_dispatched_job_state ?ds = Inr J_RUNNING \<or> set ?ds \<subseteq> TERMINAL_DEVICE_STATES"
    unfolding job_consistent_def by blast+
  show ?thesis
  proof (intro conjI impI ballI)
    show "derive_dispatched_job_state ?ds = Inr (j_state r)"
      if "j_state r \<in> {J_RECONCILING, J_SUCCEEDED, J_COMPLETED_WITH_ERRORS}"
      using that c(2) unfolding dispatched_exact_def by blast
    show "derive_dispatched_job_state ?ds = Inr J_RUNNING \<or> (\<forall>x \<in> set (job_devices s j). d_state x \<in> TERMINAL_DEVICE_STATES)"
      if "j_state r = J_RUNNING"
      using c(3) [OF that] by (simp add: image_subset_iff)
    show "d_state x \<notin> ACTIVE_DEVICE_STATES"
      if "j_state r \<in> {J_CREATED, J_UPLOADING, J_PACKAGING, J_READY, J_FAILED, J_INTERRUPTED}" "x \<in> set (job_devices s j)" for x
      using that c(1) unfolding never_rederived_def by (simp add: disjoint_iff) blast
  qed
qed

theorem job_state_agrees_witness:
  "\<exists>r. get_job demo_claimed ''j1'' = Some r \<and> j_state r = J_RUNNING \<and>
     derive_dispatched_job_state (map d_state (job_devices demo_claimed ''j1'')) = Inr J_RUNNING"
proof -
  have "map_option j_state (get_job demo_claimed ''j1'') = Some J_RUNNING" by code_simp
  then obtain r where r: "get_job demo_claimed ''j1'' = Some r" "j_state r = J_RUNNING" by auto
  have "list_ex (\<lambda>x. d_state x \<notin> TERMINAL_DEVICE_STATES) (job_devices demo_claimed ''j1'')" by code_simp
  with job_state_agrees [OF demo_claimed_reachable r(1)] r show ?thesis by (auto simp: list_ex_iff)
qed

text \<open>
  (C31) Fences are exact: every fence of a reachable database names either an opaque execution or a
  job of the server with attempt 1, never both, and in the second case that job's assignment to the
  fenced device ended unconfirmed; a device has at most one fence.
\<close>

theorem fences_exact:
  assumes "db_reachable s" and "get_fence s d = Some f"
  shows "(f_blocking_job_id f = None \<longleftrightarrow> f_blocking_opaque_identity f \<noteq> None) \<and>
    (\<forall>j. f_blocking_job_id f = Some j \<longrightarrow> f_blocking_attempt f = Some 1 \<and>
       (\<exists>r. get_device s j d = Some r \<and> d_state r = D_UNCONFIRMED)) \<and>
    (\<forall>f' \<in> set (db_fences s). f_device_id f' = d \<longrightarrow> f' = f)"
proof -
  have f: "f \<in> set (db_fences s)" "f_device_id f = d"
    using assms(2) by (auto simp: get_fence_def dest: lookup_row_SomeD)
  have "fence_ok s f" using reachable_inv [OF assms(1)] f by (simp add: db_inv_def)
  moreover have "f' = f" if "f' \<in> set (db_fences s)" "f_device_id f' = d" for f'
    using that f reachable_keys [OF assms(1)] by (auto simp: keys_ok_def distinct_map inj_on_def)
  ultimately show ?thesis
    using f(2) reachable_keys [OF assms(1)]
    by (auto simp: fence_ok_def get_device_iff job_devices_def split: option.splits)
qed

theorem fences_exact_witness:
  "\<exists>f r. get_fence demo_unconfirmed ''a'' = Some f \<and> f_blocking_job_id f = Some ''j1'' \<and>
     get_device demo_unconfirmed ''j1'' ''a'' = Some r \<and> d_state r = D_UNCONFIRMED"
proof -
  have "map_option f_blocking_job_id (get_fence demo_unconfirmed ''a'') = Some (Some ''j1'')" by code_simp
  then obtain f where f: "get_fence demo_unconfirmed ''a'' = Some f" "f_blocking_job_id f = Some ''j1''" by auto
  from fences_exact [OF demo_unconfirmed_reachable f(1)] f show ?thesis by blast
qed

section \<open>Queue order\<close>

lemma claim_next_taken:
  assumes "claim_next online now s = (Inr (Some (a, snap)), s')"
  shows "\<exists>r s1. claim_row s online = Some r \<and>
    update_devices_where (\<lambda>x. d_key x = (d_job_id r, d_device_id r) \<and> d_state x = D_QUEUED) (claim_update now) s = Inr s1 \<and>
    finish_device_change (d_job_id r) now s1 = Inr (snap, s') \<and>
    get_device s' (d_job_id r) (d_device_id r) = Some a"
  using assms
  by (auto simp: claim_next_def Let_def rbind_eq_Inr split: option.splits if_splits sum.splits mdm_error.splits prod.splits)

lemma devices_rederive: "rederive_job j t s = Inr s' \<Longrightarrow> db_devices s' = db_devices s"
  by (auto simp: rederive_job_def rbind_eq_Inr update_job_def split: option.splits if_splits)

lemma devices_finish: "finish_device_change j t s = Inr (snap, s') \<Longrightarrow> db_devices s' = db_devices s"
  using devices_rederive [OF finish_rederive] by (simp add: increment_revision_def update_job_def)

lemma min_queued_least:
  assumes "min_queued_seq s d = Some n" and "r \<in> set (db_devices s)" "d_device_id r = d" "d_state r = D_QUEUED"
    and "get_job s (d_job_id r) = Some job" "j_state job \<in> NON_TERMINAL_JOB_VALUES"
  shows "n \<le> d_enqueue_seq r"
proof -
  define rows where "rows = map d_enqueue_seq (filter (\<lambda>r. d_state r = D_QUEUED \<and>
       (case get_job s (d_job_id r) of None \<Rightarrow> False | Some job \<Rightarrow> j_state job \<in> NON_TERMINAL_JOB_VALUES))
       (device_rows_of s d))"
  have "first_row (sort rows) = Some n" using assms(1) by (simp add: min_queued_seq_def rows_def)
  then obtain ns where "sort rows = n # ns" by (cases "sort rows") auto
  then have "\<forall>m \<in> set rows. n \<le> m"
    by (metis set_ConsD set_sort sorted_sort sorted_simps(2) order_refl)
  moreover have "d_enqueue_seq r \<in> set rows"
    using assms(2-6) by (auto simp: rows_def device_rows_of_def)
  ultimately show ?thesis by blast
qed

text \<open>
  (C3) First come, first served: a successful claim takes a queued row of an online, unfenced device
  with no active assignment, whose job is dispatched; no older queued row of a non-terminal job
  for that device exists, and no other claimable row is older; the row is now waiting for transfer.
\<close>

theorem claim_next_fifo:
  assumes "db_reachable s" and "claim_next online now s = (Inr (Some (a, snap)), s')"
  shows "\<exists>r. get_device s (d_job_id a) (d_device_id a) = Some r \<and> d_state r = D_QUEUED \<and>
      a = r\<lparr>d_state := D_WAITING_TRANSFER, d_queue_reason := None, d_updated_at := now\<rparr> \<and>
      get_device s' (d_job_id a) (d_device_id a) = Some a \<and>
      d_device_id r \<in> set online \<and> get_fence s (d_device_id r) = None \<and>
      (\<exists>job. get_job s (d_job_id r) = Some job \<and> j_dispatch_enabled job \<and> j_state job \<in> {J_RUNNING, J_RECONCILING}) \<and>
      (\<forall>x \<in> set (db_devices s). d_device_id x = d_device_id r \<longrightarrow> d_state x \<notin> ACTIVE_DEVICE_STATES) \<and>
      (\<forall>x \<in> set (db_devices s). d_device_id x = d_device_id r \<longrightarrow> d_state x = D_QUEUED \<longrightarrow>
         (\<exists>job. get_job s (d_job_id x) = Some job \<and> j_state job \<in> NON_TERMINAL_JOB_VALUES) \<longrightarrow>
         d_enqueue_seq r \<le> d_enqueue_seq x) \<and>
      (\<forall>x \<in> set (db_devices s). claimable s online x \<longrightarrow> d_enqueue_seq r \<le> d_enqueue_seq x)"
proof -
  have keys: "keys_ok s" by (rule reachable_keys [OF assms(1)])
  obtain r s1 where r: "claim_row s online = Some r"
    and s1: "update_devices_where (\<lambda>x. d_key x = (d_job_id r, d_device_id r) \<and> d_state x = D_QUEUED) (claim_update now) s = Inr s1"
    and fin: "finish_device_change (d_job_id r) now s1 = Inr (snap, s')"
    and a: "get_device s' (d_job_id r) (d_device_id r) = Some a"
    using claim_next_taken [OF assms(2)] by blast
  note c = claim_rowD [OF r]
  have g: "get_device s (d_job_id r) (d_device_id r) = Some r" using c(1) keys by (simp add: get_device_iff)
  have q: "d_state r = D_QUEUED" using c(2) by (simp add: claimable_def)
  have dv: "db_devices s' = db_devices s1" by (rule devices_finish [OF fin])
  have "get_device s1 (d_job_id r) (d_device_id r) = Some (claim_update now r)"
    using s1 g q
    by (auto simp: update_devices_where_def Let_def get_device_def lookup_update_rows [of d_key] claim_update_def
        split: if_splits dest: lookup_row_SomeD)
  with a dv have ar: "a = claim_update now r" by (simp add: get_device_def)
  have "x \<in> set (db_devices s) \<Longrightarrow> d_device_id x = d_device_id r \<Longrightarrow> d_state x \<notin> ACTIVE_DEVICE_STATES" for x
    using c(2) by (auto simp: claimable_def device_rows_of_def list_ex_iff is_active_def)
  moreover have "min_queued_seq s (d_device_id r) = Some (d_enqueue_seq r)" using c(2) by (simp add: claimable_def)
  moreover have "\<exists>job. get_job s (d_job_id r) = Some job \<and> j_dispatch_enabled job \<and> j_state job \<in> {J_RUNNING, J_RECONCILING}"
    "d_device_id r \<in> set online" "get_fence s (d_device_id r) = None"
    using c(2) by (auto simp: claimable_def split: option.splits)
  ultimately show ?thesis
    using g q a c(3) min_queued_least by (intro exI [of _ r]) (auto simp: ar claim_update_def)
qed

theorem claim_next_fifo_witness:
  "\<exists>a snap s' r. claim_next [''b'', ''a''] 6 demo_running = (Inr (Some (a, snap)), s') \<and>
     get_device demo_running (d_job_id a) (d_device_id a) = Some r \<and> d_device_id a = ''a'' \<and> d_state r = D_QUEUED"
proof -
  have "(case claim_next [''b'', ''a''] 6 demo_running of (Inr (Some (a, snap)), s') \<Rightarrow> d_device_id a = ''a'' | _ \<Rightarrow> False)"
    by code_simp
  then obtain a snap s' where c: "claim_next [''b'', ''a''] 6 demo_running = (Inr (Some (a, snap)), s')" "d_device_id a = ''a''"
    by (auto split: prod.splits sum.splits option.splits)
  from claim_next_fifo [OF demo_running_reachable c(1)] c show ?thesis by blast
qed

lemma active_index_extend:
  assumes "active_index_ok rows" and "length (filter p rows) \<le> 1" and "\<And>x. d_device_id (f x) = d_device_id x"
    and "\<And>x y. x \<in> set rows \<Longrightarrow> y \<in> set rows \<Longrightarrow> p x \<Longrightarrow> is_active y \<Longrightarrow> d_device_id x \<noteq> d_device_id y"
  shows "active_index_ok (update_rows p f rows)"
  using assms(1,2,4)
proof (induction rows)
  case (Cons x rows)
  have IH: "active_index_ok (update_rows p f rows)"
    using Cons by (intro Cons.IH) (auto simp: active_index_ok_def split: if_splits)
  show ?case
  proof (cases "p x")
    case True
    then have "update_rows p f rows = rows"
      using Cons.prems(2) by (intro update_rows_same) (auto simp: filter_empty_conv)
    moreover have "d_device_id x \<notin> d_device_id ` {y \<in> set rows. is_active y}"
      using Cons.prems(3) True by fastforce
    ultimately show ?thesis
      using True Cons.prems(1) assms(3) by (auto simp: update_rows_def active_index_ok_def split: if_splits)
  next
    case False
    have "d_device_id x \<notin> d_device_id ` {y \<in> set (update_rows p f rows). is_active y}" if "is_active x"
    proof
      assume "d_device_id x \<in> d_device_id ` {y \<in> set (update_rows p f rows). is_active y}"
      then obtain y where "y \<in> set rows" "p y \<or> is_active y" "d_device_id x = d_device_id y"
        using assms(3) by (auto simp: set_update_rows split: if_splits)
      with that Cons.prems(1,3) show False by (auto simp: active_index_ok_def) (metis (no_types))
    qed
    with False IH show ?thesis by (auto simp: update_rows_def active_index_ok_def)
  qed
qed (simp add: update_rows_def active_index_ok_def)

lemma unique_key_filter:
  assumes "distinct (map d_key rows)" and "r \<in> set rows" and "P r"
  shows "filter (\<lambda>x. d_key x = d_key r \<and> P x) rows = [r]"
  using assms
proof (induction rows)
  case (Cons x rows)
  show ?case
  proof (cases "x = r")
    case True
    have "d_key r \<notin> d_key ` set rows" using True Cons.prems(1) by simp
    then have "d_key y \<noteq> d_key r" if "y \<in> set rows" for y
      using imageI [OF that, of d_key] by metis
    then have "filter (\<lambda>y. d_key y = d_key r \<and> P y) rows = []" by (auto simp: filter_empty_conv)
    with True Cons.prems show ?thesis by simp
  next
    case False
    with Cons.prems have "d_key x \<noteq> d_key r" by auto
    with False Cons show ?thesis by auto
  qed
qed simp

lemma snapshot_total: "get_job s j = Some r \<Longrightarrow> \<exists>snap. snapshot_of s j = Inr snap"
  by (simp add: snapshot_of_def Let_def)

lemma rederive_total:
  assumes "get_job s j = Some r" and "job_devices s j \<noteq> []"
  shows "\<exists>s'. rederive_job j t s = Inr s' \<and> get_job s' j \<noteq> None"
proof -
  obtain x where "derive_dispatched_job_state (map d_state (job_devices s j)) = Inr x"
    using derive_total [of "map d_state (job_devices s j)"] assms(2) by auto
  then obtain s' where s': "rederive_job j t s = Inr s'" using assms(1) by (fastforce simp: rederive_job_def)
  with agg_rederive_job [OF s', of j] assms(1) show ?thesis by (auto simp: agg_def)
qed

lemma finish_total:
  assumes "get_job s j = Some r" and "job_devices s j \<noteq> []"
  shows "\<exists>snap s'. finish_device_change j t s = Inr (snap, s')"
proof -
  have "job_devices (increment_revision j t s) j = job_devices s j"
    by (simp add: job_devices_def increment_revision_def update_job_def)
  then obtain s' where "rederive_job j t (increment_revision j t s) = Inr s'" "get_job s' j \<noteq> None"
    using rederive_total [of "increment_revision j t s" j "bump t r" t] assms by (auto simp: get_job_increment)
  then show ?thesis using snapshot_total [of s' j] by (auto simp: finish_device_change_def)
qed

text \<open>
  A claim never misses work: in a reachable database, when some row is claimable for the online
  devices, \<^verbatim>\<open>claim_next\<close> returns a claim; it neither raises nor loses it to the active index.
\<close>

theorem claim_next_progress:
  assumes "db_reachable s" and "r \<in> set (db_devices s)" and "claimable s online r"
  shows "\<exists>a snap s'. claim_next online now s = (Inr (Some (a, snap)), s')"
proof -
  have keys: "keys_ok s" by (rule reachable_keys [OF assms(1)])
  obtain row where row: "claim_row s online = Some row"
    using assms(2,3) by (cases "claim_row s online") (auto simp: claim_row_def filter_empty_conv)
  note c = claim_rowD [OF row]
  let ?j = "d_job_id row" and ?d = "d_device_id row"
  let ?p = "\<lambda>x. d_key x = (?j, ?d) \<and> d_state x = D_QUEUED"
  have q: "d_state row = D_QUEUED" using c(2) by (simp add: claimable_def)
  have one: "filter ?p (db_devices s) = [row]"
    using unique_key_filter [of "db_devices s" row "\<lambda>x. d_state x = D_QUEUED"] keys c(1) q by (simp add: keys_ok_def)
  have "active_index_ok (update_rows ?p (claim_update now) (db_devices s))"
  proof (rule active_index_extend)
    show "d_device_id x \<noteq> d_device_id y" if "x \<in> set (db_devices s)" "y \<in> set (db_devices s)" "?p x" "is_active y" for x y
      using that c(2) by (auto simp: claimable_def device_rows_of_def list_ex_iff)
  qed (use keys one in \<open>auto simp: keys_ok_def claim_update_def\<close>)
  then obtain s1 where s1: "update_devices_where ?p (claim_update now) s = Inr s1"
    by (simp add: update_devices_where_def)
  obtain job where job: "get_job s ?j = Some job" using c(2) by (auto simp: claimable_def split: option.splits)
  have a1: "agg s1 ?j = (get_job s ?j, update_rows ?p (claim_update now) (job_devices s ?j))"
    by (rule agg_update_devices_where [OF s1]) (simp add: claim_update_def)
  have "row \<in> set (job_devices s ?j)" using c(1) by (simp add: job_devices_def)
  then have "job_devices s1 ?j \<noteq> []" using a1 by (auto simp: agg_def update_rows_def)
  then obtain snap s2 where fin: "finish_device_change ?j now s1 = Inr (snap, s2)"
    using finish_total [of s1 ?j job now] a1 job by (auto simp: agg_def)
  have "get_device s ?j ?d = Some row" using c(1) keys by (simp add: get_device_iff)
  then have "get_device s2 ?j ?d \<noteq> None"
    using devices_finish [OF fin] s1
    by (auto simp: get_device_def lookup_update_rows [of d_key] update_devices_where_def Let_def claim_update_def
        split: if_splits)
  then obtain a where "get_device s2 ?j ?d = Some a" by auto
  moreover have "online \<noteq> []" using c(2) by (auto simp: claimable_def)
  ultimately have "claim_next online now s = (Inr (Some (a, snap)), s2)"
    using row one s1 fin by (simp add: claim_next_def Let_def)
  then show ?thesis by blast
qed

theorem claim_next_progress_witness:
  "\<exists>r \<in> set (db_devices demo_running). claimable demo_running [''a''] r \<and>
     (\<exists>a snap s'. claim_next [''a''] 6 demo_running = (Inr (Some (a, snap)), s'))"
proof -
  have "list_ex (claimable demo_running [''a'']) (db_devices demo_running)" by code_simp
  then obtain r where r: "r \<in> set (db_devices demo_running)" "claimable demo_running [''a''] r"
    by (auto simp: list_ex_iff)
  from claim_next_progress [OF demo_running_reachable r] r show ?thesis by blast
qed

end
