(* ===== verification/Push_Results.thy ===== *)
theory Push_Results
  imports Push_Properties
begin

text \<open>
  Requests and results that arrive more than once: creation by client request id, settlement of a
  terminal result, and the one replay of a command whose acceptance was lost.
\<close>

section \<open>Settlement\<close>

lemma same_result_unique:
  assumes "same_terminal_result row t"
  shows "same_terminal_result row t' \<longleftrightarrow> t' = t"
  using assms
  by (cases t; cases t') (auto simp: same_terminal_result_def result_target_def split: if_splits)

lemma write_result_same: "same_terminal_result (write_result t now row) t"
  by (simp add: same_terminal_result_def write_result_def)

lemma write_result_fields:
  "d_key (write_result t now r) = d_key r" "d_attempt (write_result t now r) = d_attempt r"
  "d_state (write_result t now r) \<in> TERMINAL_DEVICE_STATES"
  by (simp_all add: write_result_def result_target_def TERMINAL_DEVICE_STATES_def)

text \<open>The row, and the job, after an accepted settlement.\<close>

lemma settle_accepted:
  assumes "settle_result j d attempt t now s = (Inr (True, reason, snap), s')"
  shows "\<exists>row. get_device s' j d = Some row \<and> same_terminal_result row t \<and> d_attempt row = 1 \<and>
    d_state row \<in> TERMINAL_DEVICE_STATES \<and> snapshot_of s' j = Inr snap \<and> attempt = 1"
proof -
  have a: "attempt = 1" using assms by (auto simp: settle_result_def split: if_splits)
  consider (again) row where "get_device s j d = Some row" "d_attempt row = 1" "d_state row \<in> TERMINAL_DEVICE_STATES"
      "same_terminal_result row t" "s' = s" "snapshot_of s j = Inr snap"
    | (first) row s1 where "get_device s j d = Some row" "d_attempt row = 1"
      "update_device j d (write_result t now) s = Inr s1"
      "finish_device_change j now (delete_matching_fence d j attempt s1) = Inr (snap, s')"
    using assms a
    by (auto simp: settle_result_def transact_def rbind_eq_Inr rbind_eq_Inl
        split: option.splits if_splits sum.splits prod.splits)
  then show ?thesis
  proof cases
    case first
    have "db_devices s' = update_rows (\<lambda>r. d_key r = (j, d)) (write_result t now) (db_devices s)"
      using devices_finish [OF first(4)] first(3)
      by (auto simp: delete_matching_fence_def update_device_def update_devices_where_def Let_def split: if_splits)
    moreover have "d_key row = (j, d)" using first(1) by (auto simp: get_device_def dest: lookup_row_SomeD)
    ultimately have "get_device s' j d = Some (write_result t now row)"
      using first(1) write_result_fields(1)
      by (simp add: get_device_def lookup_update_rows [of d_key "write_result t now"])
    moreover have "snapshot_of s' j = Inr snap"
      using first(4) by (auto simp: finish_device_change_def rbind_eq_Inr)
    ultimately show ?thesis using first(2) a write_result_same write_result_fields by auto
  qed (use a in auto)
qed

text \<open>
  (C26) Settlement is idempotent and final: once a result was accepted, the same result is accepted
  again with the same snapshot, any different result is refused as conflicting, and neither changes
  the database.
\<close>

theorem settle_result_replay:
  assumes "settle_result j d attempt t now s = (Inr (True, reason, snap), s')"
  shows "settle_result j d attempt t' now' s' =
    (Inr (t' = t, if t' = t then None else Some ''conflicting_terminal_result'', snap), s')"
proof -
  obtain row where r: "get_device s' j d = Some row" "same_terminal_result row t" "d_attempt row = 1"
    "d_state row \<in> TERMINAL_DEVICE_STATES" "snapshot_of s' j = Inr snap" "attempt = 1"
    using settle_accepted [OF assms] by blast
  show ?thesis
    using r same_result_unique [OF r(2), of t'] by (simp add: settle_result_def transact_def)
qed

definition demo_result :: terminal_result where
  "demo_result = \<lparr>t_success = True, t_added = 3, t_updated = 1, t_deleted = 0, t_failure_code = None,
     t_failure_detail = None\<rparr>"

theorem settle_result_replay_witness:
  "\<exists>snap s'. settle_result ''j1'' ''a'' 1 demo_result 50 demo_dispatched = (Inr (True, None, snap), s') \<and>
     settle_result ''j1'' ''a'' 1 demo_result 60 s' = (Inr (True, None, snap), s') \<and>
     settle_result ''j1'' ''a'' 1 (demo_result\<lparr>t_success := False\<rparr>) 60 s' =
       (Inr (False, Some ''conflicting_terminal_result'', snap), s')"
proof -
  have "(case settle_result ''j1'' ''a'' 1 demo_result 50 demo_dispatched of
      (Inr (ok, reason, snap), s') \<Rightarrow> ok \<and> reason = None | _ \<Rightarrow> False)"
    by code_simp
  then obtain snap s' where s: "settle_result ''j1'' ''a'' 1 demo_result 50 demo_dispatched = (Inr (True, None, snap), s')"
    by (auto split: prod.splits sum.splits)
  have "demo_result\<lparr>t_success := False\<rparr> \<noteq> demo_result" by code_simp
  with settle_result_replay [OF s, of demo_result 60] settle_result_replay [OF s, of "demo_result\<lparr>t_success := False\<rparr>" 60] s
  show ?thesis by auto
qed

section \<open>Creation\<close>

lemma job_row_persists:
  assumes "db_reachable s" and "store_step\<^sup>*\<^sup>* s s'" and "get_job s j = Some r"
  shows "\<exists>r'. get_job s' j = Some r' \<and> request_fields r' = request_fields r"
proof -
  let ?P = "\<lambda>A. \<exists>r'. fst A = Some r' \<and> request_fields r' = request_fields r"
  have "?P (agg s' j)"
  proof (rule aggregates.stable [where P = ?P, OF _ assms(2) reachable_inv [OF assms(1)]])
    show "?P B" if "?P A" "agg_step A B" for A B
      using that agg_step_job [OF that(2)] by (fastforce simp: job_evolves_def)
  qed (use assms(3) in simp)
  then show ?thesis by simp
qed

lemma snapshot_job_id: "snapshot_of s j = Inr snap \<Longrightarrow> s_job_id snap = j"
  by (auto simp: snapshot_of_def Let_def dest: get_job_in split: option.splits)

lemma get_job_iff: "keys_ok s \<Longrightarrow> get_job s j = Some r \<longleftrightarrow> r \<in> set (db_jobs s) \<and> j_job_id r = j"
  unfolding get_job_def keys_ok_def by (subst lookup_row_Some_iff) auto

lemma insert_targets_jobs: "insert_targets j protocols now seq ordinal ds s = Inr s' \<Longrightarrow> db_jobs s' = db_jobs s"
  by (induction ds arbitrary: seq ordinal s)
    (fastforce simp: rbind_eq_Inr insert_device_def split: option.splits if_splits)+

lemma create_job_row:
  assumes "db_reachable s" and "target_devices req \<noteq> []"
    and "create_job req protocols timeout new_id now s = (Inr (b, snap), s')"
  shows "\<exists>r. get_job s' (s_job_id snap) = Some r \<and> j_client_request_id r = client_request_id req \<and>
    j_request_fingerprint r = fingerprint req"
proof (cases b)
  case False
  then obtain r where "lookup_row j_client_request_id (client_request_id req) (db_jobs s) = Some r"
    "j_request_fingerprint r = fingerprint req" "snapshot_of s (j_job_id r) = Inr snap" "s' = s"
    using assms(3) unfolding create_job_def transact_def next_enqueue_seq_def
    by (auto simp: rbind_eq_Inr rbind_eq_Inl Let_def split: option.splits if_splits sum.splits prod.splits)
  moreover have "get_job s (j_job_id r) = Some r"
    using get_job_iff [OF reachable_keys [OF assms(1)]] calculation(1) by (auto dest: lookup_row_SomeD)
  ultimately show ?thesis using snapshot_job_id by (auto dest!: lookup_row_SomeD)
next
  case True
  let ?r = "new_job_row req new_id now (now + timeout)"
  obtain s1 where 1: "insert_job ?r s = Inr s1" and
    2: "insert_targets new_id protocols now (case db_next_enqueue_seq s1 of None \<Rightarrow> 1 | Some v \<Rightarrow> v) 0 (target_devices req)
      (s1\<lparr>db_next_enqueue_seq := Some ((case db_next_enqueue_seq s1 of None \<Rightarrow> 1 | Some v \<Rightarrow> v) +
          int (length (target_devices req)))\<rparr>) = Inr s'" and sn: "snapshot_of s' new_id = Inr snap"
    using assms(3) True unfolding create_job_def transact_def next_enqueue_seq_def
    by (auto simp: rbind_eq_Inr rbind_eq_Inl Let_def split: option.splits if_splits sum.splits prod.splits)
  have "db_jobs s' = db_jobs s @ [?r]"
    using 1 insert_targets_jobs [OF 2] by (auto simp: insert_job_def split: if_splits)
  moreover have "keys_ok s'"
    using create_job_step [OF assms(3) reachable_inv [OF assms(1)] assms(2)] by (simp add: inv_step_def db_inv_def)
  ultimately have "get_job s' new_id = Some ?r" by (simp add: get_job_iff new_job_row_def)
  then show ?thesis using snapshot_job_id [OF sn] by (simp add: new_job_row_def)
qed

text \<open>
  (C27) Creation is idempotent by client request id, at any later time: after a create request was
  answered, the same request is answered with the same job and creates nothing, and a different
  request with that id is refused as a conflict; the database does not change.
\<close>

theorem create_job_idempotent:
  assumes "db_reachable s" and "target_devices req \<noteq> []"
    and "create_job req protocols timeout new_id now s = (Inr (b, snap), s1)"
    and "store_step\<^sup>*\<^sup>* s1 s2" and "client_request_id req' = client_request_id req"
  shows "if fingerprint req' = fingerprint req
    then \<exists>snap'. create_job req' protocols' timeout' new_id' now' s2 = (Inr (False, snap'), s2) \<and> s_job_id snap' = s_job_id snap
    else \<exists>e. create_job req' protocols' timeout' new_id' now' s2 = (Inl (StoreConflict e), s2)"
proof -
  have r1: "db_reachable s1"
    using reachable_step [OF assms(1) S_create [OF assms(3,2)]] .
  obtain r where r: "get_job s1 (s_job_id snap) = Some r" "j_client_request_id r = client_request_id req"
    "j_request_fingerprint r = fingerprint req"
    using create_job_row [OF assms(1-3)] by blast
  obtain r' where r': "get_job s2 (s_job_id snap) = Some r'" "request_fields r' = request_fields r"
    using job_row_persists [OF r1 assms(4) r(1)] by blast
  have k: "keys_ok s2" using reachable_keys [OF reachable_run [OF r1 assms(4)]] .
  have "lookup_row j_client_request_id (client_request_id req') (db_jobs s2) = Some r'"
    using k r' r(2) assms(5) get_job_in [OF r'(1)]
    by (subst lookup_row_Some_iff) (auto simp: keys_ok_def request_fields_def)
  moreover have "j_request_fingerprint r' = fingerprint req" "j_job_id r' = s_job_id snap"
    using r' r(3) get_job_in [OF r'(1)] by (auto simp: request_fields_def)
  moreover obtain snap' where "snapshot_of s2 (s_job_id snap) = Inr snap'" "s_job_id snap' = s_job_id snap"
    using snapshot_total [OF r'(1)] snapshot_job_id by blast
  ultimately show ?thesis
    by (auto simp: create_job_def transact_def)
qed

theorem create_job_idempotent_witness:
  "\<exists>snap'. create_job (demo_request ''r1'' [''a'', ''b'']) demo_protocols 1000 ''j2'' 90 demo_unconfirmed =
     (Inr (False, snap'), demo_unconfirmed) \<and> s_job_id snap' = ''j1''"
proof -
  have "(case create_job (demo_request ''r1'' [''a'', ''b'']) demo_protocols 1000 ''j1'' 1 start_db of
      (Inr (b, snap), s') \<Rightarrow> s_job_id snap = ''j1'' | _ \<Rightarrow> False)" by code_simp
  then obtain b snap where c: "create_job (demo_request ''r1'' [''a'', ''b'']) demo_protocols 1000 ''j1'' 1 start_db =
      (Inr (b, snap), demo_created)" "s_job_id snap = ''j1''"
    by (auto simp: demo_created_def split: prod.splits sum.splits)
  have "store_step\<^sup>*\<^sup>* demo_created demo_unconfirmed"
    using demo_ready_steps demo_unconfirmed_steps by simp
  from create_job_idempotent [OF reachable_start _ c(1) this refl] c(2) show ?thesis
    by (simp add: demo_request_def)
qed

section \<open>Replay of a lost command\<close>

lemma report_requeued_row:
  assumes "reconcile_report j d attempt status phase info now s = (Inr (''requeued'', snaps), s')"
  shows "(\<exists>row. get_device s j d = Some row \<and> d_accept_replay_count row < 1) \<and>
    (\<exists>row'. get_device s' j d = Some row' \<and> d_state row' = D_QUEUED \<and>
      (\<exists>row. get_device s j d = Some row \<and> d_accept_replay_count row' = d_accept_replay_count row + 1))"
proof -
  obtain row job s1 snap where a: "get_device s j d = Some row" and c: "d_accept_replay_count row < 1"
    and u: "update_device j d (report_requeued now) s = Inr s1" and f: "finish_device_change j now s1 = Inr (snap, s')"
    using assms
    by (auto simp: reconcile_report_def transact_def rbind_eq_Inr rbind_eq_Inl assignment_def report_update_def replayable_def
        split: option.splits if_splits sum.splits prod.splits)
  have "db_devices s' = update_rows (\<lambda>r. d_key r = (j, d)) (report_requeued now) (db_devices s)"
    using devices_finish [OF f] u by (auto simp: update_device_def update_devices_where_def Let_def split: if_splits)
  moreover have "d_key row = (j, d)" using a by (auto simp: get_device_def dest: lookup_row_SomeD)
  ultimately have "get_device s' j d = Some (report_requeued now row)"
    using a by (simp add: get_device_def lookup_update_rows [of d_key "report_requeued now"] report_requeued_def)
  with a c show ?thesis by (simp add: report_requeued_def)
qed

text \<open>
  (C5) A command is replayed at most once: after a reconciliation report requeued an assignment,
  no later report on the same assignment requeues it again, whatever happens in between.
\<close>

theorem accept_replay_once:
  assumes "db_reachable s"
    and "reconcile_report j d attempt status phase info now s = (Inr (''requeued'', snaps), s1)"
    and "store_step\<^sup>*\<^sup>* s1 s2"
    and "reconcile_report j d attempt' status' phase' info' now' s2 = (Inr (outcome, snaps'), s3)"
  shows "outcome \<noteq> ''requeued''"
proof
  assume o: "outcome = ''requeued''"
  have inv: "db_inv s" by (rule reachable_inv [OF assms(1)])
  have r1: "db_reachable s1" by (rule reachable_step [OF assms(1) S_report [OF assms(2)]])
  have inv1: "db_inv s1" by (rule reachable_inv [OF r1])
  obtain row where row: "get_device s1 j d = Some row" "1 \<le> d_accept_replay_count row"
    using report_requeued_row [OF assms(2)] inv_device_ok [OF inv] by (fastforce simp: device_ok_def)
  let ?P = "\<lambda>A. fst A \<noteq> None \<and> (\<exists>x \<in> set (snd A). d_device_id x = d \<and> 1 \<le> d_accept_replay_count x)"
  have "?P (agg s2 j)"
  proof (rule aggregates.stable [where P = ?P, OF _ assms(3) inv1])
    show "?P B" if P: "?P A" and st: "agg_step A B" for A B
    proof -
      obtain r r' where "fst A = Some r" "fst B = Some r'" "list_all2 device_evolves (snd A) (snd B)"
        using P st by (auto simp: agg_step_def split: option.splits)
      with P show ?thesis
        using list_all2_member by (fastforce simp: device_evolves_def key_fields_def)
    qed
    show "?P (agg s1 j)"
      using get_device_job [OF row(1)] row(2) reachable_agg [OF r1, of j]
      by (auto simp: agg_ok_def split: option.splits)
  qed
  then obtain x where x: "x \<in> set (job_devices s2 j)" "d_device_id x = d" "1 \<le> d_accept_replay_count x" by auto
  have "keys_ok s2" by (rule reachable_keys [OF reachable_run [OF r1 assms(3)]])
  with x have "get_device s2 j d = Some x" by (auto simp: get_device_iff job_devices_def)
  with report_requeued_row [OF assms(4) [unfolded o]] x(3) show False by auto
qed

theorem accept_replay_once_witness:
  "\<exists>snaps s1 outcome snaps' s3.
     reconcile_report ''j1'' ''a'' 1 ''absent'' None None 20 demo_reconciling = (Inr (''requeued'', snaps), s1) \<and>
     reconcile_report ''j1'' ''a'' 1 ''absent'' None None 40 (demo_lost_again s1) = (Inr (outcome, snaps'), s3) \<and>
     outcome = ''interrupted''"
proof -
  let ?s1 = "snd (reconcile_report ''j1'' ''a'' 1 ''absent'' None None 20 demo_reconciling)"
  have "(case reconcile_report ''j1'' ''a'' 1 ''absent'' None None 20 demo_reconciling of
      (Inr (q, snaps), s') \<Rightarrow> q = ''requeued'' | _ \<Rightarrow> False)" by code_simp
  then obtain snaps where 1: "reconcile_report ''j1'' ''a'' 1 ''absent'' None None 20 demo_reconciling = (Inr (''requeued'', snaps), ?s1)"
    by (auto split: prod.splits sum.splits)
  have "(case reconcile_report ''j1'' ''a'' 1 ''absent'' None None 40 (demo_lost_again ?s1) of
      (Inr (q, snaps), s') \<Rightarrow> q \<in> {''requeued'', ''interrupted''} | _ \<Rightarrow> False)" by code_simp
  then obtain q snaps' s3 where 2: "reconcile_report ''j1'' ''a'' 1 ''absent'' None None 40 (demo_lost_again ?s1) = (Inr (q, snaps'), s3)"
    "q \<in> {''requeued'', ''interrupted''}"
    by (auto split: prod.splits sum.splits)
  from accept_replay_once [OF demo_reconciling_reachable 1 demo_lost_again_steps 2(1)] 1 2 show ?thesis by blast
qed

end
