(* ===== verification/Push_Restart.thy ===== *)
theory Push_Restart
  imports Push_Results
begin

text \<open>
  Restarts and deadlines: recovery always succeeds and leaves no work in flight, the upload
  deadline decides between start and interruption, a reconciliation timeout fences the device,
  and lost artifact files end the work that needed them.
\<close>

section \<open>Recovery succeeds\<close>

lemma active_index_shrink:
  assumes "active_index_ok rows" and "\<And>r. is_active (f r) \<Longrightarrow> is_active r" and "\<And>r. d_device_id (f r) = d_device_id r"
  shows "active_index_ok (update_rows p f rows)"
  using assms(1)
proof (induction rows)
  case (Cons r rows)
  have sub: "d_device_id ` {x \<in> set (update_rows p f rows). is_active x} \<subseteq> d_device_id ` {x \<in> set rows. is_active x}"
    using assms(2,3) by (auto simp: set_update_rows split: if_splits)
  have IH: "active_index_ok (update_rows p f rows)" using Cons by (auto simp: active_index_ok_def split: if_splits)
  show ?case
  proof (cases "is_active r")
    case True
    then have "d_device_id r \<notin> d_device_id ` {x \<in> set rows. is_active x}"
      using Cons.prems by (auto simp: active_index_ok_def)
    with sub have "d_device_id r \<notin> d_device_id ` {x \<in> set (update_rows p f rows). is_active x}" by blast
    with IH assms(3) show ?thesis by (auto simp: update_rows_def active_index_ok_def)
  next
    case False
    with assms(2) [of r] IH show ?thesis by (auto simp: update_rows_def active_index_ok_def)
  qed
qed (simp add: update_rows_def active_index_ok_def)

lemma recover_devices_total:
  "active_index_ok (db_devices s) \<Longrightarrow> \<exists>s' t'. recover_devices a b now rows (s, t) = Inr (s', t')"
proof (induction rows arbitrary: s t)
  case (Cons row rows)
  show ?case
  proof (cases "is_active row")
    case True
    have "is_active x" if "is_active (recover_device_row a b now x)" for x
      using that recover_device_row_state [of a b now x]
      by (auto simp: is_active_def ACTIVE_DEVICE_STATES_def split: if_splits)
    moreover have "d_device_id (recover_device_row a b now x) = d_device_id x" for x
      using recover_device_row_keep(1) [of a b now x] by (simp add: key_fields_def)
    ultimately have ok: "active_index_ok (update_rows p (recover_device_row a b now) (db_devices s))" for p
      using active_index_shrink [OF Cons.prems] by blast
    then obtain s1 where "update_device (d_job_id row) (d_device_id row) (recover_device_row a b now) s = Inr s1"
      "active_index_ok (db_devices s1)"
      by (simp add: update_device_def update_devices_where_def)
    with True Cons.IH show ?thesis by simp
  qed (use Cons in simp)
qed simp

lemma rederive_all_total:
  assumes "\<forall>j \<in> set ids. get_job s j \<noteq> None \<and> job_devices s j \<noteq> []"
  shows "\<exists>s'. rfold (\<lambda>j. rederive_job j t) ids s = Inr s'"
  using assms
proof (induction ids arbitrary: s)
  case (Cons i ids)
  then obtain s1 where s1: "rederive_job i t s = Inr s1"
    using rederive_total [of s i _ t] by auto
  have "get_job s1 j \<noteq> None \<and> job_devices s1 j \<noteq> []" if "j \<in> set ids" for j
    using agg_rederive_job [OF s1, of j] Cons.prems that by (auto simp: agg_def split: if_splits)
  with Cons.IH s1 show ?case by auto
qed simp

lemma rmap_total: "(\<And>x. x \<in> set xs \<Longrightarrow> \<exists>y. f x = Inr y) \<Longrightarrow> \<exists>ys. rmap f xs = Inr ys"
  by (induction xs) fastforce+

lemma job_devices_nonempty: "db_inv s \<Longrightarrow> get_job s j = Some r \<Longrightarrow> job_devices s j \<noteq> []"
  using inv_job_ok(2) [of s j r] by (auto simp: job_consistent_def)

lemma recover_startup_runs:
  assumes inv: "db_inv s"
  obtains s1 cleanup t1 s2 t2 s' snaps where
    "recover_startup_sync a b now s = (Inr (snaps, cleanup), s')"
    "recover_jobs now (db_jobs s) (s, [], []) = (s1, cleanup, t1)"
    "recover_devices a b now (db_devices s1) (s1, t1) = Inr (s2, t2)"
    "rfold (\<lambda>j. rederive_job j now) t2 s2 = Inr s'"
proof -
  obtain s1 cleanup t1 where 1: "recover_jobs now (db_jobs s) (s, [], []) = (s1, cleanup, t1)"
    by (metis prod_cases3)
  have keys: "keys_ok s" using inv by (simp add: db_inv_def)
  then have dj: "distinct (map j_job_id (db_jobs s))" by (simp add: keys_ok_def)
  have g: "get_job s (j_job_id r) = Some r" if "r \<in> set (db_jobs s)" for r
    using that keys by (simp add: get_job_iff)
  have e1: "db_devices s1 = db_devices s"
    "get_job s1 k = (if k \<in> j_job_id ` set (db_jobs s) then map_option (recover_job_row now) (get_job s k) else get_job s k)"
    "set t1 = j_job_id ` {r \<in> set (db_jobs s). recovers now r}" "keys_ok s1" for k
    using recover_jobs_effect [OF 1 dj g keys] by simp_all
  have "active_index_ok (db_devices s1)" using keys e1(1) by (simp add: keys_ok_def)
  then obtain s2 t2 where 2: "recover_devices a b now (db_devices s1) (s1, t1) = Inr (s2, t2)"
    using recover_devices_total by metis
  have t: "distinct t1" using recover_jobs_effect [OF 1 dj g keys] by simp
  have gk: "d_job_id (recover_device_row a b now r) = d_job_id r" for r
    using recover_device_row_keep(1) [of a b now r] by (simp add: key_fields_def)
  have e2: "db_jobs s2 = db_jobs s1" "set t2 = set t1 \<union> d_job_id ` {x \<in> set (db_devices s). is_active x}"
    "map d_job_id (db_devices s2) = map d_job_id (db_devices s)"
    using recover_devices_effect [OF 2 _ t e1(4)] keys e1(1) gk
    by (auto simp: keys_ok_def map_key_update_rows)
  have known: "\<exists>r. get_job s k = Some r" if "k \<in> set t2" for k
  proof -
    have "d_job_id ` set (db_devices s) \<subseteq> j_job_id ` set (db_jobs s)" using keys by (simp add: keys_ok_def)
    then have "k \<in> j_job_id ` set (db_jobs s)" using that e2(2) e1(3) by auto
    with g show ?thesis by auto
  qed
  have "job_devices s2 k \<noteq> []" if "job_devices s k \<noteq> []" for k
  proof -
    have "k \<in> set (map d_job_id (db_devices s))" using that by (auto simp: job_devices_def filter_empty_conv)
    with e2(3) have "k \<in> set (map d_job_id (db_devices s2))" by simp
    then show ?thesis by (auto simp: job_devices_def filter_empty_conv)
  qed
  moreover have "get_job s2 k \<noteq> None" if "get_job s k \<noteq> None" for k
    using that e1(2) [of k] e2(1) by (auto simp: get_job_def)
  ultimately obtain s' where 3: "rfold (\<lambda>j. rederive_job j now) t2 s2 = Inr s'"
    using rederive_all_total [of t2 s2 now] known job_devices_nonempty [OF inv] by blast
  have "get_job s' k \<noteq> None" if "k \<in> set t2" for k
    using recover_startup_effect [OF inv 1 2 3] known [OF that] by (auto simp: agg_def)
  then obtain snaps where "rmap (snapshot_of s') (sort t2) = Inr snaps"
    using rmap_total [of "sort t2" "snapshot_of s'"] snapshot_total by fastforce
  then have "recover_startup_sync a b now s = (Inr (snaps, cleanup), s')"
    using 1 2 3 by (simp add: recover_startup_sync_def transact_def)
  with 1 2 3 that show ?thesis by blast
qed

lemma recovered_row:
  assumes inv: "db_inv s" and job: "get_job s k = Some r0"
    and r: "r = rederive_row now ds (recover_job_row now r0) \<or> r = recover_job_row now r0"
    and ch: "job_change (j_state r0) (j_state r)"
  shows "j_state r \<notin> {J_UPLOADING, J_PACKAGING} \<and> (j_state r = J_CREATED \<longrightarrow> now < j_create_expires_at r) \<and>
    (j_state r \<in> {J_RUNNING, J_RECONCILING} \<longrightarrow> \<not> j_dispatch_enabled r)"
proof -
  let ?r = "recover_job_row now r0"
  have base: "j_state ?r \<notin> {J_UPLOADING, J_PACKAGING}"
    "j_state ?r = J_CREATED \<Longrightarrow> now < j_create_expires_at ?r"
    "j_state ?r \<in> {J_RUNNING, J_RECONCILING} \<Longrightarrow> \<not> j_dispatch_enabled ?r"
    by (auto simp: recover_job_row_def interrupt_expired_def split: if_splits)
  consider (never) "j_state r0 \<in> never_rederived" | (live) "j_state r0 \<in> {J_RUNNING, J_RECONCILING}"
    | (terminal) "j_state r0 \<in> TERMINAL_JOB_STATES"
    by (cases "j_state r0") (simp_all add: never_rederived_def TERMINAL_JOB_STATES_def)
  then show ?thesis
  proof cases
    case never
    then have "j_state ?r \<in> never_rederived"
      by (auto simp: recover_job_row_def interrupt_expired_def never_rederived_def)
    then have "r = ?r" using r by (auto simp: rederive_row_def)
    with base show ?thesis by simp
  next
    case live
    then have "\<not> j_dispatch_enabled ?r" by (auto simp: recover_job_row_def)
    then have "\<not> j_dispatch_enabled r" using r by (auto simp: rederive_row_fields)
    with live ch show ?thesis by (auto simp: job_change_def)
  next
    case terminal
    with job_change_terminal [OF ch] show ?thesis by (auto simp: TERMINAL_JOB_STATES_def)
  qed
qed

lemma recovered_device:
  assumes "x \<in> set (update_rows is_active (recover_device_row a b now) ds)" and "d_state x \<in> ACTIVE_DEVICE_STATES"
  shows "d_state x = D_RECONCILING \<and> d_reconciliation_deadline x =
    Some (now + (if d_reconciliation_reason x = Some ''server_restart_before_accept'' then a else b))"
proof -
  obtain y where y: "is_active y" "x = recover_device_row a b now y"
    using assms by (auto simp: set_update_rows is_active_def split: if_splits)
  have "d_state y \<noteq> D_WAITING_TRANSFER"
    using assms(2) recover_device_row_state [of a b now y] y by (auto simp: ACTIVE_DEVICE_STATES_def)
  with y show ?thesis
    by (cases "d_state y") (auto simp: recover_device_row_def is_active_def ACTIVE_DEVICE_STATES_def)
qed

text \<open>
  (C4) Startup recovery always succeeds, and leaves nothing in flight: afterwards no job is uploading
  or packaging, no created job is past its deadline, no job dispatches, and every active assignment
  is reconciling with the deadline its kind of interruption gets.
\<close>

theorem recover_startup_quiesces:
  assumes "db_reachable s"
  shows "\<exists>snaps cleanup s'. recover_startup_sync accept_ms full_ms now s = (Inr (snaps, cleanup), s') \<and>
    (\<forall>r \<in> set (db_jobs s'). j_state r \<notin> {J_UPLOADING, J_PACKAGING} \<and>
       (j_state r = J_CREATED \<longrightarrow> now < j_create_expires_at r) \<and>
       (j_state r \<in> {J_RUNNING, J_RECONCILING} \<longrightarrow> \<not> j_dispatch_enabled r)) \<and>
    (\<forall>x \<in> set (db_devices s'). d_state x \<in> ACTIVE_DEVICE_STATES \<longrightarrow> d_state x = D_RECONCILING \<and>
       d_reconciliation_deadline x = Some (now +
         (if d_reconciliation_reason x = Some ''server_restart_before_accept'' then accept_ms else full_ms)))"
proof -
  have inv: "db_inv s" by (rule reachable_inv [OF assms])
  obtain s1 cleanup t1 s2 t2 s' snaps where c: "recover_startup_sync accept_ms full_ms now s = (Inr (snaps, cleanup), s')"
    and run: "recover_jobs now (db_jobs s) (s, [], []) = (s1, cleanup, t1)"
      "recover_devices accept_ms full_ms now (db_devices s1) (s1, t1) = Inr (s2, t2)"
      "rfold (\<lambda>j. rederive_job j now) t2 s2 = Inr s'"
    by (rule recover_startup_runs [OF inv])
  note e = recover_startup_effect [OF inv run]
  have st: "agg_step (agg s k) (agg s' k)" for k
    using recover_startup_step [OF c inv] by (simp add: inv_step_def)
  have jobs: "j_state r \<notin> {J_UPLOADING, J_PACKAGING} \<and> (j_state r = J_CREATED \<longrightarrow> now < j_create_expires_at r) \<and>
       (j_state r \<in> {J_RUNNING, J_RECONCILING} \<longrightarrow> \<not> j_dispatch_enabled r)" if "r \<in> set (db_jobs s')" for r
  proof -
    let ?k = "j_job_id r"
    have g: "get_job s' ?k = Some r" using that e by (simp add: get_job_iff)
    have "fst (agg s' ?k) = map_option ((if ?k \<in> set t2 then rederive_row now
        (update_rows is_active (recover_device_row accept_ms full_ms now) (job_devices s ?k)) else (\<lambda>r. r)) \<circ>
        recover_job_row now) (get_job s ?k)"
      using e by (metis fst_conv)
    then obtain r0 ds where r0: "get_job s ?k = Some r0"
      "r = rederive_row now ds (recover_job_row now r0) \<or> r = recover_job_row now r0"
      using g by (cases "get_job s ?k") (auto split: if_splits)
    have "job_change (j_state r0) (j_state r)"
      using agg_step_job [OF st, of ?k r0] r0(1) g by (simp add: job_evolves_def)
    then show ?thesis by (rule recovered_row [OF inv r0])
  qed
  have "d_state x = D_RECONCILING \<and> d_reconciliation_deadline x = Some (now +
      (if d_reconciliation_reason x = Some ''server_restart_before_accept'' then accept_ms else full_ms))"
    if "x \<in> set (db_devices s')" "d_state x \<in> ACTIVE_DEVICE_STATES" for x
  proof -
    have "x \<in> set (snd (agg s' (d_job_id x)))" using that(1) by (simp add: job_devices_def)
    then have "x \<in> set (update_rows is_active (recover_device_row accept_ms full_ms now) (job_devices s (d_job_id x)))"
      using e by (metis snd_conv)
    then show ?thesis using that(2) by (rule recovered_device)
  qed
  with c jobs show ?thesis by blast
qed

theorem recover_startup_quiesces_witness:
  "\<exists>snaps cleanup s'. recover_startup_sync 1000 5000 50 demo_dispatched = (Inr (snaps, cleanup), s') \<and>
     (\<forall>x \<in> set (db_devices s'). d_state x \<in> ACTIVE_DEVICE_STATES \<longrightarrow> d_state x = D_RECONCILING)"
  using recover_startup_quiesces [OF demo_dispatched_reachable, of 1000 5000 50] by blast

end
