(* ===== verification/Push_Fences.thy ===== *)
theory Push_Fences
  imports Push_Restart
begin

text \<open>
  Snapshots as the console sees them. A job's snapshot depends on its rows, on the artifacts and on
  the fences it displays; the theory states which snapshots an operation can change, and shows for
  the operations that clear a fence that every changed snapshot is published with a new revision.
  Three concrete runs at the end show where the code falls short of that.
\<close>

section \<open>What a snapshot depends on\<close>

lemma visible_fence_cong:
  "get_fence s' d = get_fence s d \<Longrightarrow> latest_job_id s' d = latest_job_id s d \<Longrightarrow>
    visible_fence s' k d = visible_fence s k d"
  by (simp add: visible_fence_def split: option.splits)

lemma snapshot_cong:
  assumes "agg s' k = agg s k" and "db_artifacts s' = db_artifacts s"
    and "\<And>d. d \<in> d_device_id ` set (job_devices s k) \<Longrightarrow> visible_fence s' k d = visible_fence s k d"
  shows "snapshot_of s' k = snapshot_of s k"
proof -
  have g: "get_job s' k = get_job s k" "job_devices s' k = job_devices s k"
    using assms(1) by (simp_all add: agg_def)
  have d: "device_payload s' k r = device_payload s k r" if "r \<in> set (job_devices s k)" for r
    using assms(3) that by (simp add: device_payload_def)
  have a: "artifact_payload s' job = artifact_payload s job" for job
    using assms(2) by (simp add: artifact_payload_def get_artifact_def Let_def split: option.splits)
  have "map (\<lambda>r. (d_device_id r, device_payload s' k r)) (order_by d_target_ordinal (job_devices s k)) =
      map (\<lambda>r. (d_device_id r, device_payload s k r)) (order_by d_target_ordinal (job_devices s k))"
    using d by simp
  then show ?thesis
    by (simp add: snapshot_of_def g a Let_def split: option.splits)
qed

lemma map_insort_key: "map g (insort_key (\<lambda>x. h (g x)) x xs) = insort_key h (g x) (map g xs)"
  by (induction xs) auto

lemma map_sort_key: "map g (sort_key (\<lambda>x. h (g x)) xs) = sort_key h (map g xs)"
  by (induction xs) (auto simp: map_insort_key)

text \<open>The latest job of a device is a matter of keys: other columns do not matter.\<close>

lemma latest_job_id_keys:
  "latest_job_id s d = map_option fst (first_row (sort_key (\<lambda>k. - snd (snd k))
     (filter (\<lambda>k. get_job s (fst k) \<noteq> None \<and> fst (snd k) = d) (map key_fields (db_devices s)))))"
proof -
  let ?rows = "filter (\<lambda>r. get_job s (d_job_id r) \<noteq> None) (device_rows_of s d)"
  have "filter (\<lambda>k. get_job s (fst k) \<noteq> None \<and> fst (snd k) = d) (map key_fields (db_devices s)) = map key_fields ?rows"
    by (auto simp: device_rows_of_def key_fields_def filter_map comp_def conj_commute intro: filter_cong)
  moreover have "sort_key (\<lambda>k. - snd (snd k)) (map key_fields ?rows) = map key_fields (sort_key (\<lambda>r. - d_enqueue_seq r) ?rows)"
    using map_sort_key [of key_fields "\<lambda>k. - snd (snd k)" ?rows] by (simp add: key_fields_def comp_def)
  ultimately show ?thesis
    by (cases "sort_key (\<lambda>r. - d_enqueue_seq r) ?rows") (auto simp: latest_job_id_def order_by_def key_fields_def)
qed

lemma latest_job_id_cong:
  assumes "map key_fields (db_devices s') = map key_fields (db_devices s)"
    and "\<And>j. get_job s' j = None \<longleftrightarrow> get_job s j = None"
  shows "latest_job_id s' d = latest_job_id s d"
  using assms by (simp add: latest_job_id_keys)

section \<open>Frame of a device change\<close>

lemma finish_frame:
  assumes "finish_device_change j t s = Inr (snap, s')"
  shows "db_artifacts s' = db_artifacts s" and "get_job s' k = None \<longleftrightarrow> get_job s k = None"
  using finish_rederive [OF assms] agg_finish_device_change [OF assms, of k]
  by (auto simp: rederive_job_def rbind_eq_Inr increment_revision_def update_job_def agg_def split: option.splits if_splits)

text \<open>
  A change of one assignment concerns one job: after \<^verbatim>\<open>transition_device\<close>, whatever its
  arguments and outcome, the snapshot of every other job is what it was, so the single snapshot it
  returns is all there is to publish.
\<close>

theorem transition_device_frame:
  assumes "transition_device j d expected target flds idem now s = (x, s')" and "k \<noteq> j"
  shows "snapshot_of s' k = snapshot_of s k"
proof -
  let ?f = "\<lambda>r. fold apply_field (stamp_terminal target now flds) (r\<lparr>d_state := target, d_updated_at := now\<rparr>)"
  consider "s' = s" | snap s1 where "update_devices_where (\<lambda>r. d_key r = (j, d)) ?f s = Inr s1"
      "finish_device_change j now s1 = Inr (snap, s')"
    using assms(1)
    by (auto simp: transition_device_def transact_def rbind_eq_Inr rbind_eq_Inl update_device_def
        split: option.splits if_splits sum.splits)
  then show ?thesis
  proof cases
    case 2
    have s1: "s1 = s\<lparr>db_devices := update_rows (\<lambda>r. d_key r = (j, d)) ?f (db_devices s)\<rparr>"
      using 2(1) by (auto simp: update_devices_where_def Let_def split: if_splits)
    have k: "key_fields (?f r) = key_fields r" for r by (simp add: apply_fields_keep)
    then have kj: "d_job_id (?f r) = d_job_id r" for r by (simp add: key_fields_def)
    have "agg s' k = agg s1 k" using assms(2) by (simp add: agg_finish_device_change [OF 2(2)])
    also have "\<dots> = agg s k"
      using agg_update_devices_where [OF 2(1), of k] kj assms(2)
        update_rows_other_job [of "\<lambda>r. d_key r = (j, d)" j k ?f s]
      by (simp add: agg_def)
    finally have a: "agg s' k = agg s k" .
    have "map key_fields (db_devices s') = map key_fields (db_devices s)"
      using k by (simp add: devices_finish [OF 2(2)] s1 map_key_update_rows)
    moreover have "get_job s' i = None \<longleftrightarrow> get_job s i = None" for i
      using finish_frame(2) [OF 2(2), of i] by (simp add: s1 get_job_def)
    ultimately have "latest_job_id s' e = latest_job_id s e" for e by (rule latest_job_id_cong)
    then show ?thesis
      using finish_frame(1) [OF 2(2)] fences_finish [OF 2(2)]
      by (intro snapshot_cong a visible_fence_cong) (simp_all add: s1 get_fence_def)
  qed simp
qed

theorem transition_device_frame_witness:
  "snapshot_of (snd (transition_device ''j1'' ''a'' None D_DOWNLOADING [] False 9 demo_second)) ''j2'' =
     snapshot_of demo_second ''j2'' \<and> get_job demo_second ''j2'' \<noteq> None \<and>
   snapshot_of (snd (transition_device ''j1'' ''a'' None D_DOWNLOADING [] False 9 demo_second)) ''j1'' \<noteq>
     snapshot_of demo_second ''j1''"
proof -
  have "get_job demo_second ''j2'' \<noteq> None" by code_simp
  moreover have "map_option j_revision (get_job (snd (transition_device ''j1'' ''a'' None D_DOWNLOADING [] False 9 demo_second)) ''j1'')
      \<noteq> map_option j_revision (get_job demo_second ''j1'')" by code_simp
  then have "snapshot_of (snd (transition_device ''j1'' ''a'' None D_DOWNLOADING [] False 9 demo_second)) ''j1'' \<noteq>
     snapshot_of demo_second ''j1''"
    by (auto simp: snapshot_of_def Let_def split: option.splits)
  ultimately show ?thesis
    using transition_device_frame [of "''j1''" "''a''" None D_DOWNLOADING "[]" False 9 demo_second _ _ "''j2''", OF surjective_pairing]
    by simp
qed

section \<open>Clearing a fence publishes everything it changes\<close>

definition publishes_all :: "db \<Rightarrow> db \<Rightarrow> snapshot list \<Rightarrow> bool" where
  "publishes_all s s' snaps \<longleftrightarrow> (\<forall>k. snapshot_of s' k \<noteq> snapshot_of s k \<longrightarrow>
     (\<exists>snap \<in> set snaps. snapshot_of s' k = Inr snap \<and>
       (\<forall>old. snapshot_of s k = Inr old \<longrightarrow> s_revision old < s_revision snap)))"

lemma bump_all_frame: "db_artifacts (bump_all ids t s) = db_artifacts s" "db_devices (bump_all ids t s) = db_devices s"
  unfolding bump_all_def
  by (induction ids arbitrary: s) (auto simp: increment_revision_def update_job_def)

lemma snapshot_revision: "snapshot_of s k = Inr snap \<Longrightarrow> \<exists>r. get_job s k = Some r \<and> s_revision snap = j_revision r"
  by (auto simp: snapshot_of_def Let_def split: option.splits)

text \<open>
  Deleting the fence of a device changes only the snapshots that display it; when all of these get
  a revision, every changed snapshot is in the answer.
\<close>

lemma delete_fence_publishes:
  assumes p: "publish_bumped ids t (delete_fence d s) = Inr (snaps, s')" and ids: "distinct ids"
    and cover: "\<And>k. get_job s k \<noteq> None \<Longrightarrow> visible_fence s k d \<noteq> None \<Longrightarrow> k \<in> set ids"
  shows "publishes_all s s' snaps"
  unfolding publishes_all_def
proof (intro allI impI)
  fix k
  assume changed: "snapshot_of s' k \<noteq> snapshot_of s k"
  have s': "s' = bump_all ids t (delete_fence d s)" and sn: "rmap (snapshot_of s') ids = Inr snaps"
    using p by (auto simp: publish_bumped_def Let_def rbind_eq_Inr)
  have a: "agg s' i = (if i \<in> set ids then (map_option (bump t) (get_job s i), job_devices s i) else agg s i)" for i
    using agg_bump_all [OF ids, of t "delete_fence d s" i] agg_delete_fence [of d s i]
    by (auto simp: s' agg_def)
  have fr: "db_artifacts s' = db_artifacts s" "db_devices s' = db_devices s"
    by (simp_all add: s' bump_all_frame delete_fence_def)
  have gf: "get_fence s' e = (if e = d then None else get_fence s e)" for e
    using lookup_delete_rows_key [of f_device_id e d "db_fences s"]
    by (simp add: s' get_fence_def delete_fence_def)
  have l: "latest_job_id s' e = latest_job_id s e" for e
  proof (rule latest_job_id_cong)
    show "get_job s' i = None \<longleftrightarrow> get_job s i = None" for i
      using a [of i] by (auto simp: agg_def split: if_splits)
  qed (simp add: fr)
  have "k \<in> set ids"
  proof (rule ccontr)
    assume out: "k \<notin> set ids"
    have "snapshot_of s' k = snapshot_of s k"
    proof (cases "get_job s k")
      case None
      with a [of k] out show ?thesis by (simp add: agg_def snapshot_of_def)
    next
      case (Some r)
      with out cover [of k] have n: "visible_fence s k d = None" by fastforce
      have "visible_fence s' k e = visible_fence s k e" for e
        using n visible_fence_cong [of s' e s k] l [of e] gf [of e]
        by (cases "e = d") (auto simp: visible_fence_def)
      with a [of k] out fr show ?thesis by (intro snapshot_cong) simp_all
    qed
    with changed show False by simp
  qed
  then obtain snap where snap: "snap \<in> set snaps" "snapshot_of s' k = Inr snap"
    using sn list_all2_member [of "\<lambda>x y. snapshot_of s' x = Inr y" ids snaps k] by (auto simp: rmap_Inr_iff)
  moreover have "s_revision old < s_revision snap" if "snapshot_of s k = Inr old" for old
    using snapshot_revision [OF that] snapshot_revision [OF snap(2)] a [of k] \<open>k \<in> set ids\<close>
    by (auto simp: agg_def)
  ultimately show "\<exists>snap \<in> set snaps. snapshot_of s' k = Inr snap \<and>
      (\<forall>old. snapshot_of s k = Inr old \<longrightarrow> s_revision old < s_revision snap)" by blast
qed

lemma visible_cover:
  assumes "get_fence s d = Some f" and "visible_fence s k d \<noteq> None" and "get_job s k \<noteq> None" and "k \<noteq> []"
  shows "k \<in> set (visible_job_ids s d (f_blocking_job_id f))"
  using assms
  by (auto simp: visible_fence_def visible_job_ids_def Let_def split: if_splits option.splits)

text \<open>
  A new client process clears the fence completely: when
  \<^verbatim>\<open>clear_fence_on_process_replacement\<close> deletes a fence, every job snapshot that changes is among the
  snapshots it returns, in its new form and with a higher revision. (Job ids are non-empty.)
\<close>

theorem process_replacement_publishes_all:
  assumes "clear_fence_on_process_replacement d process v1 now s = (Inr snaps, s')"
    and "get_job s [] = None"
  shows "publishes_all s s' snaps"
proof -
  consider "s' = s" | f where "get_fence s d = Some f"
      "publish_bumped (visible_job_ids s d (f_blocking_job_id f)) now (delete_fence d s) = Inr (snaps, s')"
    using assms(1)
    by (auto simp: clear_fence_on_process_replacement_def transact_def Let_def
        split: option.splits if_splits sum.splits prod.splits)
  then show ?thesis
  proof cases
    case 2
    show ?thesis
      using 2(2) distinct_visible_job_ids
    proof (rule delete_fence_publishes)
      show "k \<in> set (visible_job_ids s d (f_blocking_job_id f))"
        if "get_job s k \<noteq> None" "visible_fence s k d \<noteq> None" for k
        using visible_cover [OF 2(1) that(2,1)] that(1) assms(2) by (cases "k = []") auto
    qed
  qed (simp add: publishes_all_def)
qed

theorem process_replacement_publishes_all_witness:
  "\<exists>snaps s'. clear_fence_on_process_replacement ''a'' (Some ''p2'') True 300 demo_unconfirmed = (Inr snaps, s') \<and>
     publishes_all demo_unconfirmed s' snaps \<and> map s_job_id snaps = [''j1''] \<and> get_fence s' ''a'' = None"
proof -
  have n: "get_job demo_unconfirmed [] = None" by code_simp
  have "(case clear_fence_on_process_replacement ''a'' (Some ''p2'') True 300 demo_unconfirmed of
      (Inr snaps, s') \<Rightarrow> map s_job_id snaps = [''j1''] \<and> get_fence s' ''a'' = None | _ \<Rightarrow> False)" by code_simp
  then obtain snaps s' where c: "clear_fence_on_process_replacement ''a'' (Some ''p2'') True 300 demo_unconfirmed = (Inr snaps, s')"
    "map s_job_id snaps = [''j1'']" "get_fence s' ''a'' = None"
    by (auto split: prod.splits sum.splits)
  from process_replacement_publishes_all [OF c(1) n] c show ?thesis by (intro exI conjI)
qed

lemma visible_job_ids_blocking:
  "get_job s j \<noteq> None \<Longrightarrow> j \<noteq> [] \<Longrightarrow> j \<in> set (visible_job_ids s d (Some j))"
  by (auto simp: visible_job_ids_def Let_def split: option.splits)

text \<open>
  An exact report clears exactly its fence: \<^verbatim>\<open>clear_matching_fence\<close> deletes the fence of the
  device only if it names that job and attempt, leaves every other fence alone, and returns every
  snapshot it changes; when it does not match, nothing changes.
\<close>

theorem clear_matching_fence_exact:
  assumes "clear_matching_fence j d attempt now s = (Inr snaps, s')" and "j \<noteq> []"
  shows "if attempt = 1 \<and> fence_matches (get_fence s d) j 1
    then get_fence s' d = None \<and> (\<forall>e. e \<noteq> d \<longrightarrow> get_fence s' e = get_fence s e) \<and> publishes_all s s' snaps
    else s' = s \<and> snaps = []"
proof (cases "attempt = 1 \<and> fence_matches (get_fence s d) j 1")
  case False
  with assms(1) show ?thesis
    by (auto simp: clear_matching_fence_def transact_def split: if_splits sum.splits prod.splits)
next
  case True
  then obtain f where f: "get_fence s d = Some f" "f_blocking_job_id f = Some j"
    by (auto simp: fence_matches_def split: option.splits)
  have c: "publish_bumped (visible_job_ids (delete_fence d s) d (Some j)) now (delete_fence d s) = Inr (snaps, s')"
    using assms(1) True
    by (auto simp: clear_matching_fence_def clear_fence_def transact_def Let_def split: if_splits sum.splits prod.splits)
  have g: "get_job (delete_fence d s) i = get_job s i" for i by (simp add: delete_fence_def get_job_def)
  have "publishes_all s s' snaps"
    using c distinct_visible_job_ids
  proof (rule delete_fence_publishes)
    show "k \<in> set (visible_job_ids (delete_fence d s) d (Some j))"
      if "get_job s k \<noteq> None" "visible_fence s k d \<noteq> None" for k
    proof -
      have "k = j" using that(2) f by (auto simp: visible_fence_def split: if_splits)
      then show ?thesis using visible_job_ids_blocking [of "delete_fence d s" j d] that(1) g assms(2) by simp
    qed
  qed
  moreover have "db_fences s' = db_fences (delete_fence d s)"
    using c by (auto simp: publish_bumped_def Let_def rbind_eq_Inr)
  then have "get_fence s' e = (if e = d then None else get_fence s e)" for e
    using lookup_delete_rows_key [of f_device_id e d "db_fences s"] by (simp add: get_fence_def delete_fence_def)
  ultimately show ?thesis using True by simp
qed

theorem clear_matching_fence_exact_witness:
  "\<exists>snaps s'. clear_matching_fence ''j1'' ''a'' 1 300 demo_unconfirmed = (Inr snaps, s') \<and>
     get_fence demo_unconfirmed ''a'' \<noteq> None \<and> get_fence s' ''a'' = None \<and> publishes_all demo_unconfirmed s' snaps"
proof -
  have m: "fence_matches (get_fence demo_unconfirmed ''a'') ''j1'' 1" by code_simp
  have "(case clear_matching_fence ''j1'' ''a'' 1 300 demo_unconfirmed of (Inr snaps, s') \<Rightarrow> True | _ \<Rightarrow> False)" by code_simp
  then obtain snaps s' where c: "clear_matching_fence ''j1'' ''a'' 1 300 demo_unconfirmed = (Inr snaps, s')"
    by (auto split: prod.splits sum.splits)
  have "''j1'' \<noteq> []" by simp
  from clear_matching_fence_exact [OF c this] m c show ?thesis
    by (auto simp: fence_matches_def split: option.splits)
qed

section \<open>Where snapshots go stale\<close>

text \<open>
  The first job ends behind its fence; a second job for the device is created. All states below are
  reachable.
\<close>

definition demo_finished :: db where
  "demo_finished = snd (settle_result ''j1'' ''b'' 1 demo_result 210
     (snd (prepare_dispatch ''j1'' ''b'' JOB_V1 [] (Some 300) 206 (snd (claim_next [''b''] 205 demo_unconfirmed)))))"

definition demo_successor :: db where
  "demo_successor = snd (create_job (demo_request ''r2'' [''a'']) demo_protocols 1000 ''j2'' 220 demo_finished)"

lemma demo_successor_reachable: "db_reachable demo_successor"
proof -
  have "store_step\<^sup>*\<^sup>* demo_unconfirmed demo_finished"
    unfolding demo_finished_def
    by (meson converse_rtranclp_into_rtranclp rtranclp.rtrancl_refl S_claim S_prepare S_settle surjective_pairing)
  then have "db_reachable demo_finished" by (rule reachable_run [OF demo_unconfirmed_reachable])
  then show ?thesis
    unfolding demo_successor_def
    by (rule reachable_step [OF _ S_create [OF surjective_pairing]]) (simp add: demo_request_def)
qed

definition displayed_fence :: "db \<Rightarrow> job_id \<Rightarrow> device_id \<Rightarrow> fence_view option option" where
  "displayed_fence s j d = (case snapshot_of s j of Inl e \<Rightarrow> None
     | Inr snap \<Rightarrow> map_option dv_device_fence (map_of (s_devices snap) d))"

text \<open>
  Replacing the fence of a finished job by an opaque one changes that job's snapshot, which no
  longer displays a fence, without a new revision and without returning it.
\<close>

theorem opaque_fence_stale_snapshot:
  "\<exists>s snaps s'. db_reachable s \<and>
     add_opaque_fence ''a'' ''x'' JOB_V1 None ''unknown'' 230 s = (Inr snaps, s') \<and>
     displayed_fence s ''j1'' ''a'' \<noteq> Some None \<and> displayed_fence s' ''j1'' ''a'' = Some None \<and>
     map_option j_revision (get_job s' ''j1'') = map_option j_revision (get_job s ''j1'') \<and>
     ''j1'' \<notin> s_job_id ` set snaps"
proof -
  let ?r = "add_opaque_fence ''a'' ''x'' JOB_V1 None ''unknown'' 230 demo_successor"
  have "(case ?r of (Inr snaps, s') \<Rightarrow>
      displayed_fence demo_successor ''j1'' ''a'' \<noteq> Some None \<and> displayed_fence s' ''j1'' ''a'' = Some None \<and>
      map_option j_revision (get_job s' ''j1'') = map_option j_revision (get_job demo_successor ''j1'') \<and>
      ''j1'' \<notin> s_job_id ` set snaps | _ \<Rightarrow> False)"
    by code_simp
  then show ?thesis
    using demo_successor_reachable by (auto split: prod.splits sum.splits)
qed

text \<open>
  Creating a job for a device with an opaque fence moves the display of the fence to the new job
  and leaves the revision of the job that displayed it unchanged.
\<close>

definition demo_opaque :: db where
  "demo_opaque = snd (add_opaque_fence ''a'' ''x'' JOB_V1 None ''unknown'' 10 demo_ready)"

lemma demo_opaque_reachable: "db_reachable demo_opaque"
  unfolding demo_opaque_def by (rule reachable_step [OF demo_ready_reachable S_opaque [OF surjective_pairing]])

theorem create_job_stale_snapshot:
  "\<exists>s snap s'. db_reachable s \<and>
     create_job (demo_request ''r2'' [''a'']) demo_protocols 1000 ''j2'' 20 s = (Inr (True, snap), s') \<and>
     displayed_fence s ''j1'' ''a'' \<noteq> Some None \<and> displayed_fence s' ''j1'' ''a'' = Some None \<and>
     map_option j_revision (get_job s' ''j1'') = map_option j_revision (get_job s ''j1'')"
proof -
  let ?r = "create_job (demo_request ''r2'' [''a'']) demo_protocols 1000 ''j2'' 20 demo_opaque"
  have "(case fst ?r of Inr (b, snap) \<Rightarrow> b | _ \<Rightarrow> False)" by code_simp
  then obtain snap where c: "?r = (Inr (True, snap), snd ?r)"
    by (cases ?r; cases "fst ?r") auto
  have "displayed_fence demo_opaque ''j1'' ''a'' \<noteq> Some None"
    "displayed_fence (snd ?r) ''j1'' ''a'' = Some None"
    "map_option j_revision (get_job (snd ?r) ''j1'') = map_option j_revision (get_job demo_opaque ''j1'')"
    by code_simp+
  with c demo_opaque_reachable show ?thesis by blast
qed

section \<open>Two corner cases of job states\<close>

text \<open>
  Enabling dispatch does not derive the job state: a ready job all of whose devices have failed
  becomes running, stays so, and has nothing left to claim.
\<close>

definition demo_all_failed :: db where
  "demo_all_failed = snd (transition_device ''j1'' ''b'' None D_FAILED [] False 12
     (snd (transition_device ''j1'' ''a'' None D_FAILED [] False 11 demo_ready)))"

lemma demo_all_failed_reachable: "db_reachable demo_all_failed"
proof -
  have "store_step demo_ready (snd (transition_device ''j1'' ''a'' None D_FAILED [] False 11 demo_ready))"
    by (rule S_transition [OF surjective_pairing]) simp_all
  then show ?thesis
    unfolding demo_all_failed_def
    by (intro reachable_step [OF reachable_step [OF demo_ready_reachable] S_transition [OF surjective_pairing]]) simp_all
qed

theorem enable_dispatch_stuck_running:
  "\<exists>s. db_reachable s \<and> map_option j_state (get_job (snd (enable_dispatch ''j1'' 13 s)) ''j1'') = Some J_RUNNING \<and>
     (\<forall>r \<in> set (job_devices (snd (enable_dispatch ''j1'' 13 s)) ''j1''). d_state r \<in> TERMINAL_DEVICE_STATES)"
proof -
  have "map_option j_state (get_job (snd (enable_dispatch ''j1'' 13 demo_all_failed)) ''j1'') = Some J_RUNNING"
    "list_all (\<lambda>r. d_state r \<in> TERMINAL_DEVICE_STATES) (job_devices (snd (enable_dispatch ''j1'' 13 demo_all_failed)) ''j1'')"
    by code_simp+
  with demo_all_failed_reachable show ?thesis by (auto simp: list_all_iff)
qed

text \<open>
  \<^verbatim>\<open>fail_pre_dispatch\<close> relies on the transition table, which lets a running job fail: it terminates a
  job whose device is still executing, and the result of that device no longer reaches the job.
\<close>

theorem fail_pre_dispatch_running:
  "\<exists>s. db_reachable s \<and>
     (let s' = snd (fail_pre_dispatch ''j1'' J_FAILED ''packaging_failed'' ''late'' 20 s) in
      map_option j_state (get_job s' ''j1'') = Some J_FAILED \<and>
      map_option d_state (get_device s' ''j1'' ''a'') = Some D_DISPATCHING)"
proof -
  have "map_option j_state (get_job (snd (fail_pre_dispatch ''j1'' J_FAILED ''packaging_failed'' ''late'' 20 demo_dispatched)) ''j1'') = Some J_FAILED"
    "map_option d_state (get_device (snd (fail_pre_dispatch ''j1'' J_FAILED ''packaging_failed'' ''late'' 20 demo_dispatched)) ''j1'' ''a'') = Some D_DISPATCHING"
    by code_simp+
  with demo_dispatched_reachable show ?thesis by (auto simp: Let_def)
qed

end
