(* ===== verification/Push_Handover.thy ===== *)
theory Push_Handover
  imports Push_Dispatch Push_Fences
begin

text \<open>
  How a dispatch ends when something goes wrong: a legal transition of an existing assignment always
  succeeds, so the failure paths of the scheduler terminate with the assignment out of their hands.
\<close>

section \<open>Legal transitions succeed\<close>

lemma device_has_job: "db_inv s \<Longrightarrow> get_device s j d = Some row \<Longrightarrow> \<exists>job. get_job s j = Some job"
proof -
  assume i: "db_inv s" and g: "get_device s j d = Some row"
  have "agg_ok (agg s j)" using i by (simp add: db_inv_def)
  with get_device_job [OF g] show "\<exists>job. get_job s j = Some job"
    by (cases "get_job s j") (auto simp: agg_ok_def)
qed

lemma snapshot_device:
  assumes "snapshot_of s j = Inr snap" and "get_device s j d = Some row"
  shows "\<exists>view. map_of (s_devices snap) d = Some view"
proof -
  have "d \<in> fst ` set (s_devices snap)"
    using assms get_device_job [OF assms(2)] by (force simp: snapshot_of_def Let_def split: option.splits)
  then show ?thesis by (metis map_of_eq_None_iff option.exhaust)
qed

lemma update_one_row:
  assumes inv: "db_inv s" and row: "get_device s j d = Some row"
    and f: "d_key (f row) = d_key row" "is_active (f row) \<Longrightarrow> is_active row"
  shows "\<exists>s1. update_device j d f s = Inr s1 \<and> get_device s1 j d = Some (f row) \<and> db_jobs s1 = db_jobs s"
proof -
  have keys: "keys_ok s" using inv by (simp add: db_inv_def)
  let ?g = "\<lambda>r. if r = row then f r else r"
  have "r = row" if "r \<in> set (db_devices s)" "d_key r = (j, d)" for r
    using that row get_device_iff [OF keys, of j d r] by simp
  then have eq: "update_rows (\<lambda>r. d_key r = (j, d)) f (db_devices s) = update_rows (\<lambda>r. d_key r = (j, d)) ?g (db_devices s)"
    unfolding update_rows_def by (intro map_cong) auto
  have "active_index_ok (update_rows (\<lambda>r. d_key r = (j, d)) ?g (db_devices s))"
    using keys f by (intro active_index_shrink) (auto simp: keys_ok_def split: if_splits)
  moreover have "lookup_row d_key (j, d) (update_rows (\<lambda>r. d_key r = (j, d)) ?g (db_devices s)) =
      map_option (\<lambda>r. if d_key r = (j, d) then ?g r else r) (lookup_row d_key (j, d) (db_devices s))"
    by (rule lookup_update_rows) (use f in auto)
  moreover have "d_key row = (j, d)" using row get_device_iff [OF keys, of j d] by simp
  ultimately show ?thesis
    using row unfolding update_device_def update_devices_where_def Let_def eq by (simp add: get_device_def)
qed

text \<open>Column assignments keep the key and the state.\<close>

lemma apply_fields_state: "d_state (fold apply_field fs r) = d_state r"
proof (induction fs arbitrary: r)
  case (Cons f fs)
  then show ?case by (cases f) simp_all
qed simp

lemma transition_total:
  assumes inv: "db_inv s" and row: "get_device s j d = Some row"
    and exp: "case expected of None \<Rightarrow> True | Some E \<Rightarrow> d_state row \<in> E"
    and valid: "validate_device_transition (d_state row) target = Inr ()"
    and act: "target \<in> ACTIVE_DEVICE_STATES \<Longrightarrow> d_state row \<in> ACTIVE_DEVICE_STATES"
    and flds: "\<not> list_ex is_other flds"
  shows "\<exists>snap s'. transition_device j d expected target flds False now s = (Inr snap, s') \<and>
    (\<exists>row'. get_device s' j d = Some row' \<and> d_state row' = target) \<and>
    (\<exists>view. map_of (s_devices snap) d = Some view)"
proof -
  let ?f = "\<lambda>r. fold apply_field (stamp_terminal target now flds) (r\<lparr>d_state := target, d_updated_at := now\<rparr>)"
  have "key_fields (?f row) = key_fields row" by (simp add: apply_fields_keep)
  then have "d_key (?f row) = d_key row" by (simp add: key_fields_def)
  moreover have st: "d_state (?f row) = target" by (simp add: apply_fields_state)
  ultimately obtain s1 where s1: "update_device j d ?f s = Inr s1" "get_device s1 j d = Some (?f row)" "db_jobs s1 = db_jobs s"
    using update_one_row [OF inv row, of ?f] act by (auto simp: is_active_def)
  obtain job where job: "get_job s1 j = Some job"
    using device_has_job [OF inv row] s1(3) by (auto simp: get_job_def)
  have "job_devices s1 j \<noteq> []" using get_device_job [OF s1(2)] by auto
  with job obtain snap s' where f: "finish_device_change j now s1 = Inr (snap, s')" using finish_total by blast
  have g: "get_device s' j d = Some (?f row)"
    using s1(2) devices_finish [OF f] by (simp add: get_device_def)
  moreover have "snapshot_of s' j = Inr snap"
    using f by (auto simp: finish_device_change_def rbind_eq_Inr)
  ultimately have "\<exists>view. map_of (s_devices snap) d = Some view" by (metis snapshot_device)
  moreover have "transition_device j d expected target flds False now s = (Inr snap, s')"
    using row exp valid flds s1(1) f by (auto simp: transition_device_def transact_def split: option.splits)
  ultimately show ?thesis using g st by blast
qed

section \<open>Recovery\<close>

definition mid_flight :: "device_state set" where
  "mid_flight = {D_WAITING_TRANSFER, D_DISPATCHING, D_DOWNLOADING, D_VALIDATING, D_APPLYING}"

lemma validate_recovery:
  "validate_device_transition D_WAITING_TRANSFER D_QUEUED = Inr ()"
  "x \<in> {D_DISPATCHING, D_DOWNLOADING, D_VALIDATING, D_APPLYING} \<Longrightarrow> validate_device_transition x D_RECONCILING = Inr ()"
  by (auto simp: validate_device_transition_def TERMINAL_DEVICE_STATES_def)

lemma recover_reconcile_total:
  assumes "\<exists>view. map_of (s_devices snap) d = Some view"
  shows "fst (recover_reconcile net j d row snap st) = Inr () \<and> sc_db (snd (recover_reconcile net j d row snap st)) = sc_db st"
  using assms
  by (auto simp: recover_reconcile_def send_reconcile_def send_exact_reconcile_def publish_snapshot_def Let_def
      split: option.splits)

text \<open>
  Recovery hands the assignment over in one turn: in a reachable database the loop of
  \<^verbatim>\<open>_recover_unexpected_dispatch_failure\<close> returns at its first turn, whatever the socket does, and the
  assignment of the failed task is no longer in a state that only a dispatch task can move on from:
  it is queued, reconciling, terminal, gone or a different attempt.
\<close>

theorem recover_turn_settles:
  assumes "db_reachable (sc_db st)"
  shows "\<exists>st'. recover_turn cfg net j d attempt error now st = (Inr (), st') \<and>
    (case get_device (sc_db st') j d of None \<Rightarrow> True
     | Some row \<Rightarrow> d_attempt row \<noteq> attempt \<or> d_state row \<notin> mid_flight)"
proof -
  have inv: "db_inv (sc_db st)" by (rule reachable_inv [OF assms])
  show ?thesis
  proof (cases "get_device (sc_db st) j d")
    case None
    then show ?thesis by (simp add: recover_turn_def assignment_def)
  next
    case (Some row)
    obtain job where job: "get_job (sc_db st) j = Some job" using device_has_job [OF inv Some] by blast
    have a: "assignment (sc_db st) j d = Some (row, job)" by (simp add: assignment_def Some job)
    consider "d_attempt row \<noteq> attempt" | "d_attempt row = attempt" "d_state row = D_WAITING_TRANSFER"
      | "d_attempt row = attempt" "d_state row \<in> {D_DISPATCHING, D_DOWNLOADING, D_VALIDATING, D_APPLYING}"
      | "d_attempt row = attempt" "d_state row = D_RECONCILING"
      | "d_attempt row = attempt" "d_state row \<notin> insert D_RECONCILING mid_flight"
      by (auto simp: mid_flight_def)
    then show ?thesis
    proof cases
      case 2
      obtain snap s' where t: "transition_device j d (Some {D_WAITING_TRANSFER}) D_QUEUED
          [F_queue_reason (Some ''dispatch_recovery''), F_failure_code None, F_failure_detail (Some (take 2000 error))]
          False now (sc_db st) = (Inr snap, s')" "\<exists>row'. get_device s' j d = Some row' \<and> d_state row' = D_QUEUED"
        using transition_total [OF inv Some, of "Some {D_WAITING_TRANSFER}" D_QUEUED "[F_queue_reason (Some ''dispatch_recovery''),
            F_failure_code None, F_failure_detail (Some (take 2000 error))]" now] 2
        by (auto simp: validate_recovery ACTIVE_DEVICE_STATES_def)
      then show ?thesis
        using 2 a by (auto simp: recover_turn_def publishing_def on_db_def publish_snapshot_def mid_flight_def)
    next
      case 3
      let ?dl = "now + (if d_state row = D_DISPATCHING \<and> d_accepted_at row = None
          then cf_accept_reconciliation_ms cfg else cf_reconciliation_ms cfg)"
      obtain snap s' where t: "mark_reconciling j d {d_state row} ''unexpected_dispatch_failure'' ?dl now (sc_db st) = (Inr snap, s')"
          "\<exists>row'. get_device s' j d = Some row' \<and> d_state row' = D_RECONCILING"
          "\<exists>view. map_of (s_devices snap) d = Some view"
        using transition_total [OF inv Some, of "Some {d_state row}" D_RECONCILING
            "[F_reconciliation_reason (Some ''unexpected_dispatch_failure''), F_reconciliation_deadline (Some ?dl),
              F_accept_deadline None]" now] validate_recovery(2) [OF 3(2)] 3(2)
        unfolding mark_reconciling_def by (auto simp: ACTIVE_DEVICE_STATES_def)
      let ?st = "st\<lparr>sc_db := s'\<rparr>"
      have "recover_turn cfg net j d attempt error now st = recover_reconcile net j d row snap ?st"
        using 3 a t(1) by (auto simp: recover_turn_def on_db_def)
      then show ?thesis
        using recover_reconcile_total [OF t(3), of net j row ?st] t(2)
        by (cases "recover_reconcile net j d row snap ?st") (auto simp: mid_flight_def)
    next
      case 4
      obtain snap where snap: "snapshot_of (sc_db st) j = Inr snap" using snapshot_total [OF job] by blast
      then have "\<exists>view. map_of (s_devices snap) d = Some view" using Some by (rule snapshot_device)
      then show ?thesis
        using 4 a snap Some recover_reconcile_total [of snap d net j row st]
        by (cases "recover_reconcile net j d row snap st") (auto simp: recover_turn_def get_snapshot_def mid_flight_def)
    qed (use a Some in \<open>auto simp: recover_turn_def mid_flight_def\<close>)
  qed
qed

theorem recover_turn_settles_witness:
  "\<exists>st'. recover_turn demo_config (Some ''closed'') ''j1'' ''a'' 1 ''boom'' 50 demo_sent = (Inr (), st') \<and>
     map_option d_state (get_device (sc_db demo_sent) ''j1'' ''a'') = Some D_DISPATCHING \<and>
     map_option d_state (get_device (sc_db st') ''j1'' ''a'') = Some D_RECONCILING"
proof -
  have "db_reachable (sc_db demo_sent)"
    using sched_steps_db [OF demo_sent_run] reachable_run [OF demo_running_reachable] by (simp add: start_sched_def)
  then obtain st' where st': "recover_turn demo_config (Some ''closed'') ''j1'' ''a'' 1 ''boom'' 50 demo_sent = (Inr (), st')"
    using recover_turn_settles by blast
  have "map_option d_state (get_device (sc_db demo_sent) ''j1'' ''a'') = Some D_DISPATCHING"
    "map_option d_state (get_device (sc_db (snd (recover_turn demo_config (Some ''closed'') ''j1'' ''a'' 1 ''boom'' 50 demo_sent))) ''j1'' ''a'') = Some D_RECONCILING"
    by code_simp+
  with st' show ?thesis by simp
qed

end
