(* ===== verification/Push_Sessions.thy ===== *)
theory Push_Sessions
  imports Push_Runtime Push_Handover
begin

text \<open>
  The runtime as a transition system: the scheduler, the frames of devices, registrations,
  disconnections, deadlines and HTTP requests interleave in any order. Every handler drives the
  database through the operations of the store and keeps the ownership of the waiters.
\<close>

section \<open>Handlers are calm\<close>

lemma sched_ok_indep [simp]:
  "sched_ok (st\<lparr>sc_pub := p\<rparr>) = sched_ok st" "sched_ok (st\<lparr>sc_wake := b\<rparr>) = sched_ok st"
  "sched_ok (st\<lparr>sc_sent := x\<rparr>) = sched_ok st" "sched_ok (st\<lparr>sc_sessions := ss\<rparr>) = sched_ok st"
  by (simp_all add: sched_ok_def accepts_def)

lemma calm_refl [simp]: "calm st st"
  by (simp add: calm_def)

lemma calm_trans: "calm st st' \<Longrightarrow> calm st' st'' \<Longrightarrow> calm st st''"
  by (auto simp: calm_def)

lemma calm_indep [simp]:
  "calm st (publish_snapshot snap st') = calm st st'" "calm st (wake st') = calm st st'"
  "calm st (st'\<lparr>sc_sent := x\<rparr>) = calm st st'" "calm st (st'\<lparr>sc_sessions := ss\<rparr>) = calm st st'"
  "calm (st\<lparr>sc_sessions := ss\<rparr>) st' = calm st st'" "calm (st\<lparr>sc_sent := x\<rparr>) st' = calm st st'"
  "calm (publish_snapshot snap st) st' = calm st st'"
  by (simp_all add: calm_def publish_snapshot_def wake_def)

lemma db_publishes [sched_db_simps]: "sc_db (publish_snapshots snaps st) = sc_db st"
  unfolding publish_snapshots_def by (induction snaps arbitrary: st) (auto simp: publish_snapshot_def)

lemma db_wake [sched_db_simps]: "sc_db (wake st) = sc_db st"
  by (simp add: wake_def)

lemma calm_publishes [simp]: "calm st (publish_snapshots snaps st') = calm st st'"
  unfolding publish_snapshots_def by (induction snaps arbitrary: st') auto

lemma calm_publishes_left [simp]: "calm (publish_snapshots snaps st) st' = calm st st'"
  unfolding publish_snapshots_def by (induction snaps arbitrary: st) auto

lemma calm_wake_if [simp]: "calm st (wake_if b st') = calm st st'"
  by (simp add: wake_if_def)

lemma calm_release_push: "calm st st' \<Longrightarrow> calm st (release_push j d reason st')"
  by (simp add: release_push_def calm_release)

lemma calm_release_push_left: "calm (release_push j d reason st) st' \<Longrightarrow> calm st st'"
  by (simp add: release_push_def calm_release_left)

lemma on_db_calm:
  assumes "on_db op st = (q, st')" and "\<And>r s'. op (sc_db st) = (r, s') \<Longrightarrow> store_step (sc_db st) s'"
  shows "calm st st'"
  using on_db_quiet [OF assms(1)] assms(2) calm_quiet by blast

lemma transition_calm:
  assumes "on_db (transition_device j d expected target flds idem now) st = (r, st')"
    and "target \<noteq> D_WAITING_TRANSFER" and "\<not> list_ex sets_replay_count flds"
  shows "calm st st'"
  using assms(1) by (rule on_db_calm) (rule S_transition [OF _ assms(2,3)])

lemma mark_reconciling_calm: "on_db (mark_reconciling j d exp reason dl now) st = (q, st') \<Longrightarrow> calm st st'"
  by (erule on_db_calm) (rule S_mark_reconciling)

lemma report_calm: "on_db (reconcile_report j d attempt status phase info now) st = (q, st') \<Longrightarrow> calm st st'"
  by (erule on_db_calm) (rule S_report)

lemma clear_fence_calm: "on_db (clear_matching_fence j d attempt now) st = (q, st') \<Longrightarrow> calm st st'"
  by (erule on_db_calm) (rule S_clear)

lemma clear_opaque_calm: "on_db (clear_matching_opaque_fence d j att now) st = (q, st') \<Longrightarrow> calm st st'"
  by (erule on_db_calm) (rule S_clear_opaque)

lemma late_calm: "on_db (settle_late_fenced_result j d attempt now) st = (q, st') \<Longrightarrow> calm st st'"
  by (erule on_db_calm) (rule S_late)

lemma settle_calm: "on_db (settle_result j d attempt t now) st = (q, st') \<Longrightarrow> calm st st'"
  by (erule on_db_calm) (rule S_settle)

lemma opaque_calm: "on_db (add_opaque_fence d oid protocol process detail now) st = (q, st') \<Longrightarrow> calm st st'"
  by (erule on_db_calm) (rule S_opaque)

lemma replaced_calm: "on_db (clear_fence_on_process_replacement d process v1 now) st = (q, st') \<Longrightarrow> calm st st'"
  by (erule on_db_calm) (rule S_replaced)

lemma acceptance_calm: "on_db (mark_acceptance_reconciling j d a dl now) st = (q, st') \<Longrightarrow> calm st st'"
  by (erule on_db_calm) (rule S_acceptance)

lemma unconfirmed_calm: "on_db (mark_unconfirmed j d process detail dl obs now) st = (q, st') \<Longrightarrow> calm st st'"
  by (erule on_db_calm) (rule S_unconfirmed)

lemma enable_calm: "on_db (enable_dispatch j now) st = (q, st') \<Longrightarrow> calm st st'"
  by (erule on_db_calm) (rule S_enable)

lemmas db_calm = mark_reconciling_calm report_calm clear_fence_calm clear_opaque_calm late_calm settle_calm opaque_calm
  replaced_calm acceptance_calm unconfirmed_calm enable_calm

lemma transition_or_skip_calm:
  assumes "transition_or_skip skip before (transition_device j d expected target flds idem now) st = (r, st')"
    and "target \<noteq> D_WAITING_TRANSFER" and "\<not> list_ex sets_replay_count flds" and "\<And>x. calm x (before x)"
  shows "calm st st'"
proof -
  obtain q st1 where o: "on_db (transition_device j d expected target flds idem now) st = (q, st1)" by fastforce
  then have "calm st st1" using assms(2,3) by (rule transition_calm)
  then have "calm st st1 \<and> calm st (before st1)" using assms(4) calm_trans by blast
  then show ?thesis using assms(1) o by (auto simp: transition_or_skip_def split: sum.splits)
qed

lemma transfer_complete_calm: "handle_transfer_complete d payload now st = (r, st') \<Longrightarrow> calm st st'"
  unfolding handle_transfer_complete_def
  by (auto split: option.splits sum.splits json.splits if_splits
      dest!: transition_or_skip_calm intro: calm_release_push)

lemma validation_complete_calm: "handle_validation_complete d payload now st = (r, st') \<Longrightarrow> calm st st'"
  unfolding handle_validation_complete_def
  by (auto split: option.splits sum.splits prod.splits if_splits dest!: transition_or_skip_calm)

lemma phase_calm: "handle_phase d payload now st = (r, st') \<Longrightarrow> calm st st'"
  unfolding handle_phase_def
  by (auto split: option.splits if_splits dest!: transition_or_skip_calm)

lemma reconcile_report_calm: "handle_reconcile_report d payload now st = (r, st') \<Longrightarrow> calm st st'"
  unfolding handle_reconcile_report_def after_report_def Let_def
  by (auto split: option.splits prod.splits sum.splits if_splits dest!: db_calm intro!: calm_release_push)

lemma late_acceptance_calm: "late_acceptance d j payload now st = (r, st') \<Longrightarrow> calm st st'"
  unfolding late_acceptance_def Let_def
  by (auto split: option.splits prod.splits sum.splits if_splits dest!: db_calm intro!: calm_release_push)

lemma response_calm: "command_response j d attempt outcome payload st = (b, st') \<Longrightarrow> calm st st'"
  using response_ok [of j d attempt outcome payload st b st']
  by (auto simp: calm_def command_response_def split: option.splits if_splits)

lemma accepted_calm: "handle_accepted d j payload now st = (r, st') \<Longrightarrow> calm st st'"
  unfolding handle_accepted_def
  by (auto split: prod.splits bool.splits if_splits dest!: response_calm late_acceptance_calm intro: calm_trans)

lemma rejected_calm: "handle_rejected net d j payload now st = (r, st') \<Longrightarrow> calm st st'"
  unfolding handle_rejected_def Let_def
  by (auto split: prod.splits bool.splits if_splits dest!: response_calm late_response_calm intro: calm_trans)

lemma hand_over_calm: "hand_over cfg d reason now st = (r, st') \<Longrightarrow> calm st st'"
  unfolding hand_over_def Let_def
  by (auto split: option.splits prod.splits sum.splits if_splits
      dest!: transition_calm mark_reconciling_calm calm_release_left intro: calm_release)

lemma registration_active_calm: "registration_active_snapshots d process active now st = (r, st') \<Longrightarrow> calm st st'"
  unfolding registration_active_snapshots_def Let_def
  by (auto split: option.splits prod.splits sum.splits if_splits
      dest!: transition_calm opaque_calm report_calm intro: calm_trans)

lemma registration_report_calm: "registration_report d session payload now st = (r, st') \<Longrightarrow> calm st st'"
  unfolding registration_report_def Let_def
  by (auto split: option.splits prod.splits sum.splits if_splits json.splits
      dest!: registration_active_calm replaced_calm)

text \<open>The same for the runtime: \<open>calm_rt\<close> compares the scheduler states.\<close>

abbreviation calm_rt :: "runtime \<Rightarrow> runtime \<Rightarrow> bool" where
  "calm_rt rt rt' \<equiv> calm (rt_sched rt) (rt_sched rt')"

lemma on_sched_calm:
  "on_sched f rt = (r, rt') \<Longrightarrow> (\<And>r st'. f (rt_sched rt) = (r, st') \<Longrightarrow> calm (rt_sched rt) st') \<Longrightarrow> calm_rt rt rt'"
  by (auto simp: on_sched_def split: prod.splits)

lemma sched_sync [simp]: "rt_sched (sync rt) = (rt_sched rt)\<lparr>sc_sessions := dispatch_sessions rt\<rparr>"
  by (simp add: sync_def)

lemma ack_calm [simp]: "calm st (rt_sched (send_result_ack net session d j accepted revision reason rt)) = calm st (rt_sched rt)"
  by (simp add: send_result_ack_def)

lemma on_sched_db_calm:
  "on_sched (on_db (settle_late_fenced_result j d 1 now)) rt = (q1, rt') \<Longrightarrow> calm_rt rt rt'"
  "on_sched (on_db (settle_result j d 1 t now)) rt = (q2, rt') \<Longrightarrow> calm_rt rt rt'"
  "on_sched (on_db (clear_matching_opaque_fence d j att now)) rt = (q3, rt') \<Longrightarrow> calm_rt rt rt'"
  "on_sched (on_db (mark_acceptance_reconciling j d a dl now)) rt = (q4, rt') \<Longrightarrow> calm_rt rt rt'"
  "on_sched (on_db (mark_unconfirmed j d process detail dlo obs now)) rt = (q5, rt') \<Longrightarrow> calm_rt rt rt'"
  "on_sched (on_db (enable_dispatch j now)) rt = (q6, rt') \<Longrightarrow> calm_rt rt rt'"
  by (auto elim!: on_sched_calm dest: db_calm)

lemma late_result_calm: "late_result net session d j now rt = (r, rt') \<Longrightarrow> calm_rt rt rt'"
  unfolding late_result_def Let_def
  by (auto split: prod.splits sum.splits if_splits dest!: on_sched_db_calm intro!: calm_release_push)

lemma recheck_fence_calm: "recheck_fence d j accepted reason snap now rt = (r, rt') \<Longrightarrow> calm_rt rt rt'"
  unfolding recheck_fence_def
  by (auto split: prod.splits sum.splits if_splits bool.splits dest!: on_sched_db_calm)

lemma settle_and_ack_calm: "settle_and_ack net session d j payload row now rt = (r, rt') \<Longrightarrow> calm_rt rt rt'"
  unfolding settle_and_ack_def Let_def
  by (auto split: prod.splits sum.splits if_splits dest!: on_sched_db_calm recheck_fence_calm
      intro!: calm_release_push intro: calm_trans)

lemma handle_result_calm: "handle_result net session d payload now rt = (r, rt') \<Longrightarrow> calm_rt rt rt'"
  unfolding handle_result_def Let_def
  by (auto split: prod.splits sum.splits if_splits option.splits bool.splits
      dest!: on_sched_db_calm late_result_calm settle_and_ack_calm intro: calm_trans)

lemma consumed_snd: "consumed r = (q, s) \<Longrightarrow> snd r = s"
  by (auto simp: consumed_def split: prod.splits sum.splits)

lemma consumed_calm:
  "consumed (on_sched f rt) = (r, rt') \<Longrightarrow> (\<And>r st'. f (rt_sched rt) = (r, st') \<Longrightarrow> calm (rt_sched rt) st') \<Longrightarrow> calm_rt rt rt'"
  using on_sched_calm [of f rt "fst (on_sched f rt)" "snd (on_sched f rt)"] consumed_snd by fastforce

lemma consumed_result_calm: "consumed (handle_result net session d payload now rt) = (r, rt') \<Longrightarrow> calm_rt rt rt'"
  using handle_result_calm [OF surjective_pairing] consumed_snd by metis

lemma job_v1_calm: "handle_owned_job_v1_message net session d payload now rt = (r, rt') \<Longrightarrow> calm_rt rt rt'"
  unfolding handle_owned_job_v1_message_def Let_def
  by (auto split: option.splits if_splits dest!: consumed_result_calm elim!: consumed_calm
      dest: accepted_calm rejected_calm transfer_complete_calm validation_complete_calm phase_calm reconcile_report_calm)

lemma legacy_message_calm: "handle_owned_legacy_message net session d payload now rt = (r, rt') \<Longrightarrow> calm_rt rt rt'"
  unfolding handle_owned_legacy_message_def
  by (auto split: option.splits if_splits dest!: consumed_result_calm transition_or_skip_calm elim!: consumed_calm
      dest: calm_release_push_left)

lemma device_message_calm: "handle_device_message net ws d payload now rt = (r, rt') \<Longrightarrow> calm_rt rt rt'"
  unfolding handle_device_message_def
  by (auto split: option.splits if_splits dest: job_v1_calm legacy_message_calm)

lemma request_reconcile_calm: "request_reconcile net d rt = (r, rt') \<Longrightarrow> calm_rt rt rt'"
  unfolding request_reconcile_def
  by (auto split: option.splits prod.splits sum.splits if_splits elim!: on_sched_calm
      dest!: send_reconcile_quiet send_exact_quiet intro: calm_quiet)

lemma drop_candidate_sched [simp]: "rt_sched (drop_candidate d ws rt) = rt_sched rt"
  by (simp add: drop_candidate_def)

lemma set_ready_sched [simp]: "rt_sched (set_ready b d rt) = rt_sched rt"
  by (simp add: set_ready_def)

lemma on_sched_hand_over_calm: "on_sched (hand_over cfg d reason now) rt = (r, rt') \<Longrightarrow> calm_rt rt rt'"
  by (erule on_sched_calm) (rule hand_over_calm)

lemma on_sched_report_calm: "on_sched (registration_report d session payload now) rt = (r, rt') \<Longrightarrow> calm_rt rt rt'"
  by (erule on_sched_calm) (rule registration_report_calm)

lemma disconnect_calm: "disconnect_device cfg d ws now rt = (r, rt') \<Longrightarrow> calm_rt rt rt'"
  unfolding disconnect_device_def Let_def
  by (auto split: prod.splits sum.splits if_splits dest!: on_sched_hand_over_calm)

lemma register_calm: "register_device cfg net net2 session payload now rt = (r, rt') \<Longrightarrow> calm_rt rt rt'"
proof -
  let ?d = "ls_device_id session"
  define replaced where "replaced = (case map_of (rt_sessions rt) ?d of None \<Rightarrow> False | Some previous \<Rightarrow> ls_ws previous \<noteq> ls_ws session)"
  define rt1 where "rt1 = sync (if replaced then rt\<lparr>rt_sessions := AList.delete ?d (rt_sessions rt)\<rparr> else rt)"
  obtain q2 rt2 where 2: "(if replaced then on_sched (hand_over cfg ?d ''connection_replaced'' now) rt1 else (Inr [], rt1)) = (q2, rt2)"
    by fastforce
  obtain q3 rt3 where 3: "on_sched (registration_report ?d session payload now) rt2 = (q3, rt3)" by fastforce
  have "calm_rt rt rt1" by (simp add: rt1_def)
  moreover have "calm_rt rt1 rt2" using 2 on_sched_hand_over_calm by (auto split: if_splits)
  ultimately have c2: "calm_rt rt rt2" by (rule calm_trans)
  then have c3: "calm_rt rt rt3" using on_sched_report_calm [OF 3] by (rule calm_trans)
  assume "register_device cfg net net2 session payload now rt = (r, rt')"
  then show ?thesis
    unfolding register_device_def Let_def replaced_def [symmetric] rt1_def [symmetric] 2 prod.case
    using c2 c3
    by (auto simp: 3 split: sum.splits prod.splits option.splits if_splits dest!: request_reconcile_calm
        intro: calm_trans)
qed

lemma fold_calm: "(\<And>x rt. calm_rt rt (f x rt)) \<Longrightarrow> calm_rt rt (fold f xs rt)"
proof (induction xs arbitrary: rt)
  case (Cons x xs)
  then have "calm_rt rt (f x rt)" "calm_rt (f x rt) (fold f xs (f x rt))" by blast+
  then show ?case by (auto intro: calm_trans)
qed simp

lemma acceptance_row_calm: "calm_rt rt (expire_acceptance_row cfg net row now rt)"
proof (cases "on_sched (on_db (mark_acceptance_reconciling (d_job_id row) (d_device_id row) (the (d_accept_deadline row))
    (now + cf_accept_reconciliation_ms cfg) now)) rt")
  case (Pair q rt1)
  then have c: "calm_rt rt rt1" by (rule on_sched_db_calm)
  have "calm_rt rt (snd (request_reconcile net (d_device_id row) x))" if "calm_rt rt x" for x
    using that request_reconcile_calm [OF surjective_pairing] by (rule calm_trans)
  with c show ?thesis
    unfolding expire_acceptance_row_def Let_def Pair by (auto split: sum.splits prod.splits)
qed

lemma reconciliation_row_calm: "calm_rt rt (expire_reconciliation_row row now rt)"
  unfolding expire_reconciliation_row_def Let_def
  by (auto split: sum.splits prod.splits dest!: on_sched_db_calm intro!: calm_release)

lemma housekeeping_calm: "calm_rt rt (housekeeping cfg net now rt)"
proof -
  have "calm_rt rt (fold (\<lambda>row. expire_acceptance_row cfg net row now) rows rt)" for rows
    by (rule fold_calm) (rule acceptance_row_calm)
  moreover have "calm_rt x (fold (\<lambda>row. expire_reconciliation_row row now) rows x)" for rows x
    by (rule fold_calm) (rule reconciliation_row_calm)
  ultimately show ?thesis unfolding housekeeping_def Let_def by (rule calm_trans)
qed

lemma admin_calm: "admin_push_files j now rt = (r, rt') \<Longrightarrow> calm_rt rt rt'"
  unfolding admin_push_files_def Let_def
  by (auto split: sum.splits prod.splits if_splits dest!: on_sched_db_calm)

lemma create_handler_calm: "create_job_handler sha256 cfg lim new_id body now rt = (r, rt') \<Longrightarrow> calm_rt rt rt'"
proof -
  have *: "calm_rt rt rt1"
    if "on_sched (on_db (create_job req ps tm new_id now)) rt = (q, rt1)" "target_devices req \<noteq> []" for req ps tm q rt1
    using that(1) by (rule on_sched_calm) (erule on_db_calm, rule S_create [OF _ that(2)])
  assume "create_job_handler sha256 cfg lim new_id body now rt = (r, rt')"
  then show ?thesis
    unfolding create_job_handler_def
    by (auto split: sum.splits prod.splits option.splits json.splits if_splits dest!: * canonicalize_Inr)
qed

lemma upload_failure_calm:
  assumes "record_upload_failure j state code detail now rt = (r, rt')"
    and "\<And>job. get_job (sc_db (rt_sched rt)) j = Some job \<Longrightarrow> j_state job \<notin> {J_RUNNING, J_RECONCILING}"
  shows "calm_rt rt rt'"
proof -
  obtain q rt1 where o: "on_sched (\<lambda>st. publishing (fail_pre_dispatch j state code (take 2000 detail) now) st) rt = (q, rt1)"
    by fastforce
  then have "calm_rt rt rt1"
  proof (rule on_sched_calm)
    fix r st'
    assume "publishing (fail_pre_dispatch j state code (take 2000 detail) now) (rt_sched rt) = (r, st')"
    then have "quiet (rt_sched rt) st'" by (rule publishing_quiet) (erule S_fail, erule assms(2))
    then show "calm (rt_sched rt) st'" by (rule calm_quiet)
  qed
  then show ?thesis using assms(1) o by (auto simp: record_upload_failure_def split: sum.splits)
qed

section \<open>The runtime as a transition system\<close>

text \<open>
  Beside the handlers: the established server may change its own tables at any time, and a new
  REGISTER may arrive. The settlement of a result is also a step of its own, for a deadline may commit
  between the read of the assignment and the settlement. A failed upload is recorded for a job that is not dispatched.
\<close>

inductive runtime_step :: "sched_config \<Rightarrow> runtime \<Rightarrow> runtime \<Rightarrow> bool" for cfg where
  RT_sched: "sched_step cfg (rt_sched rt) st \<Longrightarrow> runtime_step cfg rt (rt\<lparr>rt_sched := st\<rparr>)"
| RT_message: "handle_device_message net ws d payload now rt = (r, rt') \<Longrightarrow> runtime_step cfg rt rt'"
| RT_settle: "settle_and_ack net session d j payload row now rt = (r, rt') \<Longrightarrow> runtime_step cfg rt rt'"
| RT_candidate: "runtime_step cfg rt (sync (note_registration_candidate d ws rt))"
| RT_register: "register_device cfg net net2 session payload now rt = (r, rt') \<Longrightarrow> runtime_step cfg rt rt'"
| RT_disconnect: "disconnect_device cfg d ws now rt = (r, rt') \<Longrightarrow> runtime_step cfg rt rt'"
| RT_housekeeping: "runtime_step cfg rt (housekeeping cfg net now rt)"
| RT_admin: "admin_push_files j now rt = (a, rt') \<Longrightarrow> runtime_step cfg rt rt'"
| RT_create: "create_job_handler sha256 cfg lim new_id body now rt = (h, rt') \<Longrightarrow> runtime_step cfg rt rt'"
| RT_upload_failure: "record_upload_failure j state code detail now rt = (r, rt') \<Longrightarrow>
    (\<And>job. get_job (sc_db (rt_sched rt)) j = Some job \<Longrightarrow> j_state job \<notin> {J_RUNNING, J_RECONCILING}) \<Longrightarrow>
    runtime_step cfg rt rt'"
| RT_established: "runtime_step cfg rt (sync (rt\<lparr>rt_devices := ds, rt_registry := rs\<rparr>))"

lemma runtime_step_sound:
  "runtime_step cfg rt rt' \<Longrightarrow> store_step\<^sup>*\<^sup>* (sc_db (rt_sched rt)) (sc_db (rt_sched rt')) \<and>
    (sched_ok (rt_sched rt) \<longrightarrow> sched_ok (rt_sched rt'))"
proof (induction rule: runtime_step.induct)
  case (RT_sched rt st)
  then show ?case using sched_step_db sched_step_ok by auto
next
  case (RT_upload_failure j state code detail now rt r rt')
  then show ?case using upload_failure_calm unfolding calm_def by blast
next
  case (RT_housekeeping rt net now)
  then show ?case using housekeeping_calm unfolding calm_def by blast
next
  case (RT_candidate rt d ws)
  then show ?case by (simp add: note_registration_candidate_def)
qed (auto dest!: device_message_calm settle_and_ack_calm register_calm disconnect_calm admin_calm create_handler_calm simp: calm_def)

definition start_runtime :: "db \<Rightarrow> runtime" where
  "start_runtime s = \<lparr>rt_sched = start_sched s, rt_sessions = [], rt_candidates = [], rt_devices = [], rt_registry = []\<rparr>"

interpretation runtime: invariant_system "start_runtime s" "runtime_step cfg"
  "\<lambda>rt. store_step\<^sup>*\<^sup>* s (sc_db (rt_sched rt)) \<and> sched_ok (rt_sched rt)" for s cfg
proof unfold_locales
  show "store_step\<^sup>*\<^sup>* s (sc_db (rt_sched (start_runtime s))) \<and> sched_ok (rt_sched (start_runtime s))"
    by (simp add: start_runtime_def start_sched_ok) (simp add: start_sched_def)
  show "store_step\<^sup>*\<^sup>* s (sc_db (rt_sched rt')) \<and> sched_ok (rt_sched rt')"
    if "runtime_step cfg rt rt'" "store_step\<^sup>*\<^sup>* s (sc_db (rt_sched rt)) \<and> sched_ok (rt_sched rt)" for rt rt'
    using that runtime_step_sound by (meson rtranclp_trans)
qed

section \<open>Properties\<close>


section \<open>Ownership\<close>

lemma unheard_frame: "handle_device_message net ws d payload now rt = (r, rt') \<Longrightarrow> hears rt d ws = None \<Longrightarrow> rt' = rt"
  by (auto simp: handle_device_message_def split: if_splits)

lemma on_sched_sessions: "on_sched f rt = (r, rt') \<Longrightarrow> rt_sessions rt' = rt_sessions rt"
  by (auto simp: on_sched_def split: prod.splits)

lemma sync_sessions [simp]: "rt_sessions (sync rt) = rt_sessions rt" "rt_sessions (drop_candidate d ws rt) = rt_sessions rt"
    "rt_sessions (set_ready b d rt) = rt_sessions rt"
  by (simp_all add: sync_def drop_candidate_def set_ready_def)

lemma request_reconcile_sessions: "request_reconcile net d rt = (r, rt') \<Longrightarrow> rt_sessions rt' = rt_sessions rt"
  by (auto simp: request_reconcile_def dest: on_sched_sessions split: option.splits)

text \<open>After a registration, however it ends, no session of another socket is left.\<close>

lemma register_sessions:
  assumes "register_device cfg net net2 session payload now rt = (r, rt')"
    and "map_of (rt_candidates rt) (ls_device_id session) = Some (ls_ws session)"
    and "legacy_owns_device rt (ls_device_id session) (ls_ws session)"
    and "map_of (rt_sessions rt') (ls_device_id session) = Some other"
  shows "ls_ws other = ls_ws session"
  using assms
  by (auto simp: register_device_def Let_def delete_conv update_conv' dest!: on_sched_sessions request_reconcile_sessions
      split: prod.splits sum.splits option.splits if_splits)


section \<open>Helper lemmas on active assignments\<close>

lemma active_row: "active_assignment_for_device s d = Some row \<Longrightarrow>
  row \<in> set (db_devices s) \<and> d_device_id row = d \<and> is_active row \<and> get_job s (d_job_id row) \<noteq> None"
  by (auto simp: active_assignment_for_device_def device_rows_of_def dest!: first_row_in)

lemma no_active_row: "db_inv s \<Longrightarrow> active_assignment_for_device s d = None \<Longrightarrow> x \<in> set (db_devices s) \<Longrightarrow>
  d_device_id x = d \<Longrightarrow> \<not> is_active x"
proof
  assume i: "db_inv s" and a: "active_assignment_for_device s d = None" and x: "x \<in> set (db_devices s)" "d_device_id x = d" "is_active x"
  have "get_device s (d_job_id x) d = Some x" using i x by (subst get_device_iff) (auto simp: db_inv_def)
  then have "get_job s (d_job_id x) \<noteq> None" using device_has_job [OF i] by blast
  with a x show False by (auto simp: active_assignment_for_device_def device_rows_of_def filter_empty_conv)
qed

lemma unique_active: "db_inv s \<Longrightarrow> x \<in> set (db_devices s) \<Longrightarrow> y \<in> set (db_devices s) \<Longrightarrow> is_active x \<Longrightarrow> is_active y \<Longrightarrow>
  d_device_id x = d_device_id y \<Longrightarrow> x = y"
proof -
  assume "db_inv s" and xy: "x \<in> set (db_devices s)" "y \<in> set (db_devices s)" "is_active x" "is_active y" "d_device_id x = d_device_id y"
  then have "inj_on d_device_id (set (filter is_active (db_devices s)))"
    by (simp add: db_inv_def keys_ok_def active_index_ok_def distinct_map)
  then show "x = y" using xy by (auto dest: inj_onD)
qed

lemma transition_rows:
  assumes "transition_device j d expected target flds False now s = (Inr snap, s')" and "x \<in> set (db_devices s')"
  shows "d_state x = target \<or> (x \<in> set (db_devices s) \<and> d_key x \<noteq> (j, d))"
proof -
  let ?f = "\<lambda>r. fold apply_field (stamp_terminal target now flds) (r\<lparr>d_state := target, d_updated_at := now\<rparr>)"
  obtain s1 where s1: "update_devices_where (\<lambda>r. d_key r = (j, d)) ?f s = Inr s1"
      "finish_device_change j now s1 = Inr (snap, s')"
    using assms(1)
    by (auto simp: transition_device_def transact_def rbind_eq_Inr update_device_def split: option.splits if_splits sum.splits)
  then have "x \<in> set (update_rows (\<lambda>r. d_key r = (j, d)) ?f (db_devices s))"
    using assms(2) devices_finish [OF s1(2)] by (auto simp: update_devices_where_def Let_def split: if_splits)
  then show ?thesis by (auto simp: update_rows_def apply_fields_state)
qed

definition grounded :: "device_id \<Rightarrow> db \<Rightarrow> bool" where
  "grounded d s \<longleftrightarrow> (\<forall>x \<in> set (db_devices s). d_device_id x = d \<longrightarrow> d_state x \<notin> mid_flight)"

lemma mid_flight_active: "d_state x \<in> mid_flight \<Longrightarrow> is_active x"
  by (auto simp: mid_flight_def is_active_def ACTIVE_DEVICE_STATES_def)

lemma transition_grounds:
  assumes inv: "db_inv s" and row: "row \<in> set (db_devices s)" "is_active row"
    and t: "transition_device (d_job_id row) (d_device_id row) expected target flds False now s = (Inr snap, s')"
    and target: "target \<notin> mid_flight"
  shows "grounded (d_device_id row) s'"
  unfolding grounded_def
proof (intro ballI impI notI)
  fix x
  assume x: "x \<in> set (db_devices s')" "d_device_id x = d_device_id row" "d_state x \<in> mid_flight"
  then have "x \<in> set (db_devices s)" "d_key x \<noteq> (d_job_id row, d_device_id row)"
    using transition_rows [OF t x(1)] target by auto
  moreover have "x = row" using unique_active [OF inv calculation(1) row(1)] mid_flight_active [OF x(3)] row(2) x(2) by blast
  ultimately show False by simp
qed

lemma hand_over_total:
  assumes inv: "db_inv (sc_db st)" and ids: "\<And>x. x \<in> set (db_devices (sc_db st)) \<Longrightarrow> d_job_id x \<noteq> []"
  shows "\<exists>snaps st'. hand_over cfg d reason now st = (Inr snaps, st') \<and> grounded d (sc_db st')"
proof (cases "active_assignment_for_device (sc_db st) d")
  case None
  then show ?thesis
    using no_active_row [OF inv] by (auto simp: hand_over_def grounded_def dest: mid_flight_active)
next
  case (Some row)
  note r = active_row [OF Some]
  have g: "get_device (sc_db st) (d_job_id row) d = Some row"
    using inv r by (subst get_device_iff) (auto simp: db_inv_def)
  have key: "TransferKey K_push d (Some (d_job_id row)) (Some (d_attempt row)) =
      Inr \<lparr>k_kind = K_push, k_device_id = d, k_job_id = Some (d_job_id row), k_attempt = Some (d_attempt row)\<rparr>"
    using ids inv_device_ok [OF inv g] r by (auto simp: TransferKey_def device_ok_def)
  have grounds: "grounded d s'"
    if "transition_device (d_job_id row) d expected target flds False now (sc_db st) = (Inr snap, s')" "target \<notin> mid_flight"
    for expected target flds snap s'
    using transition_grounds [OF inv] that r by blast
  consider "d_state row = D_WAITING_TRANSFER" | "d_state row \<in> {D_DISPATCHING, D_DOWNLOADING, D_VALIDATING, D_APPLYING}"
    | "d_state row \<notin> mid_flight" by (auto simp: mid_flight_def)
  then show ?thesis
  proof cases
    case 1
    obtain snap s' where t: "transition_device (d_job_id row) d (Some {D_WAITING_TRANSFER}) D_QUEUED
        [F_queue_reason (Some ''awaiting_dispatch'')] False now (sc_db st) = (Inr snap, s')"
      using transition_total [OF inv g, of "Some {D_WAITING_TRANSFER}" D_QUEUED "[F_queue_reason (Some ''awaiting_dispatch'')]" now] 1
      by (auto simp: validate_recovery ACTIVE_DEVICE_STATES_def)
    then show ?thesis
      using grounds [OF t] t 1 Some by (simp add: hand_over_def key on_db_def release_key_def mid_flight_def)
  next
    case 2
    let ?short = "d_state row = D_DISPATCHING \<and> d_accepted_at row = None"
    let ?why = "if ?short then ''disconnect_before_accept'' else ''device_disconnect''"
    let ?dl = "now + (if ?short then cf_accept_reconciliation_ms cfg else cf_reconciliation_ms cfg)"
    let ?fl = "[F_reconciliation_reason (Some ?why), F_reconciliation_deadline (Some ?dl), F_accept_deadline None]"
    obtain snap s' where t: "transition_device (d_job_id row) d (Some {d_state row}) D_RECONCILING ?fl False now (sc_db st) = (Inr snap, s')"
      using transition_total [OF inv g, of "Some {d_state row}" D_RECONCILING ?fl now] validate_recovery(2) [OF 2] 2
      by (auto simp: ACTIVE_DEVICE_STATES_def)
    have "hand_over cfg d reason now st = (Inr [snap], (release_key \<lparr>k_kind = K_push, k_device_id = d,
        k_job_id = Some (d_job_id row), k_attempt = Some (d_attempt row)\<rparr> reason st)\<lparr>sc_db := s'\<rparr>)"
      using 2 Some t by (auto simp: hand_over_def key on_db_def release_key_def mark_reconciling_def Let_def)
    then show ?thesis using grounds [OF t] by (simp add: mid_flight_def)
  next
    case 3
    then have "x \<in> set (db_devices (sc_db st)) \<Longrightarrow> d_device_id x = d \<Longrightarrow> d_state x \<notin> mid_flight" for x
      using unique_active [OF inv, of x row] r by (auto dest: mid_flight_active)
    then show ?thesis
      using 3 Some by (auto simp: hand_over_def key release_key_def grounded_def mid_flight_def Let_def)
  qed
qed

section \<open>Disconnection hands the device over\<close>


section \<open>Late results\<close>

lemma get_job_some: "r \<in> set (db_jobs s) \<Longrightarrow> get_job s (j_job_id r) \<noteq> None"
  by (auto simp: get_job_def lookup_row_None_iff)

lemma publish_bumped_total:
  assumes "distinct ids" and "\<And>k. k \<in> set ids \<Longrightarrow> get_job s k \<noteq> None"
  shows "\<exists>snaps s'. publish_bumped ids t s = Inr (snaps, s') \<and> db_fences s' = db_fences s"
proof -
  have "\<exists>snap. snapshot_of (bump_all ids t s) k = Inr snap" if "k \<in> set ids" for k
    using agg_bump_all [OF assms(1), of t s k] assms(2) [OF that] that snapshot_total by (auto simp: agg_def)
  then obtain snaps where "rmap (snapshot_of (bump_all ids t s)) ids = Inr snaps" using rmap_total by metis
  then show ?thesis by (simp add: publish_bumped_def Let_def)
qed

lemma clear_fence_total:
  "\<exists>snaps s'. clear_fence j d now s = Inr (snaps, s') \<and> get_fence s' d = None"
proof -
  have f: "get_fence (delete_fence d s) d = None"
    using lookup_delete_rows_key [of f_device_id d d "db_fences s"] by (simp add: get_fence_def delete_fence_def)
  have "get_job (delete_fence d s) k \<noteq> None" if "k \<in> set (visible_job_ids (delete_fence d s) d (Some j))" for k
    using that f get_job_some [of _ "delete_fence d s"]
    by (auto simp: visible_job_ids_def fence_visible_job_ids_def Let_def split: if_splits)
  then obtain snaps s' where "publish_bumped (visible_job_ids (delete_fence d s) d (Some j)) now (delete_fence d s) = Inr (snaps, s')"
      "db_fences s' = db_fences (delete_fence d s)"
    using publish_bumped_total distinct_visible_job_ids by metis
  then show ?thesis using f by (auto simp: clear_fence_def get_fence_def)
qed

lemma snapshot_view:
  assumes "snapshot_of s j = Inr snap" and "get_device s j d = Some row" and "keys_ok s"
  shows "map_option dv_state (map_of (s_devices snap) d) = Some (d_state row)"
proof -
  have "distinct (map d_device_id (job_devices s j))"
    using assms(3) by (auto simp: keys_ok_def job_devices_def distinct_map inj_on_def)
  moreover have "map_of (map (\<lambda>r. (d_device_id r, device_payload s j r)) rows) d = Some (device_payload s j row)"
    if "distinct (map d_device_id rows)" "row \<in> set rows" "d_device_id row = d" for rows
    using that by (intro map_of_is_SomeI) (auto simp: comp_def)
  ultimately show ?thesis
    using assms(1) get_device_job [OF assms(2)] get_device_iff [OF assms(3), of j d row] assms(2)
    by (auto simp: snapshot_of_def Let_def order_by_def device_payload_def distinct_map split: option.splits)
qed

text \<open>
  A device's result never loses the race against the reconciliation deadline: whatever the
  handler read before, when the assignment it settles has become unconfirmed behind its own fence, the
  settlement ends with the fence cleared and the result acknowledged as accepted.
\<close>

theorem late_result_clears_fence:
  assumes "db_reachable (sc_db (rt_sched rt))"
    and "get_device (sc_db (rt_sched rt)) j d = Some current" and "d_state current = D_UNCONFIRMED"
    and "fence_matches (get_fence (sc_db (rt_sched rt)) d) j 1"
    and "map_option ls_ref (map_of (rt_sessions rt) d) = Some (ls_ref session)"
  shows "\<exists>rt' revision. settle_and_ack None session d j payload row now rt = (Inr (), rt') \<and>
    get_fence (sc_db (rt_sched rt')) d = None \<and>
    last (sc_sent (rt_sched rt')) = (session, result_ack j True (Some revision) None)"
proof -
  let ?s = "sc_db (rt_sched rt)"
  have inv: "db_inv ?s" by (rule reachable_inv [OF assms(1)])
  have a: "d_attempt current = 1" using inv_device_ok [OF inv assms(2)] by (simp add: device_ok_def)
  obtain job where job: "get_job ?s j = Some job" using device_has_job [OF inv assms(2)] by blast
  obtain snap where snap: "snapshot_of ?s j = Inr snap" using snapshot_total [OF job] by blast
  have view: "map_option dv_state (map_of (s_devices snap) d) = Some D_UNCONFIRMED"
    using snapshot_view [OF snap assms(2)] inv assms(3) by (simp add: db_inv_def)
  have settle: "settle_result j d 1 t now ?s = (Inr (False, Some ''conflicting_terminal_result'', snap), ?s)" for t
    using assms(2,3) a snap
    by (auto simp: settle_result_def transact_def same_terminal_result_def result_target_def TERMINAL_DEVICE_STATES_def)
  obtain snaps s' where c: "clear_fence j d now ?s = Inr (snaps, s')" "get_fence s' d = None"
    using clear_fence_total by blast
  then have late: "settle_late_fenced_result j d 1 now ?s = (Inr (True, snaps), s')"
    using assms(2-4) a by (auto simp: settle_late_fenced_result_def transact_def fence_matches_def split: option.splits)
  let ?rt1 = "rt\<lparr>rt_sched := (rt_sched rt)\<lparr>sc_db := s'\<rparr>\<rparr>"
  have one: "on_sched (on_db (settle_result j d 1 t now)) rt =
      (Inr (False, Some ''conflicting_terminal_result'', snap), rt)" for t
    by (simp add: on_sched_def on_db_def settle)
  obtain last_snap where two: "recheck_fence d j False (Some ''conflicting_terminal_result'') snap now rt =
      (Inr (True, None, last_snap, snaps), ?rt1)"
    using view late by (auto simp: recheck_fence_def on_sched_def on_db_def)
  define st1 where "st1 = release_push j d ''terminal_result'' (rt_sched ?rt1)"
  define st where "st = wake (if snaps \<noteq> [] then publish_snapshots snaps st1
    else if d_state row \<notin> {D_SUCCEEDED, D_FAILED, D_INTERRUPTED} then publish_snapshot last_snap st1 else st1)"
  have "settle_and_ack None session d j payload row now rt =
      (Inr (), send_result_ack None session d j True (Some (s_revision last_snap)) None (?rt1\<lparr>rt_sched := st\<rparr>))"
    using one two by (simp add: settle_and_ack_def Let_def wake_if_def st_def st1_def)
  moreover have "sc_db st = s'"
    by (simp add: st_def st1_def release_push_def sched_db_simps publish_snapshot_def)
  ultimately show ?thesis using c(2) assms(5) by (auto simp: send_result_ack_def)
qed

section \<open>Admission\<close>

lemma insert_targets_new:
  assumes "insert_targets j protocols now seq ordinal ds s = Inr s'" and "x \<in> set (db_devices s')"
  shows "x \<in> set (db_devices s) \<or> (d_job_id x = j \<and> d_state x = D_QUEUED \<and> d_device_id x \<in> set ds \<and>
    (\<exists>caps. protocols (d_device_id x) = Some (d_protocol_mode x, caps) \<and> d_create_capabilities x = sort (remdups caps)))"
  using assms
proof (induction ds arbitrary: seq ordinal s)
  case (Cons d ds)
  obtain p caps s1 where 1: "protocols d = Some (p, caps)"
    "insert_device (new_device_row j d seq ordinal p caps now) s = Inr s1"
    "insert_targets j protocols now (seq + 1) (ordinal + 1) ds s1 = Inr s'"
    using Cons.prems(1) by (auto simp: rbind_eq_Inr split: option.splits)
  then have "db_devices s1 = db_devices s @ [new_device_row j d seq ordinal p caps now]"
    by (auto simp: insert_device_def split: if_splits)
  then show ?case using Cons.IH [OF 1(3) Cons.prems(2)] 1(1) by (auto simp: new_device_row_def)
qed simp

lemma create_job_new:
  assumes "create_job req protocols timeout new_id now s = (Inr (created, snap), s')"
  shows "if created then s_job_id snap = new_id \<and> get_job s new_id = None \<and> (\<forall>x. x \<in> set (db_devices s') - set (db_devices s) \<longrightarrow>
      d_job_id x = new_id \<and> d_state x = D_QUEUED \<and> d_device_id x \<in> set (target_devices req) \<and>
      (\<exists>caps. protocols (d_device_id x) = Some (d_protocol_mode x, caps) \<and> d_create_capabilities x = sort (remdups caps)))
    else s' = s"
proof (cases created)
  case True
  then obtain s1 seq s2 where 1: "insert_job (new_job_row req new_id now (now + timeout)) s = Inr s1"
    "next_enqueue_seq s1 (int (length (target_devices req))) = (seq, s2)"
    "insert_targets new_id protocols now seq 0 (target_devices req) s2 = Inr s'" "snapshot_of s' new_id = Inr snap"
    using assms
    by (auto simp: create_job_def transact_def rbind_eq_Inr Let_def split: option.splits prod.splits sum.splits if_splits)
      (metis surj_pair)
  have "db_devices s2 = db_devices s" "get_job s new_id = None"
    using 1(1,2) get_job_some by (auto simp: insert_job_def next_enqueue_seq_def new_job_row_def get_job_def lookup_row_None_iff
        split: if_splits option.splits)
  then show ?thesis using True insert_targets_new [OF 1(3)] snapshot_job_id [OF 1(4)] by auto
next
  case False
  then show ?thesis
    using assms
    by (auto simp: create_job_def transact_def rbind_eq_Inr Let_def split: option.splits prod.splits sum.splits if_splits)
      (metis surj_pair)
qed

lemma create_job_error: "create_job req protocols timeout new_id now s = (Inl e, s') \<Longrightarrow> s' = s"
  by (auto simp: create_job_def transact_def split: sum.splits prod.splits)

lemma admit_target_Inr:
  assumes "admit_target cfg rt d = Inr (p, caps)"
  shows "\<exists>session. map_of (dispatch_sessions rt) d = Some session \<and> protocol_for (cf_allow_legacy cfg) session = Some p \<and>
    caps = ls_capabilities session \<and> (\<forall>r. map_of (rt_registry rt) d = Some r \<longrightarrow> jget r ''retired'' \<noteq> JBool True)"
  using assms by (auto simp: admit_target_def Let_def split: if_splits option.splits)

text \<open>
  (C28) Admission: a request either changes nothing in the database, or it is answered 201 with a new
  job whose assignments are all queued for devices that were dispatchable at that moment: online on the
  newest connection, allowed to take commands, not retired, and recorded with the protocol and the
  capabilities of that very session.
\<close>

theorem create_job_admission:
  assumes "create_job_handler sha256 cfg lim new_id body now rt = (answer, rt')"
    and "sc_db (rt_sched rt') \<noteq> sc_db (rt_sched rt)"
  shows "\<exists>snap. answer = H_snapshot 201 snap \<and> s_job_id snap = new_id \<and> get_job (sc_db (rt_sched rt)) new_id = None \<and>
    (\<forall>x \<in> set (db_devices (sc_db (rt_sched rt'))) - set (db_devices (sc_db (rt_sched rt))).
       d_job_id x = new_id \<and> d_state x = D_QUEUED \<and>
       (\<exists>session. map_of (dispatch_sessions rt) (d_device_id x) = Some session \<and>
          protocol_for (cf_allow_legacy cfg) session = Some (d_protocol_mode x) \<and>
          d_create_capabilities x = sort (remdups (ls_capabilities session)) \<and>
          (\<forall>r. map_of (rt_registry rt) (d_device_id x) = Some r \<longrightarrow> jget r ''retired'' \<noteq> JBool True)))"
proof -
  obtain req protocols created snap s' where 1: "rmap (admit_target cfg rt) (target_devices req) = Inr protocols"
    "create_job req (map_of (zip (target_devices req) protocols)) (cl_timeout_ms lim) new_id now (sc_db (rt_sched rt)) =
      (Inr (created, snap), s')" "sc_db (rt_sched rt') = s'" "answer = H_snapshot (if created then 201 else 200) snap"
    using assms unfolding create_job_handler_def
    by (auto simp: on_sched_def on_db_def publish_snapshot_def dest: create_job_error
        split: json.splits sum.splits option.splits if_splits prod.splits)
  have "created" using create_job_new [OF 1(2)] assms(2) 1(3) by (auto split: if_splits)
  moreover have "admit_target cfg rt d = Inr pc" if "map_of (zip (target_devices req) protocols) d = Some pc" for d pc
    using 1(1) that by (auto simp: rmap_Inr_iff list_all2_iff dest!: map_of_SomeD)
  ultimately show ?thesis
    using create_job_new [OF 1(2)] 1(3,4) by (fastforce dest: admit_target_Inr)
qed

section \<open>Witnesses\<close>

text \<open>
  The demo device is online on socket 7, with its command in flight; the runtime is reached from a
  start by changes of the established tables, a registration and steps of the scheduler.
\<close>

definition demo_entry :: jobject where
  "demo_entry = [(''registration_ready'', JBool True), (''identity_kind'', JStr ''canonical'')]"

definition demo_runtime :: "sched \<Rightarrow> runtime" where
  "demo_runtime st = \<lparr>rt_sched = st, rt_sessions = [(''a'', demo_session)], rt_candidates = [],
     rt_devices = [(''a'', 7, demo_entry)], rt_registry = []\<rparr>"

lemma demo_sent_reachable: "db_reachable (sc_db demo_sent)"
  using sched_steps_db [OF demo_sent_run] reachable_run [OF demo_running_reachable] by (simp add: start_sched_def)




theorem late_result_clears_fence_witness:
  "\<exists>rt' revision. settle_and_ack None demo_session ''a'' ''j1'' [(''status'', JStr ''success'')]
       (the (get_device demo_reconciling ''j1'' ''a'')) 210
       (demo_runtime (start_sched demo_unconfirmed)) = (Inr (), rt') \<and>
     get_fence demo_unconfirmed ''a'' \<noteq> None \<and> get_fence (sc_db (rt_sched rt')) ''a'' = None \<and>
     last (sc_sent (rt_sched rt')) = (demo_session, result_ack ''j1'' True (Some revision) None)"
proof -
  let ?rt = "demo_runtime (start_sched demo_unconfirmed)"
  let ?row = "the (get_device demo_reconciling ''j1'' ''a'')"
  have s: "sc_db (rt_sched ?rt) = demo_unconfirmed" by (simp add: demo_runtime_def start_sched_def)
  have "map_option d_state (get_device demo_unconfirmed ''j1'' ''a'') = Some D_UNCONFIRMED" by code_simp
  then obtain current where c: "get_device demo_unconfirmed ''j1'' ''a'' = Some current" "d_state current = D_UNCONFIRMED" by auto
  have f: "fence_matches (get_fence demo_unconfirmed ''a'') ''j1'' 1" by code_simp
  have m: "map_option ls_ref (map_of (rt_sessions ?rt) ''a'') = Some (ls_ref demo_session)" by (simp add: demo_runtime_def)
  have "get_fence demo_unconfirmed ''a'' \<noteq> None" using f by (auto simp: fence_matches_def split: option.splits)
  then show ?thesis
    using late_result_clears_fence [of ?rt "''j1''" "''a''" current demo_session "[(''status'', JStr ''success'')]" ?row 210]
      s c f m demo_unconfirmed_reachable by auto
qed

definition demo_body :: json where
  "demo_body = JObj [(''client_request_id'', JStr ''6ba7b810-9dad-41d1-80b4-00c04fd430c8''), (''target_devices'', JArr [JStr ''a'']),
     (''mode'', JStr ''push''), (''dest_path'', JStr ''/sdcard/demo''), (''source'', JObj [(''display_name'', JStr ''demo''),
     (''declared_file_count'', JInt 1), (''declared_total_bytes'', JInt 10)])]"

definition demo_limits :: create_limits where
  "demo_limits = \<lparr>cl_max_entries = 100, cl_max_bytes = 1000, cl_timeout_ms = 60000\<rparr>"

theorem create_job_admission_witness:
  "\<exists>snap rt'. create_job_handler (\<lambda>bytes. ''digest'') demo_config demo_limits ''j9'' demo_body 70 (demo_runtime demo_sent) =
     (H_snapshot 201 snap, rt') \<and>
   (\<forall>x \<in> set (db_devices (sc_db (rt_sched rt'))) - set (db_devices (sc_db demo_sent)).
      d_device_id x = ''a'' \<and> d_protocol_mode x = JOB_V1)"
proof -
  let ?run = "create_job_handler (\<lambda>bytes. ''digest'') demo_config demo_limits ''j9'' demo_body 70 (demo_runtime demo_sent)"
  have n: "db_next_enqueue_seq (sc_db (rt_sched (snd ?run))) \<noteq> db_next_enqueue_seq (sc_db demo_sent)" by code_simp
  have st: "rt_sched (demo_runtime demo_sent) = demo_sent" by (simp add: demo_runtime_def)
  have ses: "map_of (dispatch_sessions (demo_runtime demo_sent)) d = (if d = ''a'' then Some demo_session else None)" for d
    by (simp add: dispatch_sessions_def demo_runtime_def dispatchable_def legacy_owns_device_def demo_session_def demo_entry_def
        command_allowed_def jget_def)
  have p: "protocol_for (cf_allow_legacy demo_config) demo_session = Some JOB_V1" by code_simp
  obtain answer rt' where r: "?run = (answer, rt')" by fastforce
  then have "sc_db (rt_sched rt') \<noteq> sc_db (rt_sched (demo_runtime demo_sent))" using n st by auto
  note create_job_admission [OF r this]
  then obtain snap where "answer = H_snapshot 201 snap" and
    "\<forall>x \<in> set (db_devices (sc_db (rt_sched rt'))) - set (db_devices (sc_db demo_sent)).
      d_device_id x = ''a'' \<and> d_protocol_mode x = JOB_V1"
    using p by (auto simp: ses st split: if_splits)
  with r show ?thesis by blast
qed

end
