(* ===== verification/Fleet_Paths.thy ===== *)
theory Fleet_Paths
  imports Push_Jobs "HOL-Library.Product_Lexorder"
begin

text \<open>
  The path and file-name functions of \<^verbatim>\<open>server.py\<close>: uploaded names, destinations on a device, free names
  in a directory and the newest client APK. A directory is the list of the names in it; \<^verbatim>\<open>Path\<close> is
  the POSIX one. An absent argument (\<^verbatim>\<open>None\<close>) is \<open>None\<close>.
\<close>

section \<open>Names\<close>

text \<open>\<^verbatim>\<open>Path(text).name\<close>, \<^verbatim>\<open>.stem\<close> and \<^verbatim>\<open>.suffix\<close>.\<close>

definition path_name :: "string \<Rightarrow> string" where
  "path_name text = (case rev (filter (\<lambda>s. s \<noteq> [] \<and> s \<noteq> ''.'') (split (CHR ''/'') text)) of [] \<Rightarrow> [] | s # _ \<Rightarrow> s)"

definition stem_suffix :: "string \<Rightarrow> string \<times> string" where
  "stem_suffix name =
     (let n = length (takeWhile (\<lambda>c. c \<noteq> CHR ''.'') (rev name));
          i = length name - Suc n in
      if n < length name \<and> 0 < i \<and> i < length name - 1 then (take i name, drop i name) else (name, []))"

definition is_safe_char :: "char \<Rightarrow> bool" where
  "is_safe_char c = (let n = (of_char c :: nat) in
     48 \<le> n \<and> n \<le> 57 \<or> 65 \<le> n \<and> n \<le> 90 \<or> 97 \<le> n \<and> n \<le> 122 \<or> c \<in> {CHR ''.'', CHR ''_'', CHR ''-''})"

text \<open>\<^verbatim>\<open>re.sub(r"[^A-Za-z0-9._-]", "_", name)\<close>.\<close>

definition safe_chars :: "string \<Rightarrow> string" where
  "safe_chars name = map (\<lambda>c. if is_safe_char c then c else CHR ''_'') name"

definition sanitize_apk_filename :: "string option \<Rightarrow> string option" where
  "sanitize_apk_filename filename =
     (case filename of
        None \<Rightarrow> None
      | Some f \<Rightarrow>
          if f = [] then None
          else
            let name = strip (path_name f); safe_name = safe_chars name in
            if \<not> suffix ''.apk'' (lower name) then None
            else if safe_name \<in> {[], ''.apk''} then None else Some safe_name)"

fun relpath_parts :: "string list \<Rightarrow> string list \<Rightarrow> string list option" where
  "relpath_parts [] parts = Some parts"
| "relpath_parts (raw # segs) parts =
     (let seg = strip raw in
      if seg = [] \<or> seg = ''.'' then relpath_parts segs parts
      else if seg = ''..'' then None
      else relpath_parts segs (parts @ [seg]))"

definition sanitize_relpath :: "string option \<Rightarrow> string option" where
  "sanitize_relpath raw =
     (case raw of
        None \<Rightarrow> None
      | Some r \<Rightarrow>
          if r = [] then None
          else
            let text = replace_char (CHR 0x5C) (CHR ''/'') r in
            if CHR 0x00 \<in> set text then None
            else (case relpath_parts (split (CHR ''/'') text) [] of
                None \<Rightarrow> None
              | Some parts \<Rightarrow> if parts = [] then None else Some (join (CHR ''/'') parts)))"

section \<open>Destinations\<close>

definition SHARED_STORAGE_PREFIXES :: "string list" where
  "SHARED_STORAGE_PREFIXES = [''/sdcard/'', ''/storage/emulated/0/'']"

definition PROTECTED_TOPLEVEL_DIRS :: "string set" where
  "PROTECTED_TOPLEVEL_DIRS = {''android'', ''download'', ''downloads'', ''dcim'', ''pictures'', ''movies'', ''music'', ''documents'',
     ''alarms'', ''notifications'', ''podcasts'', ''ringtones''}"

definition rstrip_char :: "char \<Rightarrow> string \<Rightarrow> string" where
  "rstrip_char c s = rev (dropWhile (\<lambda>x. x = c) (rev s))"

text \<open>The second half, from the normalised path on.\<close>

definition normalized_dest_error :: "string \<Rightarrow> string option" where
  "normalized_dest_error normalized =
     (let with_slash = rstrip_char (CHR ''/'') normalized @ ''/'' in
      case find (\<lambda>p. prefix p with_slash) SHARED_STORAGE_PREFIXES of
        None \<Rightarrow> Some ''Destination must be under shared storage (/sdcard or /storage/emulated/0)''
      | Some p \<Rightarrow>
          let remainder = strip_chars (\<lambda>c. c = CHR ''/'') (drop (length p) with_slash);
              first_segment = hd (split (CHR ''/'') remainder) in
          if remainder = [] then Some ''Destination must be a subdirectory, not the shared-storage root''
          else if lower first_segment \<in> PROTECTED_TOPLEVEL_DIRS
          then Some (''Destination must not be inside the protected '' @ [CHR 39] @ first_segment @ [CHR 39] @ '' directory'')
          else None)"

definition validate_dest_path :: "json \<Rightarrow> string option" where
  "validate_dest_path dest =
     (case dest of
        JStr d \<Rightarrow>
          if strip d = [] then Some ''Destination path is required''
          else
            let text = strip d in
            if CHR 0x00 \<in> set text then Some ''Destination path contains an invalid character''
            else if \<not> prefix ''/'' text then Some ''Destination must be an absolute path''
            else if ''..'' \<in> set (split (CHR ''/'') text)
            then Some (''Destination path must not contain '' @ [CHR 39] @ ''..'' @ [CHR 39])
            else normalized_dest_error (normpath text)
      | _ \<Rightarrow> Some ''Destination path is required'')"

definition is_syntactically_safe_verify_path :: "string \<Rightarrow> bool" where
  "is_syntactically_safe_verify_path path =
     (if path = [] \<or> \<not> prefix ''/'' path then False
      else ''..'' \<notin> set (filter (\<lambda>p. p \<noteq> []) (split (CHR ''/'') path)))"

section \<open>Bundles\<close>

definition bundle_basename :: "string list \<Rightarrow> string" where
  "bundle_basename relpaths =
     (case relpaths of
        [] \<Rightarrow> ''bundle''
      | p # ps \<Rightarrow>
          let firsts = remdups (map (hd \<circ> split (CHR ''/'')) relpaths);
              stem = fst (stem_suffix (path_name p));
              raw = (if ps = [] \<and> CHR ''/'' \<notin> set p then (if stem = [] then ''bundle'' else stem)
                else if length firsts = 1 then hd firsts else ''bundle'');
              safe = strip_chars (\<lambda>c. c \<in> {CHR ''.'', CHR ''_'', CHR ''-''}) (safe_chars raw)
          in if safe = [] then ''bundle'' else safe)"

text \<open>\<^verbatim>\<open>p.split("/", 1)\<close> of a path with a slash.\<close>

definition split_root :: "string \<Rightarrow> string \<times> string" where
  "split_root p = (takeWhile (\<lambda>c. c \<noteq> CHR ''/'') p, tl (dropWhile (\<lambda>c. c \<noteq> CHR ''/'') p))"

definition strip_common_root :: "string list \<Rightarrow> string option \<times> string list" where
  "strip_common_root relpaths =
     (if relpaths = [] \<or> list_ex (\<lambda>p. CHR ''/'' \<notin> set p) relpaths then (None, relpaths)
      else
        let roots = remdups (map (fst \<circ> split_root) relpaths) in
        if length roots \<noteq> 1 then (None, relpaths)
        else (Some (hd roots), map (snd \<circ> split_root) relpaths))"

section \<open>Free names\<close>

text \<open>
  \<^verbatim>\<open>unique_apk_path\<close> and \<^verbatim>\<open>unique_bundle_path\<close>, the same function over two directories. The loop ends because
  the names it tries are all different and the directory is finite.
\<close>

definition stamped :: "string \<Rightarrow> string \<Rightarrow> string \<Rightarrow> nat \<Rightarrow> string" where
  "stamped stem timestamp ext counter = stem @ ''-'' @ timestamp @ ''-'' @ show_nat counter @ ext"

function free_name :: "string list \<Rightarrow> string \<Rightarrow> string \<Rightarrow> string \<Rightarrow> nat \<Rightarrow> string" where
  "free_name existing stem timestamp ext counter =
     (if stamped stem timestamp ext counter \<in> set existing
      then free_name existing stem timestamp ext (Suc counter)
      else stamped stem timestamp ext counter)"
  by pat_completeness auto

lemma stamped_inj: "stamped s t e m = stamped s t e n \<Longrightarrow> m = n"
  by (simp add: stamped_def show_nat_inj)

lemma finite_tries: "finite {c. n \<le> c \<and> stamped s t e c \<in> set existing}"
proof (rule finite_imageD)
  show "finite (stamped s t e ` {c. n \<le> c \<and> stamped s t e c \<in> set existing})"
    by (rule finite_subset [of _ "set existing"]) auto
qed (auto intro!: inj_onI dest: stamped_inj)

termination free_name
proof (relation "measure (\<lambda>(existing, s, t, e, n). card {c. n \<le> c \<and> stamped s t e c \<in> set existing})")
  fix existing :: "string list" and s t e :: string and n :: nat
  assume a: "stamped s t e n \<in> set existing"
  have "{c. n \<le> c \<and> stamped s t e c \<in> set existing} = insert n {c. Suc n \<le> c \<and> stamped s t e c \<in> set existing}"
    using a by (auto simp: Suc_le_eq order.order_iff_strict)
  then have "{c. Suc n \<le> c \<and> stamped s t e c \<in> set existing} \<subset> {c. n \<le> c \<and> stamped s t e c \<in> set existing}"
    by (simp add: psubset_insert_iff subset_insertI psubset_eq) (metis (mono_tags, lifting) Suc_n_not_le_n insertI1 mem_Collect_eq)
  then show "((existing, s, t, e, Suc n), existing, s, t, e, n) \<in>
      measure (\<lambda>(existing, s, t, e, n). card {c. n \<le> c \<and> stamped s t e c \<in> set existing})"
    using psubset_card_mono [OF finite_tries] by simp
qed simp

declare free_name.simps [simp del]

definition unique_path :: "string list \<Rightarrow> string \<Rightarrow> string \<Rightarrow> string" where
  "unique_path existing timestamp filename =
     (if filename \<notin> set existing then filename
      else
        let (stem, ext) = stem_suffix (path_name filename); candidate = stem @ ''-'' @ timestamp @ ext in
        if candidate \<notin> set existing then candidate else free_name existing stem timestamp ext 2)"

section \<open>The newest client\<close>

text \<open>
  \<^verbatim>\<open>CLIENT_APK_RE\<close>: the version is the longest run of digits and dots in groups; what follows is \<^verbatim>\<open>.apk\<close>, or
  a dash and any text before it. A dot matches no line break, and \<^verbatim>\<open>$\<close> also matches before a final one.
\<close>

definition take_digits :: "string \<Rightarrow> string \<times> string" where
  "take_digits s = (takeWhile is_digit s, dropWhile is_digit s)"

function version_groups :: "string \<Rightarrow> string list \<times> string" where
  "version_groups s =
     (case s of
        CHR ''.'' # r \<Rightarrow>
          (case take_digits r of
             ([], _) \<Rightarrow> ([], s)
           | (ds, rest) \<Rightarrow> (case version_groups rest of (gs, left) \<Rightarrow> (ds # gs, left)))
      | _ \<Rightarrow> ([], s))"
  by pat_completeness auto

termination version_groups
  by (relation "measure length") (auto simp: take_digits_def length_dropWhile_le less_Suc_eq_le)

declare version_groups.simps [simp del]

definition apk_tail :: "string \<Rightarrow> bool" where
  "apk_tail s =
     (let t = (if suffix [CHR 0x0A] s then butlast s else s) in
      t = ''.apk'' \<or> prefix ''-'' t \<and> suffix ''.apk'' (tl t) \<and> CHR 0x0A \<notin> set t)"

definition client_apk_version :: "string \<Rightarrow> (string \<times> nat list) option" where
  "client_apk_version name =
     (let head = ''styly-mdm-client_'' in
      if \<not> prefix head name then None
      else
        let rest = drop (length head) name;
            rest1 = (if prefix ''v'' rest then tl rest else rest);
            (first, rest2) = take_digits rest1;
            (groups, left) = version_groups rest2 in
        if first = [] \<or> groups = [] \<or> \<not> apk_tail left then None
        else Some (join (CHR ''.'') (first # groups),
          map (\<lambda>ds. fold (\<lambda>c a. 10 * a + digit_value c) ds 0) (first # groups)))"

text \<open>
  Directory entries in the order of the listing, with the time of their last change unless it cannot
  be read; the newest client wins by version, then by that time.
\<close>

type_synonym apk_entry = "string \<times> int option"
type_synonym best_apk = "(nat list \<times> int) \<times> string \<times> string"

definition better_apk :: "apk_entry \<Rightarrow> best_apk option \<Rightarrow> best_apk option" where
  "better_apk = (\<lambda>(name, mtime) best.
     case (client_apk_version name, mtime) of
       (Some (ver_str, ver), Some t) \<Rightarrow>
         (case best of
            None \<Rightarrow> Some ((ver, t), name, ver_str)
          | Some (k, b) \<Rightarrow> if k < (ver, t) then Some ((ver, t), name, ver_str) else best)
     | _ \<Rightarrow> best)"

definition latest_client_apk :: "apk_entry list \<Rightarrow> jobject option" where
  "latest_client_apk entries =
     map_option (\<lambda>(k, name, ver_str). [(''filename'', JStr name), (''url'', JStr (''/apks/'' @ name)), (''version'', JStr ver_str)])
       (fold better_apk (filter (\<lambda>(name, t). suffix ''.apk'' name) entries) None)"

definition build_client_apk_msg :: "apk_entry list \<Rightarrow> json" where
  "build_client_apk_msg entries =
     JObj [(''type'', JStr ''CLIENT_APK_INFO''), (''apk'', case latest_client_apk entries of None \<Rightarrow> JNull | Some a \<Rightarrow> JObj a)]"

section \<open>Uploaded paths stay inside\<close>

definition inner_seg :: "string \<Rightarrow> bool" where
  "inner_seg s \<longleftrightarrow> seg_ok s \<and> CHR 0x00 \<notin> set s \<and> CHR 0x5C \<notin> set s \<and> strip s = s"

lemma strip_chars_subset: "set (strip_chars p s) \<subseteq> set s"
  by (auto simp: strip_chars_def dest!: set_dropWhileD)

lemma strip_chars_ends: "strip_chars p s = [] \<or> \<not> p (hd (strip_chars p s)) \<and> \<not> p (last (strip_chars p s))"
proof -
  define t where "t = dropWhile p s"
  have t: "t = [] \<or> \<not> p (hd t)" unfolding t_def by (metis hd_dropWhile)
  have "hd (rev (dropWhile p (rev t))) = hd t" if "dropWhile p (rev t) \<noteq> []"
  proof -
    have "rev t = takeWhile p (rev t) @ dropWhile p (rev t)" by simp
    then have "t = rev (dropWhile p (rev t)) @ rev (takeWhile p (rev t))" by (metis rev_append rev_rev_ident)
    then show ?thesis using that by (metis hd_append2 rev_is_Nil_conv)
  qed
  moreover have "\<not> p (last (rev (dropWhile p (rev t))))" if "dropWhile p (rev t) \<noteq> []"
    using that by (simp add: last_rev hd_dropWhile)
  moreover have "t \<noteq> []" if "dropWhile p (rev t) \<noteq> []" using that by auto
  ultimately have "dropWhile p (rev t) = [] \<or>
      \<not> p (hd (rev (dropWhile p (rev t)))) \<and> \<not> p (last (rev (dropWhile p (rev t))))" using t by metis
  then show ?thesis unfolding strip_chars_def t_def [symmetric] by simp
qed

lemma strip_strip: "strip (strip s) = strip s"
  unfolding strip_def using strip_chars_ends strip_chars_id by metis

lemma relpath_parts_inner:
  assumes "relpath_parts segs parts = Some ps" and "\<forall>s \<in> set parts. inner_seg s"
    and "\<forall>s \<in> set segs. CHR ''/'' \<notin> set s \<and> CHR 0x00 \<notin> set s \<and> CHR 0x5C \<notin> set s"
  shows "\<forall>s \<in> set ps. inner_seg s"
  using assms
proof (induction segs parts rule: relpath_parts.induct)
  case (2 raw segs parts)
  have "set (strip raw) \<subseteq> set raw" by (simp add: strip_def strip_chars_subset)
  then have "inner_seg (strip raw)" if "strip raw \<noteq> []" "strip raw \<noteq> ''.''" "strip raw \<noteq> ''..''"
    using that 2(5) strip_strip by (auto simp: inner_seg_def seg_ok_def)
  then show ?case using 2 by (auto simp: Let_def split: if_splits)
qed simp

lemma relpath_parts_id: "\<forall>s \<in> set segs. inner_seg s \<Longrightarrow> relpath_parts segs parts = Some (parts @ segs)"
  by (induction segs parts rule: relpath_parts.induct) (auto simp: inner_seg_def seg_ok_def Let_def)

lemma split_chars_mem: "s \<in> set (split c t) \<Longrightarrow> x \<in> set s \<Longrightarrow> x \<in> set t"
  using split_chars by blast

text \<open>
  A path of an upload that is accepted names a place below the directory it is put in: it is a
  sequence of one or more segments, none of them empty, a dot or two dots, with no slash, backslash or
  NUL in them, and it is accepted again as it is.
\<close>

theorem sanitize_relpath_safe:
  assumes "sanitize_relpath raw = Some p"
  shows "(\<exists>segs. segs \<noteq> [] \<and> p = join (CHR ''/'') segs \<and> split (CHR ''/'') p = segs \<and> (\<forall>s \<in> set segs. inner_seg s)) \<and>
    sanitize_relpath (Some p) = Some p"
proof -
  obtain r segs where r: "raw = Some r" and segs: "relpath_parts (split (CHR ''/'') (replace_char (CHR 0x5C) (CHR ''/'') r)) [] = Some segs"
    and p: "segs \<noteq> []" "p = join (CHR ''/'') segs" and nul: "CHR 0x00 \<notin> set (replace_char (CHR 0x5C) (CHR ''/'') r)"
    using assms by (auto simp: sanitize_relpath_def Let_def split: option.splits if_splits)
  have c: "CHR 0x5C \<notin> set (replace_char (CHR 0x5C) (CHR ''/'') r)" by (auto simp: replace_char_def)
  have inner: "\<forall>s \<in> set segs. inner_seg s"
    using relpath_parts_inner [OF segs] c nul split_no_sep split_chars_mem by (metis empty_iff empty_set)
  then have sep: "\<forall>s \<in> set segs. CHR ''/'' \<notin> set s" by (auto simp: inner_seg_def seg_ok_def)
  have sp: "split (CHR ''/'') p = segs" using split_join p sep by simp
  have jn: "x \<in> set (join (CHR ''/'') ss) \<Longrightarrow> x = CHR ''/'' \<or> (\<exists>s \<in> set ss. x \<in> set s)" for x ss
    by (induction "CHR ''/''" ss rule: join.induct) auto
  have "CHR 0x00 \<notin> set p" "CHR 0x5C \<notin> set p"
    using inner jn [of "CHR 0x00" segs] jn [of "CHR 0x5C" segs] unfolding p(2) inner_seg_def by auto
  moreover have "p \<noteq> []"
  proof
    assume "p = []"
    then have "segs = [[]]" using sp by simp
    then show False using inner by (simp add: inner_seg_def seg_ok_def)
  qed
  moreover have "replace_char (CHR 0x5C) (CHR ''/'') p = p"
    using calculation(2) by (auto simp: replace_char_def intro: map_idI)
  ultimately have "sanitize_relpath (Some p) = Some p"
    using sp relpath_parts_id [OF inner, of "[]"] p by (simp add: sanitize_relpath_def)
  then show ?thesis using p sp inner by blast
qed

theorem sanitize_relpath_safe_witness:
  "sanitize_relpath (Some ''/a//./b.txt'') = Some ''a/b.txt'' \<and> sanitize_relpath (Some ''a/b.txt'') = Some ''a/b.txt''"
proof -
  have "sanitize_relpath (Some ''/a//./b.txt'') = Some ''a/b.txt''" by code_simp
  then show ?thesis using sanitize_relpath_safe by blast
qed

section \<open>Both destination checks agree\<close>

lemma strip_chars_Cons: "p c \<Longrightarrow> strip_chars p (c # s) = strip_chars p s"
  by (simp add: strip_chars_def)

lemma strip_chars_snoc: "p c \<Longrightarrow> strip_chars p (s @ [c]) = strip_chars p s"
  by (cases "\<forall>x \<in> set s. p x") (auto simp: strip_chars_def dropWhile_append dropWhile_eq_Nil_conv [THEN iffD2])

lemma rstrip_id: "s = [] \<or> last s \<noteq> c \<Longrightarrow> rstrip_char c s = s"
  by (cases s rule: rev_cases) (auto simp: rstrip_char_def)

lemma prefix_slash: "n \<noteq> [] \<Longrightarrow> last n \<noteq> CHR ''/'' \<Longrightarrow> prefix (p @ ''/'') (n @ ''/'') \<longleftrightarrow> n = p \<or> prefix (p @ ''/'') n"
  by (auto simp: prefix_def append_eq_append_conv2 append_eq_Cons_conv Cons_eq_append_conv)

lemma prefixes_aliases: "SHARED_STORAGE_PREFIXES = map (\<lambda>p. p @ ''/'') storage_aliases"
  by (simp add: SHARED_STORAGE_PREFIXES_def storage_aliases_def)

lemma protected_same: "x \<in> PROTECTED_TOPLEVEL_DIRS \<longleftrightarrow> x \<in> set protected_dirs"
  by (simp add: PROTECTED_TOPLEVEL_DIRS_def protected_dirs_def)

lemma find_map: "find P (map f xs) = map_option f (find (P \<circ> f) xs)"
  by (induction xs) auto

lemma normalized_agrees:
  assumes "n \<noteq> []" and "last n \<noteq> CHR ''/''"
  shows "normalized_dest_error n = None \<longleftrightarrow> (\<exists>p. shared_storage_destination n = Inr p)"
proof -
  let ?Q = "\<lambda>p. n = p \<or> prefix (p @ ''/'') n"
  have f: "find (\<lambda>p. prefix p (n @ ''/'')) SHARED_STORAGE_PREFIXES = map_option (\<lambda>p. p @ ''/'') (find ?Q storage_aliases)"
    unfolding prefixes_aliases find_map comp_def prefix_slash [OF assms] ..
  have r: "rstrip_char (CHR ''/'') n = n" using assms by (intro rstrip_id) simp
  show ?thesis
  proof (cases "find ?Q storage_aliases")
    case None
    then show ?thesis unfolding normalized_dest_error_def shared_storage_destination_def r Let_def f by simp
  next
    case (Some p)
    then have "?Q p" by (auto simp: find_Some_iff)
    then have "strip_chars (\<lambda>c. c = CHR ''/'') (drop (length (p @ ''/'')) (n @ ''/'')) =
        strip_chars (\<lambda>c. c = CHR ''/'') (drop (length p) n)"
      by (auto simp: prefix_def strip_chars_Cons strip_chars_snoc)
    then show ?thesis unfolding normalized_dest_error_def shared_storage_destination_def r Let_def f Some
      by (simp add: protected_same)
  qed
qed

lemma normalized_root:
  assumes "n = ''/'' \<or> n = ''//''"
  shows "normalized_dest_error n \<noteq> None \<and> (\<nexists>p. shared_storage_destination n = Inr p)"
  using assms
  by (auto simp: normalized_dest_error_def shared_storage_destination_def rstrip_char_def SHARED_STORAGE_PREFIXES_def storage_aliases_def)

lemma normpath_ends:
  assumes "prefix ''/'' t" and "''..'' \<notin> set (split (CHR ''/'') t)"
  shows "normpath t = ''/'' \<or> normpath t = ''//'' \<or> normpath t \<noteq> [] \<and> last (normpath t) \<noteq> CHR ''/''"
proof (cases "keep_segs t = []")
  case True
  then show ?thesis by (simp add: normpath_absolute [OF assms])
next
  case False
  have "join (CHR ''/'') (keep_segs t) \<noteq> []" "last (join (CHR ''/'') (keep_segs t)) \<noteq> CHR ''/''"
    using join_ends [OF False keep_segs_ok [OF assms(2)]] by auto
  then show ?thesis by (simp add: normpath_absolute [OF assms])
qed

text \<open>
  The check of a destination in the established server accepts exactly the destinations that the
  job interface accepts, as long as there is no backslash in them (which only the job interface reads
  as a slash).
\<close>

theorem validate_dest_path_agrees:
  assumes "CHR 0x5C \<notin> set d"
  shows "validate_dest_path (JStr d) = None \<longleftrightarrow> (\<exists>p. canonical_destination (JStr d) = Inr p)"
proof -
  have "set (strip d) \<subseteq> set d" by (simp add: strip_def strip_chars_subset)
  then have "replace_char (CHR 0x5C) (CHR ''/'') (strip d) = strip d"
    using assms by (auto simp: replace_char_def intro!: map_idI)
  moreover have "normalized_dest_error (normpath (strip d)) = None \<longleftrightarrow> (\<exists>p. shared_storage_destination (normpath (strip d)) = Inr p)"
    if "prefix ''/'' (strip d)" "''..'' \<notin> set (split (CHR ''/'') (strip d))"
    using normpath_ends [OF that] normalized_agrees normalized_root by blast
  ultimately show ?thesis by (simp add: validate_dest_path_def canonical_destination_def Let_def)
qed

theorem validate_dest_path_agrees_witness:
  "validate_dest_path (JStr '' /sdcard//app/ '') = None \<and> (\<exists>p. canonical_destination (JStr '' /sdcard//app/ '') = Inr p)"
proof -
  have "validate_dest_path (JStr '' /sdcard//app/ '') = None" by code_simp
  then show ?thesis using validate_dest_path_agrees [of "'' /sdcard//app/ ''"] by simp
qed

text \<open>With a backslash the two differ.\<close>

lemma validate_dest_path_backslash:
  "validate_dest_path (JStr (''/sdcard/app'' @ [CHR 0x5C] @ ''..'')) = None \<and>
   (\<nexists>p. canonical_destination (JStr (''/sdcard/app'' @ [CHR 0x5C] @ ''..'')) = Inr p)"
proof -
  have "validate_dest_path (JStr (''/sdcard/app'' @ [CHR 0x5C] @ ''..'')) = None" by code_simp
  moreover have "(case canonical_destination (JStr (''/sdcard/app'' @ [CHR 0x5C] @ ''..'')) of Inl e \<Rightarrow> True | Inr p \<Rightarrow> False)" by code_simp
  ultimately show ?thesis by auto
qed

section \<open>Free names and the newest client\<close>

lemma free_name_fresh: "free_name existing stem timestamp ext n \<notin> set existing"
  by (induction existing stem timestamp ext n rule: free_name.induct) (simp add: free_name.simps)

lemma unique_path_fresh: "unique_path existing timestamp filename \<notin> set existing"
  by (simp add: unique_path_def free_name_fresh Let_def split: prod.split)

definition client_key :: "apk_entry \<Rightarrow> (nat list \<times> int) option" where
  "client_key = (\<lambda>(name, mtime). case (client_apk_version name, mtime) of (Some (s, ver), Some t) \<Rightarrow> Some (ver, t) | _ \<Rightarrow> None)"

lemma better_apk_max:
  "case fold better_apk es best of
     None \<Rightarrow> best = None \<and> (\<forall>e \<in> set es. client_key e = None)
   | Some (k, name, s) \<Rightarrow>
       (\<forall>e \<in> set es. \<forall>k'. client_key e = Some k' \<longrightarrow> k' \<le> k) \<and> (\<forall>b. best = Some b \<longrightarrow> fst b \<le> k) \<and>
       (best = Some (k, name, s) \<or> (\<exists>t. (name, t) \<in> set es \<and> client_key (name, t) = Some k \<and> client_apk_version name = Some (s, fst k)))"
proof (induction es arbitrary: best)
  case (Cons e es)
  obtain name mtime where e: "e = (name, mtime)" by (cases e)
  show ?case
  proof (cases "client_key e")
    case None
    then have "better_apk e best = best" by (auto simp: e client_key_def better_apk_def split: option.splits)
    then show ?thesis using Cons.IH [of best] None by (auto split: option.splits)
  next
    case (Some k)
    then obtain s where s: "client_apk_version name = Some (s, fst k)" "mtime = Some (snd k)"
      by (auto simp: e client_key_def split: option.splits)
    then have b: "better_apk e best =
        (case best of None \<Rightarrow> Some (k, name, s) | Some b \<Rightarrow> if fst b < k then Some (k, name, s) else best)"
      by (auto simp: e better_apk_def split: option.splits prod.splits)
    show ?thesis
    proof (cases "fold better_apk es (better_apk e best)")
      case None
      then show ?thesis using Cons.IH [of "better_apk e best"] b by (auto split: option.splits if_splits)
    next
      case (Some r)
      obtain k' name' s' where r: "r = (k', name', s')" by (cases r)
      have ih: "\<forall>e \<in> set es. \<forall>k'' . client_key e = Some k'' \<longrightarrow> k'' \<le> k'" "\<forall>b. better_apk e best = Some b \<longrightarrow> fst b \<le> k'"
        "better_apk e best = Some r \<or> (\<exists>t. (name', t) \<in> set es \<and> client_key (name', t) = Some k' \<and> client_apk_version name' = Some (s', fst k'))"
        using Cons.IH [of "better_apk e best"] Some r by simp_all
      have "\<exists>x. better_apk e best = Some x \<and> k \<le> fst x \<and> (\<forall>y. best = Some y \<longrightarrow> fst y \<le> fst x)"
        unfolding b by (cases k; cases best) auto
      then obtain x where x: "better_apk e best = Some x" "k \<le> fst x" "\<forall>y. best = Some y \<longrightarrow> fst y \<le> fst x" by blast
      then have "fst x \<le> k'" using ih(2) by blast
      then have "k \<le> k'" "\<forall>b. best = Some b \<longrightarrow> fst b \<le> k'" using x(2,3) order_trans by blast+
      moreover have "better_apk e best = Some r \<longrightarrow> best = Some r \<or> r = (k, name, s)"
        unfolding b by (auto split: option.splits if_splits)
      ultimately show ?thesis using ih \<open>client_key e = Some k\<close> Some s by (auto simp: r e)
    qed
  qed
qed (simp split: option.split)

text \<open>What the consoles are offered as the client is the newest one, and nothing only when there is none.\<close>

theorem latest_client_apk_newest:
  "case latest_client_apk entries of
     None \<Rightarrow> \<forall>e \<in> set entries. suffix ''.apk'' (fst e) \<longrightarrow> client_key e = None
   | Some a \<Rightarrow> \<exists>name t k. (name, t) \<in> set entries \<and> client_key (name, t) = Some k \<and> jget a ''filename'' = JStr name \<and>
       (\<forall>e \<in> set entries. suffix ''.apk'' (fst e) \<longrightarrow> (\<forall>k'. client_key e = Some k' \<longrightarrow> k' \<le> k))"
proof -
  let ?es = "filter (\<lambda>(name, t). suffix ''.apk'' name) entries"
  show ?thesis
  proof (cases "fold better_apk ?es None")
    case None
    then show ?thesis using better_apk_max [where es = ?es and best = None] by (force simp: latest_client_apk_def)
  next
    case (Some r)
    obtain k name s where r: "r = (k, name, s)" by (cases r)
    then obtain t where "(name, t) \<in> set ?es" "client_key (name, t) = Some k" "\<forall>e \<in> set ?es. \<forall>k'. client_key e = Some k' \<longrightarrow> k' \<le> k"
      using better_apk_max [where es = ?es and best = None] Some by auto
    then have "(name, t) \<in> set entries \<and> client_key (name, t) = Some k \<and>
        (\<forall>e \<in> set entries. suffix ''.apk'' (fst e) \<longrightarrow> (\<forall>k'. client_key e = Some k' \<longrightarrow> k' \<le> k))"
      by (auto simp: split_beta simp del: split_paired_All)
    moreover have "latest_client_apk entries = Some [(''filename'', JStr name), (''url'', JStr (''/apks/'' @ name)), (''version'', JStr s)]"
      unfolding latest_client_apk_def Some r by simp
    ultimately show ?thesis by (auto simp only: option.case jget_def map_of.simps fst_conv snd_conv fun_upd_same option.case)
  qed
qed

end
