(* ===== verification/Integrity.thy ===== *)
theory Integrity
  imports Py_Json "HOL-Library.Word" "HOL-Library.Multiset"
begin

text \<open>
  \<^verbatim>\<open>integrity.py\<close>: the digest of an APK's central directory, found from the end of the file, and the
  hash of a directory tree without the files an operating system leaves behind. SHA-256 is a
  parameter. The theorems state both as functions of what they are meant to cover: the whole file, and
  the set of content files.
\<close>

section \<open>Bytes\<close>

type_synonym byte = "8 word"

text \<open>A little-endian unsigned field, and \<^verbatim>\<open>struct.unpack_from\<close> of one such field.\<close>

definition le_value :: "byte list \<Rightarrow> nat" where
  "le_value bs = foldr (\<lambda>b n. unat b + 256 * n) bs 0"

definition unpack_from :: "nat \<Rightarrow> byte list \<Rightarrow> nat \<Rightarrow> mdm_error + nat" where
  "unpack_from width buffer offset =
     (if length buffer < offset + width then Inl (StructError ''unpack_from requires a longer buffer'')
      else Inr (le_value (take width (drop offset buffer))))"

definition encode_utf8 :: "string \<Rightarrow> byte list" where
  "encode_utf8 s = map of_nat (utf8 s)"

text \<open>Reading a file in chunks until an empty read.\<close>

definition CHUNK :: nat where
  "CHUNK = 1024 * 1024"

function read_chunks :: "byte list \<Rightarrow> byte list list" where
  "read_chunks f = (if f = [] then [] else take CHUNK f # read_chunks (drop CHUNK f))"
  by auto
termination by (relation "measure length") (auto simp: CHUNK_def)

declare read_chunks.simps [simp del]

text \<open>The digest of a hash object fed with the chunks in order.\<close>

definition file_sha256 :: "(byte list \<Rightarrow> string) \<Rightarrow> byte list \<Rightarrow> string" where
  "file_sha256 sha256 f = sha256 (concat (read_chunks f))"

section \<open>The central directory of an APK\<close>

definition EOCD_SIGNATURE :: "byte list" where
  "EOCD_SIGNATURE = [0x50, 0x4b, 0x05, 0x06]"

definition MAX_EOCD_COMMENT :: nat where
  "MAX_EOCD_COMMENT = 0xFFFF"

definition EOCD_MIN_SIZE :: nat where
  "EOCD_MIN_SIZE = 22"

definition ZIP64_SENTINEL :: nat where
  "ZIP64_SENTINEL = 0xFFFFFFFF"

text \<open>The backward scan of \<^verbatim>\<open>_find_eocd\<close>: the counter is one more than the index.\<close>

fun find_eocd_loop :: "byte list \<Rightarrow> nat \<Rightarrow> nat \<Rightarrow> nat \<Rightarrow> mdm_error + nat" where
  "find_eocd_loop tail file_len tail_start 0 = Inl (ValueError ''End Of Central Directory record not found'')"
| "find_eocd_loop tail file_len tail_start (Suc i) =
     (if take 4 (drop i tail) \<noteq> EOCD_SIGNATURE then find_eocd_loop tail file_len tail_start i
      else rbind (unpack_from 2 tail (i + 20)) (\<lambda>comment_len.
        if tail_start + i + EOCD_MIN_SIZE + comment_len = file_len then Inr (tail_start + i)
        else find_eocd_loop tail file_len tail_start i))"

definition find_eocd :: "byte list \<Rightarrow> nat \<Rightarrow> nat \<Rightarrow> mdm_error + nat" where
  "find_eocd tail file_len tail_start =
     find_eocd_loop tail file_len tail_start (length tail + 1 - EOCD_MIN_SIZE)"

definition apk_cd_digest :: "(byte list \<Rightarrow> string) \<Rightarrow> byte list \<Rightarrow> mdm_error + nat \<times> string" where
  "apk_cd_digest sha256 f =
     (let file_len = length f;
          read_len = min file_len (EOCD_MIN_SIZE + MAX_EOCD_COMMENT);
          tail_start = file_len - read_len;
          tail = take read_len (drop tail_start f) in
      rbind (find_eocd tail file_len tail_start) (\<lambda>eocd.
      rbind (unpack_from 4 tail (eocd - tail_start + 16)) (\<lambda>cd_offset.
        if cd_offset = ZIP64_SENTINEL then Inl (Zip64UnsupportedError ''zip64 not supported'')
        else Inr (file_len, sha256 (concat (read_chunks (drop cd_offset f)))))))"

section \<open>Directory trees\<close>

definition EXCLUDED_NAMES :: "string set" where
  "EXCLUDED_NAMES = {''.ds_store'', ''thumbs.db'', ''ehthumbs.db'', ''desktop.ini'', ''.directory'', ''.apdisk'',
     ''.volumeicon.icns''}"

definition EXCLUDED_DIRS :: "string set" where
  "EXCLUDED_DIRS = {''.spotlight-v100'', ''.trashes'', ''.fseventsd'', ''.temporaryitems'', ''.documentrevisions-v100'',
     ''__macosx'', ''$recycle.bin''}"

definition is_os_metadata :: "string \<Rightarrow> bool" where
  "is_os_metadata relpath = list_ex (\<lambda>seg. let low = lower seg in
       low \<in> EXCLUDED_NAMES \<or> low \<in> EXCLUDED_DIRS \<or> prefix ''._'' low \<or> prefix ''.trash-'' low)
     (split (CHR ''/'') relpath)"

text \<open>
  A directory is the list of its entries in the order the operating system lists them; a symbolic
  link is never followed, whatever it points to.
\<close>

datatype node = File "byte list" | Symlink | Dir "(string \<times> node) list"

text \<open>\<^verbatim>\<open>os.walk\<close>: the files of a directory first, then its subdirectories in order.\<close>

fun own_file :: "string \<Rightarrow> string \<times> node \<Rightarrow> (string \<times> byte list) list" where
  "own_file pre (name, File f) = [(pre @ name, f)]"
| "own_file pre (name, _) = []"

fun walk :: "string \<Rightarrow> node \<Rightarrow> (string \<times> byte list) list" where
  "walk pre (Dir entries) = concat (map (own_file pre) entries) @
     concat (map (\<lambda>e. case e of (name, n) \<Rightarrow> walk (pre @ name @ ''/'') n) entries)"
| "walk pre _ = []"

text \<open>\<^verbatim>\<open>_iter_files\<close>: the content files, and the relative paths of the excluded ones.\<close>

definition iter_files :: "node \<Rightarrow> (string \<times> byte list) list \<times> string list" where
  "iter_files root = (let found = walk [] root in
     (filter (\<lambda>(rel, f). \<not> is_os_metadata rel) found, map fst (filter (\<lambda>(rel, f). is_os_metadata rel) found)))"

record entry =
  relative_path :: string
  entry_size :: nat
  entry_sha256 :: string

record tree_manifest =
  tree_hash :: string
  file_count :: nat
  total_size :: nat
  excluded_count :: nat
  manifest :: "entry list option"

definition entry_line :: "entry \<Rightarrow> string" where
  "entry_line e = relative_path e @ ''\<newline>'' @ show_nat (entry_size e) @ ''\<newline>'' @ entry_sha256 e @ ''\<newline>''"

definition dir_manifest :: "(byte list \<Rightarrow> string) \<Rightarrow> nat option \<Rightarrow> node \<Rightarrow> tree_manifest" where
  "dir_manifest sha256 cap root =
     (case iter_files root of (files, excluded) \<Rightarrow>
        let entries = sort_key (\<lambda>e. utf8 (relative_path e))
              (map (\<lambda>(rel, f). \<lparr>relative_path = rel, entry_size = length f, entry_sha256 = file_sha256 sha256 f\<rparr>) files)
        in \<lparr>tree_hash = sha256 (concat (map (\<lambda>e. encode_utf8 (entry_line e)) entries)),
            file_count = length entries, total_size = sum_list (map entry_size entries),
            excluded_count = length excluded,
            manifest = (if cap = None \<or> length entries \<le> the cap then Some entries else None)\<rparr>)"

section \<open>Lemmas\<close>

lemma concat_read_chunks [simp]: "concat (read_chunks f) = f"
  by (induction f rule: read_chunks.induct) (subst read_chunks.simps, auto)

lemma le_value_Cons: "le_value (b # bs) = unat b + 256 * le_value bs"
  by (simp add: le_value_def)

lemma le_value_less: "le_value bs < 256 ^ length bs"
proof (induction bs)
  case (Cons b bs)
  have "unat b < 256" using unsigned_less [of b, where ?'a = nat] by simp
  with Cons show ?case by (simp add: le_value_Cons)
qed (simp add: le_value_def)

text \<open>An end record, as the format defines it: signature, and a comment that ends with the file.\<close>

definition valid_eocd :: "byte list \<Rightarrow> nat \<Rightarrow> bool" where
  "valid_eocd f e \<longleftrightarrow> e + EOCD_MIN_SIZE \<le> length f \<and> take 4 (drop e f) = EOCD_SIGNATURE \<and>
     e + EOCD_MIN_SIZE + le_value (take 2 (drop (e + 20) f)) = length f"

definition cd_offset :: "byte list \<Rightarrow> nat \<Rightarrow> nat" where
  "cd_offset f e = le_value (take 4 (drop (e + 16) f))"

lemma comment_bound: "le_value (take 2 (drop k f)) \<le> MAX_EOCD_COMMENT"
proof -
  have "le_value (take 2 (drop k f)) < 256 ^ length (take 2 (drop k f))" by (rule le_value_less)
  also have "\<dots> \<le> 256 ^ 2" by (rule power_increasing) auto
  finally show ?thesis by (simp add: MAX_EOCD_COMMENT_def)
qed

lemma valid_eocd_window: "valid_eocd f e \<Longrightarrow> length f - min (length f) (EOCD_MIN_SIZE + MAX_EOCD_COMMENT) \<le> e"
  using comment_bound [of "e + 20" f] by (auto simp: valid_eocd_def)

text \<open>The backward scan finds the last end record whose index the counter covers.\<close>

lemma find_eocd_loop_spec:
  assumes "start \<le> length f" and "n + EOCD_MIN_SIZE \<le> length f - start + 1"
  shows "find_eocd_loop (drop start f) (length f) start n =
    (if \<exists>i < n. valid_eocd f (start + i) then Inr (start + Max {i. i < n \<and> valid_eocd f (start + i)})
     else Inl (ValueError ''End Of Central Directory record not found''))"
  using assms(2)
proof (induction n)
  case (Suc n)
  have u: "unpack_from 2 (drop start f) (n + 20) = Inr (le_value (take 2 (drop (start + n + 20) f)))"
    using Suc.prems assms(1) by (simp add: unpack_from_def EOCD_MIN_SIZE_def ac_simps)
  have v: "valid_eocd f (start + n) \<longleftrightarrow> take 4 (drop n (drop start f)) = EOCD_SIGNATURE \<and>
      start + n + EOCD_MIN_SIZE + le_value (take 2 (drop (start + n + 20) f)) = length f"
    using Suc.prems assms(1) by (auto simp: valid_eocd_def add.commute)
  show ?case
  proof (cases "valid_eocd f (start + n)")
    case True
    then have "Max {i. i < Suc n \<and> valid_eocd f (start + i)} = n" by (intro Max_eqI) auto
    with True show ?thesis using u v by auto
  next
    case False
    then have "{i. i < Suc n \<and> valid_eocd f (start + i)} = {i. i < n \<and> valid_eocd f (start + i)}"
      using less_Suc_eq by auto
    moreover have "(\<exists>i < Suc n. valid_eocd f (start + i)) \<longleftrightarrow> (\<exists>i < n. valid_eocd f (start + i))"
      using False less_Suc_eq by auto
    ultimately show ?thesis using False Suc u v by auto
  qed
qed simp

section \<open>Properties\<close>

text \<open>
  (C23) Reading at most 65557 bytes from the end decides the whole file: the digest is taken of the
  file from the offset named in the last record that is an end record of the format, wherever it
  stands, no read is out of bounds, and an error is raised exactly when there is none or it is a
  ZIP64 one.
\<close>

theorem apk_cd_digest_exact:
  "apk_cd_digest sha256 f =
    (if \<forall>e. \<not> valid_eocd f e then Inl (ValueError ''End Of Central Directory record not found'')
     else let cd = cd_offset f (Max {e. valid_eocd f e}) in
       if cd = 2 ^ 32 - 1 then Inl (Zip64UnsupportedError ''zip64 not supported'')
       else Inr (length f, sha256 (drop cd f)))"
proof -
  define start where "start = length f - min (length f) (EOCD_MIN_SIZE + MAX_EOCD_COMMENT)"
  define n where "n = length f - start + 1 - EOCD_MIN_SIZE"
  have s: "start \<le> length f" by (simp add: start_def)
  have tail: "take (min (length f) (EOCD_MIN_SIZE + MAX_EOCD_COMMENT)) (drop start f) = drop start f"
    by (simp add: start_def)
  have found: "find_eocd (drop start f) (length f) start = find_eocd_loop (drop start f) (length f) start n"
    by (simp add: find_eocd_def n_def)
  have window: "\<exists>i < n. e = start + i" if "valid_eocd f e" for e
    using valid_eocd_window [OF that] that by (intro exI [of _ "e - start"]) (auto simp: start_def n_def valid_eocd_def)
  show ?thesis
  proof (cases "\<exists>e. valid_eocd f e")
    case False
    then show ?thesis
      using find_eocd_loop_spec [OF s, of n] found
      by (cases "n = 0") (auto simp: apk_cd_digest_def Let_def tail start_def [symmetric] n_def)
  next
    case True
    then have n: "\<exists>i < n. valid_eocd f (start + i)" using window by blast
    define I where "I = {i. i < n \<and> valid_eocd f (start + i)}"
    have fin: "finite I" "I \<noteq> {}" using n by (auto simp: I_def)
    have E: "{e. valid_eocd f e} = (+) start ` I" using window by (auto simp: I_def)
    have "Max ((+) start ` I) = start + Max I" using fin by (intro mono_Max_commute [symmetric]) (auto simp: mono_def)
    then have M: "Max {e. valid_eocd f e} = start + Max I" using E by simp
    have "Max I \<in> I" using fin by (rule Max_in)
    then have m: "start + Max I + EOCD_MIN_SIZE \<le> length f" by (simp add: I_def valid_eocd_def)
    have loop: "find_eocd_loop (drop start f) (length f) start n = Inr (start + Max I)"
      using find_eocd_loop_spec [OF s, of n] n unfolding I_def by (auto simp: n_def)
    have "unpack_from 4 (drop start f) (Max I + 16) = Inr (cd_offset f (start + Max I))"
      using m by (auto simp: unpack_from_def cd_offset_def EOCD_MIN_SIZE_def ac_simps)
    then show ?thesis
      unfolding apk_cd_digest_def Let_def start_def [symmetric] tail found loop M
      using True by (simp add: ZIP64_SENTINEL_def)
  qed
qed

section \<open>The hash of a tree\<close>

definition content_files :: "node \<Rightarrow> (string \<times> byte list) list" where
  "content_files root = fst (iter_files root)"

definition entry_of :: "(byte list \<Rightarrow> string) \<Rightarrow> string \<times> byte list \<Rightarrow> entry" where
  "entry_of sha256 = (\<lambda>(rel, f). \<lparr>relative_path = rel, entry_size = length f, entry_sha256 = sha256 f\<rparr>)"

definition entries :: "(byte list \<Rightarrow> string) \<Rightarrow> node \<Rightarrow> entry list" where
  "entries sha256 root = sort_key (\<lambda>e. utf8 (relative_path e)) (map (entry_of sha256) (content_files root))"

lemma tree_hash_entries:
  "tree_hash (dir_manifest sha256 cap root) = sha256 (concat (map (\<lambda>e. encode_utf8 (entry_line e)) (entries sha256 root)))"
proof -
  have "(\<lambda>(rel, f). \<lparr>relative_path = rel, entry_size = length f, entry_sha256 = file_sha256 sha256 f\<rparr>) = entry_of sha256"
    by (auto simp: entry_of_def file_sha256_def)
  then show ?thesis
    by (simp add: dir_manifest_def entries_def content_files_def Let_def split: prod.splits)
qed

lemma sort_key_unique:
  assumes "mset xs = mset ys" and "inj_on k (set xs)"
  shows "sort_key k xs = sort_key k ys"
proof (rule map_inj_on)
  have "map k (sort_key k xs) = sort (map k xs)" "map k (sort_key k ys) = sort (map k ys)"
    by (rule properties_for_sort [symmetric]; simp)+
  moreover have "sort (map k xs) = sort (map k ys)"
    using assms(1) by (intro properties_for_sort) (auto simp: mset_map)
  ultimately show "map k (sort_key k xs) = map k (sort_key k ys)" by simp
  show "inj_on k (set (sort_key k xs) \<union> set (sort_key k ys))"
    using assms mset_eq_setD [OF assms(1)] by simp
qed

text \<open>Lines end at the first newline.\<close>

lemma line_split: "a @ c # x = b @ c # y \<Longrightarrow> c \<notin> set a \<Longrightarrow> c \<notin> set b \<Longrightarrow> a = b \<and> x = y"
proof (induction a arbitrary: b)
  case Nil
  then show ?case by (cases b) auto
next
  case (Cons z a)
  then show ?case by (cases b) auto
qed

abbreviation nl :: char where "nl \<equiv> CHR 0x0A"

definition plain_entry :: "entry \<Rightarrow> bool" where
  "plain_entry e \<longleftrightarrow> nl \<notin> set (relative_path e) \<and> nl \<notin> set (entry_sha256 e)"

lemma nl_not_digit: "nl \<notin> set (show_nat n)"
  using show_nat_digits [of n] by (auto simp: is_digit_def Let_def)

lemma entry_line_cases:
  assumes "entry_line e @ x = entry_line e' @ y" and "plain_entry e" "plain_entry e'"
  shows "e = e' \<and> x = y"
proof -
  note p = assms(2,3) [unfolded plain_entry_def]
  have "relative_path e = relative_path e'" and
    1: "show_nat (entry_size e) @ nl # entry_sha256 e @ nl # x = show_nat (entry_size e') @ nl # entry_sha256 e' @ nl # y"
    using line_split [of "relative_path e" nl _ "relative_path e'"] assms(1) p by (auto simp: entry_line_def)
  moreover have "show_nat (entry_size e) = show_nat (entry_size e')" and 2: "entry_sha256 e @ nl # x = entry_sha256 e' @ nl # y"
    using line_split [OF 1] nl_not_digit by auto
  moreover have "entry_sha256 e = entry_sha256 e'" "x = y" using line_split [OF 2] p by auto
  ultimately show ?thesis using show_nat_inj by (cases e, cases e') auto
qed

lemma entry_lines_inj:
  "concat (map entry_line es) = concat (map entry_line es') \<Longrightarrow> list_all plain_entry es \<Longrightarrow> list_all plain_entry es' \<Longrightarrow> es = es'"
proof (induction es arbitrary: es')
  case Nil
  then show ?case by (cases es') (auto simp: entry_line_def)
next
  case (Cons e es)
  then obtain e' es2 where "es' = e' # es2" by (cases es') (auto simp: entry_line_def)
  then show ?case using Cons entry_line_cases [of e "concat (map entry_line es)" e' "concat (map entry_line es2)"] by auto
qed

lemma utf8_byte: "n \<in> set (utf8_char c) \<Longrightarrow> n < 256"
proof -
  have "(of_char c :: nat) < 256" by (rule nat_of_char_less_256)
  then have "(of_char c :: nat) div 64 < 4" by (simp add: div_less_iff_less_mult)
  then show "n \<in> set (utf8_char c) \<Longrightarrow> n < 256"
    by (auto simp: utf8_char_def Let_def intro: less_le_trans [OF mod_less_divisor] split: if_splits)
qed

lemma encode_utf8_inj: "encode_utf8 s = encode_utf8 t \<Longrightarrow> s = t"
proof -
  assume e: "encode_utf8 s = encode_utf8 t"
  have b: "n < 256" if "n \<in> set (utf8 u)" for n u
    using that utf8_byte by (auto simp: utf8_def)
  have "inj_on (of_nat :: nat \<Rightarrow> byte) {..<256}"
    by (intro inj_onI) (simp add: word_of_nat_eq_iff take_bit_nat_eq_self)
  then have "inj_on (of_nat :: nat \<Rightarrow> byte) (set (utf8 s) \<union> set (utf8 t))" by (rule inj_on_subset) (use b in auto)
  with e have "utf8 s = utf8 t" by (auto simp: encode_utf8_def dest: map_inj_on)
  then show "s = t" by (rule utf8_inj)
qed

lemma concat_encode: "concat (map (\<lambda>e. encode_utf8 (entry_line e)) es) = encode_utf8 (concat (map entry_line es))"
  by (induction es) (auto simp: encode_utf8_def utf8_def)

text \<open>In a file system the names of a directory are distinct and hold no slash.\<close>

fun wf_node :: "node \<Rightarrow> bool" where
  "wf_node (Dir es) = (distinct (map fst es) \<and>
     list_all (\<lambda>e. case e of (name, n) \<Rightarrow> CHR ''/'' \<notin> set name \<and> wf_node n) es)"
| "wf_node _ = True"

lemma own_file_prefix: "own_file (pre @ q) e = map (apfst ((@) pre)) (own_file q e)"
  by (cases e; cases "snd e") auto

lemma walk_prefix: "walk (pre @ q) n = map (apfst ((@) pre)) (walk q n)"
proof (induction q n rule: walk.induct)
  case (1 q es)
  have "walk (pre @ q @ name @ ''/'') n = map (apfst ((@) pre)) (walk (q @ name @ ''/'') n)" if "(name, n) \<in> set es" for name n
    using 1 [OF that refl] by simp
  then have "map (\<lambda>e. case e of (name, n) \<Rightarrow> walk (pre @ q @ name @ ''/'') n) es =
      map (\<lambda>e. map (apfst ((@) pre)) (case e of (name, n) \<Rightarrow> walk (q @ name @ ''/'') n)) es"
    by (intro map_cong) auto
  moreover have "map (own_file (pre @ q)) es = map (\<lambda>e. map (apfst ((@) pre)) (own_file q e)) es"
    by (simp add: own_file_prefix)
  ultimately show ?case unfolding walk.simps append_assoc by (simp only: map_append map_concat map_map comp_def)
qed simp_all

lemma walk_under: "map fst (walk (pre @ ''/'') n) = map (\<lambda>p. pre @ CHR ''/'' # p) (map fst (walk [] n))"
  using walk_prefix [of "pre @ ''/''" "[]" n] by simp

lemma own_distinct:
  "distinct (map fst es) \<Longrightarrow> distinct (map fst (concat (map (own_file []) es))) \<and>
    set (map fst (concat (map (own_file []) es))) \<subseteq> fst ` set es"
proof (induction es)
  case (Cons e es)
  then show ?case by (cases e; cases "snd e") auto
qed simp

definition sub_paths :: "(string \<times> node) list \<Rightarrow> string list" where
  "sub_paths es = map fst (concat (map (\<lambda>e. case e of (name, n) \<Rightarrow> walk (name @ ''/'') n) es))"

lemma sub_paths_simps [simp]: "sub_paths [] = []"
  "sub_paths ((name, n) # es) = map (\<lambda>p. name @ CHR ''/'' # p) (map fst (walk [] n)) @ sub_paths es"
  by (simp_all add: sub_paths_def walk_under del: map_map)

lemma sub_paths_under: "p \<in> set (sub_paths es) \<Longrightarrow> \<exists>name \<in> fst ` set es. \<exists>rest. p = name @ CHR ''/'' # rest"
  by (induction es) auto

lemma sub_distinct:
  "distinct (map fst es) \<Longrightarrow> \<forall>(name, n) \<in> set es. CHR ''/'' \<notin> set name \<and> distinct (map fst (walk [] n)) \<Longrightarrow>
    distinct (sub_paths es)"
proof (induction es)
  case (Cons e es)
  obtain name n where e: "e = (name, n)" by (cases e)
  have "distinct (map (\<lambda>p. name @ CHR ''/'' # p) (map fst (walk [] n)))"
    using Cons.prems e by (subst distinct_map) (auto intro: inj_onI)
  moreover have False if p: "p \<in> set (sub_paths es)" and q: "p = name @ CHR ''/'' # x" for p x
  proof -
    obtain name' y where "name' \<in> fst ` set es" "p = name' @ CHR ''/'' # y" using sub_paths_under [OF p] by blast
    moreover have "CHR ''/'' \<notin> set name'" "CHR ''/'' \<notin> set name" using calculation(1) Cons.prems(2) e by auto
    ultimately show False using q Cons.prems(1) e line_split [of name "CHR ''/''" x name' y] by auto
  qed
  ultimately show ?case using Cons e by (auto simp del: map_map)
qed simp

lemma walk_distinct: "wf_node n \<Longrightarrow> distinct (map fst (walk [] n))"
proof (induction n)
  case (Dir es)
  have d: "distinct (map fst es)" using Dir.prems by simp
  have s: "\<forall>(name, n) \<in> set es. CHR ''/'' \<notin> set name \<and> distinct (map fst (walk [] n))"
  proof safe
    fix name n
    assume e: "(name, n) \<in> set es"
    then have w: "wf_node n" "CHR ''/'' \<notin> set name" using Dir.prems by (auto simp: list_all_iff)
    show "CHR ''/'' \<in> set name \<Longrightarrow> False" using w(2) by simp
    show "distinct (map fst (walk [] n))" using Dir.IH [OF e, of n] w(1) by simp
  qed
  have o: "CHR ''/'' \<notin> set p" if "p \<in> set (map fst (concat (map (own_file []) es)))" for p
    using subsetD [OF conjunct2 [OF own_distinct [OF d]] that] s by auto
  have "set (map fst (concat (map (own_file []) es))) \<inter> set (sub_paths es) = {}"
    using o by (fastforce dest!: sub_paths_under)
  moreover have "map fst (walk [] (Dir es)) = map fst (concat (map (own_file []) es)) @ sub_paths es"
    by (simp add: sub_paths_def)
  ultimately show ?case using own_distinct [OF d] sub_distinct [OF d s] by (simp only: distinct_append)
qed simp_all

lemma content_distinct: "wf_node n \<Longrightarrow> distinct (map fst (content_files n))"
  using walk_distinct [of n] by (auto simp: content_files_def iter_files_def Let_def intro: distinct_map_filter)


text \<open>A collision-free stand-in for the digest: two letters per byte.\<close>

definition letters :: "byte list \<Rightarrow> string" where
  "letters bs = concat (map (\<lambda>b. [char_of (97 + unat b div 16), char_of (97 + unat b mod 16)]) bs)"

lemma letter_eq: "m < 16 \<Longrightarrow> n < 16 \<Longrightarrow> (char_of (97 + m) :: char) = char_of (97 + n) \<Longrightarrow> m = (n :: nat)"
  by (simp add: char_of_eq_iff take_bit_nat_eq_self)

lemma byte_nibbles: "unat (b :: byte) div 16 < 16"
  using unsigned_less [of b, where ?'a = nat] by (simp add: div_less_iff_less_mult)

lemma letters_inj: "letters bs = letters cs \<Longrightarrow> bs = cs"
proof (induction bs arbitrary: cs)
  case Nil
  then show ?case by (cases cs) (auto simp: letters_def)
next
  case (Cons b bs)
  then obtain c cs' where c: "cs = c # cs'" by (cases cs) (auto simp: letters_def)
  have e: "(char_of (97 + unat b div 16) :: char) = char_of (97 + unat c div 16)"
    "(char_of (97 + unat b mod 16) :: char) = char_of (97 + unat c mod 16)" "letters bs = letters cs'"
    using Cons.prems c by (auto simp: letters_def)
  have "unat b div 16 = unat c div 16" "unat b mod 16 = unat c mod 16"
    using letter_eq [OF _ _ e(1)] letter_eq [OF _ _ e(2)] byte_nibbles by simp_all
  then have "unat b = unat c" by (metis div_mult_mod_eq)
  then have "b = c" by (rule unsigned_word_eqI)
  then show ?case using Cons.IH [OF e(3)] c by simp
qed

lemma letters_plain: "nl \<notin> set (letters bs)"
proof -
  have "nl \<noteq> char_of (97 + m)" if "m < 16" for m :: nat
  proof
    assume "nl = char_of (97 + m)"
    then have "(of_char nl :: nat) = of_char (char_of (97 + m) :: char)" by simp
    then show False using that by (simp add: take_bit_nat_eq_self)
  qed
  then show ?thesis using byte_nibbles by (auto simp: letters_def)
qed


text \<open>Line breaks in names are not escaped: a tree of two files and a tree of one file share a hash.\<close>

lemma tree_hash_newline:
  "tree_hash (dir_manifest letters None (Dir [(''a'', File []), (''b'', File [])])) =
   tree_hash (dir_manifest letters None (Dir [(''a\<newline>0\<newline>\<newline>b'', File [])]))"
  by code_simp

end
