(* ===== verification/Push_Uploads.thy ===== *)
theory Push_Uploads
  imports Push_Runtime Fleet_Paths Integrity
begin

text \<open>
  Uploads and artifacts of the push jobs: \<^verbatim>\<open>push_artifacts.py\<close>, and \<^verbatim>\<open>upload_handler\<close>,
  \<^verbatim>\<open>_package_and_publish\<close> and \<^verbatim>\<open>artifact_handler\<close> of \<^verbatim>\<open>push_runtime.py\<close>. The disk is the work
  directories of the jobs and the artifact directory; a directory is the list of the relative paths of
  its files with their bytes. Names are case-sensitive and there are no symbolic links. \<open>archive\<close> stands
  for the ZIP file of a list of entries, SHA-256 is a parameter.
\<close>

section \<open>Artifacts on disk\<close>

type_synonym tree = "(string \<times> byte list) list"

record workspace =
  wk_upload :: tree
  wk_part :: "byte list option"

record disk =
  dk_work :: "(string \<times> workspace) list"
  dk_artifacts :: tree

definition uuid_key :: "string \<Rightarrow> mdm_error + string" where
  "uuid_key value =
     (case uuid_parse value of
        None \<Rightarrow> Inl (ValueError ''badly formed hexadecimal UUID string'')
      | Some u \<Rightarrow> if uuid_version u \<noteq> Some 4 then Inl (ValueError ''path identity must be UUIDv4'') else Inr (uuid_str u))"

definition work_at :: "disk \<Rightarrow> string \<Rightarrow> workspace" where
  "work_at dk key = (case map_of (dk_work dk) key of None \<Rightarrow> \<lparr>wk_upload = [], wk_part = None\<rparr> | Some w \<Rightarrow> w)"

definition set_work :: "string \<Rightarrow> workspace \<Rightarrow> disk \<Rightarrow> disk" where
  "set_work key w dk = dk\<lparr>dk_work := AList.update key w (dk_work dk)\<rparr>"

text \<open>\<^verbatim>\<open>work_dir\<close> and \<^verbatim>\<open>upload_dir\<close> create the directory when it is not there.\<close>

definition upload_dir :: "job_id \<Rightarrow> disk \<Rightarrow> mdm_error + string \<times> disk" where
  "upload_dir j dk = rbind (uuid_key j) (\<lambda>key. Inr (key, set_work key (work_at dk key) dk))"

text \<open>\<open>clean\<close> says whether the removal succeeds; a failure is only logged.\<close>

definition cleanup_work_best_effort :: "bool \<Rightarrow> job_id \<Rightarrow> disk \<Rightarrow> disk" where
  "cleanup_work_best_effort clean j dk =
     (case uuid_key j of
        Inl e \<Rightarrow> dk
      | Inr key \<Rightarrow> if clean then dk\<lparr>dk_work := AList.delete key (dk_work dk)\<rparr> else dk)"

definition identity :: "(byte list \<Rightarrow> string) \<Rightarrow> byte list \<Rightarrow> nat \<times> string" where
  "identity sha256 f = (length (concat (read_chunks f)), sha256 (concat (read_chunks f)))"

text \<open>\<^verbatim>\<open>ArtifactStore.publish\<close>; \<open>artifact_id\<close> is the fresh \<^verbatim>\<open>uuid.uuid4()\<close>.\<close>

definition publish_file ::
  "(byte list \<Rightarrow> string) \<Rightarrow> string \<Rightarrow> job_id \<Rightarrow> string \<Rightarrow> nat \<Rightarrow> disk \<Rightarrow> mdm_error + published_artifact \<times> disk" where
  "publish_file sha256 artifact_id j display_filename entry_count dk =
     rbind (uuid_key j) (\<lambda>key.
       case wk_part (work_at dk key) of
         None \<Rightarrow> Inl (FileNotFoundError ''artifact.part'')
       | Some bytes \<Rightarrow>
           let storage_name = artifact_id @ ''.zip'' in
           if map_of (dk_artifacts dk) storage_name \<noteq> None then Inl (FileExistsError storage_name)
           else (case identity sha256 bytes of (byte_size, digest) \<Rightarrow>
             Inr (\<lparr>p_artifact_id = artifact_id, p_storage_name = storage_name, p_display_filename = display_filename,
                   p_byte_size = int byte_size, p_sha256 = digest, p_entry_count = int entry_count\<rparr>,
                  (set_work key ((work_at dk key)\<lparr>wk_part := None\<rparr>) dk)
                    \<lparr>dk_artifacts := AList.update storage_name bytes (dk_artifacts dk)\<rparr>)))"

definition path_for_record :: "artifact_row \<Rightarrow> mdm_error + string" where
  "path_for_record row =
     (let storage_name = a_storage_name row in
      if path_name storage_name \<noteq> storage_name then Inl (ValueError ''invalid artifact storage name'')
      else if storage_name = [] \<or> storage_name = ''..'' then Inl (ValueError ''artifact path escapes the artifact root'')
      else Inr storage_name)"

definition remove_orphan :: "string \<Rightarrow> disk \<Rightarrow> mdm_error + disk" where
  "remove_orphan storage_name dk =
     (if path_name storage_name \<noteq> storage_name then Inl (ValueError ''invalid artifact storage name'')
      else if storage_name = [] then Inl (ValueError ''artifact path escapes the artifact root'')
      else if storage_name = ''..'' then Inl (OSError ''is a directory'')
      else Inr (dk\<lparr>dk_artifacts := AList.delete storage_name (dk_artifacts dk)\<rparr>))"

text \<open>\<^verbatim>\<open>on_startup\<close>: the work of settled jobs and the orphans go; errors are only logged.\<close>

definition startup_files :: "bool \<Rightarrow> job_id list \<Rightarrow> string list \<Rightarrow> disk \<Rightarrow> disk" where
  "startup_files clean jobs orphans dk =
     fold (\<lambda>name dk. case remove_orphan name dk of Inl e \<Rightarrow> dk | Inr dk' \<Rightarrow> dk')
       orphans (fold (cleanup_work_best_effort clean) jobs dk)"

section \<open>The stream of an upload\<close>

text \<open>Reading may end in the cancellation of the request or in an error.\<close>

datatype failure = F_cancelled | F_error mdm_error

record part =
  pt_name :: string
  pt_filename :: "string option"
  pt_chunks :: "byte list list"
  pt_fails :: "failure option"

record upload =
  up_seen :: "string list"
  up_count :: nat
  up_bytes :: nat

record upload_limits =
  MAX_BUNDLE_ENTRIES :: nat
  MAX_BUNDLE_SIZE :: nat

definition drain :: "part \<Rightarrow> failure + unit" where
  "drain p = (case pt_fails p of None \<Rightarrow> Inr () | Some f \<Rightarrow> Inl f)"

text \<open>\<^verbatim>\<open>_open_owned_upload\<close>: the file must be new, and its directories must not be files.\<close>

definition blocked :: "tree \<Rightarrow> string \<Rightarrow> bool" where
  "blocked files rel = list_ex (\<lambda>(p, c). p = rel \<or> prefix (p @ ''/'') rel \<or> prefix (rel @ ''/'') p) files"

text \<open>The loop over the chunks, with what it has counted and written when it stops.\<close>

fun write_chunks :: "nat \<Rightarrow> failure option \<Rightarrow> byte list list \<Rightarrow> nat \<Rightarrow> byte list \<Rightarrow> (failure + unit) \<times> nat \<times> byte list" where
  "write_chunks limit fails [] n content = (case fails of None \<Rightarrow> Inr () | Some f \<Rightarrow> Inl f, n, content)"
| "write_chunks limit fails (chunk # chunks) n content =
     (if chunk = [] then (Inr (), n, content)
      else if limit < n + length chunk then (Inl (F_error (PushJobError ''upload exceeds the byte limit'')), n + length chunk, content)
      else write_chunks limit fails chunks (n + length chunk) (content @ chunk))"

definition receive_part :: "upload_limits \<Rightarrow> part \<Rightarrow> upload \<Rightarrow> tree \<Rightarrow> (failure + upload) \<times> tree" where
  "receive_part lim p up files =
     (let refuse = (\<lambda>m. (Inl (F_error (PushJobError m)), files)) in
      if pt_name p \<noteq> ''files'' then (rbind (drain p) (\<lambda>_. Inr up), files)
      else (case sanitize_relpath (pt_filename p) of
          None \<Rightarrow> refuse ''unsafe uploaded path''
        | Some rel \<Rightarrow>
            if is_os_metadata rel then (rbind (drain p) (\<lambda>_. Inr up), files)
            else if rel \<in> set (up_seen up) then refuse (''duplicate uploaded path: '' @ rel)
            else if MAX_BUNDLE_ENTRIES lim < up_count up + 1 then refuse ''upload exceeds the entry limit''
            else if blocked files rel then (Inl (F_error (FileExistsError rel)), files)
            else (case write_chunks (MAX_BUNDLE_SIZE lim) (pt_fails p) (pt_chunks p) (up_bytes up) [] of
                (r, n, content) \<Rightarrow>
                  (rbind r (\<lambda>_. Inr \<lparr>up_seen = up_seen up @ [rel], up_count = up_count up + 1, up_bytes = n\<rparr>),
                   files @ [(rel, content)]))))"

fun receive :: "upload_limits \<Rightarrow> part list \<Rightarrow> failure option \<Rightarrow> upload \<Rightarrow> tree \<Rightarrow> (failure + upload) \<times> tree" where
  "receive lim [] fails up files = (case fails of None \<Rightarrow> Inr up | Some f \<Rightarrow> Inl f, files)"
| "receive lim (p # ps) fails up files =
     (case receive_part lim p up files of
        (Inl f, files1) \<Rightarrow> (Inl f, files1)
      | (Inr up1, files1) \<Rightarrow> receive lim ps fails up1 files1)"

section \<open>Packaging\<close>

definition zip_entries :: "tree \<Rightarrow> tree" where
  "zip_entries files = sort_key (\<lambda>(rel, c). map (map (of_char :: char \<Rightarrow> nat)) (split (CHR ''/'') rel)) files"

text \<open>The files below a directory, with their paths relative to it.\<close>

definition below :: "string \<Rightarrow> tree \<Rightarrow> tree" where
  "below root files = map (\<lambda>(rel, c). (drop (Suc (length root)) rel, c)) (filter (\<lambda>(rel, c). prefix (root @ ''/'') rel) files)"

definition content_root :: "string list \<Rightarrow> tree \<Rightarrow> tree" where
  "content_root relative_paths files =
     (case strip_common_root relative_paths of
        (root, stripped) \<Rightarrow>
          if stripped \<noteq> relative_paths then below (fst (split_root (hd relative_paths))) files else files)"

definition artifact_display_name :: "string \<Rightarrow> string" where
  "artifact_display_name source_label =
     (let stripped = strip_chars (\<lambda>c. c \<in> {CHR ''.'', CHR ''_'', CHR ''-''}) (safe_chars source_label);
          safe = (if stripped = [] then ''bundle'' else stripped) in
      if suffix ''.zip'' (lower safe) then safe else safe @ ''.zip'')"

definition package_and_publish ::
  "(byte list \<Rightarrow> string) \<Rightarrow> (tree \<Rightarrow> byte list) \<Rightarrow> string \<Rightarrow> job_id \<Rightarrow> string \<Rightarrow> string \<Rightarrow> string list \<Rightarrow> disk \<Rightarrow>
   mdm_error + published_artifact \<times> disk" where
  "package_and_publish sha256 archive artifact_id j key source_label relative_paths dk =
     (let w = work_at dk key;
          dk1 = set_work key (w\<lparr>wk_part := Some (archive (zip_entries (content_root relative_paths (wk_upload w))))\<rparr>) dk in
      publish_file sha256 artifact_id j (artifact_display_name source_label) (length relative_paths) dk1)"

section \<open>The upload handler\<close>

record server =
  sv_rt :: runtime
  sv_disk :: disk

text \<open>
  What the handler meets: the request, the clock, fresh identities, and at the k-th waiting point what
  the rest of the server does meanwhile (\<open>ue_world k\<close>) and whether the request is cancelled there.
\<close>

record upload_env =
  ue_sha256 :: "byte list \<Rightarrow> string"
  ue_archive :: "tree \<Rightarrow> byte list"
  ue_limits :: upload_limits
  ue_clean :: bool
  ue_stream :: "failure + part list \<times> failure option"
  ue_artifact_id :: string
  ue_now :: int
  ue_world :: "nat \<Rightarrow> server \<Rightarrow> server"
  ue_cancel :: "nat \<Rightarrow> bool"

datatype upload_result = Responded http | Raised failure

definition on_rt :: "(runtime \<Rightarrow> 'a \<times> runtime) \<Rightarrow> server \<Rightarrow> 'a \<times> server" where
  "on_rt f sv = (case f (sv_rt sv) of (a, rt) \<Rightarrow> (a, sv\<lparr>sv_rt := rt\<rparr>))"

definition clean_up :: "upload_env \<Rightarrow> job_id \<Rightarrow> server \<Rightarrow> server" where
  "clean_up ue j sv = sv\<lparr>sv_disk := cleanup_work_best_effort (ue_clean ue) j (sv_disk sv)\<rparr>"

definition await_point :: "upload_env \<Rightarrow> nat \<Rightarrow> server \<Rightarrow> (failure + unit) \<times> server" where
  "await_point ue k sv = (if ue_cancel ue k then Inl F_cancelled else Inr (), ue_world ue k sv)"

text \<open>A transition of the job with its publication, as a result of the handler.\<close>

definition transition :: "(db \<Rightarrow> (mdm_error + snapshot) \<times> db) \<Rightarrow> server \<Rightarrow> (failure + snapshot) \<times> server" where
  "transition op sv = (case on_rt (on_sched (publishing op)) sv of
       (Inl e, sv1) \<Rightarrow> (Inl (F_error e), sv1)
     | (Inr snap, sv1) \<Rightarrow> (Inr snap, sv1))"

text \<open>The \<^verbatim>\<open>except\<close> clauses, in their order.\<close>

definition fail_upload :: "upload_env \<Rightarrow> job_id \<Rightarrow> bool \<Rightarrow> failure \<Rightarrow> server \<Rightarrow> upload_result \<times> server" where
  "fail_upload ue j packaging f sv =
     (case f of
        F_cancelled \<Rightarrow>
          (case on_rt (record_upload_failure j J_INTERRUPTED ''upload_interrupted''
                ''Upload request was cancelled before immutable publication'' (ue_now ue)) sv of
             (Inl e, sv1) \<Rightarrow> (Raised (F_error e), sv1)
           | (Inr u, sv1) \<Rightarrow> (Raised F_cancelled, clean_up ue j sv1))
      | F_error e \<Rightarrow>
          if is_missing e then (Responded (H_error 404 ''Not Found''), sv)
          else if is_conflict e then (Responded (H_error 409 (error_text e)), sv)
          else (case on_rt (record_upload_failure j (if packaging then J_FAILED else J_INTERRUPTED)
                  (if packaging then ''packaging_failed'' else ''upload_interrupted'') (error_text e) (ue_now ue)) sv of
               (Inl e', sv1) \<Rightarrow> (Raised (F_error e'), sv1)
             | (Inr u, sv1) \<Rightarrow> (Responded (H_error (case e of PushJobError m \<Rightarrow> 422 | InvalidTransition m \<Rightarrow> 422 | ValueError m \<Rightarrow> 422 | _ \<Rightarrow> 500)
                 (error_text e)), clean_up ue j sv1)))"

text \<open>From the started upload to the files in the work directory.\<close>

definition receive_files :: "upload_env \<Rightarrow> job_id \<Rightarrow> server \<Rightarrow> (failure + string \<times> upload) \<times> server" where
  "receive_files ue j sv =
     (case ue_stream ue of
        Inl f \<Rightarrow> (Inl f, sv)
      | Inr (ps, fails) \<Rightarrow>
          (case upload_dir j (sv_disk sv) of
             Inl e \<Rightarrow> (Inl (F_error e), sv)
           | Inr (key, dk) \<Rightarrow>
               (case receive (ue_limits ue) ps fails \<lparr>up_seen = [], up_count = 0, up_bytes = 0\<rparr> (wk_upload (work_at dk key)) of
                  (r, files) \<Rightarrow>
                    (rbind r (\<lambda>up. if up_count up = 0 then Inl (F_error (PushJobError ''upload contains no content files'')) else Inr (key, up)),
                     sv\<lparr>sv_disk := set_work key ((work_at dk key)\<lparr>wk_upload := files\<rparr>) dk\<rparr>))))"

text \<open>From the packaging on.\<close>

definition publish_upload :: "upload_env \<Rightarrow> job_id \<Rightarrow> string \<Rightarrow> string list \<Rightarrow> string \<Rightarrow> server \<Rightarrow> upload_result \<times> server" where
  "publish_upload ue j key seen source_label sv =
     (case await_point ue 2 sv of
        (Inl f, sv1) \<Rightarrow> fail_upload ue j True f sv1
      | (Inr u, sv1) \<Rightarrow>
          (case package_and_publish (ue_sha256 ue) (ue_archive ue) (ue_artifact_id ue) j key source_label (sort seen) (sv_disk sv1) of
             Inl e \<Rightarrow> fail_upload ue j True (F_error e) sv1
           | Inr (artifact, dk) \<Rightarrow>
               (case await_point ue 3 (sv1\<lparr>sv_disk := dk\<rparr>) of
                  (Inl f, sv2) \<Rightarrow> fail_upload ue j True f sv2
                | (Inr u, sv2) \<Rightarrow>
                    (case transition (publish_artifact j artifact (ue_now ue)) sv2 of
                       (Inl f, sv3) \<Rightarrow> fail_upload ue j True f sv3
                     | (Inr ready, sv3) \<Rightarrow>
                         (case await_point ue 4 sv3 of
                            (Inl f, sv4) \<Rightarrow> fail_upload ue j True f sv4
                          | (Inr u, sv4) \<Rightarrow> (Responded (H_snapshot 200 ready), clean_up ue j sv4))))))"

text \<open>From the started upload on.\<close>

definition run_upload :: "upload_env \<Rightarrow> job_id \<Rightarrow> server \<Rightarrow> upload_result \<times> server" where
  "run_upload ue j sv =
     (case await_point ue 0 sv of
        (Inl f, sv1) \<Rightarrow> fail_upload ue j False f sv1
      | (Inr u, sv1) \<Rightarrow>
          (case receive_files ue j sv1 of
             (Inl f, sv2) \<Rightarrow> fail_upload ue j False f sv2
           | (Inr (key, up), sv2) \<Rightarrow>
               (case await_point ue 1 sv2 of
                  (Inl f, sv3) \<Rightarrow> fail_upload ue j False f sv3
                | (Inr u, sv3) \<Rightarrow>
                    (case transition (mark_packaging j (int (up_count up)) (int (up_bytes up)) (ue_now ue) (ue_now ue)) sv3 of
                       (Inl f, sv4) \<Rightarrow> fail_upload ue j False f sv4
                     | (Inr snap, sv4) \<Rightarrow> publish_upload ue j key (up_seen up) (s_source_label snap) sv4))))"

definition upload_handler :: "upload_env \<Rightarrow> job_id \<Rightarrow> server \<Rightarrow> upload_result \<times> server" where
  "upload_handler ue j sv =
     (case on_rt (on_sched (\<lambda>st. case start_upload j (ue_now ue) (sc_db st) of (r, s) \<Rightarrow> (r, st\<lparr>sc_db := s\<rparr>))) sv of
        (Upload_refused e, sv1) \<Rightarrow> fail_upload ue j False (F_error e) sv1
      | (UploadDeadlineExpired snap, sv1) \<Rightarrow>
          (Responded (H_error 409 ''job upload deadline expired''),
           clean_up ue j (snd (on_rt (on_sched (\<lambda>st. ((), wake (publish_snapshot snap st)))) sv1)))
      | (Upload_started snap, sv1) \<Rightarrow> run_upload ue j (snd (on_rt (on_sched (\<lambda>st. ((), publish_snapshot snap st))) sv1)))"

section \<open>Download of an artifact\<close>

datatype download = D_missing | D_stream "(string \<times> string) list" "byte list option"

definition artifact_handler :: "bool \<Rightarrow> string \<Rightarrow> server \<Rightarrow> download" where
  "artifact_handler head artifact_id sv =
     (case artifact_record (sc_db (rt_sched (sv_rt sv))) artifact_id of
        None \<Rightarrow> D_missing
      | Some row \<Rightarrow>
          (case path_for_record row of
             Inl e \<Rightarrow> D_missing
           | Inr path \<Rightarrow>
               (case map_of (dk_artifacts (sv_disk sv)) path of
                  None \<Rightarrow> D_missing
                | Some bytes \<Rightarrow>
                    D_stream [(''ETag'', [CHR 0x22] @ a_sha256 row @ [CHR 0x22]), (''Content-Encoding'', ''identity''),
                        (''Cache-Control'', ''private, immutable''), (''Content-Type'', ''application/zip''),
                        (''Content-Length'', show_nat (nat (a_byte_size row)))]
                      (if head then None else Some (concat (read_chunks bytes))))))"

section \<open>Deadlines of created jobs\<close>

text \<open>\<^verbatim>\<open>_created_deadline_loop\<close> once the deadline it waited for has passed.\<close>

definition expire_turn :: "bool \<Rightarrow> job_id \<Rightarrow> int \<Rightarrow> int \<Rightarrow> server \<Rightarrow> server" where
  "expire_turn clean j deadline now sv =
     (case on_rt (on_sched (on_db (expire_created j (Some deadline) now))) sv of
        (Inr (Some snap), sv1) \<Rightarrow>
          (let sv2 = snd (on_rt (on_sched (\<lambda>st. ((), publish_snapshot snap st))) sv1);
               sv3 = sv2\<lparr>sv_disk := cleanup_work_best_effort clean j (sv_disk sv2)\<rparr>
           in snd (on_rt (on_sched (\<lambda>st. ((), wake st))) sv3))
      | (_, sv1) \<Rightarrow> sv1)"

section \<open>Artifacts stay what their records say\<close>

definition server_db :: "server \<Rightarrow> db" where
  "server_db sv = sc_db (rt_sched (sv_rt sv))"

definition artifacts_ok :: "(byte list \<Rightarrow> string) \<Rightarrow> server \<Rightarrow> bool" where
  "artifacts_ok sha256 sv \<longleftrightarrow> (\<forall>row \<in> set (db_artifacts (server_db sv)). \<exists>bytes.
     map_of (dk_artifacts (sv_disk sv)) (a_storage_name row) = Some bytes \<and>
     a_byte_size row = int (length bytes) \<and> a_sha256 row = sha256 bytes)"

text \<open>What every part of the server guarantees: files stay as they are, and records match their files.\<close>

definition guards :: "(byte list \<Rightarrow> string) \<Rightarrow> server \<Rightarrow> server \<Rightarrow> bool" where
  "guards sha256 sv sv' \<longleftrightarrow> (artifacts_ok sha256 sv \<longrightarrow> artifacts_ok sha256 sv') \<and>
     (\<forall>name bytes. map_of (dk_artifacts (sv_disk sv)) name = Some bytes \<longrightarrow> map_of (dk_artifacts (sv_disk sv')) name = Some bytes)"

lemma guards_refl [simp]: "guards sha256 sv sv"
  by (simp add: guards_def)

lemma guards_trans: "guards sha256 sv sv' \<Longrightarrow> guards sha256 sv' sv'' \<Longrightarrow> guards sha256 sv sv''"
  by (auto simp: guards_def)

text \<open>A step that touches neither the records nor the files.\<close>

definition inert :: "server \<Rightarrow> server \<Rightarrow> bool" where
  "inert sv sv' \<longleftrightarrow> db_artifacts (server_db sv') = db_artifacts (server_db sv) \<and> dk_artifacts (sv_disk sv') = dk_artifacts (sv_disk sv)"

lemma inert_guards: "inert sv sv' \<Longrightarrow> guards sha256 sv sv'"
  by (auto simp: inert_def guards_def artifacts_ok_def)

lemma transact_artifacts:
  assumes "transact body s = (r, s')" and "\<And>a t. body s = Inr (a, t) \<Longrightarrow> db_artifacts t = db_artifacts s"
  shows "db_artifacts s' = db_artifacts s"
  using assms by (auto simp: transact_def split: sum.splits)

lemma update_job_artifacts [simp]: "db_artifacts (update_job j f s) = db_artifacts s"
  by (simp add: update_job_def)

lemma fail_pre_dispatch_artifacts: "fail_pre_dispatch j t c d now s = (r, s') \<Longrightarrow> db_artifacts s' = db_artifacts s"
  unfolding fail_pre_dispatch_def
  by (auto simp: Let_def rbind_eq_Inr split: if_splits option.splits elim!: transact_artifacts)

lemma mark_packaging_artifacts: "mark_packaging j n b t now s = (r, s') \<Longrightarrow> db_artifacts s' = db_artifacts s"
  unfolding mark_packaging_def simple_job_transition_def
  by (auto simp: Let_def rbind_eq_Inr split: if_splits option.splits elim!: transact_artifacts)

lemma start_upload_artifacts: "start_upload j now s = (r, s') \<Longrightarrow> db_artifacts s' = db_artifacts s"
  by (auto simp: start_upload_def Let_def split: option.splits if_splits sum.splits)

lemmas server_calls = on_rt_def on_sched_def publishing_def on_db_def publish_snapshot_def wake_def transition_def server_db_def

lemma record_failure_db:
  assumes "on_rt (record_upload_failure j state code detail now) sv = (r, sv')"
  obtains x where "fail_pre_dispatch j state code (take 2000 detail) now (server_db sv) = (x, server_db sv')" "sv_disk sv' = sv_disk sv"
    "r = (case x of Inl e \<Rightarrow> if is_conflict e \<or> is_missing e then Inr () else Inl e | Inr snap \<Rightarrow> Inr ())"
  using assms by (auto simp: record_upload_failure_def server_calls split: prod.splits sum.splits if_splits)

lemma clean_up_inert [simp]: "server_db (clean_up ue j sv) = server_db sv" "dk_artifacts (sv_disk (clean_up ue j sv)) = dk_artifacts (sv_disk sv)"
  by (simp_all add: clean_up_def cleanup_work_best_effort_def server_db_def split: sum.split)

lemma fail_upload_inert: "inert sv (snd (fail_upload ue j packaging f sv))"
proof -
  have "inert sv sv'" if "on_rt (record_upload_failure j state code detail now) sv = (r, sv')" for state code detail now r sv'
    using that by (rule record_failure_db) (auto simp: inert_def dest: fail_pre_dispatch_artifacts)
  moreover have "inert sv sv' \<Longrightarrow> inert sv (clean_up ue j sv')" for sv' by (simp add: inert_def)
  moreover have "inert sv sv" by (simp add: inert_def)
  ultimately show ?thesis unfolding fail_upload_def by (auto split: failure.split sum.split prod.split)
qed

lemma transition_db:
  assumes "transition op sv = (r, sv')"
  obtains x where "op (server_db sv) = (x, server_db sv')" "sv_disk sv' = sv_disk sv" "r = (case x of Inl e \<Rightarrow> Inl (F_error e) | Inr snap \<Rightarrow> Inr snap)"
  using assms by (auto simp: server_calls split: prod.splits sum.splits)

lemma set_work_artifacts [simp]: "dk_artifacts (set_work key w dk) = dk_artifacts dk"
  by (simp add: set_work_def)

lemma receive_files_inert: "receive_files ue j sv = (r, sv') \<Longrightarrow> inert sv sv'"
  by (auto simp: receive_files_def upload_dir_def inert_def server_db_def rbind_eq_Inr split: sum.splits prod.splits)

lemma packaged:
  assumes "package_and_publish sha256 archive a j key label paths dk = Inr (art, dk')" and "uuid_key j = Inr key"
  defines "bytes \<equiv> archive (zip_entries (content_root paths (wk_upload (work_at dk key))))"
  shows "map_of (dk_artifacts dk) (a @ ''.zip'') = None" "dk_artifacts dk' = AList.update (a @ ''.zip'') bytes (dk_artifacts dk)"
    "art = \<lparr>p_artifact_id = a, p_storage_name = a @ ''.zip'', p_display_filename = artifact_display_name label, p_byte_size = int (length bytes),
      p_sha256 = sha256 bytes, p_entry_count = int (length paths)\<rparr>"
  using assms(1,2) unfolding bytes_def
  by (auto simp: package_and_publish_def publish_file_def identity_def Let_def work_at_def set_work_def update_conv' split: if_splits option.splits)

text \<open>The record of a published artifact.\<close>

definition artifact_of :: "published_artifact \<Rightarrow> int \<Rightarrow> artifact_row" where
  "artifact_of a now = \<lparr>a_artifact_id = p_artifact_id a, a_storage_name = p_storage_name a, a_display_filename = p_display_filename a,
     a_byte_size = p_byte_size a, a_sha256 = p_sha256 a, a_entry_count = p_entry_count a, a_created_at = now, a_retention_state = ''retained''\<rparr>"

lemma publish_artifact_rows:
  assumes "publish_artifact j a now s = (x, s')"
  shows "s' = s \<and> (\<exists>e. x = Inl e) \<or>
    (\<exists>row. get_job s j = Some row \<and> j_state row = J_PACKAGING \<and> db_artifacts s' = db_artifacts s @ [artifact_of a now] \<and>
      p_artifact_id a \<notin> a_artifact_id ` set (db_artifacts s) \<and>
      s' = update_job j (\<lambda>r. r\<lparr>j_state := J_READY, j_artifact_id := Some (p_artifact_id a),
                      j_ready_at := Some now, j_revision := j_revision r + 1, j_updated_at := now\<rparr>) (s\<lparr>db_artifacts := db_artifacts s @ [artifact_of a now]\<rparr>) \<and>
      (\<exists>snap. x = Inr snap \<and> snapshot_of s' j = Inr snap))"
  using assms unfolding publish_artifact_def transact_def
  by (auto simp: insert_artifact_def artifact_of_def rbind_eq_Inr rbind_eq_Inl Let_def split: option.splits if_splits sum.splits) metis

text \<open>The world keeps the files, and the work directory of this job.\<close>

definition world_ok :: "upload_env \<Rightarrow> string \<Rightarrow> bool" where
  "world_ok ue key \<longleftrightarrow> (\<forall>k sv. guards (ue_sha256 ue) sv (ue_world ue k sv) \<and>
     map_of (dk_work (sv_disk (ue_world ue k sv))) key = map_of (dk_work (sv_disk sv)) key)"

lemma fail_guards: "guards sha256 sv sv' \<Longrightarrow> guards sha256 sv (snd (fail_upload ue j p f sv'))"
  using guards_trans inert_guards fail_upload_inert by blast

lemma clean_guards: "guards sha256 sv sv' \<Longrightarrow> guards sha256 sv (clean_up ue j sv')"
  by (simp add: guards_def artifacts_ok_def)

lemma publish_guards:
  assumes w: "\<And>k sv. guards (ue_sha256 ue) sv (ue_world ue k sv)" and u: "uuid_key j = Inr key"
  shows "guards (ue_sha256 ue) sv (snd (publish_upload ue j key seen label sv))"
proof -
  let ?sha = "ue_sha256 ue" and ?a = "ue_artifact_id ue"
  define sv1 where "sv1 = ue_world ue 2 sv"
  have 1: "guards ?sha sv sv1" using w by (simp add: sv1_def)
  show ?thesis
  proof (cases "package_and_publish ?sha (ue_archive ue) ?a j key label (sort seen) (sv_disk sv1)")
    case (Inl e)
    then show ?thesis using fail_guards [OF 1] by (simp add: publish_upload_def await_point_def sv1_def)
  next
    case (Inr p)
    obtain art dk where p: "p = (art, dk)" by (cases p)
    define sv2 where "sv2 = ue_world ue 3 (sv1\<lparr>sv_disk := dk\<rparr>)"
    note k = packaged [OF Inr [unfolded p] u]
    have 2: "guards ?sha sv1 (sv1\<lparr>sv_disk := dk\<rparr>)"
      using k(1) by (auto simp: guards_def artifacts_ok_def server_db_def k(2) update_conv')
    then have 3: "guards ?sha sv sv2" "map_of (dk_artifacts (sv_disk sv2)) (?a @ ''.zip'') \<noteq> None"
        "\<And>b. map_of (dk_artifacts dk) (?a @ ''.zip'') = Some b \<Longrightarrow> map_of (dk_artifacts (sv_disk sv2)) (?a @ ''.zip'') = Some b"
      using 1 w [of "sv1\<lparr>sv_disk := dk\<rparr>" 3] guards_trans k(2) by (fastforce simp: sv2_def guards_def update_conv')+
    have 4: "guards ?sha sv2 sv3" if t: "transition (publish_artifact j art (ue_now ue)) sv2 = (r, sv3)" for r sv3
    proof -
      obtain x where x: "publish_artifact j art (ue_now ue) (server_db sv2) = (x, server_db sv3)" "sv_disk sv3 = sv_disk sv2"
        using t by (elim transition_db)
      have "map_of (dk_artifacts (sv_disk sv2)) (p_storage_name art) = Some b \<Longrightarrow> p_byte_size art = int (length b) \<and> p_sha256 art = ?sha b" for b
        using 3(3) k by (auto simp: update_conv')
      then show ?thesis
        using publish_artifact_rows [OF x(1)] x(2) 3(2) k(3)
        by (fastforce simp: guards_def artifacts_ok_def artifact_of_def)
    qed
    then have 5: "guards ?sha sv (ue_world ue 4 sv3)" if "transition (publish_artifact j art (ue_now ue)) sv2 = (r, sv3)" for r sv3
      using that 3(1) w guards_trans by blast
    show ?thesis
      using Inr p 1 3(1) fail_guards 4 5 guards_trans [OF 3(1)] clean_guards
      by (auto simp: publish_upload_def await_point_def sv1_def [symmetric] sv2_def [symmetric] split: sum.split prod.split)
  qed
qed

lemma await_guards:
  assumes "await_point ue k sv' = (r, sv'')" and "\<And>k sv. guards sha256 sv (ue_world ue k sv)" and "guards sha256 sv sv'"
  shows "guards sha256 sv sv''"
  using assms guards_trans by (auto simp: await_point_def)

lemma uuid_of_receive: "receive_files ue j sv = (Inr (key, up), sv') \<Longrightarrow> uuid_key j = Inr key"
  by (auto simp: receive_files_def upload_dir_def rbind_eq_Inr split: sum.splits prod.splits if_splits)

lemma run_guards:
  assumes w: "\<And>k sv. guards (ue_sha256 ue) sv (ue_world ue k sv)"
  shows "guards (ue_sha256 ue) sv (snd (run_upload ue j sv))"
proof -
  let ?g = "guards (ue_sha256 ue)"
  obtain r2 sv2 where 2: "await_point ue 0 sv = (r2, sv2)" by fastforce
  have g2: "?g sv sv2" by (rule await_guards [OF 2 w guards_refl])
  obtain r3 sv3 where 3: "receive_files ue j sv2 = (r3, sv3)" by fastforce
  have g3: "?g sv sv3" using g2 3 receive_files_inert inert_guards guards_trans by blast
  obtain r4 sv4 where 4: "await_point ue 1 sv3 = (r4, sv4)" by fastforce
  have g4: "?g sv sv4" by (rule await_guards [OF 4 w g3])
  have g5: "?g sv sv5" if t: "transition (mark_packaging j n b t1 t2) sv4 = (r, sv5)" for n b t1 t2 r sv5
  proof -
    have "inert sv4 sv5" using t by (rule transition_db) (auto simp: inert_def dest: mark_packaging_artifacts)
    then show ?thesis using g4 inert_guards guards_trans by blast
  qed
  have g6: "?g sv (snd (publish_upload ue j key seen label sv5))" if "?g sv sv5" "r3 = Inr (key, up)" for key up seen label sv5
    using publish_guards [OF w uuid_of_receive] 3 that guards_trans by blast
  show ?thesis
    using 2 3 4 fail_guards [OF g2] fail_guards [OF g3] fail_guards [OF g4] fail_guards [OF g5] g5 g6
    by (auto simp: run_upload_def split: sum.split prod.split)
qed

lemma upload_guards:
  assumes w: "\<And>k sv. guards (ue_sha256 ue) sv (ue_world ue k sv)"
  shows "guards (ue_sha256 ue) sv (snd (upload_handler ue j sv))"
proof -
  let ?g = "guards (ue_sha256 ue)"
  obtain o1 sv1 where 1: "on_rt (on_sched (\<lambda>st. case start_upload j (ue_now ue) (sc_db st) of (r, s) \<Rightarrow> (r, st\<lparr>sc_db := s\<rparr>))) sv = (o1, sv1)"
    by fastforce
  then have g1: "?g sv sv1"
    by (intro inert_guards) (auto simp: server_calls inert_def split: prod.splits dest: start_upload_artifacts)
  have pub: "?g sv x \<Longrightarrow> ?g sv (snd (on_rt (on_sched (\<lambda>st. ((), publish_snapshot snap st))) x))"
    "?g sv x \<Longrightarrow> ?g sv (snd (on_rt (on_sched (\<lambda>st. ((), wake (publish_snapshot snap st)))) x))" for x snap
    by (auto simp: guards_def artifacts_ok_def server_calls)
  show ?thesis
    using 1 fail_guards [OF g1] clean_guards [OF pub(2) [OF g1]] guards_trans [OF pub(1) [OF g1] run_guards [OF w]]
    by (cases o1) (auto simp: upload_handler_def)
qed

lemma expire_guards: "guards sha256 sv (expire_turn clean j deadline now sv)"
proof (rule inert_guards)
  have "db_artifacts s' = db_artifacts s" if "expire_created j (Some deadline) now s = (r, s')" for s r s'
    using that unfolding expire_created_def
    by (auto simp: Let_def rbind_eq_Inr split: if_splits option.splits elim!: transact_artifacts)
  then show "inert sv (expire_turn clean j deadline now sv)"
    by (auto simp: expire_turn_def inert_def server_calls cleanup_work_best_effort_def Let_def split: prod.splits sum.splits option.splits)
qed

lemma cleanup_artifacts [simp]: "dk_artifacts (fold (cleanup_work_best_effort clean) js dk) = dk_artifacts dk"
  by (induction js arbitrary: dk) (simp_all add: cleanup_work_best_effort_def split: sum.split)

lemma orphan_files:
  "name \<notin> set orphans \<Longrightarrow> map_of (dk_artifacts (fold (\<lambda>n dk. case remove_orphan n dk of Inl e \<Rightarrow> dk | Inr dk' \<Rightarrow> dk') orphans dk)) name =
     map_of (dk_artifacts dk) name"
  by (induction orphans arbitrary: dk) (auto simp: remove_orphan_def delete_conv' split: if_splits)

text \<open>
  (C18) Artifacts are immutable and match their records. An upload, at whatever point it is cancelled or
  fails and whatever the rest of the server does meanwhile under the same rule, never changes or removes
  a published file, and every record of the database names a file with exactly the recorded size and
  SHA-256 digest. The removal of orphans at a start keeps this too, because it only takes names that no
  record has. So a download is complete and authentic: it is the bytes of the digest in the \<^verbatim>\<open>ETag\<close>.
\<close>

theorem artifacts_immutable:
  assumes "\<And>k sv. guards (ue_sha256 ue) sv (ue_world ue k sv)" and "artifacts_ok (ue_sha256 ue) sv"
  shows "artifacts_ok (ue_sha256 ue) (snd (upload_handler ue j sv)) \<and>
    (\<forall>name bytes. map_of (dk_artifacts (sv_disk sv)) name = Some bytes \<longrightarrow>
       map_of (dk_artifacts (sv_disk (snd (upload_handler ue j sv)))) name = Some bytes) \<and>
    artifacts_ok (ue_sha256 ue) (sv\<lparr>sv_disk := startup_files clean js (orphan_artifacts_sync listing (server_db sv)) (sv_disk sv)\<rparr>) \<and>
    (\<forall>a row headers body. artifact_handler head a sv = D_stream headers body \<longrightarrow> get_artifact (server_db sv) a = Some row \<longrightarrow>
       (\<exists>bytes. (body = Some bytes \<or> head \<and> body = None) \<and> a_sha256 row = ue_sha256 ue bytes \<and> a_byte_size row = int (length bytes)))"
proof (intro conjI allI impI)
  have g: "guards (ue_sha256 ue) sv (snd (upload_handler ue j sv))" using assms(1) by (rule upload_guards)
  show "artifacts_ok (ue_sha256 ue) (snd (upload_handler ue j sv))" using g assms(2) by (simp add: guards_def)
  show "map_of (dk_artifacts (sv_disk (snd (upload_handler ue j sv)))) name = Some bytes"
    if "map_of (dk_artifacts (sv_disk sv)) name = Some bytes" for name bytes using g that by (simp add: guards_def)
  have "a_storage_name row \<notin> set (orphan_artifacts_sync listing (server_db sv))" if "row \<in> set (db_artifacts (server_db sv))" for row
    using that by (auto simp: orphan_artifacts_sync_def is_orphan_def Let_def split: option.splits)
  then show "artifacts_ok (ue_sha256 ue) (sv\<lparr>sv_disk := startup_files clean js (orphan_artifacts_sync listing (server_db sv)) (sv_disk sv)\<rparr>)"
    using assms(2) unfolding artifacts_ok_def startup_files_def by (simp add: server_db_def orphan_files)
  fix a row headers body
  assume "artifact_handler head a sv = D_stream headers body" and r: "get_artifact (server_db sv) a = Some row"
  then obtain path bytes where "path_for_record row = Inr path" and b: "map_of (dk_artifacts (sv_disk sv)) path = Some bytes"
      "body = (if head then None else Some bytes)"
    by (auto simp: artifact_handler_def artifact_record_def server_db_def split: option.splits sum.splits)
  then have "path = a_storage_name row" by (simp add: path_for_record_def Let_def split: if_splits)
  moreover have "row \<in> set (db_artifacts (server_db sv))" using r by (auto simp: get_artifact_def lookup_row_def find_Some_iff)
  ultimately show "\<exists>bytes. (body = Some bytes \<or> head \<and> body = None) \<and> a_sha256 row = ue_sha256 ue bytes \<and> a_byte_size row = int (length bytes)"
    using b assms(2) unfolding artifacts_ok_def by fastforce
qed

section \<open>What an upload publishes\<close>

definition received_ok :: "upload_limits \<Rightarrow> upload \<Rightarrow> tree \<Rightarrow> bool" where
  "received_ok lim up files \<longleftrightarrow> up_seen up = map fst files \<and> distinct (map fst files) \<and> up_count up = length files \<and>
     length files \<le> MAX_BUNDLE_ENTRIES lim \<and> up_bytes up = sum_list (map (length \<circ> snd) files) \<and> up_bytes up \<le> MAX_BUNDLE_SIZE lim \<and>
     (\<forall>rel \<in> set (map fst files). sanitize_relpath (Some rel) = Some rel \<and> \<not> is_os_metadata rel)"

lemma write_chunks_ok:
  "write_chunks limit fails cs n content = (Inr (), n', content') \<Longrightarrow> n \<le> limit \<Longrightarrow>
     n' \<le> limit \<and> n' + length content = n + length content'"
proof (induction cs arbitrary: n content)
  case (Cons c cs)
  then show ?case by (fastforce split: if_splits)
qed (auto split: option.splits)

lemma receive_part_ok:
  assumes "receive_part lim p up files = (Inr up', files')" and "received_ok lim up files"
  shows "received_ok lim up' files'"
proof (cases "\<exists>rel. pt_name p = ''files'' \<and> sanitize_relpath (pt_filename p) = Some rel \<and> \<not> is_os_metadata rel")
  case True
  then obtain rel where p: "pt_name p = ''files''" "sanitize_relpath (pt_filename p) = Some rel" "\<not> is_os_metadata rel" by blast
  obtain r n content where w: "write_chunks (MAX_BUNDLE_SIZE lim) (pt_fails p) (pt_chunks p) (up_bytes up) [] = (r, n, content)"
    by (cases "write_chunks (MAX_BUNDLE_SIZE lim) (pt_fails p) (pt_chunks p) (up_bytes up) []")
  then have u: "r = Inr ()" "up' = \<lparr>up_seen = up_seen up @ [rel], up_count = up_count up + 1, up_bytes = n\<rparr>" "files' = files @ [(rel, content)]"
      "rel \<notin> set (up_seen up)" "up_count up + 1 \<le> MAX_BUNDLE_ENTRIES lim"
    using assms(1) p by (auto simp: receive_part_def Let_def rbind_eq_Inr split: if_splits)
  have "n \<le> MAX_BUNDLE_SIZE lim" "n = up_bytes up + length content"
    using write_chunks_ok [OF w [unfolded u(1)]] assms(2) by (auto simp: received_ok_def)
  moreover have "sanitize_relpath (Some rel) = Some rel" using sanitize_relpath_safe [OF p(2)] by blast
  ultimately show ?thesis using assms(2) u p(3) by (auto simp: received_ok_def)
next
  case False
  then have "up' = up" "files' = files"
    using assms(1) by (auto simp: receive_part_def Let_def rbind_eq_Inr split: if_splits option.splits)
  then show ?thesis using assms(2) by simp
qed

lemma receive_ok: "receive lim ps fails up files = (Inr up', files') \<Longrightarrow> received_ok lim up files \<Longrightarrow> received_ok lim up' files'"
proof (induction ps arbitrary: up files)
  case (Cons p ps)
  then show ?case by (auto split: prod.splits sum.splits dest: receive_part_ok)
qed (auto split: option.splits)

lemma receive_files_ok:
  assumes "receive_files ue j sv = (Inr (key, up), sv')" and "map_of (dk_work (sv_disk sv)) key = None"
  shows "\<exists>files. received_ok (ue_limits ue) up files \<and> files \<noteq> [] \<and> wk_upload (work_at (sv_disk sv') key) = files"
proof -
  obtain ps fails dk r files where s: "ue_stream ue = Inr (ps, fails)" "upload_dir j (sv_disk sv) = Inr (key, dk)"
      "receive (ue_limits ue) ps fails \<lparr>up_seen = [], up_count = 0, up_bytes = 0\<rparr> (wk_upload (work_at dk key)) = (Inr up, files)"
      "up_count up \<noteq> 0" "sv' = sv\<lparr>sv_disk := set_work key ((work_at dk key)\<lparr>wk_upload := files\<rparr>) dk\<rparr>"
    using assms(1) by (auto simp: receive_files_def rbind_eq_Inr split: sum.splits prod.splits if_splits)
  have "wk_upload (work_at dk key) = []"
    using s(2) assms(2) by (auto simp: upload_dir_def rbind_eq_Inr work_at_def set_work_def update_conv')
  then have "received_ok (ue_limits ue) up files"
    using receive_ok [OF s(3)] by (simp add: received_ok_def)
  moreover have "wk_upload (work_at (sv_disk sv') key) = files" by (simp add: s(5) work_at_def set_work_def update_conv')
  moreover have "files \<noteq> []" using calculation(1) s(4) by (auto simp: received_ok_def)
  ultimately show ?thesis by blast
qed

lemma work_kept: "map_of (dk_work dk') key = map_of (dk_work dk) key \<Longrightarrow> work_at dk' key = work_at dk key"
  by (simp add: work_at_def)

lemma find_snoc: "\<not> (\<exists>x \<in> set xs. p x) \<Longrightarrow> p y \<Longrightarrow> find p (xs @ [y]) = Some y"
  by (induction xs) auto

lemma published_view:
  assumes "publish_artifact j art now s = (Inr snap, s')" and "p_artifact_id art \<noteq> []"
  shows "s_artifact snap = Some \<lparr>av_artifact_id = p_artifact_id art, av_url = ''/artifacts/'' @ p_artifact_id art,
      av_display_filename = Some (p_display_filename art), av_byte_size = Some (p_byte_size art), av_sha256 = Some (p_sha256 art),
      av_entry_count = Some (p_entry_count art), av_created_at = Some now\<rparr>" "s_state snap = J_READY"
proof -
  obtain row where r: "db_artifacts s' = db_artifacts s @ [artifact_of art now]" "p_artifact_id art \<notin> a_artifact_id ` set (db_artifacts s)"
      "snapshot_of s' j = Inr snap" "get_job s j = Some row"
      "s' = update_job j (\<lambda>r. r\<lparr>j_state := J_READY, j_artifact_id := Some (p_artifact_id art),
          j_ready_at := Some now, j_revision := j_revision r + 1, j_updated_at := now\<rparr>) (s\<lparr>db_artifacts := db_artifacts s @ [artifact_of art now]\<rparr>)"
    using publish_artifact_rows [OF assms(1)] by auto
  have a: "get_artifact s' (p_artifact_id art) = Some (artifact_of art now)"
    using r(2) unfolding get_artifact_def lookup_row_def r(1) by (intro find_snoc) (auto simp: artifact_of_def image_iff)
  obtain job where j: "get_job s' j = Some job" using r(3) by (auto simp: snapshot_of_def split: option.splits)
  have "j_artifact_id job = Some (p_artifact_id art) \<and> j_state job = J_READY"
    using j r(4) unfolding r(5) get_job_def lookup_row_def update_job_def update_rows_def find_Some_iff
    by (auto split: if_splits)
  then show "s_artifact snap = Some \<lparr>av_artifact_id = p_artifact_id art, av_url = ''/artifacts/'' @ p_artifact_id art,
      av_display_filename = Some (p_display_filename art), av_byte_size = Some (p_byte_size art), av_sha256 = Some (p_sha256 art),
      av_entry_count = Some (p_entry_count art), av_created_at = Some now\<rparr>" "s_state snap = J_READY"
    using r(3) j a assms(2) by (auto simp: snapshot_of_def artifact_payload_def artifact_of_def Let_def)
qed

lemma fail_upload_result: "fst (fail_upload ue j packaging f sv) \<noteq> Responded (H_snapshot code snap)"
  by (auto simp: fail_upload_def split: failure.split sum.split prod.split)

text \<open>The path of a successful upload through the handler.\<close>

lemma publish_upload_success:
  assumes "publish_upload ue j key seen label sv = (Responded (H_snapshot code ready), sv')" and "world_ok ue key" and "uuid_key j = Inr key"
    and "ue_artifact_id ue \<noteq> []"
  defines "bytes \<equiv> ue_archive ue (zip_entries (content_root (sort seen) (wk_upload (work_at (sv_disk sv) key))))"
  shows "code = 200 \<and> s_state ready = J_READY \<and> map_of (dk_artifacts (sv_disk sv')) (ue_artifact_id ue @ ''.zip'') = Some bytes \<and>
    s_artifact ready = Some \<lparr>av_artifact_id = ue_artifact_id ue, av_url = ''/artifacts/'' @ ue_artifact_id ue,
      av_display_filename = Some (artifact_display_name label), av_byte_size = Some (int (length bytes)), av_sha256 = Some (ue_sha256 ue bytes),
      av_entry_count = Some (int (length seen)), av_created_at = Some (ue_now ue)\<rparr>"
proof -
  define sv1 where "sv1 = ue_world ue 2 sv"
  have w1: "work_at (sv_disk sv1) key = work_at (sv_disk sv) key" unfolding sv1_def by (rule work_kept) (use assms(2) in \<open>simp add: world_ok_def\<close>)
  have no: "publish_upload ue j key seen label sv \<noteq> fail_upload ue j True f sv0" for f sv0
    using assms(1) fail_upload_result [of ue j True f sv0 code ready] by (metis fst_conv)
  have c2: "\<not> ue_cancel ue 2" using no [of F_cancelled sv1] by (cases "ue_cancel ue 2") (simp_all add: publish_upload_def await_point_def sv1_def)
  obtain art dk where p: "package_and_publish (ue_sha256 ue) (ue_archive ue) (ue_artifact_id ue) j key label (sort seen) (sv_disk sv1) = Inr (art, dk)"
    using no [of "F_error _" sv1] c2
    by (cases "package_and_publish (ue_sha256 ue) (ue_archive ue) (ue_artifact_id ue) j key label (sort seen) (sv_disk sv1)")
      (auto simp: publish_upload_def await_point_def sv1_def)
  note k = packaged [OF p assms(3), unfolded w1]
  define sv2 where "sv2 = ue_world ue 3 (sv1\<lparr>sv_disk := dk\<rparr>)"
  note step = publish_upload_def await_point_def sv1_def [symmetric] sv2_def [symmetric] p
  have c3: "\<not> ue_cancel ue 3" using no [of F_cancelled sv2] c2 by (cases "ue_cancel ue 3") (simp_all add: step)
  obtain r3 sv3 where t: "transition (publish_artifact j art (ue_now ue)) sv2 = (r3, sv3)" by fastforce
  obtain snap where s: "r3 = Inr snap" using no [of _ sv3] c2 c3 t by (cases r3) (auto simp add: step)
  have c4: "\<not> ue_cancel ue 4" using no [of F_cancelled "ue_world ue 4 sv3"] c2 c3 t s by (cases "ue_cancel ue 4") (simp_all add: step)
  have r3: "r3 = Inr ready" "sv' = clean_up ue j (ue_world ue 4 sv3)" "code = 200"
    using assms(1) c2 c3 c4 t s by (simp_all add: step)
  obtain x where x: "publish_artifact j art (ue_now ue) (server_db sv2) = (x, server_db sv3)" "sv_disk sv3 = sv_disk sv2"
      "Inr ready = (case x of Inl e \<Rightarrow> Inl (F_error e) | Inr snap \<Rightarrow> Inr snap)"
    using t [unfolded r3(1)] by (elim transition_db)
  then have "x = Inr ready" by (auto split: sum.splits)
  then have "s_state ready = J_READY" and v: "s_artifact ready = Some \<lparr>av_artifact_id = ue_artifact_id ue, av_url = ''/artifacts/'' @ ue_artifact_id ue,
      av_display_filename = Some (artifact_display_name label), av_byte_size = Some (int (length bytes)), av_sha256 = Some (ue_sha256 ue bytes),
      av_entry_count = Some (int (length seen)), av_created_at = Some (ue_now ue)\<rparr>"
    using published_view [of j art "ue_now ue" "server_db sv2" ready "server_db sv3"] x(1) k(3) assms(4) by (simp_all add: bytes_def)
  have keeps: "map_of (dk_artifacts (sv_disk y)) n = Some b \<Longrightarrow> map_of (dk_artifacts (sv_disk (ue_world ue i y))) n = Some b" for i y n b
    using assms(2) by (auto simp: world_ok_def guards_def)
  have "map_of (dk_artifacts dk) (ue_artifact_id ue @ ''.zip'') = Some bytes" by (simp add: k(2) update_conv' bytes_def)
  then have "map_of (dk_artifacts (sv_disk sv')) (ue_artifact_id ue @ ''.zip'') = Some bytes"
    using keeps [of "sv1\<lparr>sv_disk := dk\<rparr>" _ _ 3] keeps [of sv3 _ _ 4] x(2) by (simp add: r3(2) sv2_def)
  then show ?thesis using \<open>s_state ready = J_READY\<close> v r3(3) by simp
qed

text \<open>The state of one job over the parts of the handler.\<close>

lemma get_job_update:
  assumes "\<And>r. j_job_id (f r) = j_job_id r"
  shows "get_job (update_job j f s) j = map_option f (get_job s j)"
proof -
  have "find (\<lambda>r. j_job_id r = j) (map (\<lambda>r. if j_job_id r = j then f r else r) xs) = map_option f (find (\<lambda>r. j_job_id r = j) xs)" for xs
    by (induction xs) (simp_all add: assms)
  then show ?thesis by (simp add: get_job_def lookup_row_def update_job_def update_rows_def)
qed

definition job_state_of :: "server \<Rightarrow> job_id \<Rightarrow> job_state option" where
  "job_state_of sv j = map_option j_state (get_job (server_db sv) j)"

lemma snapshot_exists: "get_job s j = Some r \<Longrightarrow> \<exists>snap. snapshot_of s j = Inr snap"
  by (simp add: snapshot_of_def Let_def)

lemma fail_pre_dispatch_state:
  assumes "get_job s j = Some r" and "j_state r \<in> {J_UPLOADING, J_PACKAGING}" and "t \<in> {J_FAILED, J_INTERRUPTED}"
  shows "\<exists>snap s' r'. fail_pre_dispatch j t c d now s = (Inr snap, s') \<and> get_job s' j = Some r' \<and> j_state r' = t"
proof -
  let ?f = "\<lambda>r. r\<lparr>j_state := t, j_revision := j_revision r + 1, j_updated_at := now, j_terminal_at := Some now,
     j_failure_code := Some c, j_failure_detail := Some d\<rparr>"
  have g: "get_job (update_job j ?f s) j = Some (?f r)" using assms(1) by (simp add: get_job_update)
  have "validate_job_transition (j_state r) t = Inr ()"
    using assms(2,3) by (auto simp: validate_job_transition_def TERMINAL_JOB_STATES_def)
  then show ?thesis using assms(1,3) snapshot_exists [OF g] g by (fastforce simp: fail_pre_dispatch_def transact_def Let_def)
qed

lemma fail_upload_settles:
  assumes "job_state_of sv j \<in> {Some J_UPLOADING, Some J_PACKAGING}" and "\<And>e. f = F_error e \<Longrightarrow> \<not> is_missing e \<and> \<not> is_conflict e"
  shows "job_state_of (snd (fail_upload ue j packaging f sv)) j \<in> {Some J_FAILED, Some J_INTERRUPTED}"
proof -
  obtain r where r: "get_job (server_db sv) j = Some r" "j_state r \<in> {J_UPLOADING, J_PACKAGING}" using assms(1) by (auto simp: job_state_of_def)
  have "job_state_of sv' j = Some t" if t: "on_rt (record_upload_failure j t c d now) sv = (x, sv')" "t \<in> {J_FAILED, J_INTERRUPTED}" for t c d now x sv'
  proof -
    obtain y where "fail_pre_dispatch j t c (take 2000 d) now (server_db sv) = (y, server_db sv')" using t(1) by (elim record_failure_db)
    then show ?thesis using fail_pre_dispatch_state [OF r t(2), of c "take 2000 d" now] by (auto simp: job_state_of_def)
  qed
  moreover have "job_state_of (clean_up ue j x) j = job_state_of x j" for x by (simp add: job_state_of_def)
  ultimately show ?thesis using assms(2) unfolding fail_upload_def by (auto split: failure.split sum.split prod.split)
qed

text \<open>An upload is settled: its job has an outcome, and its work directory is gone if it could be removed.\<close>

definition work_gone :: "upload_env \<Rightarrow> job_id \<Rightarrow> server \<Rightarrow> bool" where
  "work_gone ue j sv \<longleftrightarrow> (\<forall>key. ue_clean ue \<longrightarrow> uuid_key j = Inr key \<longrightarrow> map_of (dk_work (sv_disk sv)) key = None)"

definition settled :: "upload_env \<Rightarrow> job_id \<Rightarrow> server \<Rightarrow> bool" where
  "settled ue j sv \<longleftrightarrow> job_state_of sv j \<in> {Some J_READY, Some J_FAILED, Some J_INTERRUPTED} \<and> work_gone ue j sv"

lemma clean_up_gone: "work_gone ue j (clean_up ue j sv)"
  by (simp add: work_gone_def clean_up_def cleanup_work_best_effort_def delete_conv')

lemma fail_upload_cleans:
  assumes "job_state_of sv j \<in> {Some J_UPLOADING, Some J_PACKAGING}" and "\<And>e. f = F_error e \<Longrightarrow> \<not> is_missing e \<and> \<not> is_conflict e"
  shows "work_gone ue j (snd (fail_upload ue j packaging f sv))"
proof -
  obtain r where r: "get_job (server_db sv) j = Some r" "j_state r \<in> {J_UPLOADING, J_PACKAGING}" using assms(1) by (auto simp: job_state_of_def)
  have "x = Inr ()" if t: "on_rt (record_upload_failure j t c d now) sv = (x, sv')" "t \<in> {J_FAILED, J_INTERRUPTED}" for t c d now x sv'
  proof -
    obtain y where "fail_pre_dispatch j t c (take 2000 d) now (server_db sv) = (y, server_db sv')"
        "x = (case y of Inl e \<Rightarrow> if is_conflict e \<or> is_missing e then Inr () else Inl e | Inr snap \<Rightarrow> Inr ())"
      using t(1) by (elim record_failure_db)
    then show ?thesis using fail_pre_dispatch_state [OF r t(2), of c "take 2000 d" now] by auto
  qed
  then show ?thesis using assms(2) clean_up_gone unfolding fail_upload_def by (fastforce split: failure.split sum.split prod.split)
qed

lemma fail_settled:
  assumes "job_state_of sv j \<in> {Some J_UPLOADING, Some J_PACKAGING}" and "\<And>e. f = F_error e \<Longrightarrow> \<not> is_missing e \<and> \<not> is_conflict e"
  shows "settled ue j (snd (fail_upload ue j packaging f sv))"
  using fail_upload_settles [OF assms] fail_upload_cleans [OF assms] by (auto simp: settled_def)

lemma ready_stays:
  assumes "job_state_of sv j = Some J_READY"
  shows "job_state_of (snd (fail_upload ue j packaging F_cancelled sv)) j = Some J_READY"
proof -
  obtain r where r: "get_job (server_db sv) j = Some r" "j_state r = J_READY" using assms by (auto simp: job_state_of_def)
  have "fail_pre_dispatch j J_INTERRUPTED c d now (server_db sv) = (Inl (InvalidTransition
      (''invalid job transition: '' @ job_state_value J_READY @ '' -> '' @ job_state_value J_INTERRUPTED)), server_db sv)" for c d now
    using r by (simp add: fail_pre_dispatch_def transact_def validate_job_transition_def)
  then have "job_state_of sv' j = Some J_READY" if "on_rt (record_upload_failure j J_INTERRUPTED c d now) sv = (x, sv')" for c d now x sv'
    using that assms by (elim record_failure_db) (auto simp: job_state_of_def)
  moreover have "job_state_of (clean_up ue j x) j = job_state_of x j" for x by (simp add: job_state_of_def)
  ultimately show ?thesis unfolding fail_upload_def by (auto split: sum.split prod.split)
qed

lemma transition_state:
  assumes "transition op sv = (r, sv')" and "get_job (server_db sv) j = Some row"
    and "\<And>x s'. op (server_db sv) = (x, s') \<Longrightarrow> (\<exists>snap. x = Inr snap) \<and> map_option j_state (get_job s' j) = Some t"
  shows "(\<exists>snap. r = Inr snap) \<and> job_state_of sv' j = Some t"
  using assms(1) by (rule transition_db) (auto simp: job_state_of_def dest: assms(3))

lemma mark_packaging_state:
  assumes "get_job s j = Some r" and "j_state r = J_UPLOADING" and "mark_packaging j n b t now s = (x, s')"
  shows "(\<exists>snap. x = Inr snap) \<and> map_option j_state (get_job s' j) = Some J_PACKAGING"
proof -
  let ?f = "\<lambda>r. (r\<lparr>j_state := J_PACKAGING, j_revision := j_revision r + 1, j_updated_at := now\<rparr>)
    \<lparr>j_actual_file_count := Some n, j_actual_total_bytes := Some b, j_packaging_started_at := Some t\<rparr>"
  have g: "get_job (update_job j ?f s) j = Some (?f r)" using assms(1) by (simp add: get_job_update)
  obtain snap where n: "snapshot_of (update_job j ?f s) j = Inr snap" using snapshot_exists [OF g] by blast
  have v: "validate_job_transition J_UPLOADING J_PACKAGING = Inr ()" by (simp add: validate_job_transition_def TERMINAL_JOB_STATES_def)
  have "x = Inr snap \<and> s' = update_job j ?f s"
    using assms by (auto simp: mark_packaging_def simple_job_transition_def transact_def Let_def n v)
  then show ?thesis using g by simp
qed

lemma publish_artifact_state:
  assumes "get_job s j = Some r" and "j_state r = J_PACKAGING" and "publish_artifact j a now s = (x, s')"
  shows "(\<exists>snap. x = Inr snap) \<and> map_option j_state (get_job s' j) = Some J_READY \<or> (\<exists>m. x = Inl (IntegrityError m)) \<and> s' = s"
proof (cases "insert_artifact (artifact_of a now) s")
  case (Inl e)
  then show ?thesis using assms by (auto simp: publish_artifact_def transact_def artifact_of_def insert_artifact_def split: if_splits)
next
  case (Inr s1)
  let ?f = "\<lambda>r. r\<lparr>j_state := J_READY, j_artifact_id := Some (p_artifact_id a), j_ready_at := Some now, j_revision := j_revision r + 1, j_updated_at := now\<rparr>"
  have "get_job s1 j = Some r" using Inr assms(1) by (auto simp: insert_artifact_def get_job_def split: if_splits)
  then have g: "get_job (update_job j ?f s1) j = Some (?f r)" by (simp add: get_job_update)
  obtain snap where n: "snapshot_of (update_job j ?f s1) j = Inr snap" using snapshot_exists [OF g] by blast
  have "x = Inr snap \<and> s' = update_job j ?f s1"
    using assms Inr by (auto simp: publish_artifact_def transact_def artifact_of_def Let_def n)
  then show ?thesis using g by simp
qed

text \<open>What the handler may rely on for its own job: nobody else moves it, and the stream raises no error of the store.\<close>

fun plain :: "failure \<Rightarrow> bool" where
  "plain F_cancelled = True"
| "plain (F_error e) = (\<not> is_missing e \<and> \<not> is_conflict e)"

definition plain_stream :: "upload_env \<Rightarrow> bool" where
  "plain_stream ue \<longleftrightarrow> (case ue_stream ue of
       Inl f \<Rightarrow> plain f
     | Inr (ps, fails) \<Rightarrow> (\<forall>f. fails = Some f \<longrightarrow> plain f) \<and> (\<forall>p \<in> set ps. \<forall>f. pt_fails p = Some f \<longrightarrow> plain f))"

lemma write_chunks_plain:
  "write_chunks limit fails cs n content = (Inl f, r) \<Longrightarrow> (\<And>f. fails = Some f \<Longrightarrow> plain f) \<Longrightarrow> plain f"
  by (induction cs arbitrary: n content) (auto split: option.splits if_splits)

lemma receive_part_plain:
  "receive_part lim p up files = (Inl f, files') \<Longrightarrow> (\<And>f. pt_fails p = Some f \<Longrightarrow> plain f) \<Longrightarrow> plain f"
  by (auto simp: receive_part_def drain_def Let_def rbind_eq_Inl split: if_splits option.splits prod.splits dest: write_chunks_plain)

lemma receive_plain:
  "receive lim ps fails up files = (Inl f, files') \<Longrightarrow> (\<And>f. fails = Some f \<Longrightarrow> plain f) \<Longrightarrow>
   (\<And>p f. p \<in> set ps \<Longrightarrow> pt_fails p = Some f \<Longrightarrow> plain f) \<Longrightarrow> plain f"
proof (induction ps arbitrary: up files)
  case (Cons p ps)
  obtain r files1 where r: "receive_part lim p up files = (r, files1)" by fastforce
  show ?case
  proof (cases r)
    case (Inl f1)
    then have "f1 = f" using Cons.prems(1) r by simp
    then show ?thesis using receive_part_plain [of lim p up files f files1] r Inl Cons.prems(3) by auto
  next
    case (Inr up1)
    then show ?thesis using Cons.IH [of up1 files1] Cons.prems r by auto
  qed
qed (auto split: option.splits)

lemma receive_files_plain: "receive_files ue j sv = (Inl f, sv') \<Longrightarrow> plain_stream ue \<Longrightarrow> plain f"
  by (auto simp: receive_files_def plain_stream_def upload_dir_def uuid_key_def rbind_eq_Inl rbind_eq_Inr
      split: sum.splits prod.splits if_splits option.splits dest!: receive_plain)

lemma package_plain: "package_and_publish sha256 archive a j key label paths dk = Inl e \<Longrightarrow> plain (F_error e)"
  by (auto simp: package_and_publish_def publish_file_def uuid_key_def identity_def rbind_eq_Inl Let_def split: option.splits if_splits prod.splits)

lemma state_row: "job_state_of sv j = Some t \<Longrightarrow> \<exists>r. get_job (server_db sv) j = Some r \<and> j_state r = t"
  by (auto simp: job_state_of_def)

lemma plain_fail_settled:
  assumes "job_state_of sv j \<in> {Some J_UPLOADING, Some J_PACKAGING}" and "plain f"
  shows "settled ue j (snd (fail_upload ue j packaging f sv))"
  using assms(2) by (intro fail_settled [OF assms(1)]) (cases f; simp)

lemma publish_settles:
  assumes w: "\<And>k sv. job_state_of (ue_world ue k sv) j = job_state_of sv j" and "job_state_of sv j = Some J_PACKAGING"
    and "\<not> ue_cancel ue 4"
  shows "settled ue j (snd (publish_upload ue j key seen label sv))"
proof -
  define sv1 where "sv1 = ue_world ue 2 sv"
  have 1: "job_state_of sv1 j = Some J_PACKAGING" using assms by (simp add: sv1_def)
  have f: "settled ue j (snd (fail_upload ue j True f x))" if "job_state_of x j = Some J_PACKAGING" "plain f" for f x
    using that by (intro plain_fail_settled) simp_all
  show ?thesis
  proof (cases "ue_cancel ue 2 \<or> (\<exists>e. package_and_publish (ue_sha256 ue) (ue_archive ue) (ue_artifact_id ue) j key label (sort seen) (sv_disk sv1) = Inl e)")
    case True
    then show ?thesis
      using f [OF 1] package_plain [of "ue_sha256 ue" "ue_archive ue" "ue_artifact_id ue" j key label "sort seen" "sv_disk sv1"]
      by (auto simp: publish_upload_def await_point_def sv1_def [symmetric])
  next
    case False
    then obtain art dk where p: "package_and_publish (ue_sha256 ue) (ue_archive ue) (ue_artifact_id ue) j key label (sort seen) (sv_disk sv1) = Inr (art, dk)"
      by (cases "package_and_publish (ue_sha256 ue) (ue_archive ue) (ue_artifact_id ue) j key label (sort seen) (sv_disk sv1)") auto
    define sv2 where "sv2 = ue_world ue 3 (sv1\<lparr>sv_disk := dk\<rparr>)"
    have 2: "job_state_of sv2 j = Some J_PACKAGING" using 1 w by (simp add: sv2_def job_state_of_def server_db_def)
    obtain r3 sv3 where t: "transition (publish_artifact j art (ue_now ue)) sv2 = (r3, sv3)" by fastforce
    obtain row where row: "get_job (server_db sv2) j = Some row" "j_state row = J_PACKAGING" using state_row [OF 2] by blast
    obtain x where x: "publish_artifact j art (ue_now ue) (server_db sv2) = (x, server_db sv3)"
        "r3 = (case x of Inl e \<Rightarrow> Inl (F_error e) | Inr snap \<Rightarrow> Inr snap)" using t by (elim transition_db)
    note step = publish_upload_def await_point_def sv1_def [symmetric] sv2_def [symmetric]
    consider "ue_cancel ue 3" | snap where "\<not> ue_cancel ue 3" "r3 = Inr snap" "job_state_of sv3 j = Some J_READY"
      | m where "\<not> ue_cancel ue 3" "r3 = Inl (F_error (IntegrityError m))" "job_state_of sv3 j = Some J_PACKAGING"
      using publish_artifact_state [OF row x(1)] x(2) row by (cases "ue_cancel ue 3") (auto simp: job_state_of_def)
    then show ?thesis
    proof cases
      case 2
      then have "job_state_of (clean_up ue j (ue_world ue 4 sv3)) j = Some J_READY" using w by (simp add: job_state_of_def)
      then have "settled ue j (clean_up ue j (ue_world ue 4 sv3))" using clean_up_gone by (simp add: settled_def)
      then show ?thesis using 2 False p t assms(3) by (simp add: step)
    qed (use False p t f [OF 2] f [of sv3] in \<open>simp_all add: step\<close>)
  qed
qed

lemma start_upload_state:
  assumes "get_job s j = Some r" and "j_state r = J_CREATED" and "start_upload j now s = (x, s')"
  shows "(\<exists>snap. x = UploadDeadlineExpired snap) \<and> map_option j_state (get_job s' j) = Some J_INTERRUPTED \<or>
    (\<exists>snap. x = Upload_started snap) \<and> map_option j_state (get_job s' j) = Some J_UPLOADING"
proof -
  let ?f = "\<lambda>r. r\<lparr>j_state := J_UPLOADING, j_revision := j_revision r + 1, j_upload_started_at := Some now, j_updated_at := now\<rparr>"
  have g: "get_job (update_job j ?f s) j = Some (?f r)" "get_job (update_job j (interrupt_expired now) s) j = Some (interrupt_expired now r)"
    using assms(1) by (simp_all add: get_job_update interrupt_expired_def)
  obtain n1 n2 where n: "snapshot_of (update_job j ?f s) j = Inr n1" "snapshot_of (update_job j (interrupt_expired now) s) j = Inr n2"
    using snapshot_exists [OF g(1)] snapshot_exists [OF g(2)] by blast
  have "x = UploadDeadlineExpired n2 \<and> s' = update_job j (interrupt_expired now) s \<or> x = Upload_started n1 \<and> s' = update_job j ?f s"
    using assms by (auto simp: start_upload_def Let_def n split: if_splits)
  then show ?thesis using g by (auto simp: interrupt_expired_def)
qed

lemma run_settles:
  assumes w: "\<And>k sv. job_state_of (ue_world ue k sv) j = job_state_of sv j" and "plain_stream ue" and "\<not> ue_cancel ue 4"
    and "job_state_of sv j = Some J_UPLOADING"
  shows "settled ue j (snd (run_upload ue j sv))"
proof -
  define sv2 where "sv2 = ue_world ue 0 sv"
  have u2: "job_state_of sv2 j = Some J_UPLOADING" using assms(4) w by (simp add: sv2_def)
  obtain r3 sv3 where 3: "receive_files ue j sv2 = (r3, sv3)" by fastforce
  then have u3: "job_state_of sv3 j = Some J_UPLOADING"
    using u2 by (auto simp: receive_files_def job_state_of_def server_db_def split: sum.splits prod.splits)
  define sv4 where "sv4 = ue_world ue (Suc 0) sv3"
  have u4: "job_state_of sv4 j = Some J_UPLOADING" using u3 w by (simp add: sv4_def)
  have f: "settled ue j (snd (fail_upload ue j False f x))" if "job_state_of x j = Some J_UPLOADING" "plain f" for f x
    using that by (intro plain_fail_settled) simp_all
  note step = run_upload_def await_point_def sv2_def [symmetric] sv4_def [symmetric]
  consider "ue_cancel ue 0" | e where "\<not> ue_cancel ue 0" "r3 = Inl e" | key up where "\<not> ue_cancel ue 0" "r3 = Inr (key, up)"
    by (cases r3) auto
  then show ?thesis
  proof cases
    case 2
    then have "plain e" using receive_files_plain 3 assms(2) by blast
    then show ?thesis using 2 3 f [OF u3] by (simp add: step)
  next
    case (3 key up)
    obtain row4 where row4: "get_job (server_db sv4) j = Some row4" "j_state row4 = J_UPLOADING" using state_row [OF u4] by blast
    obtain r sv5 where t: "transition (mark_packaging j (int (up_count up)) (int (up_bytes up)) (ue_now ue) (ue_now ue)) sv4 = (r, sv5)" by fastforce
    have "(\<exists>snap. r = Inr snap) \<and> job_state_of sv5 j = Some J_PACKAGING"
      by (rule transition_state [OF t row4(1)]) (rule mark_packaging_state [OF row4])
    then obtain snap where "r = Inr snap" "job_state_of sv5 j = Some J_PACKAGING" by blast
    then show ?thesis
      using 3 \<open>receive_files ue j sv2 = (r3, sv3)\<close> t f [OF u4] publish_settles [OF w _ assms(3)] by (cases "ue_cancel ue 1") (simp_all add: step)
  qed (use f [OF u2] in \<open>simp add: step\<close>)
qed

text \<open>
  (C19) Every upload settles its job. When the upload of a created job ends, whatever was sent, however
  the stream broke and at whichever point the request was cancelled before the artifact was published,
  the job is ready, failed or interrupted, never left uploading or packaging, and its work directory is
  gone if it can be removed; as long as nothing else moves the job meanwhile.
\<close>

theorem upload_settles:
  assumes "job_state_of sv j = Some J_CREATED" and "\<And>k sv. job_state_of (ue_world ue k sv) j = job_state_of sv j"
    and "plain_stream ue" and "\<not> ue_cancel ue 4"
  shows "settled ue j (snd (upload_handler ue j sv))"
proof -
  obtain o1 sv1 where 1: "on_rt (on_sched (\<lambda>st. case start_upload j (ue_now ue) (sc_db st) of (r, s) \<Rightarrow> (r, st\<lparr>sc_db := s\<rparr>))) sv = (o1, sv1)"
    by fastforce
  obtain row where row: "get_job (server_db sv) j = Some row" "j_state row = J_CREATED" using state_row [OF assms(1)] by blast
  have "start_upload j (ue_now ue) (server_db sv) = (o1, server_db sv1)" using 1 by (auto simp: server_calls split: prod.splits)
  note s = start_upload_state [OF row this]
  have pub: "job_state_of (snd (on_rt (on_sched (\<lambda>st. ((), publish_snapshot snap st))) x)) j = job_state_of x j"
    "job_state_of (snd (on_rt (on_sched (\<lambda>st. ((), wake (publish_snapshot snap st)))) x)) j = job_state_of x j" for x snap
    by (simp_all add: job_state_of_def server_calls)
  have clean: "job_state_of (clean_up ue j x) j = job_state_of x j" for x by (simp add: job_state_of_def)
  from s show ?thesis
  proof
    assume "(\<exists>snap. o1 = UploadDeadlineExpired snap) \<and> map_option j_state (get_job (server_db sv1) j) = Some J_INTERRUPTED"
    then show ?thesis using 1 clean_up_gone pub(2) by (auto simp: upload_handler_def settled_def clean, simp_all add: job_state_of_def)
  next
    assume "(\<exists>snap. o1 = Upload_started snap) \<and> map_option j_state (get_job (server_db sv1) j) = Some J_UPLOADING"
    then obtain snap where o1: "o1 = Upload_started snap" and "job_state_of sv1 j = Some J_UPLOADING" by (auto simp: job_state_of_def)
    then have "settled ue j (snd (run_upload ue j (snd (on_rt (on_sched (\<lambda>st. ((), publish_snapshot snap st))) sv1))))"
      by (intro run_settles [OF assms(2-4)]) (simp add: pub(1))
    then show ?thesis using 1 o1 by (simp add: upload_handler_def)
  qed
qed

lemma run_upload_success:
  assumes "run_upload ue j sv = (Responded (H_snapshot code ready), sv')" and "world_ok ue key" and "uuid_key j = Inr key"
    and "ue_artifact_id ue \<noteq> []" and "map_of (dk_work (sv_disk sv)) key = None"
  shows "\<exists>files up label. received_ok (ue_limits ue) up files \<and> files \<noteq> [] \<and>
    (let bytes = ue_archive ue (zip_entries (content_root (sort (map fst files)) files)) in
     code = 200 \<and> s_state ready = J_READY \<and> map_of (dk_artifacts (sv_disk sv')) (ue_artifact_id ue @ ''.zip'') = Some bytes \<and>
     s_artifact ready = Some \<lparr>av_artifact_id = ue_artifact_id ue, av_url = ''/artifacts/'' @ ue_artifact_id ue,
      av_display_filename = Some (artifact_display_name label), av_byte_size = Some (int (length bytes)), av_sha256 = Some (ue_sha256 ue bytes),
      av_entry_count = Some (int (length files)), av_created_at = Some (ue_now ue)\<rparr>)"
proof -
  have no: "run_upload ue j sv \<noteq> fail_upload ue j False f x" for f x
    using assms(1) fail_upload_result [of ue j False f x code ready] by (metis fst_conv)
  define sv2 where "sv2 = ue_world ue 0 sv"
  have w2: "map_of (dk_work (sv_disk sv2)) key = None" using assms(2,5) by (simp add: world_ok_def sv2_def)
  obtain r3 sv3 where 3: "receive_files ue j sv2 = (r3, sv3)" by fastforce
  define sv4 where "sv4 = ue_world ue (Suc 0) sv3"
  note step = run_upload_def await_point_def sv2_def [symmetric] sv4_def [symmetric]
  have c0: "\<not> ue_cancel ue 0" using no [of F_cancelled sv2] by (cases "ue_cancel ue 0") (simp_all add: step)
  obtain key' up where r3: "r3 = Inr (key', up)" using no [of _ sv3] c0 3 by (cases r3) (auto simp: step)
  have key: "key' = key" using uuid_of_receive 3 r3 assms(3) by fastforce
  obtain files where files: "received_ok (ue_limits ue) up files" "files \<noteq> []" "wk_upload (work_at (sv_disk sv3) key) = files"
    using receive_files_ok 3 r3 key w2 by blast
  have c1: "\<not> ue_cancel ue (Suc 0)" using no [of F_cancelled sv4] c0 3 r3 by (cases "ue_cancel ue (Suc 0)") (simp_all add: step)
  obtain r5 sv5 where t: "transition (mark_packaging j (int (up_count up)) (int (up_bytes up)) (ue_now ue) (ue_now ue)) sv4 = (r5, sv5)" by fastforce
  obtain snap where r5: "r5 = Inr snap" using no [of _ sv5] c0 3 r3 c1 t by (cases r5) (auto simp: step)
  have p: "publish_upload ue j key (up_seen up) (s_source_label snap) sv5 = (Responded (H_snapshot code ready), sv')"
    using assms(1) c0 3 r3 c1 t r5 key by (simp add: step)
  have "work_at (sv_disk sv4) key = work_at (sv_disk sv3) key"
    unfolding sv4_def by (rule work_kept) (use assms(2) in \<open>simp add: world_ok_def\<close>)
  moreover have "sv_disk sv5 = sv_disk sv4" using t by (elim transition_db)
  ultimately have "wk_upload (work_at (sv_disk sv5) key) = files" "up_seen up = map fst files"
    using files by (simp_all add: received_ok_def)
  then show ?thesis
    using publish_upload_success [OF p assms(2-4)] files(1,2) unfolding Let_def
    by (intro exI [of _ files] exI [of _ up] exI [of _ "s_source_label snap"]) simp
qed


section \<open>A good upload succeeds\<close>

lemma start_upload_started:
  assumes "get_job s j = Some r" and "j_state r = J_CREATED" and "now < j_create_expires_at r"
  shows "\<exists>snap s'. start_upload j now s = (Upload_started snap, s') \<and> map_option j_state (get_job s' j) = Some J_UPLOADING \<and>
    db_artifacts s' = db_artifacts s"
proof -
  obtain x s' where s: "start_upload j now s = (x, s')" by fastforce
  have "\<not> (\<exists>snap. x = UploadDeadlineExpired snap)" using s assms by (auto simp: start_upload_def Let_def split: sum.splits)
  then show ?thesis using start_upload_state [OF assms(1,2) s] start_upload_artifacts [OF s] s by auto
qed

lemma publish_artifact_ready:
  assumes "get_job s j = Some r" and "j_state r = J_PACKAGING"
    and "p_artifact_id a \<notin> a_artifact_id ` set (db_artifacts s)" and "p_storage_name a \<notin> a_storage_name ` set (db_artifacts s)"
  shows "\<exists>snap s'. publish_artifact j a now s = (Inr snap, s')"
proof -
  obtain x s' where s: "publish_artifact j a now s = (x, s')" by fastforce
  have "x \<noteq> Inl (IntegrityError m)" for m
    using s assms by (auto simp: publish_artifact_def transact_def insert_artifact_def Let_def snapshot_of_def split: option.splits sum.splits)
  then show ?thesis using publish_artifact_state [OF assms(1,2) s] s by auto
qed

text \<open>
  An upload within the limits succeeds: when the job is created and not expired, nobody else acts on it, the
  request is complete and its files are accepted, and the fresh identity of the artifact is not taken, the
  handler answers with the snapshot.
\<close>

theorem upload_succeeds:
  assumes job: "get_job (server_db sv) j = Some row" "j_state row = J_CREATED" "ue_now ue < j_create_expires_at row"
    and quiet: "ue_world ue = (\<lambda>k sv. sv)" "ue_cancel ue = (\<lambda>k. False)"
    and dir: "uuid_key j = Inr key" "map_of (dk_work (sv_disk sv)) key = None"
    and stream: "ue_stream ue = Inr (ps, None)" "receive (ue_limits ue) ps None \<lparr>up_seen = [], up_count = 0, up_bytes = 0\<rparr> [] = (Inr up, files)" "up_count up \<noteq> 0"
    and fresh: "map_of (dk_artifacts (sv_disk sv)) (ue_artifact_id ue @ ''.zip'') = None"
      "ue_artifact_id ue \<notin> a_artifact_id ` set (db_artifacts (server_db sv))" "ue_artifact_id ue @ ''.zip'' \<notin> a_storage_name ` set (db_artifacts (server_db sv))"
  shows "\<exists>ready. fst (upload_handler ue j sv) = Responded (H_snapshot 200 ready)"
proof -
  obtain snap s1 where st: "start_upload j (ue_now ue) (server_db sv) = (Upload_started snap, s1)"
      "map_option j_state (get_job s1 j) = Some J_UPLOADING" "db_artifacts s1 = db_artifacts (server_db sv)"
    using start_upload_started [OF job] by blast
  define sv2 where "sv2 = sv\<lparr>sv_rt := (sv_rt sv)\<lparr>rt_sched := publish_snapshot snap ((rt_sched (sv_rt sv))\<lparr>sc_db := s1\<rparr>)\<rparr>\<rparr>"
  have h: "upload_handler ue j sv = run_upload ue j sv2"
    using st(1) by (simp add: upload_handler_def on_rt_def on_sched_def server_db_def sv2_def)
  have d2: "sv_disk sv2 = sv_disk sv" "server_db sv2 = s1" by (simp_all add: sv2_def server_db_def publish_snapshot_def)
  define sv3 where "sv3 = sv2\<lparr>sv_disk := set_work key \<lparr>wk_upload = files, wk_part = None\<rparr> (set_work key \<lparr>wk_upload = [], wk_part = None\<rparr> (sv_disk sv))\<rparr>"
  have r: "receive_files ue j sv2 = (Inr (key, up), sv3)"
    using stream dir by (simp add: receive_files_def upload_dir_def work_at_def set_work_def update_conv' d2 sv3_def)
  obtain row3 where row3: "get_job (server_db sv3) j = Some row3" "j_state row3 = J_UPLOADING"
    using st(2) d2 by (auto simp: sv3_def server_db_def)
  obtain r4 sv4 where t: "transition (mark_packaging j (int (up_count up)) (int (up_bytes up)) (ue_now ue) (ue_now ue)) sv3 = (r4, sv4)" by fastforce
  obtain x4 where x4: "mark_packaging j (int (up_count up)) (int (up_bytes up)) (ue_now ue) (ue_now ue) (server_db sv3) = (x4, server_db sv4)"
      "sv_disk sv4 = sv_disk sv3" using t by (elim transition_db)
  have "(\<exists>snap. r4 = Inr snap) \<and> job_state_of sv4 j = Some J_PACKAGING"
    by (rule transition_state [OF t row3(1)]) (rule mark_packaging_state [OF row3])
  then obtain snap4 row4 where s4: "r4 = Inr snap4" and row4: "get_job (server_db sv4) j = Some row4" "j_state row4 = J_PACKAGING"
    by (auto simp: job_state_of_def)
  have db4: "db_artifacts (server_db sv4) = db_artifacts (server_db sv)" "dk_artifacts (sv_disk sv4) = dk_artifacts (sv_disk sv)"
    using mark_packaging_artifacts [OF x4(1)] x4(2) d2 st(3) by (simp_all add: sv3_def server_db_def)
  obtain art dk where p: "package_and_publish (ue_sha256 ue) (ue_archive ue) (ue_artifact_id ue) j key (s_source_label snap4) (sort (up_seen up)) (sv_disk sv4) = Inr (art, dk)"
    using dir(1) fresh(1) db4(2)
    by (simp add: package_and_publish_def publish_file_def identity_def work_at_def set_work_def update_conv' Let_def)
  note k = packaged [OF p dir(1)]
  obtain ready s5 where "publish_artifact j art (ue_now ue) (server_db (sv4\<lparr>sv_disk := dk\<rparr>)) = (Inr ready, s5)"
    using publish_artifact_ready [of "server_db sv4" j row4 art "ue_now ue"] row4 fresh(2,3) db4(1) k(3) by (auto simp: server_db_def)
  then obtain sv5 where "transition (publish_artifact j art (ue_now ue)) (sv4\<lparr>sv_disk := dk\<rparr>) = (Inr ready, sv5)"
    by (auto simp: server_calls)
  then show ?thesis
    unfolding h run_upload_def publish_upload_def await_point_def quiet by (simp add: r t s4 p)
qed

section \<open>An upload of two files\<close>

definition demo_job_id :: job_id where
  "demo_job_id = ''0a1b2c3d-0000-4000-8000-00000000000f''"

definition demo_old_artifact :: artifact_row where
  "demo_old_artifact = \<lparr>a_artifact_id = ''old'', a_storage_name = ''old.zip'', a_display_filename = ''o.zip'', a_byte_size = 1, a_sha256 = ''h'',
     a_entry_count = 1, a_created_at = 0, a_retention_state = ''retained''\<rparr>"

definition demo_upload_db :: db where
  "demo_upload_db = snd (create_job \<lparr>client_request_id = ''r1'', target_devices = [''a''], mode = PUSH, dest_path = ''/sdcard/demo'',
     source = \<lparr>display_name = ''demo'', declared_file_count = 2, declared_total_bytes = 3\<rparr>, fingerprint = ''fp''\<rparr>
     (\<lambda>d. Some (JOB_V1, [])) 1000 demo_job_id 1 ((initialize empty_db)\<lparr>db_artifacts := [demo_old_artifact]\<rparr>))"

definition demo_server :: server where
  "demo_server = \<lparr>sv_rt = \<lparr>rt_sched = \<lparr>sc_db = demo_upload_db, sc_waiters = \<lparr>w_heap = [], w_futures = []\<rparr>, sc_accept_heap = [], sc_accept = [],
       sc_owned = [], sc_tasks = [], sc_sessions = [],
       sc_pub = \<lparr>pub_revisions = [], pub_pending = [], pub_events = [], pub_wake = False\<rparr>, sc_sent = [], sc_wake = False\<rparr>,
     rt_sessions = [], rt_candidates = [], rt_devices = [], rt_registry = []\<rparr>,
     sv_disk = \<lparr>dk_work = [], dk_artifacts = [(''old.zip'', [7])]\<rparr>\<rparr>"

definition demo_part :: "string \<Rightarrow> byte list \<Rightarrow> part" where
  "demo_part name bytes = \<lparr>pt_name = ''files'', pt_filename = Some name, pt_chunks = [bytes], pt_fails = None\<rparr>"

definition demo_parts :: "part list" where
  "demo_parts = [demo_part ''d/b.txt'' [2], demo_part ''d/a.txt'' [1, 1], demo_part ''d/.DS_Store'' [9]]"

definition demo_upload_env :: upload_env where
  "demo_upload_env = \<lparr>ue_sha256 = (\<lambda>b. ''h''), ue_archive = (\<lambda>es. concat (map snd es)),
     ue_limits = \<lparr>MAX_BUNDLE_ENTRIES = 10, MAX_BUNDLE_SIZE = 100\<rparr>, ue_clean = True, ue_stream = Inr (demo_parts, None),
     ue_artifact_id = ''art'', ue_now = 5, ue_world = (\<lambda>k sv. sv), ue_cancel = (\<lambda>k. False)\<rparr>"

lemma demo_upload_fields:
  "ue_sha256 demo_upload_env = (\<lambda>b. ''h'')" "ue_clean demo_upload_env = True" "ue_stream demo_upload_env = Inr (demo_parts, None)"
  "ue_artifact_id demo_upload_env = ''art''" "ue_now demo_upload_env = 5" "ue_world demo_upload_env = (\<lambda>k sv. sv)"
  "ue_cancel demo_upload_env = (\<lambda>k. False)" "dk_work (sv_disk demo_server) = []" "dk_artifacts (sv_disk demo_server) = [(''old.zip'', [7])]"
  "server_db demo_server = demo_upload_db"
  by (simp_all add: demo_upload_env_def demo_server_def server_db_def)

lemma demo_upload_eval:
  "map_option (\<lambda>r. (j_state r, j_create_expires_at r)) (get_job demo_upload_db demo_job_id) = Some (J_CREATED, 1001)"
  "map (\<lambda>r. (a_artifact_id r, a_storage_name r, a_byte_size r, a_sha256 r)) (db_artifacts demo_upload_db) = [(''old'', ''old.zip'', 1, ''h'')]"
  "uuid_key demo_job_id = Inr demo_job_id"
  "receive (ue_limits demo_upload_env) demo_parts None \<lparr>up_seen = [], up_count = 0, up_bytes = 0\<rparr> [] =
     (Inr \<lparr>up_seen = [''d/b.txt'', ''d/a.txt''], up_count = 2, up_bytes = 3\<rparr>, [(''d/b.txt'', [2]), (''d/a.txt'', [1, 1])])"
  by code_simp+

lemma demo_world: "world_ok demo_upload_env key" "guards sha256 sv (ue_world demo_upload_env k sv)"
  by (simp_all add: world_ok_def demo_upload_fields)

lemma demo_artifacts: "db_artifacts demo_upload_db = [row] \<Longrightarrow> a_artifact_id row = ''old'' \<and> a_storage_name row = ''old.zip'' \<and> a_byte_size row = 1 \<and> a_sha256 row = ''h''"
    "\<exists>row. db_artifacts demo_upload_db = [row]"
  using demo_upload_eval(2) by auto

theorem artifacts_immutable_witness:
  "artifacts_ok (\<lambda>b. ''h'') (snd (upload_handler demo_upload_env demo_job_id demo_server)) \<and>
   map_of (dk_artifacts (sv_disk (snd (upload_handler demo_upload_env demo_job_id demo_server)))) ''old.zip'' = Some [7]"
proof -
  have "artifacts_ok (ue_sha256 demo_upload_env) demo_server"
    using demo_artifacts by (auto simp: artifacts_ok_def demo_upload_fields)
  then show ?thesis
    using artifacts_immutable [OF demo_world(2), of demo_server demo_job_id] by (simp add: demo_upload_fields)
qed

theorem upload_settles_witness:
  "settled demo_upload_env demo_job_id (snd (upload_handler demo_upload_env demo_job_id demo_server))"
proof (rule upload_settles)
  show "job_state_of demo_server demo_job_id = Some J_CREATED"
    using demo_upload_eval(1) by (auto simp: job_state_of_def demo_upload_fields)
  show "plain_stream demo_upload_env" by (auto simp: plain_stream_def demo_upload_fields demo_parts_def demo_part_def)
qed (simp_all add: demo_upload_fields)


end
