(* ===== verification/Push_Upload_Runs.thy ===== *)
theory Push_Upload_Runs
  imports Push_Sessions Push_Uploads
begin

text \<open>
  Uploads beside the runtime. An upload runs between the steps of the scheduler and of the devices; the
  theory shows that it too moves the database by operations of the store only, including the one whose
  side condition is delicate: a failure is recorded for a job that is not dispatched.
\<close>

text \<open>The guarantee of every part of the server towards the database and the waiters.\<close>

definition moves :: "server \<Rightarrow> server \<Rightarrow> bool" where
  "moves sv sv' \<longleftrightarrow> store_step\<^sup>*\<^sup>* (server_db sv) (server_db sv') \<and>
     (sched_ok (rt_sched (sv_rt sv)) \<longrightarrow> sched_ok (rt_sched (sv_rt sv')))"

text \<open>A job that has no artifact yet, or is over.\<close>

definition unpublished :: "job_id \<Rightarrow> server \<Rightarrow> bool" where
  "unpublished j sv \<longleftrightarrow> job_state_of sv j \<notin> {Some J_READY, Some J_RUNNING, Some J_RECONCILING}"

lemma moves_refl [simp]: "moves sv sv"
  by (simp add: moves_def)

lemma moves_trans: "moves sv sv' \<Longrightarrow> moves sv' sv'' \<Longrightarrow> moves sv sv''"
  by (auto simp: moves_def)

lemma sched_ok_db [simp]: "sched_ok (st\<lparr>sc_db := s\<rparr>) = sched_ok st"
  by (simp add: sched_ok_def accepts_def)

lemma moves_indep [simp]:
  "moves sv (sv'\<lparr>sv_disk := dk\<rparr>) = moves sv sv'" "moves (sv\<lparr>sv_disk := dk\<rparr>) sv' = moves sv sv'" "moves sv (clean_up ue j sv') = moves sv sv'"
  "moves sv (snd (on_rt (on_sched (\<lambda>st. ((), publish_snapshot snap st))) sv')) = moves sv sv'"
  "moves sv (snd (on_rt (on_sched (\<lambda>st. ((), wake (publish_snapshot snap st)))) sv')) = moves sv sv'"
  by (simp_all add: moves_def server_calls clean_up_def)

lemma unpublished_indep [simp]:
  "unpublished j (sv\<lparr>sv_disk := dk\<rparr>) = unpublished j sv"
  "unpublished j (snd (on_rt (on_sched (\<lambda>st. ((), publish_snapshot snap st))) sv)) = unpublished j sv"
  by (simp_all add: unpublished_def job_state_of_def server_calls)

section \<open>Calls of the store\<close>

lemma transition_moves:
  assumes "transition op sv = (r, sv')" and "\<And>x s'. op (server_db sv) = (x, s') \<Longrightarrow> store_step (server_db sv) s'"
  shows "moves sv sv'"
proof -
  have "store_step (server_db sv) (server_db sv')" using assms(1) by (rule transition_db) (rule assms(2))
  then show ?thesis using assms(1) by (auto simp: moves_def server_calls split: prod.splits sum.splits)
qed

text \<open>A dispatched job cannot be interrupted, so the record of an interruption never hits one.\<close>

lemma interruption_refused:
  assumes "fail_pre_dispatch j J_INTERRUPTED code detail now s = (x, s')" and "get_job s j = Some r" and "j_state r \<in> {J_RUNNING, J_RECONCILING}"
  shows "s' = s"
  using assms by (auto simp: fail_pre_dispatch_def transact_def validate_job_transition_def)

lemma failure_moves:
  assumes "on_rt (record_upload_failure j state code detail now) sv = (r, sv')" and "state = J_INTERRUPTED \<or> unpublished j sv"
  shows "moves sv sv'"
proof -
  obtain x where x: "fail_pre_dispatch j state code (take 2000 detail) now (server_db sv) = (x, server_db sv')"
    using assms(1) by (rule record_failure_db)
  have "store_step\<^sup>*\<^sup>* (server_db sv) (server_db sv')"
  proof (cases "\<exists>r. get_job (server_db sv) j = Some r \<and> j_state r \<in> {J_RUNNING, J_RECONCILING}")
    case True
    then have "state = J_INTERRUPTED" using assms(2) by (auto simp: unpublished_def job_state_of_def)
    then have "server_db sv' = server_db sv" using interruption_refused x True by blast
    then show ?thesis by simp
  next
    case False
    then show ?thesis using S_fail [OF x] by blast
  qed
  then show ?thesis using assms(1)
    by (auto simp: moves_def record_upload_failure_def server_calls split: prod.splits sum.splits if_splits)
qed

lemma fail_moves:
  assumes "moves sv sv'" and "f = F_cancelled \<or> \<not> packaging \<or> unpublished j sv'"
  shows "moves sv (snd (fail_upload ue j packaging f sv'))"
proof -
  have "moves sv sv''" if "on_rt (record_upload_failure j state code detail now) sv' = (r, sv'')" "state = J_INTERRUPTED \<or> unpublished j sv'"
    for state code detail now r sv''
    using assms(1) failure_moves [OF that] moves_trans by blast
  then show ?thesis using assms unfolding fail_upload_def by (auto split: failure.split sum.split prod.split)
qed

section \<open>The handler\<close>

lemma publish_moves:
  assumes w: "\<And>k sv. moves sv (ue_world ue k sv)" "\<And>k sv. k \<le> 3 \<Longrightarrow> unpublished j sv \<Longrightarrow> unpublished j (ue_world ue k sv)"
    and p: "unpublished j sv"
  shows "moves sv (snd (publish_upload ue j key seen label sv))"
proof -
  define sv1 where "sv1 = ue_world ue 2 sv"
  have 1: "moves sv sv1" "unpublished j sv1" using w p by (simp_all add: sv1_def)
  note fail1 = fail_moves [OF 1(1), of _ True j ue]
  show ?thesis
  proof (cases "package_and_publish (ue_sha256 ue) (ue_archive ue) (ue_artifact_id ue) j key label (sort seen) (sv_disk sv1)")
    case (Inl e)
    then show ?thesis using fail1 1 by (simp add: publish_upload_def await_point_def sv1_def [symmetric])
  next
    case (Inr res)
    obtain artifact dk where res: "res = (artifact, dk)" by fastforce
    define sv2 where "sv2 = ue_world ue 3 (sv1\<lparr>sv_disk := dk\<rparr>)"
    have 2: "moves sv sv2" "unpublished j sv2"
      using 1 w(1) [of "sv1\<lparr>sv_disk := dk\<rparr>" 3] w(2) [of 3 "sv1\<lparr>sv_disk := dk\<rparr>"] moves_trans by (auto simp: sv2_def)
    obtain r sv3 where t: "transition (publish_artifact j artifact (ue_now ue)) sv2 = (r, sv3)" by fastforce
    have 3: "moves sv sv3" using transition_moves [OF t] S_publish 2(1) moves_trans by blast
    have "unpublished j sv3" if "r = Inl f" for f
      using t that 2(2) by (elim transition_db) (auto simp: unpublished_def job_state_of_def publish_artifact_def transact_def split: sum.splits)
    then have f3: "moves sv (snd (fail_upload ue j True f sv3))" if "r = Inl f" for f using fail_moves [OF 3] that by blast
    have "moves sv (ue_world ue 4 sv3)" using 3 w(1) moves_trans by blast
    then show ?thesis
      using Inr res t f3 fail_moves [OF 1(1)] fail_moves [OF 2(1)] fail_moves [of sv "ue_world ue 4 sv3" F_cancelled True j ue]
      by (cases r) (auto simp: publish_upload_def await_point_def sv1_def [symmetric] sv2_def [symmetric])
  qed
qed

lemma packaging_unpublished:
  assumes "transition (mark_packaging j n b t now) sv = (r, sv')" and "unpublished j sv"
  shows "unpublished j sv'"
proof -
  obtain x where x: "mark_packaging j n b t now (server_db sv) = (x, server_db sv')" using assms(1) by (rule transition_db)
  show ?thesis
  proof (cases "\<exists>row. get_job (server_db sv) j = Some row \<and> j_state row = J_UPLOADING")
    case True
    then have "map_option j_state (get_job (server_db sv') j) = Some J_PACKAGING" using mark_packaging_state x by blast
    then show ?thesis by (auto simp add: unpublished_def job_state_of_def)
  next
    case False
    then have "server_db sv' = server_db sv"
      using x unfolding mark_packaging_def simple_job_transition_def transact_def by (auto split: option.splits sum.splits if_splits)
    then show ?thesis using assms(2) by (simp add: unpublished_def job_state_of_def)
  qed
qed

lemma run_moves:
  assumes w: "\<And>k sv. moves sv (ue_world ue k sv)" "\<And>k sv. k \<le> 3 \<Longrightarrow> unpublished j sv \<Longrightarrow> unpublished j (ue_world ue k sv)"
    and p: "unpublished j sv"
  shows "moves sv (snd (run_upload ue j sv))"
proof -
  define sv1 where "sv1 = ue_world ue 0 sv"
  have 1: "moves sv sv1" "unpublished j sv1" using w p by (simp_all add: sv1_def)
  obtain r sv2 where 2: "receive_files ue j sv1 = (r, sv2)" by fastforce
  then have "\<exists>dk. sv2 = sv1\<lparr>sv_disk := dk\<rparr>"
    by (auto simp: receive_files_def split: sum.splits prod.splits) (metis server.surjective server.update_convs(2))+
  then have 3: "moves sv sv2" "unpublished j sv2" using 1 by auto
  define sv3 where "sv3 = ue_world ue 1 sv2"
  have 4: "moves sv sv3" "unpublished j sv3" using w 3 moves_trans by (auto simp: sv3_def)
  have 5: "moves sv sv4" "unpublished j sv4" if t: "transition (mark_packaging j n b t1 t2) sv3 = (x, sv4)" for n b t1 t2 x sv4
    using transition_moves [OF t] S_mark_packaging 4(1) moves_trans packaging_unpublished [OF t 4(2)] by blast+
  have 6: "moves sv (snd (publish_upload ue j key seen label sv4))" if "moves sv sv4" "unpublished j sv4" for key seen label sv4
    using publish_moves [OF w that(2)] that(1) moves_trans by blast
  show ?thesis
    using 2 fail_moves [OF 1(1)] fail_moves [OF 3(1)] fail_moves [OF 4(1)] fail_moves [OF 5(1)] 5 6
    by (auto simp: run_upload_def await_point_def sv1_def [symmetric] sv3_def [unfolded One_nat_def, symmetric] split: sum.split prod.split)
qed

lemma started_state: "start_upload j now s = (Upload_started snap, s') \<Longrightarrow> map_option j_state (get_job s' j) = Some J_UPLOADING"
  by (auto simp: start_upload_def Let_def get_job_update split: option.splits if_splits sum.splits)

lemma start_moves:
  assumes "on_rt (on_sched (\<lambda>st. case start_upload j now (sc_db st) of (r, s) \<Rightarrow> (r, st\<lparr>sc_db := s\<rparr>))) sv = (o1, sv1)"
  shows "moves sv sv1" "o1 = Upload_started snap \<Longrightarrow> unpublished j sv1"
proof -
  have s: "start_upload j now (server_db sv) = (o1, server_db sv1)" using assms by (auto simp: server_calls split: prod.splits)
  have "sched_ok (rt_sched (sv_rt sv1)) = sched_ok (rt_sched (sv_rt sv))" using assms by (auto simp: server_calls split: prod.splits)
  then show "moves sv sv1" using S_start_upload [OF s] by (auto simp: moves_def)
  show "unpublished j sv1" if "o1 = Upload_started snap"
    using started_state [OF s [unfolded that]] by (auto simp add: unpublished_def job_state_of_def)
qed

lemma upload_moves:
  assumes "\<And>k sv. moves sv (ue_world ue k sv)" "\<And>k sv. k \<le> 3 \<Longrightarrow> unpublished j sv \<Longrightarrow> unpublished j (ue_world ue k sv)"
  shows "moves sv (snd (upload_handler ue j sv))"
proof -
  obtain o1 sv1 where 1: "on_rt (on_sched (\<lambda>st. case start_upload j (ue_now ue) (sc_db st) of (r, s) \<Rightarrow> (r, st\<lparr>sc_db := s\<rparr>))) sv = (o1, sv1)"
    by fastforce
  note s = start_moves [OF 1]
  have run: "moves sv (snd (run_upload ue j sv2))" if "moves sv sv2" "unpublished j sv2" for sv2
    using run_moves [OF assms that(2)] that(1) moves_trans by blast
  show ?thesis
  proof (cases o1)
    case (Upload_started snap)
    then show ?thesis using 1 s run [of "snd (on_rt (on_sched (\<lambda>st. ((), publish_snapshot snap st))) sv1)"] by (simp add: upload_handler_def)
  qed (use 1 s(1) fail_moves in \<open>simp_all add: upload_handler_def\<close>)
qed

lemma expire_moves: "moves sv (expire_turn clean j deadline now sv)"
proof -
  obtain r sv1 where 1: "on_rt (on_sched (on_db (expire_created j (Some deadline) now))) sv = (r, sv1)" by fastforce
  then obtain x where "expire_created j (Some deadline) now (server_db sv) = (x, server_db sv1)"
    by (auto simp: server_calls split: prod.splits)
  then have "store_step (server_db sv) (server_db sv1)" by (rule S_expire)
  moreover have "sched_ok (rt_sched (sv_rt sv1)) = sched_ok (rt_sched (sv_rt sv))" using 1 by (auto simp: server_calls split: prod.splits)
  ultimately have "moves sv sv1" by (auto simp: moves_def)
  moreover have "moves sv (snd (on_rt (on_sched (\<lambda>st. ((), wake st))) sv')) = moves sv sv'" for sv'
    by (simp add: moves_def server_calls)
  ultimately show ?thesis using 1 by (auto simp: expire_turn_def Let_def split: sum.split option.split)
qed

text \<open>
  (C17) Uploads refine the store. Whatever is uploaded, wherever the request fails or is cancelled, and
  whatever the rest of the server does meanwhile by its own rules, an upload and the deadline of a
  created job change the database by operations of the store only; so a reachable database stays
  reachable and every waiter keeps its task. The rest of the server must not make this job ready before
  the upload does. In particular the record of a failed upload never meets a dispatched job: once the
  artifact is published only a cancellation can end the request, and an interruption of a dispatched job
  is refused.
\<close>

theorem uploads_refine_store:
  assumes "\<And>k sv. moves sv (ue_world ue k sv)" and "\<And>k sv. k \<le> 3 \<Longrightarrow> unpublished j sv \<Longrightarrow> unpublished j (ue_world ue k sv)"
    and "db_reachable (server_db sv)"
  shows "store_step\<^sup>*\<^sup>* (server_db sv) (server_db (snd (upload_handler ue j sv))) \<and>
    db_reachable (server_db (snd (upload_handler ue j sv))) \<and>
    (sched_ok (rt_sched (sv_rt sv)) \<longrightarrow> waiters_owned (rt_sched (sv_rt (snd (upload_handler ue j sv))))) \<and>
    store_step\<^sup>*\<^sup>* (server_db sv) (server_db (expire_turn clean i deadline now sv))"
  using upload_moves [OF assms(1,2), of sv] expire_moves [of sv clean i deadline now] reachable_run [OF assms(3)] sched_ok_waiters
  by (auto simp: moves_def)

text \<open>A job is created in an empty database, and its upload is cancelled while the files arrive.\<close>

definition demo_open_server :: server where
  "demo_open_server = \<lparr>sv_rt = start_runtime (snd (create_job \<lparr>client_request_id = ''r1'', target_devices = [''a''], mode = PUSH, dest_path = ''/sdcard/demo'',
     source = \<lparr>display_name = ''demo'', declared_file_count = 2, declared_total_bytes = 3\<rparr>, fingerprint = ''fp''\<rparr>
     (\<lambda>d. Some (JOB_V1, [])) 1000 demo_job_id 1 start_db)), sv_disk = \<lparr>dk_work = [], dk_artifacts = []\<rparr>\<rparr>"

definition demo_cancelled :: upload_env where
  "demo_cancelled = demo_upload_env\<lparr>ue_cancel := (\<lambda>k. k = 1)\<rparr>"

lemma demo_open_server_reachable: "db_reachable (server_db demo_open_server)"
proof -
  have "store_step start_db (server_db demo_open_server)"
    unfolding demo_open_server_def server_db_def start_runtime_def start_sched_def
    by (simp, rule S_create [OF surjective_pairing]) simp
  then show ?thesis by (auto simp: db_reachable_def)
qed

lemma demo_open_server_state: "job_state_of demo_open_server demo_job_id = Some J_CREATED"
  by code_simp

theorem uploads_refine_store_witness:
  "job_state_of demo_open_server demo_job_id = Some J_CREATED \<and>
   store_step\<^sup>*\<^sup>* (server_db demo_open_server) (server_db (snd (upload_handler demo_cancelled demo_job_id demo_open_server))) \<and>
   db_reachable (server_db (snd (upload_handler demo_cancelled demo_job_id demo_open_server)))"
  using demo_open_server_state uploads_refine_store [OF _ _ demo_open_server_reachable, of demo_cancelled demo_job_id]
  by (simp add: demo_cancelled_def demo_upload_fields)

end
