(* ===== verification/Legacy_Transfers.thy ===== *)
theory Legacy_Transfers
  imports Transfer_Registry
begin

text \<open>
  The tuple-keyed table of transfer slots the established server uses, and the adapter
  (\<^verbatim>\<open>_LegacyTransferAdapter\<close> of \<^verbatim>\<open>push_runtime.py\<close>) that keeps it inside the typed registry: a data
  refinement of a dictionary, and of the release of a slot.
\<close>

type_synonym slot = "string \<times> string"

section \<open>The adapter\<close>

record adapter =
  ad_registry :: waiters
  ad_keys :: "(slot \<times> transfer_key) list"

text \<open>\<open>new_id\<close> is the fresh \<^verbatim>\<open>uuid.uuid4()\<close> of a legacy push.\<close>

definition ad_key :: "string \<Rightarrow> slot \<Rightarrow> adapter \<Rightarrow> mdm_error + transfer_key" where
  "ad_key new_id key a =
     (case key of (device_id, task) \<Rightarrow>
        if task = ''install'' then TransferKey K_install device_id None None
        else (case map_of (ad_keys a) key of
            Some existing \<Rightarrow> Inr existing
          | None \<Rightarrow> TransferKey K_push device_id (Some (''legacy-'' @ new_id)) (Some 1)))"

text \<open>\<^verbatim>\<open>mapping.get(key)\<close>: \<^verbatim>\<open>__getitem__\<close> with \<^verbatim>\<open>KeyError\<close> as \<open>None\<close>.\<close>

definition ad_get :: "slot \<Rightarrow> adapter \<Rightarrow> fut option \<times> adapter" where
  "ad_get key a =
     (case map_of (ad_keys a) key of
        None \<Rightarrow> (None, a)
      | Some typed \<Rightarrow>
          (case w_get (ad_registry a) typed of
             None \<Rightarrow> (None, a\<lparr>ad_keys := AList.delete key (ad_keys a)\<rparr>)
           | Some f \<Rightarrow> (Some f, a)))"

definition drop_previous :: "slot \<Rightarrow> adapter \<Rightarrow> waiters" where
  "drop_previous key a =
     (case map_of (ad_keys a) key of
        None \<Rightarrow> ad_registry a
      | Some previous \<Rightarrow>
          (case w_get (ad_registry a) previous of
             None \<Rightarrow> ad_registry a
           | Some current \<Rightarrow> snd (remove_if_same previous current (ad_registry a))))"

definition ad_set :: "string \<Rightarrow> slot \<Rightarrow> fut \<Rightarrow> adapter \<Rightarrow> (mdm_error + unit) \<times> adapter" where
  "ad_set new_id key v a =
     (let w = drop_previous key a in
      case rbind (ad_key new_id key a) (\<lambda>typed. rbind (register typed v w) (\<lambda>w'. Inr (typed, w'))) of
        Inl e \<Rightarrow> (Inl e, a\<lparr>ad_registry := w\<rparr>)
      | Inr (typed, w') \<Rightarrow> (Inr (), a\<lparr>ad_registry := w', ad_keys := AList.update key typed (ad_keys a)\<rparr>))"

definition ad_del :: "slot \<Rightarrow> adapter \<Rightarrow> (mdm_error + unit) \<times> adapter" where
  "ad_del key a =
     (case map_of (ad_keys a) key of
        None \<Rightarrow> (Inl (KeyError (snd key)), a)
      | Some typed \<Rightarrow>
          (Inr (), \<lparr>ad_registry = (case w_get (ad_registry a) typed of
               None \<Rightarrow> ad_registry a
             | Some f \<Rightarrow> snd (remove_if_same typed f (ad_registry a))),
             ad_keys = AList.delete key (ad_keys a)\<rparr>))"

text \<open>\<^verbatim>\<open>tuple(mapping)\<close>: the live keys, dead ones are dropped on the way.\<close>

definition ad_live :: "adapter \<Rightarrow> slot \<times> transfer_key \<Rightarrow> bool" where
  "ad_live a = (\<lambda>(key, typed). w_get (ad_registry a) typed \<noteq> None)"

definition ad_iter :: "adapter \<Rightarrow> slot list \<times> adapter" where
  "ad_iter a = (map fst (filter (ad_live a) (ad_keys a)), a\<lparr>ad_keys := filter (ad_live a) (ad_keys a)\<rparr>)"

definition ad_len :: "adapter \<Rightarrow> nat" where
  "ad_len a = length (fst (ad_iter a))"

section \<open>Releasing a slot\<close>

text \<open>\<^verbatim>\<open>future.set_result(reason)\<close> if the slot holds a pending future.\<close>

definition release_slot :: "slot \<Rightarrow> string \<Rightarrow> adapter \<Rightarrow> bool \<times> adapter" where
  "release_slot key reason a =
     (case ad_get key a of
        (None, a1) \<Rightarrow> (False, a1)
      | (Some f, a1) \<Rightarrow>
          if pending (w_heap (ad_registry a1)) f
          then (True, a1\<lparr>ad_registry := (ad_registry a1)\<lparr>w_heap := resolve f (Result reason) (w_heap (ad_registry a1))\<rparr>\<rparr>)
          else (False, a1))"

fun release_slots :: "string \<Rightarrow> string \<Rightarrow> slot list \<Rightarrow> bool \<times> adapter \<Rightarrow> bool \<times> adapter" where
  "release_slots device_id reason [] r = r"
| "release_slots device_id reason (key # keys) (released, a) =
     (if fst key \<noteq> device_id then release_slots device_id reason keys (released, a)
      else (case release_slot key reason a of (b, a1) \<Rightarrow> release_slots device_id reason keys (released \<or> b, a1)))"

text \<open>\<^verbatim>\<open>_release_transfer_slot\<close> of \<^verbatim>\<open>push_runtime.py\<close>, installed in place of the established server's.\<close>

definition release_transfer_slot :: "string \<Rightarrow> string \<Rightarrow> string option \<Rightarrow> adapter \<Rightarrow> bool \<times> adapter" where
  "release_transfer_slot device_id reason task a =
     (if task \<in> {Some ''install'', Some ''push''} then release_slot (device_id, the task) reason a
      else (case ad_iter a of (keys, a1) \<Rightarrow> release_slots device_id reason keys (False, a1)))"

text \<open>\<^verbatim>\<open>release_transfer_slot\<close> of \<^verbatim>\<open>server.py\<close>, on a plain dictionary of futures.\<close>

fun dict_release_all :: "string \<Rightarrow> string \<Rightarrow> (slot \<times> fut) list \<Rightarrow> string heap \<Rightarrow> bool \<times> string heap" where
  "dict_release_all device_id reason [] h = (False, h)"
| "dict_release_all device_id reason ((key, f) # items) h =
     (if fst key = device_id \<and> pending h f
      then (True, snd (dict_release_all device_id reason items (resolve f (Result reason) h)))
      else dict_release_all device_id reason items h)"

definition dict_release :: "string \<Rightarrow> string \<Rightarrow> string option \<Rightarrow> (slot \<times> fut) list \<Rightarrow> string heap \<Rightarrow> bool \<times> string heap" where
  "dict_release device_id reason task d h =
     (case task of
        Some t \<Rightarrow>
          (case map_of d (device_id, t) of
             None \<Rightarrow> (False, h)
           | Some f \<Rightarrow> if pending h f then (True, resolve f (Result reason) h) else (False, h))
      | None \<Rightarrow> dict_release_all device_id reason d h)"

section \<open>Refinement\<close>

text \<open>The dictionary an adapter stands for.\<close>

definition items_of :: "adapter \<Rightarrow> (slot \<times> fut) list" where
  "items_of a = map (\<lambda>(key, typed). (key, the (w_get (ad_registry a) typed))) (filter (ad_live a) (ad_keys a))"

definition ad_abs :: "adapter \<Rightarrow> slot \<rightharpoonup> fut" where
  "ad_abs a key = Option.bind (map_of (ad_keys a) key) (w_get (ad_registry a))"

text \<open>
  Only the adapter registers install keys and keys of legacy pushes; distinct slots have distinct
  keys.
\<close>

definition install_key :: "string \<Rightarrow> transfer_key" where
  "install_key d = \<lparr>k_kind = K_install, k_device_id = d, k_job_id = None, k_attempt = None\<rparr>"

definition typed_ok :: "slot \<Rightarrow> transfer_key \<Rightarrow> bool" where
  "typed_ok key typed = (if snd key = ''install'' then typed = install_key (fst key) else k_kind typed = K_push)"

definition slots_ok :: "(slot \<rightharpoonup> transfer_key) \<Rightarrow> (transfer_key \<rightharpoonup> fut) \<Rightarrow> bool" where
  "slots_ok m reg \<longleftrightarrow> (\<forall>k typed. m k = Some typed \<longrightarrow> typed_ok k typed) \<and>
     (\<forall>k k' typed. m k = Some typed \<longrightarrow> m k' = Some typed \<longrightarrow> k = k') \<and>
     (\<forall>d. reg (install_key d) \<noteq> None \<longrightarrow> m (d, ''install'') \<noteq> None)"

definition adapter_ok :: "adapter \<Rightarrow> bool" where
  "adapter_ok a \<longleftrightarrow> distinct (map fst (ad_keys a)) \<and> slots_ok (map_of (ad_keys a)) (w_get (ad_registry a))"

lemma typed_ok_install: "typed_ok k (install_key d) \<longleftrightarrow> k = (d, ''install'')"
  by (cases k) (auto simp: typed_ok_def install_key_def)

text \<open>Dropping a slot with its registration, and entering one under a key no other slot has.\<close>

lemma slots_ok_drop:
  assumes "slots_ok m reg" and "\<And>typed. m key = Some typed \<Longrightarrow> reg' typed = None" and "\<And>k. reg' k \<noteq> None \<Longrightarrow> reg k \<noteq> None"
  shows "slots_ok (m(key := None)) reg'"
  unfolding slots_ok_def
proof (intro conjI allI impI)
  fix d
  assume r: "reg' (install_key d) \<noteq> None"
  then obtain typed where t: "m (d, ''install'') = Some typed" "typed_ok (d, ''install'') typed"
    using assms(1,3) by (fastforce simp: slots_ok_def)
  then have "typed = install_key d" by (simp add: typed_ok_def)
  then have "key \<noteq> (d, ''install'')" using assms(2) r t(1) by auto
  then show "(m(key := None)) (d, ''install'') \<noteq> None" using t(1) by simp
qed (use assms(1) in \<open>auto simp: slots_ok_def split: if_splits\<close>)

lemma slots_ok_enter:
  assumes "slots_ok m reg" and "m key = None" and "typed_ok key typed" and "\<And>k. m k \<noteq> Some typed"
  shows "slots_ok (m(key \<mapsto> typed)) (reg(typed \<mapsto> v))"
  using assms by (auto simp: slots_ok_def typed_ok_install split: if_splits)

lemma drop_previous_get:
  "w_get (drop_previous key a) k = (if map_of (ad_keys a) key = Some k then None else w_get (ad_registry a) k)"
  by (auto simp: drop_previous_def remove_if_same_def w_get_def delete_conv' split: option.splits)

lemma slots_ok_dropped:
  "adapter_ok a \<Longrightarrow> slots_ok ((map_of (ad_keys a))(key := None)) (w_get (drop_previous key a))"
proof -
  assume "adapter_ok a"
  then have "slots_ok (map_of (ad_keys a)) (w_get (ad_registry a))" by (simp add: adapter_ok_def)
  then show ?thesis by (rule slots_ok_drop) (simp_all add: drop_previous_get split: if_splits)
qed

definition legacy_key :: "string \<Rightarrow> string \<Rightarrow> transfer_key" where
  "legacy_key new_id d = \<lparr>k_kind = K_push, k_device_id = d, k_job_id = Some (''legacy-'' @ new_id), k_attempt = Some 1\<rparr>"

definition fresh_id :: "string \<Rightarrow> adapter \<Rightarrow> bool" where
  "fresh_id new_id a \<longleftrightarrow> (\<forall>d. w_get (ad_registry a) (legacy_key new_id d) = None \<and> legacy_key new_id d \<notin> snd ` set (ad_keys a))"

text \<open>The typed key of a slot: its own, or one no other slot has.\<close>

lemma ad_key_cases:
  assumes "adapter_ok a" and "fresh_id new_id a"
  shows "\<exists>typed. ad_key new_id key a = Inr typed \<and> w_get (drop_previous key a) typed = None \<and> typed_ok key typed \<and>
    (\<forall>k. k \<noteq> key \<longrightarrow> map_of (ad_keys a) k \<noteq> Some typed)"
proof -
  have ok: "slots_ok (map_of (ad_keys a)) (w_get (ad_registry a))" using assms(1) by (simp add: adapter_ok_def)
  obtain d t where key: "key = (d, t)" by (cases key)
  consider typed where "map_of (ad_keys a) key = Some typed" | "map_of (ad_keys a) key = None" "t = ''install''"
    | "map_of (ad_keys a) key = None" "t \<noteq> ''install''" by blast
  then show ?thesis
  proof cases
    case (1 typed)
    have "typed_ok key typed" "\<And>k. k \<noteq> key \<Longrightarrow> map_of (ad_keys a) k \<noteq> Some typed"
      using ok 1 unfolding slots_ok_def by blast+
    then show ?thesis
      using 1 key by (intro exI [of _ typed]) (auto simp: ad_key_def TransferKey_def install_key_def typed_ok_def drop_previous_get)
  next
    case 2
    have "map_of (ad_keys a) k \<noteq> Some (install_key d)" if "k \<noteq> key" for k
      using ok that 2 key typed_ok_install unfolding slots_ok_def by metis
    moreover have "w_get (ad_registry a) (install_key d) = None" using ok 2 key unfolding slots_ok_def by blast
    ultimately show ?thesis
      using 2 key by (intro exI [of _ "install_key d"])
        (auto simp: ad_key_def TransferKey_def install_key_def typed_ok_def drop_previous_get)
  next
    case 3
    have "map_of (ad_keys a) k \<noteq> Some (legacy_key new_id d)" for k
      using assms(2) by (force simp: fresh_id_def dest: map_of_SomeD)
    then show ?thesis
      using 3 key assms(2) by (intro exI [of _ "legacy_key new_id d"])
        (auto simp: ad_key_def TransferKey_def legacy_key_def typed_ok_def drop_previous_get fresh_id_def)
  qed
qed

lemma ad_set_refines:
  assumes "adapter_ok a" and "fresh_id new_id a"
  shows "\<exists>a'. ad_set new_id key v a = (Inr (), a') \<and> adapter_ok a' \<and> ad_abs a' = (ad_abs a)(key \<mapsto> v)"
proof -
  let ?m = "map_of (ad_keys a)" and ?w = "drop_previous key a"
  obtain typed where t: "ad_key new_id key a = Inr typed" "w_get ?w typed = None" "typed_ok key typed"
    "\<And>k. k \<noteq> key \<Longrightarrow> ?m k \<noteq> Some typed"
    using ad_key_cases [OF assms] by metis
  let ?a' = "a\<lparr>ad_registry := ?w\<lparr>w_futures := AList.update typed v (w_futures ?w)\<rparr>, ad_keys := AList.update key typed (ad_keys a)\<rparr>"
  have s: "ad_set new_id key v a = (Inr (), ?a')" using t(1,2) by (simp add: ad_set_def register_def Let_def)
  have g: "w_get (ad_registry ?a') = (w_get ?w)(typed \<mapsto> v)" by (auto simp: w_get_def update_conv' fun_eq_iff)
  have m: "map_of (ad_keys ?a') = (?m(key := None))(key \<mapsto> typed)" by (simp add: update_conv')
  have "slots_ok (map_of (ad_keys ?a')) (w_get (ad_registry ?a'))"
    unfolding m g by (rule slots_ok_enter [OF slots_ok_dropped [OF assms(1)]]) (use t(3,4) in auto)
  then have "adapter_ok ?a'" using assms(1) by (simp add: adapter_ok_def distinct_update)
  moreover have "ad_abs ?a' k = ((ad_abs a)(key \<mapsto> v)) k" for k
  proof (cases "k = key")
    case False
    have "?m key \<noteq> ?m k" if "?m k \<noteq> None"
      using assms(1) that False unfolding adapter_ok_def slots_ok_def by (metis option.exhaust)
    then show ?thesis
      using False t(4) [OF False] unfolding ad_abs_def m g by (cases "?m k") (auto simp: drop_previous_get)
  next
    case True
    then show ?thesis unfolding ad_abs_def m g by simp
  qed
  ultimately show ?thesis using s by blast
qed

lemma ad_drop_refines:
  assumes "adapter_ok a" and "\<And>k. w_get w k = (if map_of (ad_keys a) key = Some k then None else w_get (ad_registry a) k)"
  shows "adapter_ok \<lparr>ad_registry = w, ad_keys = AList.delete key (ad_keys a)\<rparr> \<and>
    ad_abs \<lparr>ad_registry = w, ad_keys = AList.delete key (ad_keys a)\<rparr> = (ad_abs a)(key := None)"
proof
  have m: "map_of (AList.delete key (ad_keys a)) = (map_of (ad_keys a))(key := None)" by (simp add: delete_conv')
  have "slots_ok ((map_of (ad_keys a))(key := None)) (w_get w)"
    using assms by (intro slots_ok_drop [where reg = "w_get (ad_registry a)"]) (auto simp: adapter_ok_def split: if_splits)
  then show "adapter_ok \<lparr>ad_registry = w, ad_keys = AList.delete key (ad_keys a)\<rparr>"
    using assms(1) by (simp add: adapter_ok_def m distinct_delete)
  show "ad_abs \<lparr>ad_registry = w, ad_keys = AList.delete key (ad_keys a)\<rparr> = (ad_abs a)(key := None)"
  proof
    fix k
    have "map_of (ad_keys a) key \<noteq> map_of (ad_keys a) k" if "map_of (ad_keys a) k \<noteq> None" "k \<noteq> key"
      using assms(1) that unfolding adapter_ok_def slots_ok_def by (metis option.exhaust)
    then show "ad_abs \<lparr>ad_registry = w, ad_keys = AList.delete key (ad_keys a)\<rparr> k = ((ad_abs a)(key := None)) k"
      by (cases "map_of (ad_keys a) k") (auto simp: ad_abs_def m assms(2))
  qed
qed

lemma ad_get_refines:
  assumes "adapter_ok a"
  shows "\<exists>a'. ad_get key a = (ad_abs a key, a') \<and> adapter_ok a' \<and> ad_abs a' = ad_abs a"
proof (cases "map_of (ad_keys a) key \<noteq> None \<and> ad_abs a key = None")
  case True
  then have "adapter_ok \<lparr>ad_registry = ad_registry a, ad_keys = AList.delete key (ad_keys a)\<rparr> \<and>
      ad_abs \<lparr>ad_registry = ad_registry a, ad_keys = AList.delete key (ad_keys a)\<rparr> = (ad_abs a)(key := None)"
    using assms by (intro ad_drop_refines) (auto simp: ad_abs_def)
  moreover have "(ad_abs a)(key := None) = ad_abs a" using True by (auto simp: fun_eq_iff)
  ultimately show ?thesis using True by (cases a) (auto simp: ad_get_def ad_abs_def)
next
  case False
  then show ?thesis using assms by (auto simp: ad_get_def ad_abs_def split: option.splits)
qed

lemma ad_del_refines:
  assumes "adapter_ok a" and "map_of (ad_keys a) key \<noteq> None"
  shows "\<exists>a'. ad_del key a = (Inr (), a') \<and> adapter_ok a' \<and> ad_abs a' = (ad_abs a)(key := None)"
proof -
  have "ad_del key a = (Inr (), \<lparr>ad_registry = drop_previous key a, ad_keys = AList.delete key (ad_keys a)\<rparr>)"
    using assms(2) by (auto simp: ad_del_def drop_previous_def split: option.splits)
  then show ?thesis using ad_drop_refines [OF assms(1) drop_previous_get] by auto
qed

text \<open>Completing a future changes the heap only.\<close>

lemma heap_only:
  assumes "adapter_ok a"
  shows "adapter_ok (a\<lparr>ad_registry := (ad_registry a)\<lparr>w_heap := h\<rparr>\<rparr>) \<and> ad_abs (a\<lparr>ad_registry := (ad_registry a)\<lparr>w_heap := h\<rparr>\<rparr>) = ad_abs a"
proof -
  have "w_get ((ad_registry a)\<lparr>w_heap := h\<rparr>) = w_get (ad_registry a)" by (simp add: w_get_def fun_eq_iff)
  then have "w_get (ad_registry (a\<lparr>ad_registry := (ad_registry a)\<lparr>w_heap := h\<rparr>\<rparr>)) = w_get (ad_registry a)" by simp
  then show ?thesis using assms by (simp only: adapter_ok_def ad_abs_def [abs_def]) simp
qed

lemma ad_get_heap: "ad_get key a = (r, a') \<Longrightarrow> w_heap (ad_registry a') = w_heap (ad_registry a)"
  by (auto simp: ad_get_def split: option.splits)

lemma release_slot_refines:
  assumes "adapter_ok a"
  shows "\<exists>a'. release_slot key reason a = (case ad_abs a key of None \<Rightarrow> False | Some f \<Rightarrow> pending (w_heap (ad_registry a)) f, a') \<and>
    adapter_ok a' \<and> ad_abs a' = ad_abs a \<and> w_heap (ad_registry a') =
      (case ad_abs a key of None \<Rightarrow> w_heap (ad_registry a) | Some f \<Rightarrow> resolve f (Result reason) (w_heap (ad_registry a)))"
proof -
  obtain a1 where g: "ad_get key a = (ad_abs a key, a1)" "adapter_ok a1" "ad_abs a1 = ad_abs a"
    using ad_get_refines [OF assms] by blast
  note h = ad_get_heap [OF g(1)]
  show ?thesis
    using g heap_only [OF g(2), of "resolve (the (ad_abs a key)) (Result reason) (w_heap (ad_registry a))"]
    by (cases "ad_abs a key") (auto simp: release_slot_def h resolve_def)
qed

lemma release_slots_refines:
  assumes "adapter_ok a" and "\<forall>k \<in> set ks. ad_abs a k \<noteq> None"
  shows "\<exists>b a'. release_slots d reason ks (r, a) = (r \<or> b, a') \<and> adapter_ok a' \<and> ad_abs a' = ad_abs a \<and>
    dict_release_all d reason (map (\<lambda>k. (k, the (ad_abs a k))) ks) (w_heap (ad_registry a)) = (b, w_heap (ad_registry a'))"
  using assms
proof (induction ks arbitrary: r a)
  case (Cons k ks)
  obtain f where f: "ad_abs a k = Some f" using Cons.prems by auto
  obtain a1 where a1: "release_slot k reason a = (pending (w_heap (ad_registry a)) f, a1)" "adapter_ok a1" "ad_abs a1 = ad_abs a"
    "w_heap (ad_registry a1) = resolve f (Result reason) (w_heap (ad_registry a))"
    using release_slot_refines [OF Cons.prems(1), of k reason] f by auto
  show ?case
  proof (cases "fst k = d")
    case False
    then show ?thesis using Cons.IH [OF Cons.prems(1), of r] Cons.prems(2) by auto
  next
    case True
    have live: "\<forall>k \<in> set ks. ad_abs a1 k \<noteq> None" using Cons.prems(2) a1(3) by simp
    obtain b a2 where "release_slots d reason ks (r \<or> pending (w_heap (ad_registry a)) f, a1) =
        ((r \<or> pending (w_heap (ad_registry a)) f) \<or> b, a2)" "adapter_ok a2" "ad_abs a2 = ad_abs a1"
      "dict_release_all d reason (map (\<lambda>k. (k, the (ad_abs a1 k))) ks) (w_heap (ad_registry a1)) = (b, w_heap (ad_registry a2))"
      using Cons.IH [OF a1(2) live, of "r \<or> pending (w_heap (ad_registry a)) f"] by blast
    moreover have "dict_release_all d reason (map (\<lambda>k. (k, the (ad_abs a k))) (k # ks)) (w_heap (ad_registry a)) =
        (pending (w_heap (ad_registry a)) f \<or> b, w_heap (ad_registry a2))"
      using calculation(4) True a1(3,4) f by (cases "pending (w_heap (ad_registry a)) f") (simp_all add: resolve_def)
    ultimately show ?thesis using True a1(1,3) by (intro exI [of _ "pending (w_heap (ad_registry a)) f \<or> b"] exI [of _ a2]) simp
  qed
qed auto

lemma items_of_keys:
  assumes "adapter_ok a"
  shows "items_of a = map (\<lambda>k. (k, the (ad_abs a k))) (fst (ad_iter a))" and "\<forall>k \<in> set (fst (ad_iter a)). ad_abs a k \<noteq> None"
    and "map_of (items_of a) = ad_abs a"
proof -
  have d: "distinct (map fst (ad_keys a))" using assms by (simp add: adapter_ok_def)
  then have m: "ad_abs a k = w_get (ad_registry a) typed" if "(k, typed) \<in> set (ad_keys a)" for k typed
    using that by (simp add: ad_abs_def)
  show i: "items_of a = map (\<lambda>k. (k, the (ad_abs a k))) (fst (ad_iter a))"
    using m by (auto simp: items_of_def ad_iter_def)
  show n: "\<forall>k \<in> set (fst (ad_iter a)). ad_abs a k \<noteq> None"
    using m by (auto simp: ad_iter_def ad_live_def)
  show "map_of (items_of a) = ad_abs a"
  proof
    fix k
    have "k \<in> set (fst (ad_iter a)) \<longleftrightarrow> ad_abs a k \<noteq> None"
    proof
      assume "ad_abs a k \<noteq> None"
      then obtain typed where "map_of (ad_keys a) k = Some typed" "w_get (ad_registry a) typed \<noteq> None"
        by (auto simp: ad_abs_def split: bind_splits)
      then show "k \<in> set (fst (ad_iter a))" by (force simp: ad_iter_def ad_live_def dest: map_of_SomeD)
    qed (use n in blast)
    then show "map_of (items_of a) k = ad_abs a k" unfolding i by (auto simp: map_of_map_restrict restrict_map_def)
  qed
qed

lemma ad_iter_refines:
  assumes "adapter_ok a"
  shows "adapter_ok (snd (ad_iter a)) \<and> ad_abs (snd (ad_iter a)) = ad_abs a \<and> ad_registry (snd (ad_iter a)) = ad_registry a"
proof -
  let ?m = "map_of (ad_keys a)" and ?m' = "map_of (filter (ad_live a) (ad_keys a))"
  have d: "distinct (map fst (ad_keys a))" using assms by (simp add: adapter_ok_def)
  then have f: "?m' k = Some typed \<longleftrightarrow> ?m k = Some typed \<and> w_get (ad_registry a) typed \<noteq> None" for k typed
    by (auto simp: distinct_map_filter ad_live_def)
  then have g: "?m' k = Option.bind (?m k) (\<lambda>typed. if w_get (ad_registry a) typed = None then None else Some typed)" for k
  proof (cases "?m' k")
    case None
    then have "\<not> (?m k = Some typed \<and> w_get (ad_registry a) typed \<noteq> None)" for typed using f [of k typed] by simp
    then show ?thesis using None by (cases "?m k") auto
  next
    case (Some typed)
    then show ?thesis using f [of k typed] by auto
  qed
  have ok: "slots_ok ?m (w_get (ad_registry a))" using assms by (simp add: adapter_ok_def)
  have "slots_ok ?m' (w_get (ad_registry a))"
    unfolding slots_ok_def
  proof (intro conjI allI impI)
    fix e
    assume r: "w_get (ad_registry a) (install_key e) \<noteq> None"
    then have "?m (e, ''install'') = Some (install_key e)" using ok by (force simp: slots_ok_def typed_ok_def)
    then show "?m' (e, ''install'') \<noteq> None" using f r by blast
  qed (use ok f in \<open>unfold slots_ok_def, blast+\<close>)
  then have "adapter_ok (snd (ad_iter a))" using d by (simp add: adapter_ok_def ad_iter_def distinct_map_filter)
  moreover have "ad_abs (snd (ad_iter a)) k = ad_abs a k" for k
    by (cases "?m k") (auto simp: ad_abs_def ad_iter_def g)
  ultimately show ?thesis by (auto simp: ad_iter_def)
qed

lemma release_transfer_slot_refines:
  assumes "adapter_ok a" and "task \<in> {None, Some ''install'', Some ''push''}"
  shows "\<exists>b a'. release_transfer_slot d reason task a = (b, a') \<and> adapter_ok a' \<and> ad_abs a' = ad_abs a \<and>
    dict_release d reason task (items_of a) (w_heap (ad_registry a)) = (b, w_heap (ad_registry a'))"
proof (cases task)
  case None
  note i = ad_iter_refines [OF assms(1)] and k = items_of_keys [OF assms(1)]
  show ?thesis
    using release_slots_refines [of "snd (ad_iter a)" "fst (ad_iter a)" d reason False] i k None
    by (auto simp: release_transfer_slot_def dict_release_def split: prod.splits)
next
  case (Some t)
  then show ?thesis
    using release_slot_refines [OF assms(1), of "(d, t)" reason] assms(2) items_of_keys(3) [OF assms(1)]
    by (auto simp: release_transfer_slot_def dict_release_def resolve_def split: option.splits)
qed

section \<open>Properties\<close>


definition demo_adapter :: adapter where
  "demo_adapter = snd (ad_set ''u1'' (''a'', ''push'') 1 (snd (ad_set ''u0'' (''a'', ''install'') 0
     \<lparr>ad_registry = \<lparr>w_heap = [Pending, Pending], w_futures = []\<rparr>, ad_keys = []\<rparr>)))"

lemma demo_adapter_eval:
  "ad_keys demo_adapter = [((''a'', ''install''), install_key ''a''), ((''a'', ''push''), legacy_key ''u1'' ''a'')]"
  "w_futures (ad_registry demo_adapter) = [(install_key ''a'', 0), (legacy_key ''u1'' ''a'', 1)]"
  "w_heap (ad_registry demo_adapter) = [Pending, Pending]"
  by code_simp+

lemma demo_adapter_ok: "adapter_ok demo_adapter"
  by (auto simp: adapter_ok_def slots_ok_def typed_ok_def demo_adapter_eval w_get_def install_key_def legacy_key_def)


text \<open>
  The installed release takes any other task name for all slots of the device, where the established
  server releases none: a frame that names an unknown task frees the slots of running jobs.
\<close>

lemma release_unknown_task:
  "fst (release_transfer_slot ''a'' ''download_complete'' (Some ''other'') demo_adapter) = True \<and>
   fst (dict_release ''a'' ''download_complete'' (Some ''other'') (items_of demo_adapter) (w_heap (ad_registry demo_adapter))) = False"
  by code_simp

end
