(* ===== verification/Fleet_Registry.thy ===== *)
theory Fleet_Registry
  imports Transition_Systems Device_Policy Legacy_Transfers "HOL-Library.Product_Lexorder"
begin

text \<open>
  The device registry and the groups of the established server (\<^verbatim>\<open>server.py\<close>): what is kept of every
  device that ever connected, its persistence, and the administration of labels and groups. A device
  record is the JSON object of its fields, as the source keeps it; a device id is a string, as the
  source annotates it. Python's dictionaries are association lists in insertion order.
\<close>

type_synonym serial = string
type_synonym registry = "(serial \<times> jobject) list"
type_synonym groups = "(string \<times> serial list) list"

section \<open>Python values\<close>

definition falsy :: "json \<Rightarrow> bool" where
  "falsy v = (v \<in> {JNull, JBool False, JInt 0, JFloat ''0.0'', JFloat ''-0.0'', JStr [], JArr [], JObj []})"

text \<open>\<^verbatim>\<open>obj.get(key, default)\<close>: the default stands only for a missing key.\<close>

definition jget_or :: "jobject \<Rightarrow> string \<Rightarrow> json \<Rightarrow> json" where
  "jget_or kvs k v = (case map_of kvs k of None \<Rightarrow> v | Some x \<Rightarrow> x)"

text \<open>\<^verbatim>\<open>int(x)\<close> of a float given by its \<^verbatim>\<open>repr\<close>: truncation, with an exponent if there is one.\<close>

definition decimal :: "string \<Rightarrow> nat" where
  "decimal ds = fold (\<lambda>c a. 10 * a + digit_value c) ds 0"

definition signed_decimal :: "string \<Rightarrow> int" where
  "signed_decimal ds = (case ds of CHR ''-'' # r \<Rightarrow> - int (decimal r) | CHR ''+'' # r \<Rightarrow> int (decimal r) | r \<Rightarrow> int (decimal r))"

definition truncate :: "string \<Rightarrow> int" where
  "truncate r =
     (let (m, e) = (case split (CHR ''e'') r of [x, y] \<Rightarrow> (x, signed_decimal y) | _ \<Rightarrow> (r, 0));
          (ip, fp) = (case split (CHR ''.'') m of [x, y] \<Rightarrow> (x, y) | _ \<Rightarrow> (m, []));
          digits = decimal (filter is_digit (ip @ fp));
          scale = e - int (length fp);
          size = (if 0 \<le> scale then digits * 10 ^ nat scale else digits div 10 ^ nat (- scale))
      in if take 1 r = ''-'' then - int size else int size)"

definition int_of_float :: "string \<Rightarrow> mdm_error + int" where
  "int_of_float r =
     (if r = ''nan'' then Inl (ValueError ''cannot convert float NaN to integer'')
      else if r \<in> {''inf'', ''-inf''} then Inl (OverflowError ''cannot convert float infinity to integer'')
      else Inr (truncate r))"

section \<open>Normalisation of persisted records\<close>

fun is_number :: "json \<Rightarrow> bool" where
  "is_number (JInt i) = True"
| "is_number (JFloat r) = True"
| "is_number _ = False"

text \<open>\<^verbatim>\<open>isinstance(value, (int, float))\<close> also holds for a boolean.\<close>

fun int_or_float :: "json \<Rightarrow> bool" where
  "int_or_float (JBool b) = True"
| "int_or_float v = is_number v"

fun str_or_empty :: "json \<Rightarrow> json" where
  "str_or_empty (JStr s) = JStr s"
| "str_or_empty _ = JStr []"

definition battery_of :: "int \<Rightarrow> jobject \<Rightarrow> json \<Rightarrow> json" where
  "battery_of level kvs now =
     (let seen = jget_or kvs ''last_seen'' (jget kvs ''timestamp'') in
      case jget kvs ''charging'' of
        JBool c \<Rightarrow> (if 0 \<le> level \<and> level \<le> 100
          then JObj [(''level'', JInt level), (''charging'', JBool c), (''last_seen'', if is_number seen then seen else now)]
          else JNull)
      | _ \<Rightarrow> JNull)"

definition coerce_battery :: "json \<Rightarrow> json \<Rightarrow> mdm_error + json" where
  "coerce_battery value now =
     (case value of
        JObj kvs \<Rightarrow>
          (case jget kvs ''level'' of
             JInt i \<Rightarrow> Inr (battery_of i kvs now)
           | JFloat r \<Rightarrow> rbind (int_of_float r) (\<lambda>i. Inr (battery_of i kvs now))
           | _ \<Rightarrow> Inr JNull)
      | _ \<Rightarrow> Inr JNull)"

text \<open>The set membership test of \<^verbatim>\<open>identity_kind\<close> raises for a JSON array or object.\<close>

definition identity_kind_of :: "json \<Rightarrow> mdm_error + json" where
  "identity_kind_of v =
     (case v of
        JArr vs \<Rightarrow> Inl (TypeError ''unhashable type'')
      | JObj kvs \<Rightarrow> Inl (TypeError ''unhashable type'')
      | _ \<Rightarrow> Inr (if v \<in> {JStr ''canonical'', JStr ''legacy''} then v else JStr ''legacy''))"

definition coerce_record :: "json \<Rightarrow> json \<Rightarrow> mdm_error + jobject option" where
  "coerce_record value now =
     (case value of
        JStr s \<Rightarrow> Inr (Some [(''label'', JStr (strip s)), (''model'', JStr []), (''ip'', JStr []), (''last_seen'', JNull),
          (''startup_app'', JNull), (''battery'', JNull), (''version_code'', JNull), (''version_name'', JStr []),
          (''retired'', JBool False), (''identity_kind'', JStr ''legacy'')])
      | JObj v \<Rightarrow>
          rbind (coerce_battery (jget v ''battery'') now) (\<lambda>battery.
          rbind (identity_kind_of (jget v ''identity_kind'')) (\<lambda>kind.
            Inr (Some [(''label'', case jget v ''label'' of JStr s \<Rightarrow> JStr (strip s) | _ \<Rightarrow> JStr []),
              (''model'', str_or_empty (jget v ''model'')), (''ip'', str_or_empty (jget v ''ip'')),
              (''last_seen'', if int_or_float (jget v ''last_seen'') then jget v ''last_seen'' else JNull),
              (''startup_app'', case jget v ''startup_app'' of JObj a \<Rightarrow> JObj a | _ \<Rightarrow> JNull),
              (''battery'', battery),
              (''version_code'', case jget v ''version_code'' of JInt i \<Rightarrow> JInt i | _ \<Rightarrow> JNull),
              (''version_name'', str_or_empty (jget v ''version_name'')),
              (''retired'', JBool (jget v ''retired'' = JBool True)),
              (''identity_kind'', kind)])))
      | _ \<Rightarrow> Inr None)"

definition MAX_GROUP_NAME_LEN :: nat where
  "MAX_GROUP_NAME_LEN = 64"

definition MAX_LABEL_LEN :: nat where
  "MAX_LABEL_LEN = 64"

fun add_serials :: "json list \<Rightarrow> serial list \<Rightarrow> serial list" where
  "add_serials [] serials = serials"
| "add_serials (v # vs) serials =
     add_serials vs (case v of JStr s \<Rightarrow> if s \<noteq> [] \<and> s \<notin> set serials then serials @ [s] else serials | _ \<Rightarrow> serials)"

definition coerce_members :: "json \<Rightarrow> serial list" where
  "coerce_members v = (case v of JArr vs \<Rightarrow> add_serials vs [] | _ \<Rightarrow> [])"

definition coerce_groups :: "json \<Rightarrow> groups" where
  "coerce_groups value =
     (case value of
        JObj kvs \<Rightarrow> fold (\<lambda>(name, members) result.
            let clean = take MAX_GROUP_NAME_LEN (strip name) in
            if clean = [] then result else AList.update clean (coerce_members members) result) kvs []
      | _ \<Rightarrow> [])"

section \<open>The state and its file\<close>

text \<open>
  The registry file holds a JSON value (the value \<^verbatim>\<open>json.loads\<close> reads back), is missing, or cannot be
  read. \<open>fl_out\<close> collects the messages sent, in order.
\<close>

datatype registry_file = F_missing | F_unreadable | F_json json

datatype outgoing = To_requester json | To_admins json | To_socket nat json

text \<open>
  A self-update or a retirement in flight holds the timer (an \<^verbatim>\<open>asyncio\<close> task) that ends it; a timer is
  live from its creation until it fires or is cancelled.
\<close>

datatype phase = Updating | Verifying

record self_update =
  u_phase :: phase
  u_correlation_id :: string
  u_target_version_code :: int
  u_apk_filename :: json
  u_package_name :: json
  u_expected_full_sha256 :: json
  u_expected_cd_sha256 :: json
  u_identity_kind :: string
  u_timeout_task :: "nat option"

record retirement =
  r_correlation_id :: string
  r_timeout_task :: "nat option"

datatype timer = T_update serial string | T_verify serial string | T_retire serial string

text \<open>
  The module-level state of the server: \<^verbatim>\<open>device_registry\<close>, \<^verbatim>\<open>device_groups\<close>, \<^verbatim>\<open>devices\<close> (socket and fields),
  \<^verbatim>\<open>provisional_connections\<close>, \<^verbatim>\<open>pending_self_updates\<close>, \<^verbatim>\<open>pending_retires\<close>, \<^verbatim>\<open>last_install_dispatch\<close>,
  \<^verbatim>\<open>pending_transfers\<close>, the live timers and, per socket, the local variables \<^verbatim>\<open>device_id\<close> and
  \<^verbatim>\<open>socket_identity_kind\<close> of its handler.
\<close>

record fleet =
  fl_registry :: registry
  fl_groups :: groups
  fl_devices :: "(serial \<times> nat \<times> jobject) list"
  fl_provisional :: "(nat \<times> jobject) list"
  fl_updates :: "(serial \<times> self_update) list"
  fl_retires :: "(serial \<times> retirement) list"
  fl_dispatches :: "(serial \<times> jobject) list"
  fl_transfers :: adapter
  fl_timers :: "(nat \<times> timer) list"
  fl_next_timer :: nat
  fl_sockets :: "(nat \<times> serial option \<times> string option) list"
  fl_file :: registry_file
  fl_out :: "outgoing list"

definition send_out :: "outgoing \<Rightarrow> fleet \<Rightarrow> fleet" where
  "send_out m st = st\<lparr>fl_out := fl_out st @ [m]\<rparr>"

definition registry_payload :: "registry \<Rightarrow> groups \<Rightarrow> json" where
  "registry_payload reg grps =
     JObj [(''devices'', JObj (map (\<lambda>(s, r). (s, JObj r)) reg)),
           (''groups'', JObj (map (\<lambda>(n, ms). (n, JArr (map JStr ms))) grps))]"

text \<open>\<open>disk\<close> says whether the write succeeds; a failed one is logged and leaves the file as it was.\<close>

definition save_registry :: "bool \<Rightarrow> fleet \<Rightarrow> fleet" where
  "save_registry disk st =
     (if disk then st\<lparr>fl_file := F_json (registry_payload (fl_registry st) (fl_groups st))\<rparr> else st)"

definition load_device :: "json \<Rightarrow> string \<times> json \<Rightarrow> registry \<Rightarrow> mdm_error + registry" where
  "load_device now = (\<lambda>(s, value) loaded. rbind (coerce_record value now) (\<lambda>r.
     Inr (case r of None \<Rightarrow> loaded | Some rec \<Rightarrow> AList.update s rec loaded)))"

definition load_registry :: "json \<Rightarrow> fleet \<Rightarrow> (mdm_error + unit) \<times> fleet" where
  "load_registry now st =
     (let st0 = st\<lparr>fl_registry := [], fl_groups := []\<rparr> in
      case fl_file st of
        F_json (JObj raw) \<Rightarrow>
          let (devices_raw, grps) = (case jget raw ''devices'' of
                JObj ds \<Rightarrow> (ds, coerce_groups (jget raw ''groups''))
              | _ \<Rightarrow> (raw, [])) in
          (case rfold (load_device now) devices_raw [] of
             Inl e \<Rightarrow> (Inl e, st0)
           | Inr loaded \<Rightarrow> (Inr (), st0\<lparr>fl_registry := loaded, fl_groups := grps\<rparr>))
      | _ \<Rightarrow> (Inr (), st0))"

section \<open>Lists for the consoles\<close>

definition online_row :: "registry \<Rightarrow> serial \<times> nat \<times> jobject \<Rightarrow> jobject" where
  "online_row reg = (\<lambda>(s, ws, d).
     let rec = (case map_of reg s of None \<Rightarrow> [] | Some r \<Rightarrow> r) in
     [(''device_id'', JStr s), (''label'', jget_or rec ''label'' (JStr [])), (''model'', jget d ''model''), (''ip'', jget d ''ip''),
      (''status'', jget_or d ''status'' (JStr ''online'')), (''identity_kind'', jget_or d ''identity_kind'' (JStr ''legacy'')),
      (''startup_app'', jget d ''startup_app''), (''battery'', jget d ''battery''), (''last_seen'', jget rec ''last_seen''),
      (''version_code'', jget d ''version_code''), (''version_name'', jget_or d ''version_name'' (JStr []))])"

definition offline_status :: "fleet \<Rightarrow> serial \<Rightarrow> jobject \<Rightarrow> string" where
  "offline_status st s rec =
     (if map_of (fl_retires st) s \<noteq> None then ''retiring''
      else if \<not> falsy (jget rec ''retired'') then ''retired''
      else if map_option u_phase (map_of (fl_updates st) s) = Some Updating then ''updating''
      else ''offline'')"

definition offline_row :: "fleet \<Rightarrow> serial \<times> jobject \<Rightarrow> jobject" where
  "offline_row st = (\<lambda>(s, rec).
     [(''device_id'', JStr s), (''label'', jget_or rec ''label'' (JStr [])), (''model'', jget_or rec ''model'' (JStr [])),
      (''ip'', jget_or rec ''ip'' (JStr [])), (''status'', JStr (offline_status st s rec)), (''startup_app'', jget rec ''startup_app''),
      (''battery'', jget rec ''battery''), (''last_seen'', jget rec ''last_seen''), (''version_code'', jget rec ''version_code''),
      (''version_name'', jget_or rec ''version_name'' (JStr [])), (''identity_kind'', jget_or rec ''identity_kind'' (JStr ''legacy''))])"

text \<open>Labelled devices first, by label; the others by device id; both without regard to case.\<close>

definition row_key :: "jobject \<Rightarrow> bool \<times> string" where
  "row_key row =
     (let label = (case jget row ''label'' of JStr l \<Rightarrow> l | _ \<Rightarrow> []);
          device = (case jget row ''device_id'' of JStr d \<Rightarrow> d | _ \<Rightarrow> [])
      in (label = [], lower (if label = [] then device else label)))"

definition device_rows :: "fleet \<Rightarrow> jobject list" where
  "device_rows st = sort_key row_key
     (map (online_row (fl_registry st)) (fl_devices st) @
      map (offline_row st) (filter (\<lambda>(s, r). map_of (fl_devices st) s = None) (fl_registry st)))"

definition build_device_list_msg :: "fleet \<Rightarrow> json" where
  "build_device_list_msg st = JObj [(''type'', JStr ''DEVICE_LIST''), (''devices'', JArr (map JObj (device_rows st)))]"

definition build_group_list_msg :: "fleet \<Rightarrow> json" where
  "build_group_list_msg st = JObj [(''type'', JStr ''GROUP_LIST''),
     (''groups'', JObj (map (\<lambda>(n, ms). (n, JArr (map JStr ms))) (sort_key fst (fl_groups st))))]"

definition broadcast_device_list :: "fleet \<Rightarrow> fleet" where
  "broadcast_device_list st = send_out (To_admins (build_device_list_msg st)) st"

definition broadcast_group_list :: "fleet \<Rightarrow> fleet" where
  "broadcast_group_list st = send_out (To_admins (build_group_list_msg st)) st"

section \<open>Labels and groups\<close>

text \<open>\<^verbatim>\<open>(value or "").strip()[:limit]\<close>: a truthy value that is no string has no \<^verbatim>\<open>strip\<close>.\<close>

definition clean_text :: "nat \<Rightarrow> json \<Rightarrow> mdm_error + string" where
  "clean_text limit v =
     (if falsy v then Inr []
      else (case v of JStr s \<Rightarrow> Inr (take limit (strip s)) | _ \<Rightarrow> Inl (AttributeError ''strip'')))"

definition reply :: "jobject \<Rightarrow> fleet \<Rightarrow> fleet" where
  "reply msg st = send_out (To_requester (JObj msg)) st"

definition reply_error :: "string \<Rightarrow> fleet \<Rightarrow> fleet" where
  "reply_error message st = reply [(''type'', JStr ''ERROR''), (''message'', JStr message)] st"

definition label_owner :: "registry \<Rightarrow> string \<Rightarrow> serial \<Rightarrow> serial option" where
  "label_owner reg label s = map_option fst (find (\<lambda>(s', r). jget r ''label'' = JStr label \<and> s' \<noteq> s) reg)"

definition blank_record :: jobject where
  "blank_record = [(''label'', JStr []), (''model'', JStr []), (''ip'', JStr []), (''last_seen'', JNull), (''startup_app'', JNull)]"

definition handle_set_device_label :: "bool \<Rightarrow> serial \<Rightarrow> json \<Rightarrow> fleet \<Rightarrow> (mdm_error + unit) \<times> fleet" where
  "handle_set_device_label disk s value st =
     (case clean_text MAX_LABEL_LEN value of
        Inl e \<Rightarrow> (Inl e, st)
      | Inr label \<Rightarrow>
          if s = [] then (Inr (), reply_error ''device_id is required'' st)
          else (case if label = [] then None else label_owner (fl_registry st) label s of
              Some owner \<Rightarrow> (Inr (), reply_error (''Label '' @ [CHR 39] @ label @ [CHR 39] @ '' is already assigned to '' @ owner) st)
            | None \<Rightarrow>
                let rec = (case map_of (fl_registry st) s of None \<Rightarrow> blank_record | Some r \<Rightarrow> r);
                    st1 = st\<lparr>fl_registry := AList.update s (AList.update ''label'' (JStr label) rec) (fl_registry st)\<rparr>;
                    st2 = save_registry disk st1;
                    st3 = reply [(''type'', JStr ''DEVICE_LABEL_SET''), (''device_id'', JStr s), (''label'', JStr label)] st2
                in (Inr (), broadcast_device_list st3)))"

definition cancel_timer :: "nat option \<Rightarrow> fleet \<Rightarrow> fleet" where
  "cancel_timer t st = (case t of None \<Rightarrow> st | Some t \<Rightarrow> st\<lparr>fl_timers := AList.delete t (fl_timers st)\<rparr>)"

definition handle_forget_device :: "bool \<Rightarrow> serial \<Rightarrow> fleet \<Rightarrow> fleet" where
  "handle_forget_device disk s st =
     (if s = [] then reply_error ''device_id is required'' st
      else if map_of (fl_devices st) s \<noteq> None
      then reply_error ''Cannot forget an online device; disconnect it first'' st
      else
        let removed = (map_of (fl_registry st) s \<noteq> None);
            st1 = cancel_timer (Option.bind (map_of (fl_retires st) s) r_timeout_task)
              (st\<lparr>fl_registry := AList.delete s (fl_registry st), fl_retires := AList.delete s (fl_retires st)\<rparr>);
            changed = list_ex (\<lambda>(n, ms). s \<in> set ms) (fl_groups st);
            st2 = st1\<lparr>fl_groups := map (\<lambda>(n, ms). (n, remove1 s ms)) (fl_groups st1)\<rparr>;
            st3 = (if removed \<or> changed then save_registry disk st2 else st2);
            st4 = broadcast_device_list (reply [(''type'', JStr ''DEVICE_FORGOTTEN''), (''device_id'', JStr s)] st3)
        in if changed then broadcast_group_list st4 else st4)"

definition handle_create_group :: "bool \<Rightarrow> jobject \<Rightarrow> fleet \<Rightarrow> (mdm_error + unit) \<times> fleet" where
  "handle_create_group disk data st =
     (case clean_text MAX_GROUP_NAME_LEN (jget data ''name'') of
        Inl e \<Rightarrow> (Inl e, st)
      | Inr name \<Rightarrow>
          (Inr (),
           if name = [] then reply_error ''Group name is required'' st
           else if map_of (fl_groups st) name \<noteq> None then reply_error (''Group '' @ [CHR 39] @ name @ [CHR 39] @ '' already exists'') st
           else broadcast_group_list (reply [(''type'', JStr ''GROUP_CREATED''), (''name'', JStr name)]
                  (save_registry disk (st\<lparr>fl_groups := AList.update name [] (fl_groups st)\<rparr>)))))"

definition handle_rename_group :: "bool \<Rightarrow> jobject \<Rightarrow> fleet \<Rightarrow> (mdm_error + unit) \<times> fleet" where
  "handle_rename_group disk data st =
     (case rbind (clean_text MAX_GROUP_NAME_LEN (jget data ''name'')) (\<lambda>name.
           rbind (clean_text MAX_GROUP_NAME_LEN (jget data ''new_name'')) (\<lambda>new_name. Inr (name, new_name))) of
        Inl e \<Rightarrow> (Inl e, st)
      | Inr (name, new_name) \<Rightarrow>
          (Inr (),
           if name = [] \<or> new_name = [] then reply_error ''Both name and new_name are required'' st
           else (case map_of (fl_groups st) name of
               None \<Rightarrow> reply_error (''Group '' @ [CHR 39] @ name @ [CHR 39] @ '' does not exist'') st
             | Some members \<Rightarrow>
                 if new_name \<noteq> name \<and> map_of (fl_groups st) new_name \<noteq> None
                 then reply_error (''Group '' @ [CHR 39] @ new_name @ [CHR 39] @ '' already exists'') st
                 else broadcast_group_list
                   (reply [(''type'', JStr ''GROUP_RENAMED''), (''name'', JStr name), (''new_name'', JStr new_name)]
                     (save_registry disk (st\<lparr>fl_groups := AList.update new_name members (AList.delete name (fl_groups st))\<rparr>))))))"

definition handle_delete_group :: "bool \<Rightarrow> jobject \<Rightarrow> fleet \<Rightarrow> (mdm_error + unit) \<times> fleet" where
  "handle_delete_group disk data st =
     (case clean_text MAX_GROUP_NAME_LEN (jget data ''name'') of
        Inl e \<Rightarrow> (Inl e, st)
      | Inr name \<Rightarrow>
          (Inr (),
           if name = [] then reply_error ''Group name is required'' st
           else
             let st1 = (if map_of (fl_groups st) name \<noteq> None
                  then save_registry disk (st\<lparr>fl_groups := AList.delete name (fl_groups st)\<rparr>) else st)
             in broadcast_group_list (reply [(''type'', JStr ''GROUP_DELETED''), (''name'', JStr name)] st1)))"

fun clean_names :: "json list \<Rightarrow> string list \<Rightarrow> string list" where
  "clean_names [] names = names"
| "clean_names (v # vs) names =
     clean_names vs (case v of
         JStr raw \<Rightarrow> let clean = take MAX_GROUP_NAME_LEN (strip raw) in
           if clean \<noteq> [] \<and> clean \<notin> set names then names @ [clean] else names
       | _ \<Rightarrow> names)"

definition assign_groups :: "serial \<Rightarrow> string list \<Rightarrow> groups \<Rightarrow> groups" where
  "assign_groups s names grps = map (\<lambda>(n, ms).
     (n, if n \<in> set names \<and> s \<notin> set ms then ms @ [s] else if n \<notin> set names \<and> s \<in> set ms then remove1 s ms else ms)) grps"

fun join_comma :: "string list \<Rightarrow> string" where
  "join_comma [] = []"
| "join_comma [x] = x"
| "join_comma (x # xs) = x @ '', '' @ join_comma xs"

definition handle_set_device_groups :: "bool \<Rightarrow> serial \<Rightarrow> jobject \<Rightarrow> fleet \<Rightarrow> fleet" where
  "handle_set_device_groups disk s data st =
     (if s = [] then reply_error ''device_id is required'' st
      else (case jget_or data ''groups'' (JArr []) of
          JArr requested \<Rightarrow>
            let names = clean_names requested [];
                unknown = filter (\<lambda>n. map_of (fl_groups st) n = None) names in
            if unknown \<noteq> [] then reply_error (''Unknown group(s): '' @ join_comma unknown) st
            else broadcast_group_list
              (reply [(''type'', JStr ''DEVICE_GROUPS_SET''), (''device_id'', JStr s), (''groups'', JArr (map JStr names))]
                (save_registry disk (st\<lparr>fl_groups := assign_groups s names (fl_groups st)\<rparr>)))
        | _ \<Rightarrow> reply_error ''groups must be a list of group names'' st))"

definition handle_set_group_members :: "bool \<Rightarrow> jobject \<Rightarrow> fleet \<Rightarrow> (mdm_error + unit) \<times> fleet" where
  "handle_set_group_members disk data st =
     (case clean_text MAX_GROUP_NAME_LEN (jget data ''name'') of
        Inl e \<Rightarrow> (Inl e, st)
      | Inr name \<Rightarrow>
          (Inr (),
           if name = [] then reply_error ''Group name is required'' st
           else if map_of (fl_groups st) name = None then reply_error (''Group '' @ [CHR 39] @ name @ [CHR 39] @ '' does not exist'') st
           else (case jget_or data ''members'' (JArr []) of
               JArr requested \<Rightarrow>
                 let members = add_serials requested [] in
                 broadcast_group_list
                   (reply [(''type'', JStr ''GROUP_MEMBERS_SET''), (''name'', JStr name), (''members'', JArr (map JStr members))]
                     (save_registry disk (st\<lparr>fl_groups := AList.update name members (fl_groups st)\<rparr>)))
             | _ \<Rightarrow> reply_error ''members must be a list of serials'' st)))"

section \<open>Well-formed registries and groups\<close>

definition label_of :: "jobject \<Rightarrow> json" where
  "label_of r = jget_or r ''label'' (JStr [])"

definition group_ok :: "string \<Rightarrow> serial list \<Rightarrow> bool" where
  "group_ok n ms \<longleftrightarrow> n \<noteq> [] \<and> length n \<le> MAX_GROUP_NAME_LEN \<and> distinct ms \<and> [] \<notin> set ms"

definition groups_ok :: "groups \<Rightarrow> bool" where
  "groups_ok grps \<longleftrightarrow> distinct (map fst grps) \<and> (\<forall>n ms. map_of grps n = Some ms \<longrightarrow> group_ok n ms)"

definition labels_ok :: "registry \<Rightarrow> bool" where
  "labels_ok reg \<longleftrightarrow> distinct (map fst reg) \<and>
     (\<forall>s r s' r'. map_of reg s = Some r \<longrightarrow> map_of reg s' = Some r' \<longrightarrow> label_of r = label_of r' \<longrightarrow>
        label_of r \<noteq> JStr [] \<longrightarrow> s = s')"

definition fleet_data_ok :: "fleet \<Rightarrow> bool" where
  "fleet_data_ok st \<longleftrightarrow> groups_ok (fl_groups st) \<and> labels_ok (fl_registry st)"

text \<open>Answers, broadcasts and the file leave both alone.\<close>

named_theorems fleet_simps \<open>which fields an auxiliary operation of the server leaves alone\<close>

lemma send_out_fields [fleet_simps]:
  "fl_registry (send_out m st) = fl_registry st" "fl_groups (send_out m st) = fl_groups st"
  "fl_devices (send_out m st) = fl_devices st" "fl_updates (send_out m st) = fl_updates st"
  "fl_retires (send_out m st) = fl_retires st" "fl_timers (send_out m st) = fl_timers st"
  "fl_next_timer (send_out m st) = fl_next_timer st" "fl_sockets (send_out m st) = fl_sockets st"
  "fl_provisional (send_out m st) = fl_provisional st" "fl_transfers (send_out m st) = fl_transfers st"
  "fl_dispatches (send_out m st) = fl_dispatches st" "fl_file (send_out m st) = fl_file st"
  by (simp_all add: send_out_def)

lemma save_registry_fields [fleet_simps]:
  "fl_registry (save_registry disk st) = fl_registry st" "fl_groups (save_registry disk st) = fl_groups st"
  "fl_devices (save_registry disk st) = fl_devices st" "fl_updates (save_registry disk st) = fl_updates st"
  "fl_retires (save_registry disk st) = fl_retires st" "fl_timers (save_registry disk st) = fl_timers st"
  "fl_next_timer (save_registry disk st) = fl_next_timer st" "fl_sockets (save_registry disk st) = fl_sockets st"
  "fl_provisional (save_registry disk st) = fl_provisional st" "fl_transfers (save_registry disk st) = fl_transfers st"
  "fl_dispatches (save_registry disk st) = fl_dispatches st"
  by (simp_all add: save_registry_def)

lemma cancel_timer_fields [fleet_simps]:
  "fl_registry (cancel_timer t st) = fl_registry st" "fl_groups (cancel_timer t st) = fl_groups st"
  "fl_devices (cancel_timer t st) = fl_devices st" "fl_updates (cancel_timer t st) = fl_updates st"
  "fl_retires (cancel_timer t st) = fl_retires st" "fl_next_timer (cancel_timer t st) = fl_next_timer st"
  "fl_sockets (cancel_timer t st) = fl_sockets st" "fl_provisional (cancel_timer t st) = fl_provisional st"
  "fl_timers (cancel_timer t st) = (case t of None \<Rightarrow> fl_timers st | Some t \<Rightarrow> AList.delete t (fl_timers st))"
  by (simp_all add: cancel_timer_def split: option.splits)

lemmas message_defs = reply_def reply_error_def broadcast_device_list_def broadcast_group_list_def

lemma clean_text_length: "clean_text limit v = Inr t \<Longrightarrow> length t \<le> limit"
  by (auto simp: clean_text_def split: if_splits json.splits)

lemma groups_ok_update: "groups_ok g \<Longrightarrow> group_ok n ms \<Longrightarrow> groups_ok (AList.update n ms g)"
  unfolding groups_ok_def by (simp add: distinct_update update_conv')

lemma groups_ok_delete: "groups_ok g \<Longrightarrow> groups_ok (AList.delete n g)"
  unfolding groups_ok_def by (simp add: distinct_delete delete_conv')

lemma map_of_map_groups: "map_of (map (\<lambda>(n, ms). (n, f n ms)) g) n = map_option (f n) (map_of g n)"
  by (induction g) auto

lemma groups_ok_map:
  assumes "groups_ok g" and "\<And>n ms. group_ok n ms \<Longrightarrow> group_ok n (f n ms)"
  shows "groups_ok (map (\<lambda>(n, ms). (n, f n ms)) g)"
proof -
  have "map fst (map (\<lambda>(n, ms). (n, f n ms)) g) = map fst g" by (induction g) auto
  then show ?thesis using assms by (auto simp: groups_ok_def map_of_map_groups simp del: map_map)
qed

lemma add_serials_ok: "distinct acc \<Longrightarrow> [] \<notin> set acc \<Longrightarrow> distinct (add_serials vs acc) \<and> [] \<notin> set (add_serials vs acc)"
  by (induction vs acc rule: add_serials.induct) (auto split: json.splits)

lemma labels_ok_update:
  assumes "labels_ok reg" and "\<And>s' r'. map_of reg s' = Some r' \<Longrightarrow> s' \<noteq> s \<Longrightarrow> label_of r = label_of r' \<Longrightarrow> label_of r = JStr []"
  shows "labels_ok (AList.update s r reg)"
  using assms unfolding labels_ok_def by (auto simp: distinct_update update_conv' split: if_splits)

lemma labels_ok_delete: "labels_ok reg \<Longrightarrow> labels_ok (AList.delete s reg)"
  unfolding labels_ok_def by (auto simp: distinct_delete delete_conv' split: if_splits)

lemma label_owner_None:
  "label_owner reg l s = None \<Longrightarrow> map_of reg s' = Some r \<Longrightarrow> s' \<noteq> s \<Longrightarrow> l \<noteq> [] \<Longrightarrow> label_of r \<noteq> JStr l"
  by (force simp: label_owner_def find_None_iff label_of_def jget_or_def jget_def dest: map_of_SomeD split: option.splits)

lemma set_device_label_ok:
  assumes "handle_set_device_label disk s v st = (r, st')" and "fleet_data_ok st"
  shows "fleet_data_ok st'"
proof -
  have "labels_ok (AList.update s (AList.update ''label'' (JStr label) rec) (fl_registry st))"
    if "label = [] \<or> label_owner (fl_registry st) label s = None" for label rec
  proof (rule labels_ok_update)
    have l: "label_of (AList.update ''label'' (JStr label) rec) = JStr label" by (simp add: label_of_def jget_or_def update_conv')
    show "label_of (AList.update ''label'' (JStr label) rec) = JStr []"
      if "map_of (fl_registry st) s' = Some r'" "s' \<noteq> s" "label_of (AList.update ''label'' (JStr label) rec) = label_of r'" for s' r'
      using that label_owner_None [OF _ that(1,2)] \<open>label = [] \<or> _\<close> unfolding l by metis
  qed (use assms(2) in \<open>simp add: fleet_data_ok_def\<close>)
  then show ?thesis
    using assms
    by (auto simp: handle_set_device_label_def fleet_data_ok_def message_defs fleet_simps Let_def
        split: sum.splits if_splits option.splits)
qed

lemma group_ok_remove: "group_ok n ms \<Longrightarrow> group_ok n (remove1 s ms)"
  by (auto simp: group_ok_def dest: set_mp [OF set_remove1_subset])

lemma forget_device_ok: "fleet_data_ok st \<Longrightarrow> fleet_data_ok (handle_forget_device disk s st)"
  using groups_ok_map [of "fl_groups st" "\<lambda>n. remove1 s"]
  by (simp add: handle_forget_device_def fleet_data_ok_def message_defs fleet_simps Let_def labels_ok_delete group_ok_remove)

lemma clean_group_ok: "clean_text MAX_GROUP_NAME_LEN v = Inr n \<Longrightarrow> n \<noteq> [] \<Longrightarrow> distinct ms \<Longrightarrow> [] \<notin> set ms \<Longrightarrow> group_ok n ms"
  by (simp add: group_ok_def clean_text_length)

lemma create_group_ok: "handle_create_group disk data st = (r, st') \<Longrightarrow> fleet_data_ok st \<Longrightarrow> fleet_data_ok st'"
  by (auto simp: handle_create_group_def fleet_data_ok_def message_defs fleet_simps
      intro!: groups_ok_update clean_group_ok split: sum.splits if_splits)

lemma rename_group_ok:
  assumes "handle_rename_group disk data st = (r, st')" and "fleet_data_ok st"
  shows "fleet_data_ok st'"
proof -
  have "group_ok n' ms" if "map_of (fl_groups st) n = Some ms" "clean_text MAX_GROUP_NAME_LEN v = Inr n'" "n' \<noteq> []" for n ms n' v
    using assms(2) that clean_group_ok by (auto simp: fleet_data_ok_def groups_ok_def group_ok_def clean_text_length)
  then show ?thesis
    using assms groups_ok_update groups_ok_delete
    by (auto simp: handle_rename_group_def fleet_data_ok_def message_defs fleet_simps rbind_eq_Inr
        split: sum.splits if_splits option.splits)
qed

lemma delete_group_ok: "handle_delete_group disk data st = (r, st') \<Longrightarrow> fleet_data_ok st \<Longrightarrow> fleet_data_ok st'"
  by (auto simp: handle_delete_group_def fleet_data_ok_def message_defs fleet_simps Let_def groups_ok_delete
      split: sum.splits if_splits)

lemma set_device_groups_ok: "fleet_data_ok st \<Longrightarrow> fleet_data_ok (handle_set_device_groups disk s data st)"
proof -
  assume ok: "fleet_data_ok st"
  have "groups_ok (assign_groups s names (fl_groups st))" if "s \<noteq> []" for names
    unfolding assign_groups_def using ok that group_ok_remove
    by (intro groups_ok_map) (auto simp: fleet_data_ok_def group_ok_def)
  then show ?thesis
    using ok by (auto simp: handle_set_device_groups_def fleet_data_ok_def message_defs fleet_simps Let_def
        split: json.splits if_splits)
qed

lemma set_group_members_ok: "handle_set_group_members disk data st = (r, st') \<Longrightarrow> fleet_data_ok st \<Longrightarrow> fleet_data_ok st'"
  using add_serials_ok [of "[]"]
  by (auto simp: handle_set_group_members_def fleet_data_ok_def message_defs fleet_simps Let_def
      intro!: groups_ok_update clean_group_ok split: sum.splits if_splits json.splits)

section \<open>Persistence\<close>

lemma add_serials_id: "distinct (acc @ ms) \<Longrightarrow> [] \<notin> set ms \<Longrightarrow> add_serials (map JStr ms) acc = acc @ ms"
  by (induction ms arbitrary: acc) auto

lemma update_new: "k \<notin> fst ` set al \<Longrightarrow> AList.update k v al = al @ [(k, v)]"
  by (induction al) auto

definition stable :: "string \<Rightarrow> bool" where
  "stable s \<longleftrightarrow> strip s = s"

lemma coerce_groups_id:
  assumes "groups_ok g" and "\<forall>n \<in> fst ` set g. stable n"
  shows "coerce_groups (JObj (map (\<lambda>(n, ms). (n, JArr (map JStr ms))) g)) = g"
proof -
  have "fold (\<lambda>(name, members) result. let clean = take MAX_GROUP_NAME_LEN (strip name) in
      if clean = [] then result else AList.update clean (coerce_members members) result)
      (map (\<lambda>(n, ms). (n, JArr (map JStr ms))) h) acc = acc @ h"
    if "distinct (map fst (acc @ h))" "\<forall>(n, ms) \<in> set h. group_ok n ms \<and> stable n" for h acc
    using that
  proof (induction h arbitrary: acc)
    case (Cons x h)
    obtain n ms where x: "x = (n, ms)" by (cases x)
    have "take MAX_GROUP_NAME_LEN (strip n) = n" "n \<noteq> []" "coerce_members (JArr (map JStr ms)) = ms"
      using Cons.prems(2) x add_serials_id [of "[]" ms] by (auto simp: group_ok_def stable_def coerce_members_def)
    moreover have "AList.update n ms acc = acc @ [(n, ms)]" using Cons.prems(1) x by (intro update_new) auto
    ultimately show ?case using Cons.IH [of "acc @ [(n, ms)]"] Cons.prems x by auto
  qed simp
  from this [of "[]" g] show ?thesis
    using assms by (force simp: coerce_groups_def groups_ok_def)
qed

text \<open>A record whose fields have the types the normalisation keeps.\<close>

definition record_ok :: "jobject \<Rightarrow> bool" where
  "record_ok r \<longleftrightarrow> (\<exists>l m i n. jget_or r ''label'' (JStr []) = JStr l \<and> stable l \<and> jget_or r ''model'' (JStr []) = JStr m \<and>
       jget_or r ''ip'' (JStr []) = JStr i \<and> jget_or r ''version_name'' (JStr []) = JStr n) \<and>
     (jget r ''last_seen'' = JNull \<or> int_or_float (jget r ''last_seen'')) \<and>
     (jget r ''startup_app'' = JNull \<or> (\<exists>a. jget r ''startup_app'' = JObj a)) \<and>
     (\<forall>now. coerce_battery (jget r ''battery'') now = Inr (jget r ''battery'')) \<and>
     (jget r ''version_code'' = JNull \<or> (\<exists>i. jget r ''version_code'' = JInt i)) \<and>
     (jget r ''retired'' = JNull \<or> (\<exists>b. jget r ''retired'' = JBool b)) \<and>
     jget_or r ''identity_kind'' (JStr ''legacy'') \<in> {JStr ''canonical'', JStr ''legacy''}"

lemma jget_or_jget: "jget_or r k (JStr []) = JStr s \<Longrightarrow> jget r k = JStr s \<or> jget r k = JNull \<and> s = []"
  by (auto simp: jget_or_def jget_def split: option.splits)

text \<open>Normalisation keeps everything a console is shown of such a record.\<close>

lemma coerce_record_row:
  assumes "record_ok r"
  shows "\<exists>r'. coerce_record (JObj r) now = Inr (Some r') \<and> record_ok r' \<and> offline_row st (s, r') = offline_row st (s, r)"
proof -
  obtain l m i n where t: "jget_or r ''label'' (JStr []) = JStr l" "stable l" "jget_or r ''model'' (JStr []) = JStr m"
    "jget_or r ''ip'' (JStr []) = JStr i" "jget_or r ''version_name'' (JStr []) = JStr n"
    using assms by (auto simp: record_ok_def)
  have k: "identity_kind_of (jget r ''identity_kind'') = Inr (jget_or r ''identity_kind'' (JStr ''legacy''))"
  proof (cases "map_of r ''identity_kind''")
    case None
    then show ?thesis by (simp add: identity_kind_of_def jget_def jget_or_def)
  next
    case (Some v)
    then have "v = JStr ''canonical'' \<or> v = JStr ''legacy''" using assms by (simp add: record_ok_def jget_or_def)
    then show ?thesis using Some by (elim disjE) (simp_all add: identity_kind_of_def jget_def jget_or_def)
  qed
  have b: "coerce_battery (jget r ''battery'') now = Inr (jget r ''battery'')" for now using assms by (simp add: record_ok_def)
  let ?r' = "[(''label'', JStr l), (''model'', JStr m), (''ip'', JStr i),
     (''last_seen'', jget r ''last_seen''), (''startup_app'', jget r ''startup_app''), (''battery'', jget r ''battery''),
     (''version_code'', jget r ''version_code''), (''version_name'', JStr n),
     (''retired'', JBool (jget r ''retired'' = JBool True)), (''identity_kind'', jget_or r ''identity_kind'' (JStr ''legacy''))]"
  have st: "str_or_empty (jget r k) = JStr x" if "jget_or r k (JStr []) = JStr x" for k x
    using jget_or_jget [OF that] by auto
  have lab: "(case jget r ''label'' of JStr s \<Rightarrow> JStr (strip s) | _ \<Rightarrow> JStr []) = JStr l"
    using jget_or_jget [OF t(1)] t(2) by (auto simp: stable_def)
  have seen: "(if int_or_float (jget r ''last_seen'') then jget r ''last_seen'' else JNull) = jget r ''last_seen''"
    and app: "(case jget r ''startup_app'' of JObj a \<Rightarrow> JObj a | _ \<Rightarrow> JNull) = jget r ''startup_app''"
    and code: "(case jget r ''version_code'' of JInt i \<Rightarrow> JInt i | _ \<Rightarrow> JNull) = jget r ''version_code''"
    using assms by (auto simp: record_ok_def)
  have "coerce_record (JObj r) now = Inr (Some ?r')"
    unfolding coerce_record_def json.case b k rbind.simps lab seen app code st [OF t(3)] st [OF t(4)] st [OF t(5)] ..
  moreover have "record_ok ?r'"
    using assms t b unfolding record_ok_def by (simp add: jget_def [of "_ # _"] jget_or_def [of "_ # _"])
  moreover have "falsy (JBool (jget r ''retired'' = JBool True)) = falsy (jget r ''retired'')"
    using assms by (auto simp: record_ok_def falsy_def)
  then have "offline_row st (s, ?r') = offline_row st (s, r)"
    using t by (simp add: offline_row_def offline_status_def jget_def [of "_ # _"] jget_or_def [of "_ # _"])
  ultimately show ?thesis by blast
qed

text \<open>The server after a restart: nothing is connected or pending, and the file is loaded.\<close>

definition restarted :: "fleet \<Rightarrow> fleet" where
  "restarted st = st\<lparr>fl_devices := [], fl_provisional := [], fl_updates := [], fl_retires := [], fl_dispatches := [],
     fl_timers := [], fl_sockets := [], fl_out := []\<rparr>"

lemma load_devices_id:
  assumes "distinct (map fst (acc @ reg))" and "\<forall>(s, r) \<in> set reg. record_ok r"
  shows "\<exists>reg'. rfold (load_device now) (map (\<lambda>(s, r). (s, JObj r)) reg) acc = Inr (acc @ reg') \<and>
    map fst reg' = map fst reg \<and> map (offline_row st) reg' = map (offline_row st) reg \<and> (\<forall>(s, r) \<in> set reg'. record_ok r)"
  using assms
proof (induction reg arbitrary: acc)
  case (Cons x reg)
  obtain s r where x: "x = (s, r)" by (cases x)
  obtain r' where r': "coerce_record (JObj r) now = Inr (Some r')" "record_ok r'" "offline_row st (s, r') = offline_row st (s, r)"
    using coerce_record_row Cons.prems(2) x by (metis (no_types, lifting) case_prodD list.set_intros(1))
  have "AList.update s r' acc = acc @ [(s, r')]" using Cons.prems(1) x by (intro update_new) auto
  then have l: "load_device now (s, JObj r) acc = Inr (acc @ [(s, r')])" using r' by (simp add: load_device_def)
  obtain reg' where "rfold (load_device now) (map (\<lambda>(s, r). (s, JObj r)) reg) (acc @ [(s, r')]) = Inr ((acc @ [(s, r')]) @ reg')"
    "map fst reg' = map fst reg" "map (offline_row st) reg' = map (offline_row st) reg" "\<forall>(s, r) \<in> set reg'. record_ok r"
    using Cons.IH [of "acc @ [(s, r')]"] Cons.prems x by auto
  then show ?case using l r' x by (intro exI [of _ "(s, r') # reg'"]) simp
qed simp


definition empty_fleet :: fleet where
  "empty_fleet = \<lparr>fl_registry = [], fl_groups = [], fl_devices = [], fl_provisional = [], fl_updates = [], fl_retires = [],
     fl_dispatches = [], fl_transfers = \<lparr>ad_registry = no_waiters, ad_keys = []\<rparr>, fl_timers = [], fl_next_timer = 0,
     fl_sockets = [], fl_file = F_missing, fl_out = []\<rparr>"

definition demo_fleet :: fleet where
  "demo_fleet = handle_set_device_groups True ''a'' [(''groups'', JArr [JStr '' lab ''])]
     (snd (handle_set_device_label True ''a'' (JStr ''HMD 1'') (snd (handle_create_group True [(''name'', JStr ''lab'')] empty_fleet))))"

lemma demo_fleet_eval:
  "fl_groups demo_fleet = [(''lab'', [''a''])]"
  "fl_registry demo_fleet = [(''a'', [(''label'', JStr ''HMD 1''), (''model'', JStr []), (''ip'', JStr []), (''last_seen'', JNull),
     (''startup_app'', JNull)])]"
  by code_simp+

lemma empty_fleet_ok: "fleet_data_ok empty_fleet"
  by (simp add: fleet_data_ok_def groups_ok_def labels_ok_def empty_fleet_def)

lemma demo_fleet_ok: "fleet_data_ok demo_fleet"
  unfolding demo_fleet_def
  by (rule set_device_groups_ok, rule set_device_label_ok [OF surjective_pairing], rule create_group_ok [OF surjective_pairing])
    (rule empty_fleet_ok)


text \<open>
  Stripping comes before the length limit, so a name can end in white space after it: such a group
  merges with another one at the next start, and a device vanishes from its group; and the devices
  of two different labels come back with the same one.
\<close>

definition long_name :: string where
  "long_name = replicate 63 (CHR ''x'')"

definition cut_fleet :: fleet where
  "cut_fleet = snd (handle_set_device_label True ''b'' (JStr (long_name @ '' z'')) (snd (handle_set_device_label True ''a'' (JStr long_name)
     (snd (handle_set_group_members True [(''name'', JStr long_name), (''members'', JArr [JStr ''a''])]
       (snd (handle_create_group True [(''name'', JStr (long_name @ '' z''))]
         (snd (handle_create_group True [(''name'', JStr long_name)] empty_fleet)))))))))"

lemma reload_merges_groups:
  "fl_groups cut_fleet = [(long_name, [''a'']), (long_name @ '' '', [])] \<and>
   fl_groups (snd (load_registry (JInt 5) (restarted cut_fleet))) = [(long_name, [])]"
  by code_simp

lemma reload_merges_labels:
  "map (\<lambda>(s, r). (s, label_of r)) (fl_registry cut_fleet) = [(''a'', JStr long_name), (''b'', JStr (long_name @ '' ''))] \<and>
   map (\<lambda>(s, r). (s, label_of r)) (fl_registry (snd (load_registry (JInt 5) (restarted cut_fleet)))) =
     [(''a'', JStr long_name), (''b'', JStr long_name)]"
  by code_simp

end
