(* ===== verification/Fleet_Devices.thy ===== *)
theory Fleet_Devices
  imports Fleet_Registry Push_Jobs
begin

text \<open>
  The device channel of the established server (\<^verbatim>\<open>device_ws_handler\<close> of \<^verbatim>\<open>server.py\<close>): registration,
  telemetry, results, self-updates and retirements with their timers, and the end of a connection. A
  frame is handled as one step, timers fire between frames. Whether a send to the socket fails is an
  argument (\<open>net\<close>), as is the hash lookup for an uploaded APK.
\<close>

section \<open>Registration frames\<close>

definition IDENTITY_SCHEME :: string where
  "IDENTITY_SCHEME = ''styly_device_id_v1''"

definition is_lower_hex :: "char \<Rightarrow> bool" where
  "is_lower_hex c = (is_digit c \<or> (let n = (of_char c :: nat) in 97 \<le> n \<and> n \<le> 102))"

text \<open>\<^verbatim>\<open>CANONICAL_DEVICE_ID_RE.fullmatch\<close>.\<close>

definition canonical_device_id :: "string \<Rightarrow> bool" where
  "canonical_device_id s = (map length (split (CHR ''-'') s) = [8, 4, 4, 4, 12] \<and>
     list_all (list_all is_lower_hex) (split (CHR ''-'') s))"

definition PROVISIONAL_STATUSES :: "json set" where
  "PROVISIONAL_STATUSES = {JStr ''resolving'', JStr ''access_denied'', JStr ''io_error'', JStr ''unsupported_api''}"

definition bounded_registration_text :: "json \<Rightarrow> string \<Rightarrow> nat \<Rightarrow> json" where
  "bounded_registration_text v fallback limit = JStr (take limit (case v of JStr s \<Rightarrow> s | _ \<Rightarrow> fallback))"

definition int_or_none :: "json \<Rightarrow> json" where
  "int_or_none v = (case v of JInt i \<Rightarrow> JInt i | _ \<Rightarrow> JNull)"

definition common_fields :: "jobject \<Rightarrow> string \<Rightarrow> jobject" where
  "common_fields data remote =
     [(''model'', bounded_registration_text (jget data ''model'') ''unknown'' 128),
      (''ip'', bounded_registration_text (jget data ''ip'') (if remote = [] then ''unknown'' else remote) 64),
      (''version_name'', bounded_registration_text (jget data ''version_name'') [] 64),
      (''capabilities'', JArr (map JStr (sorted_list_of_set (parse_capabilities (jget data ''capabilities''))))),
      (''version_code'', int_or_none (jget data ''version_code''))]"

text \<open>\<^verbatim>\<open>re.sub(r"[\r\n]+", " ", text)\<close>.\<close>

definition is_break :: "char \<Rightarrow> bool" where
  "is_break c = (c \<in> {CHR 0x0A, CHR 0x0D})"

fun collapse_breaks :: "string \<Rightarrow> string" where
  "collapse_breaks [] = []"
| "collapse_breaks (c # cs) =
     (if is_break c
      then (case cs of d # _ \<Rightarrow> if is_break d then collapse_breaks cs else CHR '' '' # collapse_breaks cs | [] \<Rightarrow> [CHR '' ''])
      else c # collapse_breaks cs)"

text \<open>An answer is the error text of a protocol error, or the kind of identity with its fields.\<close>

definition parse_provisional :: "jobject \<Rightarrow> string \<Rightarrow> mdm_error + (string + string \<times> jobject)" where
  "parse_provisional data remote =
     (case jget data ''identity'' of
        JObj identity \<Rightarrow>
          if jget identity ''state'' \<noteq> JStr ''provisional'' then Inr (Inl ''A null device_id requires a provisional identity object'')
          else if \<not> hashable (jget identity ''status'') then Inl unhashable
          else if jget identity ''status'' \<notin> PROVISIONAL_STATUSES then Inr (Inl ''Unsupported provisional identity status'')
          else (case (jget_or identity ''diagnostic'' (JStr []), jget identity ''mint_attempted'') of
              (JStr diagnostic, JBool mint) \<Rightarrow>
                Inr (Inr (''provisional'', common_fields data remote @
                  [(''identity_status'', jget identity ''status''),
                   (''diagnostic'', JStr (take 256 (strip (collapse_breaks diagnostic)))), (''mint_attempted'', JBool mint)]))
            | (JStr diagnostic, _) \<Rightarrow> Inr (Inl ''Provisional mint_attempted must be a boolean'')
            | _ \<Rightarrow> Inr (Inl ''Provisional diagnostic must be a string''))
      | _ \<Rightarrow> Inr (Inl ''A null device_id requires a provisional identity object''))"

definition parse_registration :: "jobject \<Rightarrow> string \<Rightarrow> mdm_error + (string + string \<times> jobject)" where
  "parse_registration data remote =
     (let scheme = jget data ''identity_scheme'';
          identified = (\<lambda>kind d. Inr (Inr (kind, common_fields data remote @
             [(''device_id'', JStr d), (''startup_app'', jget data ''startup_app'')]))) in
      if scheme = JNull then
        (case jget data ''device_id'' of
           JStr d \<Rightarrow> if d = [] \<or> 128 < length d then Inr (Inl ''Legacy REGISTER requires a bounded non-empty device_id'')
             else identified ''legacy'' d
         | _ \<Rightarrow> Inr (Inl ''Legacy REGISTER requires a bounded non-empty device_id''))
      else if scheme \<noteq> JStr IDENTITY_SCHEME then Inr (Inl ''Unsupported identity_scheme'')
      else (case jget data ''device_id'' of
          JStr d \<Rightarrow> if canonical_device_id d then identified ''canonical'' d
            else Inr (Inl ''device_id must be a canonical lowercase GUID'')
        | JNull \<Rightarrow> parse_provisional data remote
        | _ \<Rightarrow> Inr (Inl ''device_id must be a canonical lowercase GUID or null'')))"

section \<open>Ownership and fields of an entry\<close>

definition fleet_owns :: "fleet \<Rightarrow> serial \<Rightarrow> nat \<Rightarrow> bool" where
  "fleet_owns st d ws = (map_option fst (map_of (fl_devices st) d) = Some ws)"

definition device_entry :: "fleet \<Rightarrow> serial \<Rightarrow> jobject option" where
  "device_entry st d = map_option snd (map_of (fl_devices st) d)"

text \<open>\<^verbatim>\<open>devices[d][field] = value\<close> and \<^verbatim>\<open>rec[field] = value\<close>, when there is an entry or a record.\<close>

definition set_device_field :: "serial \<Rightarrow> string \<Rightarrow> json \<Rightarrow> fleet \<Rightarrow> fleet" where
  "set_device_field d k v st = st\<lparr>fl_devices := map (\<lambda>(s, ws, e). (s, ws, if s = d then AList.update k v e else e)) (fl_devices st)\<rparr>"

definition set_record_field :: "serial \<Rightarrow> string \<Rightarrow> json \<Rightarrow> fleet \<Rightarrow> fleet" where
  "set_record_field d k v st =
     (case map_of (fl_registry st) d of
        None \<Rightarrow> st
      | Some r \<Rightarrow> st\<lparr>fl_registry := AList.update d (AList.update k v r) (fl_registry st)\<rparr>)"

definition forward :: "jobject \<Rightarrow> fleet \<Rightarrow> fleet" where
  "forward payload st = send_out (To_admins (JObj payload)) st"

definition broadcast_install_state :: "serial list \<Rightarrow> string \<Rightarrow> json \<Rightarrow> string \<Rightarrow> fleet \<Rightarrow> fleet" where
  "broadcast_install_state ds state apk detail st =
     (if ds = [] then st
      else forward [(''type'', JStr ''INSTALL_DEVICE_STATE''), (''device_ids'', JArr (map JStr ds)), (''state'', JStr state),
        (''apk_filename'', apk), (''detail'', JStr detail)] st)"

definition broadcast_push_state :: "serial list \<Rightarrow> string \<Rightarrow> json \<Rightarrow> bool \<Rightarrow> string \<Rightarrow> fleet \<Rightarrow> fleet" where
  "broadcast_push_state ds state dest extras detail st =
     (if ds = [] then st
      else forward [(''type'', JStr ''PUSH_DEVICE_STATE''), (''device_ids'', JArr (map JStr ds)), (''state'', JStr state),
        (''dest_path'', dest), (''delete_extras'', JBool extras), (''detail'', JStr detail)] st)"

definition provisional_row :: "jobject \<Rightarrow> jobject" where
  "provisional_row e = [(''connection_id'', jget e ''connection_id''), (''model'', jget e ''model''), (''ip'', jget e ''ip''),
     (''version_code'', jget e ''version_code''), (''version_name'', jget e ''version_name''),
     (''identity_status'', jget e ''identity_status''), (''diagnostic'', jget e ''diagnostic''),
     (''mint_attempted'', jget e ''mint_attempted''), (''capabilities'', jget_or e ''capabilities'' (JArr [])),
     (''power_control_supported'', JBool (command_allowed (Some e) (Some ''EXECUTE_REBOOT''))),
     (''connected_at'', jget e ''connected_at''), (''last_status_at'', jget e ''last_status_at'')]"

text \<open>Time stamps are integers here (\<^verbatim>\<open>time.time()\<close> is a float of seconds).\<close>

definition connection_key :: "jobject \<Rightarrow> int \<times> string \<times> string" where
  "connection_key row =
     ((case jget row ''connected_at'' of JInt i \<Rightarrow> i | _ \<Rightarrow> 0), (case jget row ''model'' of JStr m \<Rightarrow> m | _ \<Rightarrow> []),
      (case jget row ''ip'' of JStr a \<Rightarrow> a | _ \<Rightarrow> []))"

definition build_provisional_connection_list_msg :: "fleet \<Rightarrow> json" where
  "build_provisional_connection_list_msg st =
     JObj [(''type'', JStr ''PROVISIONAL_CONNECTION_LIST''),
       (''connections'', JArr (map JObj (sort_key connection_key (map (provisional_row \<circ> snd) (fl_provisional st)))))]"

definition broadcast_provisional_connection_list :: "fleet \<Rightarrow> fleet" where
  "broadcast_provisional_connection_list st = send_out (To_admins (build_provisional_connection_list_msg st)) st"

section \<open>Self-updates\<close>

record fleet_config =
  cf_self_update_timeout :: int
  cf_self_update_verify_timeout :: int
  cf_retire_timeout :: int

definition start_timer :: "timer \<Rightarrow> fleet \<Rightarrow> nat \<times> fleet" where
  "start_timer tm st = (fl_next_timer st, st\<lparr>fl_timers := fl_timers st @ [(fl_next_timer st, tm)], fl_next_timer := fl_next_timer st + 1\<rparr>)"

definition drop_update :: "serial \<Rightarrow> fleet \<Rightarrow> fleet" where
  "drop_update d st = st\<lparr>fl_updates := AList.delete d (fl_updates st)\<rparr>"

definition update_result :: "serial \<Rightarrow> self_update \<Rightarrow> string \<Rightarrow> json \<Rightarrow> string \<Rightarrow> fleet \<Rightarrow> fleet" where
  "update_result d u status version detail st =
     forward [(''type'', JStr ''SELF_UPDATE_RESULT''), (''device_id'', JStr d), (''correlation_id'', JStr (u_correlation_id u)),
       (''status'', JStr status), (''version_code'', version), (''target_version_code'', JInt (u_target_version_code u)),
       (''detail'', JStr detail)] st"

definition update_verified :: "serial \<Rightarrow> self_update \<Rightarrow> string \<Rightarrow> string \<Rightarrow> fleet \<Rightarrow> fleet" where
  "update_verified d u status detail st =
     forward [(''type'', JStr ''SELF_UPDATE_VERIFIED''), (''device_id'', JStr d), (''correlation_id'', JStr (u_correlation_id u)),
       (''status'', JStr status), (''detail'', JStr detail)] st"

text \<open>The bodies of the timers after their sleep.\<close>

definition self_update_timeout :: "fleet_config \<Rightarrow> serial \<Rightarrow> string \<Rightarrow> fleet \<Rightarrow> fleet" where
  "self_update_timeout cfg d correlation st =
     (case map_of (fl_updates st) d of
        None \<Rightarrow> st
      | Some u \<Rightarrow>
          if u_correlation_id u \<noteq> correlation \<or> u_phase u \<noteq> Updating then st
          else
            let untracked = (u_identity_kind u = ''legacy'');
                status = (if untracked then ''untracked'' else ''timeout'');
                detail = (if untracked then ''legacy identity did not return; a successful replacement registers as a new device''
                  else ''device did not re-register within '' @ show_int (cf_self_update_timeout cfg) @ ''s'')
            in broadcast_device_list (broadcast_install_state [d] (if untracked then ''untracked'' else ''fail'') (u_apk_filename u) detail
                 (update_result d u status JNull detail (drop_update d st))))"

definition self_update_verify_timeout :: "fleet_config \<Rightarrow> serial \<Rightarrow> string \<Rightarrow> fleet \<Rightarrow> fleet" where
  "self_update_verify_timeout cfg d correlation st =
     (case map_of (fl_updates st) d of
        None \<Rightarrow> st
      | Some u \<Rightarrow>
          if u_correlation_id u \<noteq> correlation \<or> u_phase u \<noteq> Verifying then st
          else update_verified d u ''error''
            (''device did not answer the verify command within '' @ show_int (cf_self_update_verify_timeout cfg) @ ''s'') (drop_update d st))"

text \<open>
  A device that re-registers settles its update; \<open>net\<close> is the outcome of sending the verify command.
\<close>

definition begin_verification :: "serial \<Rightarrow> self_update \<Rightarrow> nat \<Rightarrow> string option \<Rightarrow> fleet \<Rightarrow> fleet" where
  "begin_verification d u ws net st =
     (let verifying = u\<lparr>u_phase := Verifying, u_timeout_task := None\<rparr> in
      case net of
        Some e \<Rightarrow> update_verified d u ''error'' (''could not send the verify command: '' @ e) (drop_update d st)
      | None \<Rightarrow>
          (case start_timer (T_verify d (u_correlation_id u))
              (send_out (To_socket ws (JObj [(''type'', JStr ''EXECUTE_VERIFY_APK''), (''package_name'', u_package_name u)])) st) of
             (t, st1) \<Rightarrow> st1\<lparr>fl_updates := AList.update d (verifying\<lparr>u_timeout_task := Some t\<rparr>) (fl_updates st1)\<rparr>))"

definition resolve_pending_self_update :: "serial \<Rightarrow> nat \<Rightarrow> json \<Rightarrow> string option \<Rightarrow> fleet \<Rightarrow> fleet" where
  "resolve_pending_self_update d ws version net st =
     (case map_of (fl_updates st) d of
        None \<Rightarrow> st
      | Some u \<Rightarrow>
          if u_phase u \<noteq> Updating then st
          else
            let st1 = cancel_timer (u_timeout_task u) st;
                target = u_target_version_code u;
                success = (case version of JInt v \<Rightarrow> target \<le> v | _ \<Rightarrow> False);
                detail = (case version of
                    JInt v \<Rightarrow> if target \<le> v then ''re-registered with version_code '' @ show_int v
                      else ''re-registered with version_code '' @ show_int v @ '', expected >= '' @ show_int target
                  | _ \<Rightarrow> ''client reported no version_code'');
                st2 = broadcast_install_state [d] (if success then ''success'' else ''fail'') (u_apk_filename u) detail
                  (update_result d u (if success then ''success'' else ''fail'') version detail st1)
            in if \<not> success then drop_update d st2
               else if \<not> falsy (u_expected_full_sha256 u) \<and> \<not> falsy (u_package_name u) \<and> command_allowed (device_entry st2 d) None
               then begin_verification d u ws net st2
               else update_verified d u ''skipped''
                 (if u_identity_kind u = ''legacy'' then ''legacy identity only supports APK installation/update''
                  else ''no reference hashes for the installed APK'') (drop_update d st2))"

text \<open>
  The comparison of the installed hash; the expected one is a string when it is not falsy. The ellipsis
  after a shortened hash is written as its UTF-8 bytes.
\<close>

definition ellipsis :: string where
  "ellipsis = [CHR 0xE2, CHR 0x80, CHR 0xA6]"

definition verify_outcome :: "self_update \<Rightarrow> jobject \<Rightarrow> string \<times> string" where
  "verify_outcome u data =
     (let expected = (case u_expected_full_sha256 u of JStr e \<Rightarrow> e | _ \<Rightarrow> []) in
      if falsy (jget data ''found'') then (''error'', ''package not found after the update'')
      else (case jget data ''full_sha256'' of
          JStr got \<Rightarrow>
            if got = [] then (''error'', ''device reported no full_sha256'')
            else if lower got = lower expected
            then (''verified'', ''installed APK matches the dispatched file (full_sha256 '' @ take 12 expected @ ellipsis @ '')'')
            else (''mismatch'', ''installed full_sha256 '' @ take 12 got @ ellipsis @ '' does not match dispatched '' @ take 12 expected @ ellipsis)
        | _ \<Rightarrow> (''error'', ''device reported no full_sha256'')))"

definition consume_self_update_verify :: "serial \<Rightarrow> jobject \<Rightarrow> fleet \<Rightarrow> bool \<times> fleet" where
  "consume_self_update_verify d data st =
     (case map_of (fl_updates st) d of
        None \<Rightarrow> (False, st)
      | Some u \<Rightarrow>
          if u_phase u \<noteq> Verifying \<or> jget data ''package_name'' \<noteq> u_package_name u then (False, st)
          else (True, forward [(''type'', JStr ''SELF_UPDATE_VERIFIED''), (''device_id'', JStr d),
                 (''correlation_id'', JStr (u_correlation_id u)), (''status'', JStr (fst (verify_outcome u data))),
                 (''detail'', JStr (snd (verify_outcome u data)))]
                 (drop_update d (cancel_timer (u_timeout_task u) st))))"

definition clear_pending_self_update_on_install_result :: "serial \<Rightarrow> fleet \<Rightarrow> fleet" where
  "clear_pending_self_update_on_install_result d st =
     (case map_of (fl_updates st) d of
        None \<Rightarrow> st
      | Some u \<Rightarrow> if u_phase u \<noteq> Updating then st else drop_update d (cancel_timer (u_timeout_task u) st))"

section \<open>Retirement\<close>

definition drop_retire :: "serial \<Rightarrow> fleet \<Rightarrow> fleet" where
  "drop_retire d st = st\<lparr>fl_retires := AList.delete d (fl_retires st)\<rparr>"

definition retire_result :: "serial \<Rightarrow> json \<Rightarrow> string \<Rightarrow> string \<Rightarrow> fleet \<Rightarrow> fleet" where
  "retire_result d correlation status detail st =
     forward [(''type'', JStr ''RETIRE_RESULT''), (''device_id'', JStr d), (''correlation_id'', correlation),
       (''status'', JStr status), (''detail'', JStr detail)] st"

definition retire_timeout :: "fleet_config \<Rightarrow> bool \<Rightarrow> serial \<Rightarrow> string \<Rightarrow> fleet \<Rightarrow> fleet" where
  "retire_timeout cfg disk d correlation st =
     (case map_of (fl_retires st) d of
        None \<Rightarrow> st
      | Some r \<Rightarrow>
          if r_correlation_id r \<noteq> correlation then st
          else
            let st1 = drop_retire d st; secs = show_int (cf_retire_timeout cfg) in
            if map_of (fl_devices st1) d \<noteq> None
            then broadcast_device_list (retire_result d (JStr correlation) ''fail''
              (''still connected '' @ secs @ ''s after announcing; the uninstall apparently never ran'') st1)
            else
              let st2 = (if map_of (fl_registry st1) d = None then st1
                    else save_registry disk (set_record_field d ''retired'' (JBool True) st1))
              in broadcast_device_list (retire_result d (JStr correlation) ''success''
                   (''no re-registration within '' @ secs @ ''s of the announcement'') st2))"

definition resolve_pending_retire :: "serial \<Rightarrow> fleet \<Rightarrow> fleet" where
  "resolve_pending_retire d st =
     (case map_of (fl_retires st) d of
        None \<Rightarrow> st
      | Some r \<Rightarrow> retire_result d (JStr (r_correlation_id r)) ''fail'' ''device re-registered; the uninstall did not complete''
          (cancel_timer (r_timeout_task r) (drop_retire d st)))"

text \<open>A live timer fires: its task is over, then its body runs.\<close>

definition fire_timer :: "fleet_config \<Rightarrow> bool \<Rightarrow> nat \<Rightarrow> fleet \<Rightarrow> fleet" where
  "fire_timer cfg disk t st =
     (let st1 = st\<lparr>fl_timers := AList.delete t (fl_timers st)\<rparr> in
      case map_of (fl_timers st) t of
        None \<Rightarrow> st
      | Some (T_update d c) \<Rightarrow> self_update_timeout cfg d c st1
      | Some (T_verify d c) \<Rightarrow> self_update_verify_timeout cfg d c st1
      | Some (T_retire d c) \<Rightarrow> retire_timeout cfg disk d c st1)"

section \<open>Frames of a device\<close>

definition PROVISIONAL_RESULT_COMMANDS :: "(string \<times> string) list" where
  "PROVISIONAL_RESULT_COMMANDS = [(''REBOOT_RESULT'', ''EXECUTE_REBOOT''), (''POWER_OFF_RESULT'', ''EXECUTE_POWER_OFF'')]"

definition RESULT_TYPES :: "string list" where
  "RESULT_TYPES = [''LAUNCH_RESULT'', ''REBOOT_RESULT'', ''POWER_OFF_RESULT'', ''INSTALL_RESULT'', ''PUSH_FILES_RESULT'',
     ''VERIFY_APK_RESULT'', ''VERIFY_DIR_RESULT'', ''DELETE_APP_RESULT'']"

text \<open>
  A frame ends with \<open>Inr True\<close> (the loop goes on), \<open>Inr False\<close> (the server closes the socket after a
  protocol error) or an exception; in the last two cases the connection ends.
\<close>

type_synonym frame_result = "(mdm_error + bool) \<times> fleet"

definition protocol_error :: "nat \<Rightarrow> string \<Rightarrow> fleet \<Rightarrow> frame_result" where
  "protocol_error ws message st =
     (Inr False, send_out (To_socket ws (JObj [(''type'', JStr ''ERROR''), (''message'', JStr message)])) st)"

text \<open>
  \<^verbatim>\<open>_complete_device_registration\<close> of a socket without a push runtime; with one, the entry is marked
  ready by \<^verbatim>\<open>register_device\<close> of the runtime.
\<close>

definition complete_device_registration :: "nat \<Rightarrow> serial \<Rightarrow> string option \<Rightarrow> fleet \<Rightarrow> (mdm_error + unit) \<times> fleet" where
  "complete_device_registration ws d net st =
     (case net of
        Some e \<Rightarrow> (Inl (ConnectionError e), st)
      | None \<Rightarrow>
          let st1 = send_out (To_socket ws (JObj [(''type'', JStr ''REGISTERED'')])) st
          in (Inr (), if fleet_owns st1 d ws then set_device_field d ''registration_ready'' (JBool True) st1 else st1))"

definition register_provisional :: "nat \<Rightarrow> jobject \<Rightarrow> string \<Rightarrow> json \<Rightarrow> string option \<Rightarrow> fleet \<Rightarrow> frame_result" where
  "register_provisional ws registration new_id now net st =
     (let previous = map_of (fl_provisional st) ws;
          ready = (case previous of None \<Rightarrow> False | Some p \<Rightarrow> jget p ''registration_ready'' = JBool True);
          connection = (case previous of None \<Rightarrow> JStr new_id | Some p \<Rightarrow> jget p ''connection_id'');
          since = (case previous of None \<Rightarrow> now | Some p \<Rightarrow> if p = [] then now else jget_or p ''connected_at'' now);
          entry = registration @ [(''identity_kind'', JStr ''provisional''), (''registration_ready'', JBool ready),
            (''connection_id'', connection), (''connected_at'', since), (''last_status_at'', now)];
          st1 = st\<lparr>fl_sockets := AList.update ws (None, Some ''provisional'') (fl_sockets st),
                   fl_provisional := AList.update ws entry (fl_provisional st)\<rparr> in
      case net of
        Some e \<Rightarrow> (Inl (ConnectionError e), st1)
      | None \<Rightarrow>
          let st2 = send_out (To_socket ws (JObj [(''type'', JStr ''REGISTERED_PROVISIONAL''), (''connection_id'', connection)])) st1;
              st3 = st2\<lparr>fl_provisional := AList.update ws (AList.update ''registration_ready'' (JBool True) entry) (fl_provisional st2)\<rparr>
          in (Inr True, broadcast_provisional_connection_list st3))"

text \<open>The fields of the new entry and of the new record.\<close>

definition new_entry :: "string \<Rightarrow> jobject \<Rightarrow> jobject \<Rightarrow> jobject" where
  "new_entry kind registration prev =
     [(''device_id'', jget registration ''device_id''), (''identity_kind'', JStr kind), (''registration_ready'', JBool False),
      (''model'', jget registration ''model''), (''ip'', jget registration ''ip''), (''status'', JStr ''registering''),
      (''startup_app'', jget registration ''startup_app''), (''battery'', jget prev ''battery''),
      (''version_code'', jget registration ''version_code''), (''version_name'', jget registration ''version_name'')]"

definition new_record :: "string \<Rightarrow> jobject \<Rightarrow> jobject \<Rightarrow> json \<Rightarrow> jobject" where
  "new_record kind registration prev now =
     [(''label'', jget_or prev ''label'' (JStr [])), (''model'', jget registration ''model''), (''ip'', jget registration ''ip''),
      (''last_seen'', now), (''startup_app'', jget registration ''startup_app''), (''battery'', jget prev ''battery''),
      (''version_code'', jget registration ''version_code''), (''version_name'', jget registration ''version_name''),
      (''identity_kind'', JStr kind)]"

definition register_identified ::
  "bool \<Rightarrow> nat \<Rightarrow> string \<Rightarrow> jobject \<Rightarrow> serial \<Rightarrow> json \<Rightarrow> string option \<Rightarrow> string option \<Rightarrow> fleet \<Rightarrow> frame_result" where
  "register_identified disk ws kind registration d now net net_verify st =
     (let prev = (case map_of (fl_registry st) d of None \<Rightarrow> [] | Some r \<Rightarrow> r);
          st1 = st\<lparr>fl_provisional := AList.delete ws (fl_provisional st),
                   fl_sockets := AList.update ws (Some d, Some kind) (fl_sockets st),
                   fl_devices := AList.update d (ws, new_entry kind registration prev) (fl_devices st),
                   fl_registry := AList.update d (new_record kind registration prev now) (fl_registry st)\<rparr>;
          st2 = save_registry disk st1 in
      case complete_device_registration ws d net st2 of
        (Inl e, st3) \<Rightarrow> (Inl e, st3)
      | (Inr u, st3) \<Rightarrow>
          if \<not> fleet_owns st3 d ws then (Inr True, st3)
          else
            let st4 = set_device_field d ''status'' (JStr ''online'') st3;
                st5 = resolve_pending_self_update d ws (jget registration ''version_code'') net_verify (resolve_pending_retire d st4);
                st6 = (if kind = ''canonical'' then broadcast_provisional_connection_list st5 else st5)
            in (Inr True, broadcast_device_list st6))"

definition handle_register ::
  "bool \<Rightarrow> nat \<Rightarrow> string \<Rightarrow> jobject \<Rightarrow> string \<Rightarrow> json \<Rightarrow> string option \<Rightarrow> string option \<Rightarrow>
   serial option \<Rightarrow> string option \<Rightarrow> fleet \<Rightarrow> frame_result" where
  "handle_register disk ws remote data new_id now net net_verify device kind st =
     (case parse_registration data remote of
        Inl e \<Rightarrow> (Inl e, st)
      | Inr (Inl message) \<Rightarrow> protocol_error ws message st
      | Inr (Inr (k, registration)) \<Rightarrow>
          (case device of
             Some d \<Rightarrow>
               if Some k \<noteq> kind \<or> jget registration ''device_id'' \<noteq> JStr d
               then protocol_error ws ''A registered socket cannot change its identity kind or device_id'' st
               else (case complete_device_registration ws d net st of
                   (Inl e, st1) \<Rightarrow> (Inl e, st1) | (Inr u, st1) \<Rightarrow> (Inr True, st1))
           | None \<Rightarrow>
               if k = ''provisional'' then register_provisional ws registration new_id now net st
               else if map_of (fl_provisional st) ws \<noteq> None \<and> k \<noteq> ''canonical''
               then protocol_error ws ''A provisional socket can only promote to canonical identity'' st
               else (case jget registration ''device_id'' of
                   JStr d \<Rightarrow> register_identified disk ws k registration d now net net_verify st
                 | _ \<Rightarrow> (Inl (KeyError ''device_id''), st))))"

definition handle_battery :: "bool \<Rightarrow> serial \<Rightarrow> jobject \<Rightarrow> json \<Rightarrow> fleet \<Rightarrow> frame_result" where
  "handle_battery disk d data now st =
     (case coerce_battery (JObj [(''level'', jget data ''level''), (''charging'', jget data ''charging''),
           (''last_seen'', jget data ''timestamp'')]) now of
        Inl e \<Rightarrow> (Inl e, st)
      | Inr (JObj b) \<Rightarrow>
          let battery = JObj (AList.update ''last_seen'' now b);
              st1 = set_record_field d ''last_seen'' now (set_record_field d ''battery'' battery
                (set_device_field d ''battery'' battery st))
          in (Inr True, broadcast_device_list (save_registry disk st1))
      | Inr _ \<Rightarrow> (Inr True, st))"

text \<open>\<^verbatim>\<open>data.get("task") or "install"\<close>; every value but the two names stands for all slots of the device.\<close>

definition handle_download_complete :: "serial \<Rightarrow> jobject \<Rightarrow> fleet \<Rightarrow> frame_result" where
  "handle_download_complete d data st =
     (let task = (if falsy (jget data ''task'') then JStr ''install'' else jget data ''task'') in
      if \<not> hashable task then (Inl unhashable, st)
      else (case release_transfer_slot d ''download_complete'' (case task of JStr t \<Rightarrow> Some t | _ \<Rightarrow> None) (fl_transfers st) of
          (released, a) \<Rightarrow>
            let st1 = st\<lparr>fl_transfers := a\<rparr> in
            (Inr True,
             if \<not> released then st1
             else if task = JStr ''push''
             then broadcast_push_state [d] ''applying'' (jget_or data ''dest_path'' (JStr [])) (\<not> falsy (jget data ''delete_extras'')) [] st1
             else broadcast_install_state [d] ''installing'' (jget_or data ''apk_filename'' (JStr [])) [] st1)))"

text \<open>\<open>hashes\<close> stands for \<^verbatim>\<open>apk_hashes_for\<close>, a lookup in the uploaded files.\<close>

definition handle_update_starting :: "(json \<Rightarrow> jobject) \<Rightarrow> serial \<Rightarrow> string \<Rightarrow> jobject \<Rightarrow> fleet \<Rightarrow> fleet" where
  "handle_update_starting hashes d kind data st =
     (case (jget data ''correlation_id'', jget data ''target_version_code'') of
        (JStr correlation, JInt target) \<Rightarrow>
          if correlation = [] then st
          else
            let apk = jget_or data ''apk_filename'' (JStr []);
                st1 = cancel_timer (Option.bind (map_of (fl_updates st) d) u_timeout_task) st;
                expected = (case map_of (fl_dispatches st1) d of Some dispatched \<Rightarrow> dispatched | None \<Rightarrow> hashes apk) in
            (case start_timer (T_update d correlation) st1 of
               (t, st2) \<Rightarrow>
                 broadcast_install_state [d] ''updating'' apk []
                   (st2\<lparr>fl_updates := AList.update d \<lparr>u_phase = Updating, u_correlation_id = correlation, u_target_version_code = target,
                      u_apk_filename = apk, u_package_name = jget_or data ''package_name'' (JStr []),
                      u_expected_full_sha256 = jget expected ''full_sha256'', u_expected_cd_sha256 = jget expected ''cd_sha256'',
                      u_identity_kind = kind, u_timeout_task = Some t\<rparr> (fl_updates st2)\<rparr>))
      | _ \<Rightarrow> st)"

definition handle_uninstall_starting :: "serial \<Rightarrow> jobject \<Rightarrow> fleet \<Rightarrow> fleet" where
  "handle_uninstall_starting d data st =
     (case jget data ''correlation_id'' of
        JStr correlation \<Rightarrow>
          if correlation = [] then st
          else
            let st1 = cancel_timer (Option.bind (map_of (fl_retires st) d) r_timeout_task) st;
                st2 = cancel_timer (Option.bind (map_of (fl_updates st1) d) u_timeout_task) (drop_update d st1) in
            (case start_timer (T_retire d correlation) st2 of
               (t, st3) \<Rightarrow> st3\<lparr>fl_retires := AList.update d \<lparr>r_correlation_id = correlation, r_timeout_task = Some t\<rparr> (fl_retires st3)\<rparr>)
      | _ \<Rightarrow> st)"

definition handle_uninstall_result :: "serial \<Rightarrow> jobject \<Rightarrow> fleet \<Rightarrow> fleet" where
  "handle_uninstall_result d data st =
     retire_result d (jget data ''correlation_id'') ''fail''
       (case jget data ''detail'' of JStr t \<Rightarrow> if t = [] then ''client reported the uninstall failed'' else t
        | _ \<Rightarrow> ''client reported the uninstall failed'')
       (cancel_timer (Option.bind (map_of (fl_retires st) d) r_timeout_task) (drop_retire d st))"

definition startup_app_is :: "fleet \<Rightarrow> serial \<Rightarrow> json \<Rightarrow> bool" where
  "startup_app_is st d package =
     (let entry = (case device_entry st d of
            Some e \<Rightarrow> if e = [] then (case map_of (fl_registry st) d of None \<Rightarrow> [] | Some r \<Rightarrow> r) else e
          | None \<Rightarrow> (case map_of (fl_registry st) d of None \<Rightarrow> [] | Some r \<Rightarrow> r)) in
      \<not> falsy package \<and> (case jget entry ''startup_app'' of JObj a \<Rightarrow> jget a ''package_name'' = package | _ \<Rightarrow> False))"

definition clear_startup_app_record :: "bool \<Rightarrow> serial \<Rightarrow> fleet \<Rightarrow> fleet" where
  "clear_startup_app_record disk d st =
     save_registry disk (set_record_field d ''startup_app'' JNull (set_device_field d ''startup_app'' JNull st))"

definition slot_release :: "serial \<Rightarrow> string \<Rightarrow> string option \<Rightarrow> fleet \<Rightarrow> fleet" where
  "slot_release d reason task st = st\<lparr>fl_transfers := snd (release_transfer_slot d reason task (fl_transfers st))\<rparr>"

text \<open>A result of a registered device: its own id is put in, and what it settles is settled first.\<close>

definition handle_device_result :: "bool \<Rightarrow> serial \<Rightarrow> string \<Rightarrow> jobject \<Rightarrow> fleet \<Rightarrow> fleet" where
  "handle_device_result disk d typ data st =
     (if map_of PROVISIONAL_RESULT_COMMANDS typ \<noteq> None \<and> map_of data ''connection_id'' \<noteq> None then st
      else
        let frame = AList.update ''device_id'' (JStr d) (AList.delete ''connection_id'' data);
            (consumed, st1) =
              (if typ = ''INSTALL_RESULT''
               then (False, clear_pending_self_update_on_install_result d (slot_release d ''install_result'' (Some ''install'') st))
               else if typ = ''PUSH_FILES_RESULT'' then (False, slot_release d ''push_files_result'' (Some ''push'') st)
               else if typ = ''VERIFY_APK_RESULT'' then consume_self_update_verify d frame st
               else (False, st)) in
        if consumed then st1
        else
          let st2 = forward frame st1 in
          if typ = ''DELETE_APP_RESULT'' \<and> jget frame ''status'' = JStr ''success'' \<and> startup_app_is st2 d (jget frame ''package_name'')
          then broadcast_device_list (clear_startup_app_record disk d st2) else st2)"

text \<open>A result of a provisional connection, which the guard has already matched with its connection id.\<close>

definition handle_provisional_result :: "nat \<Rightarrow> jobject \<Rightarrow> fleet \<Rightarrow> fleet" where
  "handle_provisional_result ws data st =
     (case map_of (fl_provisional st) ws of
        None \<Rightarrow> st
      | Some p \<Rightarrow> forward (AList.update ''connection_id'' (jget p ''connection_id'') (AList.delete ''device_id'' data)) st)"

definition provisional_eligible :: "fleet \<Rightarrow> nat \<Rightarrow> string option \<Rightarrow> json \<Rightarrow> jobject \<Rightarrow> bool" where
  "provisional_eligible st ws kind typ data =
     (kind = Some ''provisional'' \<and>
      (case map_of (fl_provisional st) ws of
         None \<Rightarrow> False
       | Some p \<Rightarrow> jget p ''registration_ready'' = JBool True \<and>
           (case typ of
              JStr t \<Rightarrow> (case map_of PROVISIONAL_RESULT_COMMANDS t of
                  None \<Rightarrow> False | Some cmd \<Rightarrow> command_allowed (Some p) (Some cmd))
            | _ \<Rightarrow> False) \<and>
           jget data ''connection_id'' = jget p ''connection_id''))"

definition provisional_ready :: "fleet \<Rightarrow> nat \<Rightarrow> string option \<Rightarrow> bool" where
  "provisional_ready st ws kind = (kind = Some ''provisional'' \<and>
     (case map_of (fl_provisional st) ws of None \<Rightarrow> False | Some p \<Rightarrow> jget p ''registration_ready'' = JBool True))"

text \<open>One frame of a registered device, by its type.\<close>

definition handle_device_frame ::
  "(json \<Rightarrow> jobject) \<Rightarrow> bool \<Rightarrow> serial \<Rightarrow> string \<Rightarrow> jobject \<Rightarrow> json \<Rightarrow> fleet \<Rightarrow> frame_result" where
  "handle_device_frame hashes disk d kind data now st =
     (case jget data ''type'' of
        JStr t \<Rightarrow>
          if t = ''BATTERY_UPDATE'' then handle_battery disk d data now st
          else if t = ''DOWNLOAD_COMPLETE'' then handle_download_complete d data st
          else if t = ''SELF_UPDATE_STARTING'' then (Inr True, handle_update_starting hashes d kind data st)
          else if t = ''SELF_UNINSTALL_STARTING'' then (Inr True, handle_uninstall_starting d data st)
          else if t = ''SELF_UNINSTALL_RESULT'' then (Inr True, handle_uninstall_result d data st)
          else if t \<in> set RESULT_TYPES then (Inr True, handle_device_result disk d t data st)
          else if t = ''STARTUP_APP_RESULT'' then (Inr True, forward data st)
          else (Inr True, st)
      | JArr vs \<Rightarrow> (Inl unhashable, st)
      | JObj kvs \<Rightarrow> (Inl unhashable, st)
      | _ \<Rightarrow> (Inr True, st))"

definition device_frame ::
  "(json \<Rightarrow> jobject) \<Rightarrow> bool \<Rightarrow> nat \<Rightarrow> string \<Rightarrow> json \<Rightarrow> string \<Rightarrow> json \<Rightarrow> string option \<Rightarrow> string option \<Rightarrow> fleet \<Rightarrow> frame_result" where
  "device_frame hashes disk ws remote message new_id now net net_verify st =
     (case map_of (fl_sockets st) ws of
        None \<Rightarrow> (Inr True, st)
      | Some (device, kind) \<Rightarrow>
          (case message of
             JObj data \<Rightarrow>
               if jget data ''type'' = JStr ''REGISTER''
               then handle_register disk ws remote data new_id now net net_verify device kind st
               else (case device of
                   Some d \<Rightarrow>
                     if \<not> fleet_owns st d ws then (Inr True, st)
                     else handle_device_frame hashes disk d (case kind of None \<Rightarrow> [] | Some k \<Rightarrow> k) data now st
                 | None \<Rightarrow>
                     if provisional_ready st ws kind \<and> \<not> hashable (jget data ''type'') then (Inl unhashable, st)
                     else if provisional_eligible st ws kind (jget data ''type'') data
                     then (Inr True, handle_provisional_result ws data st)
                     else (Inr True, st))
           | _ \<Rightarrow> protocol_error ws ''Device messages must be JSON objects'' st))"

section \<open>Connections\<close>

definition connect_socket :: "nat \<Rightarrow> fleet \<Rightarrow> fleet" where
  "connect_socket ws st = st\<lparr>fl_sockets := AList.update ws (None, None) (fl_sockets st)\<rparr>"

text \<open>The end of a device's verification when its connection ends.\<close>

definition close_verification :: "serial \<Rightarrow> fleet \<Rightarrow> fleet" where
  "close_verification d st =
     (case map_of (fl_updates st) d of
        None \<Rightarrow> st
      | Some u \<Rightarrow> if u_phase u \<noteq> Verifying then st
          else update_verified d u ''error'' ''device disconnected before verification completed''
            (drop_update d (cancel_timer (u_timeout_task u) st)))"

definition close_owner :: "bool \<Rightarrow> serial \<Rightarrow> json \<Rightarrow> fleet \<Rightarrow> fleet" where
  "close_owner disk d now st =
     (let st1 = slot_release d ''disconnect'' None st;
          st2 = close_verification d (st1\<lparr>fl_dispatches := AList.delete d (fl_dispatches st1)\<rparr>);
          st3 = st2\<lparr>fl_devices := AList.delete d (fl_devices st2)\<rparr>;
          st4 = (if map_of (fl_registry st3) d = None then st3 else save_registry disk (set_record_field d ''last_seen'' now st3))
      in broadcast_device_list st4)"

definition close_socket :: "bool \<Rightarrow> nat \<Rightarrow> json \<Rightarrow> fleet \<Rightarrow> fleet" where
  "close_socket disk ws now st =
     (let was_provisional = (map_of (fl_provisional st) ws \<noteq> None);
          st1 = st\<lparr>fl_provisional := AList.delete ws (fl_provisional st), fl_sockets := AList.delete ws (fl_sockets st)\<rparr>;
          st2 = (case map_of (fl_sockets st) ws of
               Some (Some d, _) \<Rightarrow> if fleet_owns st d ws then close_owner disk d now st1 else st1
             | _ \<Rightarrow> st1)
      in if was_provisional then broadcast_provisional_connection_list st2 else st2)"

text \<open>A frame that is the last one of its connection is followed by the end of the connection.\<close>

definition serve_frame ::
  "(json \<Rightarrow> jobject) \<Rightarrow> bool \<Rightarrow> nat \<Rightarrow> string \<Rightarrow> json \<Rightarrow> string \<Rightarrow> json \<Rightarrow> string option \<Rightarrow> string option \<Rightarrow> fleet \<Rightarrow> fleet" where
  "serve_frame hashes disk ws remote message new_id now net net_verify st =
     (case device_frame hashes disk ws remote message new_id now net net_verify st of
        (Inr True, st1) \<Rightarrow> st1
      | (_, st1) \<Rightarrow> close_socket disk ws now st1)"

end
