(* ===== verification/Fleet_Commands.thy ===== *)
theory Fleet_Commands
  imports Fleet_Devices Fleet_Paths
begin

text \<open>
  The administration channel of the established server (\<^verbatim>\<open>admin_ws_handler\<close> of \<^verbatim>\<open>server.py\<close> and its
  handlers) and the gate every frame to a device passes (\<^verbatim>\<open>send_str\<close> of the socket class of
  \<^verbatim>\<open>push_runtime.py\<close>). A handler is one step. What the network does with a frame is an argument: \<open>net ws\<close>
  says that the socket takes it (else \<^verbatim>\<open>ConnectionResetError\<close>).
\<close>

section \<open>The gate of a device socket\<close>

definition session_frames :: "string set" where
  "session_frames = {''REGISTERED'', ''REGISTERED_PROVISIONAL'', ''ERROR''}"

text \<open>
  What a frame meets outside the established server: the socket of the live session of a device in the
  push runtime, the device a socket completed its registration for, and whether the network takes a frame.
\<close>

record console =
  co_sessions :: "serial \<Rightarrow> nat option"
  co_device :: "nat \<Rightarrow> serial option"
  co_net :: "nat \<Rightarrow> bool"

definition owner_gate :: "(serial \<Rightarrow> nat option) \<Rightarrow> fleet \<Rightarrow> serial \<Rightarrow> nat \<Rightarrow> string \<Rightarrow> jobject \<Rightarrow> bool" where
  "owner_gate sessions st d ws typ payload =
     (case map_of (fl_devices st) d of
        None \<Rightarrow> False
      | Some (owner, entry) \<Rightarrow> owner = ws \<and> sessions d = Some ws \<and> jget payload ''connection_id'' = JNull \<and>
          command_allowed (Some entry) (Some typ))"

definition send_allowed :: "console \<Rightarrow> fleet \<Rightarrow> nat \<Rightarrow> string \<Rightarrow> jobject \<Rightarrow> bool" where
  "send_allowed co st ws typ payload =
     (case map_of (fl_provisional st) ws of
        Some p \<Rightarrow>
          if typ \<in> session_frames then True
          else typ \<in> PROVISIONAL_POWER_COMMANDS \<and> jget payload ''connection_id'' = jget p ''connection_id'' \<and>
            command_allowed (Some p) (Some typ)
      | None \<Rightarrow>
          if typ \<in> session_frames then True
          else (case co_device co ws of
              Some d \<Rightarrow> owner_gate (co_sessions co) st d ws typ payload
            | None \<Rightarrow> False))"

text \<open>A command to one socket; the answer says whether it went out (the exceptions are only logged).\<close>

definition send_command :: "console \<Rightarrow> nat \<Rightarrow> string \<Rightarrow> jobject \<Rightarrow> fleet \<Rightarrow> bool \<times> fleet" where
  "send_command co ws typ args st =
     (let payload = (''type'', JStr typ) # args in
      if \<not> send_allowed co st ws typ payload \<or> \<not> co_net co ws then (False, st)
      else (True, send_out (To_socket ws (JObj payload)) st))"

section \<open>Targets\<close>

text \<open>
  What a \<^verbatim>\<open>for\<close> loop over a JSON value does: a string gives its characters, an object its keys, a number or a
  boolean raises. The lookup of an array or an object in a dictionary raises.
\<close>

definition iterate :: "json \<Rightarrow> mdm_error + json list" where
  "iterate v =
     (case v of
        JArr vs \<Rightarrow> Inr vs
      | JStr s \<Rightarrow> Inr (map (\<lambda>c. JStr [c]) s)
      | JObj kvs \<Rightarrow> Inr (map (JStr \<circ> fst) kvs)
      | _ \<Rightarrow> Inl (TypeError ''object is not iterable''))"

definition pick_target :: "string option \<Rightarrow> fleet \<Rightarrow> json \<Rightarrow> serial list \<Rightarrow> mdm_error + serial list" where
  "pick_target cmd st v ds =
     (case v of
        JStr d \<Rightarrow> Inr (if command_allowed (device_entry st d) cmd then ds @ [d] else ds)
      | _ \<Rightarrow> if hashable v then Inr ds else Inl unhashable)"

definition resolve_target_ids :: "bool \<Rightarrow> json \<Rightarrow> fleet \<Rightarrow> mdm_error + serial list" where
  "resolve_target_ids allow_legacy requested st =
     rbind (if falsy requested \<or> requested = JArr [JStr ''*''] then Inr (map (JStr \<circ> fst) (fl_devices st))
            else iterate requested)
       (\<lambda>targets. rfold (pick_target (if allow_legacy then Some ''EXECUTE_INSTALL'' else None) st) targets [])"

definition provisional_entry_for_id :: "string \<Rightarrow> string \<Rightarrow> fleet \<Rightarrow> (nat \<times> jobject) option" where
  "provisional_entry_for_id connection_id cmd st =
     find (\<lambda>(ws, e). jget e ''connection_id'' = JStr connection_id \<and> command_allowed (Some e) (Some cmd)) (fl_provisional st)"

text \<open>\<open>Inl\<close> is the message of an error, \<open>Inr None\<close> a frame without the field.\<close>

definition parse_target_connections :: "jobject \<Rightarrow> string + string list option" where
  "parse_target_connections data =
     (if map_of data ''target_connections'' = None then Inr None
      else if map_of data ''target_devices'' \<noteq> None then Inl ''target_connections cannot be combined with target_devices''
      else (case jget data ''target_connections'' of
          JArr raw \<Rightarrow>
            let ids = map (\<lambda>v. case v of JStr s \<Rightarrow> s | _ \<Rightarrow> []) raw in
            if raw = [] then Inl ''target_connections must be a non-empty array''
            else if [] \<in> set ids then Inl ''target_connections must contain non-empty connection IDs''
            else if ''*'' \<in> set ids then Inl ''target_connections does not support wildcards''
            else if \<not> distinct ids then Inl ''target_connections must not contain duplicates''
            else Inr (Some ids)
        | _ \<Rightarrow> Inl ''target_connections must be a non-empty array''))"

section \<open>Fan-out\<close>

text \<open>
  The loops over the resolved targets. \<open>args i\<close> are the arguments of the i-th command; \<open>after d\<close> is what the
  handler does once the command to \<open>d\<close> went out.
\<close>

fun fan_out ::
  "console \<Rightarrow> string \<Rightarrow> (nat \<Rightarrow> jobject) \<Rightarrow> (serial \<Rightarrow> fleet \<Rightarrow> fleet) \<Rightarrow> serial list \<Rightarrow> nat \<Rightarrow> nat \<times> fleet \<Rightarrow> nat \<times> fleet" where
  "fan_out co typ args after [] i (sent, st) = (sent, st)"
| "fan_out co typ args after (d # ds) i (sent, st) =
     fan_out co typ args after ds (Suc i)
       (case map_of (fl_devices st) d of
          None \<Rightarrow> (sent, st)
        | Some (ws, entry) \<Rightarrow>
            (case send_command co ws typ (args i) st of
               (True, st1) \<Rightarrow> (Suc sent, after d st1)
             | (False, st1) \<Rightarrow> (sent, st1)))"

text \<open>Resolution and fan-out of a command to devices, with the answer built from the two counts.\<close>

definition command_devices ::
  "console \<Rightarrow> json \<Rightarrow> string \<Rightarrow> (nat \<Rightarrow> jobject) \<Rightarrow> (serial \<Rightarrow> fleet \<Rightarrow> fleet) \<Rightarrow> (nat \<Rightarrow> nat \<Rightarrow> fleet \<Rightarrow> fleet) \<Rightarrow>
   fleet \<Rightarrow> (mdm_error + unit) \<times> fleet" where
  "command_devices co targets typ args after answer st =
     (case resolve_target_ids False targets st of
        Inl e \<Rightarrow> (Inl e, st)
      | Inr ids \<Rightarrow>
          if ids = [] then (Inr (), reply_error ''No matching online devices found'' st)
          else (case fan_out co typ args after ids 0 (0, st) of (sent, st1) \<Rightarrow> (Inr (), answer sent (length ids) st1)))"

definition sent_reply :: "string \<Rightarrow> jobject \<Rightarrow> nat \<Rightarrow> nat \<Rightarrow> fleet \<Rightarrow> fleet" where
  "sent_reply typ args sent n st =
     reply ((''type'', JStr typ) # args @ [(''sent_count'', JInt (int sent)), (''target_count'', JInt (int n))]) st"

definition targets_of :: "jobject \<Rightarrow> json" where
  "targets_of data = jget_or data ''target_devices'' (JArr [])"

section \<open>Commands\<close>

definition handle_launch_app :: "console \<Rightarrow> jobject \<Rightarrow> fleet \<Rightarrow> (mdm_error + unit) \<times> fleet" where
  "handle_launch_app co data st =
     (let package = jget_or data ''package_name'' (JStr []); extra = jget_or data ''extra_data'' (JStr ''{}'') in
      if falsy package then (Inr (), reply_error ''package_name is required'' st)
      else command_devices co (targets_of data) ''EXECUTE_LAUNCH'' (\<lambda>_. [(''package_name'', package), (''extra'', extra)]) (\<lambda>_ st. st)
        (sent_reply ''LAUNCH_SENT'' [(''package_name'', package)]) st)"

definition PROTECTED_PACKAGES :: "string set" where
  "PROTECTED_PACKAGES = {''com.styly.mdmclient'', ''com.styly.mdmguard''}"

definition handle_delete_app :: "console \<Rightarrow> jobject \<Rightarrow> fleet \<Rightarrow> (mdm_error + unit) \<times> fleet" where
  "handle_delete_app co data st =
     (case jget_or data ''package_name'' (JStr []) of
        JStr raw \<Rightarrow>
          let package = strip raw in
          if package = [] then (Inr (), reply_error ''package_name is required'' st)
          else if package \<in> PROTECTED_PACKAGES
          then (Inr (), reply_error (package @ '' belongs to STYLY-MDM itself; use Retire Device to remove the MDM client'') st)
          else command_devices co (targets_of data) ''EXECUTE_UNINSTALL'' (\<lambda>_. [(''package_name'', JStr package)]) (\<lambda>_ st. st)
            (sent_reply ''DELETE_APP_SENT'' [(''package_name'', JStr package)]) st
      | _ \<Rightarrow> (Inl (AttributeError ''strip''), st))"

fun power_connections :: "console \<Rightarrow> string \<Rightarrow> string list \<Rightarrow> nat \<times> fleet \<Rightarrow> nat \<times> fleet" where
  "power_connections co typ [] (sent, st) = (sent, st)"
| "power_connections co typ (c # cs) (sent, st) =
     power_connections co typ cs
       (case provisional_entry_for_id c typ st of
          None \<Rightarrow> (sent, st)
        | Some (ws, entry) \<Rightarrow>
            (case send_command co ws typ [(''connection_id'', JStr c)] st of (b, st1) \<Rightarrow> (if b then Suc sent else sent, st1)))"

definition dispatch_power_command :: "console \<Rightarrow> string \<Rightarrow> string \<Rightarrow> jobject \<Rightarrow> fleet \<Rightarrow> (mdm_error + unit) \<times> fleet" where
  "dispatch_power_command co execute_type sent_type data st =
     (case parse_target_connections data of
        Inl message \<Rightarrow> (Inr (), reply_error message st)
      | Inr (Some connections) \<Rightarrow>
          (case power_connections co execute_type connections (0, st) of
             (sent, st1) \<Rightarrow>
               (Inr (),
                if sent = 0 then reply_error ''No matching eligible provisional connections found'' st1
                else reply [(''type'', JStr sent_type), (''sent_count'', JInt (int sent)),
                  (''target_count'', JInt (int (length connections))), (''target_connections'', JArr (map JStr connections))] st1))
      | Inr None \<Rightarrow> command_devices co (targets_of data) execute_type (\<lambda>_. []) (\<lambda>_ st. st) (sent_reply sent_type []) st)"

definition handle_reboot_device :: "console \<Rightarrow> jobject \<Rightarrow> fleet \<Rightarrow> (mdm_error + unit) \<times> fleet" where
  "handle_reboot_device co = dispatch_power_command co ''EXECUTE_REBOOT'' ''REBOOT_SENT''"

definition handle_power_off_device :: "console \<Rightarrow> jobject \<Rightarrow> fleet \<Rightarrow> (mdm_error + unit) \<times> fleet" where
  "handle_power_off_device co = dispatch_power_command co ''EXECUTE_POWER_OFF'' ''POWER_OFF_SENT''"

text \<open>\<open>fresh i\<close> is the i-th correlation id.\<close>

definition handle_retire_device :: "console \<Rightarrow> (nat \<Rightarrow> string) \<Rightarrow> jobject \<Rightarrow> fleet \<Rightarrow> (mdm_error + unit) \<times> fleet" where
  "handle_retire_device co fresh data st =
     command_devices co (targets_of data) ''EXECUTE_SELF_UNINSTALL'' (\<lambda>i. [(''correlation_id'', JStr (fresh i))]) (\<lambda>_ st. st)
       (sent_reply ''RETIRE_SENT'' []) st"

definition handle_verify_apk :: "console \<Rightarrow> jobject \<Rightarrow> fleet \<Rightarrow> (mdm_error + unit) \<times> fleet" where
  "handle_verify_apk co data st =
     (let package = jget_or data ''package_name'' (JStr []) in
      if falsy package then (Inr (), reply_error ''package_name is required'' st)
      else command_devices co (targets_of data) ''EXECUTE_VERIFY_APK'' (\<lambda>_. [(''package_name'', package)]) (\<lambda>_ st. st)
        (sent_reply ''VERIFY_SENT'' [(''package_name'', package)]) st)"

definition handle_verify_dir :: "console \<Rightarrow> jobject \<Rightarrow> fleet \<Rightarrow> (mdm_error + unit) \<times> fleet" where
  "handle_verify_dir co data st =
     (let path = jget_or data ''path'' (JStr []);
          refuse = (Inr (), reply_error (''A valid absolute path without '' @ [CHR 39] @ ''..'' @ [CHR 39] @ '' is required'') st) in
      if falsy path then refuse
      else (case path of
          JStr p \<Rightarrow>
            if \<not> is_syntactically_safe_verify_path p then refuse
            else command_devices co (targets_of data) ''EXECUTE_VERIFY_DIR'' (\<lambda>_. [(''path'', path)]) (\<lambda>_ st. st)
              (sent_reply ''VERIFY_DIR_SENT'' [(''path'', path)]) st
        | _ \<Rightarrow> (Inl (AttributeError ''startswith''), st)))"

definition record_startup_app :: "json \<Rightarrow> serial \<Rightarrow> fleet \<Rightarrow> fleet" where
  "record_startup_app app d st = set_record_field d ''startup_app'' app (set_device_field d ''startup_app'' app st)"

definition handle_set_startup_app :: "bool \<Rightarrow> console \<Rightarrow> jobject \<Rightarrow> fleet \<Rightarrow> (mdm_error + unit) \<times> fleet" where
  "handle_set_startup_app disk co data st =
     (let package = jget_or data ''package_name'' (JStr []); extra = jget_or data ''extra_data'' (JStr []);
          app = JObj [(''package_name'', package), (''extra'', extra)] in
      if falsy package then (Inr (), reply_error ''package_name is required for SET_STARTUP_APP'' st)
      else command_devices co (targets_of data) ''SET_STARTUP_APP'' (\<lambda>_. [(''package_name'', package), (''extra'', extra)])
        (record_startup_app app)
        (\<lambda>sent n st1. broadcast_device_list (sent_reply ''SET_STARTUP_APP_SENT'' [(''package_name'', package)] sent n
           (save_registry disk st1))) st)"

definition handle_clear_startup_app :: "bool \<Rightarrow> console \<Rightarrow> jobject \<Rightarrow> fleet \<Rightarrow> (mdm_error + unit) \<times> fleet" where
  "handle_clear_startup_app disk co data st =
     command_devices co (targets_of data) ''CLEAR_STARTUP_APP'' (\<lambda>_. []) (record_startup_app JNull)
       (\<lambda>sent n st1. broadcast_device_list (sent_reply ''CLEAR_STARTUP_APP_SENT'' [] sent n (save_registry disk st1))) st"

section \<open>Requests for transfers\<close>

text \<open>
  An accepted install or push starts a background job; the answer of the handler is that job.
\<close>

datatype job_request =
    Install_job json json "serial list"
  | Push_job json json string bool "serial list"

definition handle_install_apk :: "nat \<Rightarrow> jobject \<Rightarrow> fleet \<Rightarrow> (mdm_error + job_request option) \<times> fleet" where
  "handle_install_apk slots data st =
     (let url = jget_or data ''apk_url'' (JStr []); filename = jget_or data ''apk_filename'' (JStr []) in
      if falsy url then (Inr None, reply_error ''apk_url is required'' st)
      else (case resolve_target_ids True (targets_of data) st of
          Inl e \<Rightarrow> (Inl e, st)
        | Inr ids \<Rightarrow>
            if ids = [] then (Inr None, reply_error ''No matching online devices found'' st)
            else (Inr (Some (Install_job url filename ids)),
              reply [(''type'', JStr ''INSTALL_SENT''), (''apk_filename'', filename), (''apk_url'', url),
                (''target_count'', JInt (int (length ids))), (''max_concurrent'', JInt (int slots))] st)))"

definition handle_push_files :: "nat \<Rightarrow> jobject \<Rightarrow> fleet \<Rightarrow> (mdm_error + job_request option) \<times> fleet" where
  "handle_push_files slots data st =
     (let url = jget_or data ''bundle_url'' (JStr []); filename = jget_or data ''bundle_filename'' (JStr []);
          dest = (if falsy (jget data ''dest_path'') then Inr []
            else (case jget data ''dest_path'' of JStr s \<Rightarrow> Inr (strip s) | _ \<Rightarrow> Inl (AttributeError ''strip'')));
          extras = (jget data ''delete_extras'' = JBool True) in
      case dest of
        Inl e \<Rightarrow> (Inl e, st)
      | Inr d \<Rightarrow>
          if falsy url then (Inr None, reply_error ''bundle_url is required'' st)
          else (case validate_dest_path (JStr d) of
              Some message \<Rightarrow> (Inr None, reply_error message st)
            | None \<Rightarrow>
                (case resolve_target_ids False (targets_of data) st of
                   Inl e \<Rightarrow> (Inl e, st)
                 | Inr ids \<Rightarrow>
                     if ids = [] then (Inr None, reply_error ''No matching online devices found'' st)
                     else (Inr (Some (Push_job url filename d extras ids)),
                       reply [(''type'', JStr ''PUSH_FILES_SENT''), (''bundle_filename'', filename), (''dest_path'', JStr d),
                         (''delete_extras'', JBool extras), (''target_count'', JInt (int (length ids))),
                         (''max_concurrent'', JInt (int slots))] st))))"

section \<open>Frames of a console\<close>

text \<open>What a console gets when it connects; \<open>apks\<close> lists the directory of uploaded APKs.\<close>

definition admin_connect :: "string \<Rightarrow> apk_entry list \<Rightarrow> fleet \<Rightarrow> fleet" where
  "admin_connect version apks st =
     (let say = (\<lambda>m. send_out (To_requester m)) in
      say (build_group_list_msg st) (say (build_provisional_connection_list_msg st) (say (build_device_list_msg st)
        (say (build_client_apk_msg apks) (say (JObj [(''type'', JStr ''SERVER_INFO''), (''version'', JStr version)]) st)))))"

text \<open>
  A device id is a string, as the source annotates it; \<open>typed_id\<close> says that a frame keeps to that.
\<close>

definition typed_id :: "jobject \<Rightarrow> bool" where
  "typed_id data = (case jget_or data ''device_id'' (JStr []) of JStr s \<Rightarrow> True | v \<Rightarrow> falsy v)"

definition serial_of :: "jobject \<Rightarrow> serial" where
  "serial_of data = (case jget_or data ''device_id'' (JStr []) of JStr s \<Rightarrow> s | _ \<Rightarrow> [])"

definition no_job :: "(mdm_error + unit) \<times> fleet \<Rightarrow> (mdm_error + job_request option) \<times> fleet" where
  "no_job r = (case fst r of Inl e \<Rightarrow> Inl e | Inr u \<Rightarrow> Inr None, snd r)"

record admin_env =
  ae_disk :: bool
  ae_slots :: nat
  ae_console :: console
  ae_fresh :: "nat \<Rightarrow> string"

definition admin_handlers :: "admin_env \<Rightarrow> (string \<times> (jobject \<Rightarrow> fleet \<Rightarrow> (mdm_error + job_request option) \<times> fleet)) list" where
  "admin_handlers ae =
     (let disk = ae_disk ae; co = ae_console ae in
      [(''LAUNCH_APP'', \<lambda>data st. no_job (handle_launch_app co data st)),
       (''DELETE_APP'', \<lambda>data st. no_job (handle_delete_app co data st)),
       (''REBOOT_DEVICE'', \<lambda>data st. no_job (handle_reboot_device co data st)),
       (''POWER_OFF_DEVICE'', \<lambda>data st. no_job (handle_power_off_device co data st)),
       (''INSTALL_APK'', \<lambda>data st. handle_install_apk (ae_slots ae) data st),
       (''PUSH_FILES'', \<lambda>data st. handle_push_files (ae_slots ae) data st),
       (''VERIFY_APK'', \<lambda>data st. no_job (handle_verify_apk co data st)),
       (''VERIFY_DIR'', \<lambda>data st. no_job (handle_verify_dir co data st)),
       (''SET_STARTUP_APP'', \<lambda>data st. no_job (handle_set_startup_app disk co data st)),
       (''CLEAR_STARTUP_APP'', \<lambda>data st. no_job (handle_clear_startup_app disk co data st)),
       (''GET_DEVICE_LIST'', \<lambda>data st. (Inr None, send_out (To_requester (build_device_list_msg st)) st)),
       (''SET_DEVICE_LABEL'', \<lambda>data st. no_job (handle_set_device_label disk (serial_of data) (jget data ''label'') st)),
       (''FORGET_DEVICE'', \<lambda>data st. (Inr None, handle_forget_device disk (serial_of data) st)),
       (''RETIRE_DEVICE'', \<lambda>data st. no_job (handle_retire_device co (ae_fresh ae) data st)),
       (''CREATE_GROUP'', \<lambda>data st. no_job (handle_create_group disk data st)),
       (''RENAME_GROUP'', \<lambda>data st. no_job (handle_rename_group disk data st)),
       (''DELETE_GROUP'', \<lambda>data st. no_job (handle_delete_group disk data st)),
       (''SET_DEVICE_GROUPS'', \<lambda>data st. (Inr None, handle_set_device_groups disk (serial_of data) data st)),
       (''SET_GROUP_MEMBERS'', \<lambda>data st. no_job (handle_set_group_members disk data st))])"

text \<open>An exception ends the connection of the console; the state stays as the handler left it.\<close>

definition admin_frame :: "admin_env \<Rightarrow> json \<Rightarrow> fleet \<Rightarrow> (mdm_error + job_request option) \<times> fleet" where
  "admin_frame ae message st =
     (case message of
        JObj data \<Rightarrow>
          let typ = jget data ''type''; connections = (map_of data ''target_connections'' \<noteq> None) in
          if connections \<and> \<not> hashable typ then (Inl unhashable, st)
          else if connections \<and> typ \<notin> {JStr ''REBOOT_DEVICE'', JStr ''POWER_OFF_DEVICE''}
          then (Inr None, reply_error ''target_connections is only supported for power control'' st)
          else (case typ of
              JStr t \<Rightarrow> (case map_of (admin_handlers ae) t of None \<Rightarrow> (Inr None, st) | Some handler \<Rightarrow> handler data st)
            | _ \<Rightarrow> (Inr None, st))
      | _ \<Rightarrow> (Inl (AttributeError ''get''), st))"

section \<open>What reaches a device\<close>

definition sends :: "(nat \<Rightarrow> json \<Rightarrow> bool) \<Rightarrow> fleet \<Rightarrow> fleet \<Rightarrow> bool" where
  "sends P st st' \<longleftrightarrow> (\<exists>ms. fl_out st' = fl_out st @ ms \<and> (\<forall>ws m. To_socket ws m \<in> set ms \<longrightarrow> P ws m))"

lemma sends_refl [simp]: "sends P st st"
  by (simp add: sends_def)

lemma sends_trans: "sends P st st' \<Longrightarrow> sends P st' st'' \<Longrightarrow> sends P st st''"
  unfolding sends_def by (metis Un_iff append.assoc set_append)

lemma sends_cong: "fl_out st'' = fl_out st' \<Longrightarrow> sends P st st'' = sends P st st'"
  by (simp add: sends_def)

lemma sends_out: "sends P st st' \<Longrightarrow> (\<And>ws x. m = To_socket ws x \<Longrightarrow> P ws x) \<Longrightarrow> sends P st (send_out m st')"
  by (rule sends_trans) (auto simp: sends_def send_out_def)

lemma sends_messages [simp]:
  "sends P st st' \<Longrightarrow> sends P st (reply m st')" "sends P st st' \<Longrightarrow> sends P st (reply_error e st')"
  "sends P st st' \<Longrightarrow> sends P st (broadcast_device_list st')" "sends P st st' \<Longrightarrow> sends P st (broadcast_group_list st')"
  "sends P st st' \<Longrightarrow> sends P st (send_out (To_requester j) st')"
  by (auto simp: reply_def reply_error_def broadcast_device_list_def broadcast_group_list_def intro: sends_out)

lemma sends_quiet [simp]:
  "sends P st (save_registry disk st') = sends P st st'" "sends P st (cancel_timer t st') = sends P st st'"
  "sends P st (st'\<lparr>fl_registry := r\<rparr>) = sends P st st'" "sends P st (st'\<lparr>fl_groups := g\<rparr>) = sends P st st'"
  "sends P st (st'\<lparr>fl_retires := rs\<rparr>) = sends P st st'" "sends P st (record_startup_app app d st') = sends P st st'"
  by (rule sends_cong, simp add: save_registry_def cancel_timer_def record_startup_app_def set_record_field_def set_device_field_def
      split: option.split)+

text \<open>The registration part of an entry decides what the gate lets through.\<close>

definition same_gate :: "fleet \<Rightarrow> fleet \<Rightarrow> bool" where
  "same_gate st st' \<longleftrightarrow> fl_provisional st' = fl_provisional st \<and> fl_sockets st' = fl_sockets st \<and>
     (\<forall>d. map_option (\<lambda>(ws, e). (ws, \<lambda>c. command_allowed (Some e) c)) (map_of (fl_devices st') d) =
          map_option (\<lambda>(ws, e). (ws, \<lambda>c. command_allowed (Some e) c)) (map_of (fl_devices st) d))"

lemma same_gate_refl [simp]: "same_gate st st"
  by (simp add: same_gate_def)

lemma same_gate_trans: "same_gate st st' \<Longrightarrow> same_gate st' st'' \<Longrightarrow> same_gate st st''"
  by (simp add: same_gate_def)

lemma jget_update_other: "k' \<noteq> k \<Longrightarrow> jget (AList.update k v e) k' = jget e k'"
  by (simp add: jget_def update_conv')

lemma command_allowed_startup: "command_allowed (Some (AList.update ''startup_app'' v e)) c = command_allowed (Some e) c"
  by (simp add: command_allowed_def jget_update_other)

lemma map_of_entries: "map_of (map (\<lambda>(s, ws, e). (s, ws, f s e)) xs) s = map_option (\<lambda>(ws, e). (ws, f s e)) (map_of xs s)"
  by (induction xs) auto

lemma same_gate_startup: "same_gate st (record_startup_app app d st)"
proof -
  have f: "fl_provisional (record_startup_app app d st) = fl_provisional st" "fl_sockets (record_startup_app app d st) = fl_sockets st"
    "fl_devices (record_startup_app app d st) = map (\<lambda>(s, ws, e). (s, ws, if s = d then AList.update ''startup_app'' app e else e)) (fl_devices st)"
    by (simp_all add: record_startup_app_def set_record_field_def set_device_field_def split: option.split)
  have "command_allowed (Some (AList.update ''startup_app'' app e)) = command_allowed (Some e)" for e
    by (simp add: command_allowed_startup fun_eq_iff)
  then have "map_option (\<lambda>(ws, e). (ws, \<lambda>c. command_allowed (Some e) c)) (map_of (fl_devices (record_startup_app app d st)) k) =
      map_option (\<lambda>(ws, e). (ws, \<lambda>c. command_allowed (Some e) c)) (map_of (fl_devices st) k)" for k
    unfolding f map_of_entries by (cases "map_of (fl_devices st) k") (auto simp: fun_eq_iff)
  then show ?thesis by (simp add: same_gate_def f)
qed

lemma same_gate_out: "fl_provisional st' = fl_provisional st \<Longrightarrow> fl_sockets st' = fl_sockets st \<Longrightarrow> fl_devices st' = fl_devices st \<Longrightarrow> same_gate st st'"
  by (simp add: same_gate_def)

lemma same_gate_allowed:
  assumes "same_gate st st'"
  shows "send_allowed co st' ws typ payload = send_allowed co st ws typ payload"
proof -
  have "owner_gate (co_sessions co) st' d ws typ payload = owner_gate (co_sessions co) st d ws typ payload" for d
    using assms unfolding same_gate_def owner_gate_def
    by (cases "map_of (fl_devices st') d"; cases "map_of (fl_devices st) d") (auto dest!: spec [of _ d] fun_cong)
  then show ?thesis using assms by (auto simp: send_allowed_def same_gate_def split: option.split)
qed

text \<open>A command that went through the gate as it was in state \<open>st\<close>.\<close>

definition cleared :: "console \<Rightarrow> fleet \<Rightarrow> (string \<Rightarrow> jobject \<Rightarrow> bool) \<Rightarrow> nat \<Rightarrow> json \<Rightarrow> bool" where
  "cleared co st Q ws m \<longleftrightarrow> (\<exists>typ args. m = JObj ((''type'', JStr typ) # args) \<and> typ \<notin> session_frames \<and> Q typ args \<and>
     send_allowed co st ws typ ((''type'', JStr typ) # args))"

lemma cleared_mono: "cleared co st Q ws m \<Longrightarrow> (\<And>t a. Q t a \<Longrightarrow> Q' t a) \<Longrightarrow> cleared co st Q' ws m"
  unfolding cleared_def by blast

lemma send_command_effect:
  assumes "send_command co ws typ args st = (b, st')" and "typ \<notin> session_frames" and "Q typ args" and "same_gate st0 st"
  shows "sends (cleared co st0 Q) st st' \<and> same_gate st0 st'"
proof -
  have "same_gate st0 (send_out m st)" for m
    using same_gate_trans [OF assms(4)] by (rule same_gate_trans) (auto intro: same_gate_out simp: send_out_def)
  then show ?thesis
    using assms same_gate_allowed [OF assms(4)]
    by (auto simp: send_command_def Let_def cleared_def split: if_splits intro!: sends_out)
qed

lemma fan_out_effect:
  assumes "typ \<notin> session_frames" and "\<And>i. Q typ (args i)" and "\<And>d st. same_gate st (after d st) \<and> fl_out (after d st) = fl_out st"
  shows "fan_out co typ args after ds i (n, st) = (n', st') \<Longrightarrow> same_gate st0 st \<Longrightarrow>
    sends (cleared co st0 Q) st st' \<and> same_gate st0 st'"
proof (induction ds arbitrary: i n st)
  case (Cons d ds)
  obtain m st1 where c: "(case map_of (fl_devices st) d of None \<Rightarrow> (n, st)
      | Some (ws, entry) \<Rightarrow> (case send_command co ws typ (args i) st of (True, st1) \<Rightarrow> (Suc n, after d st1) | (False, st1) \<Rightarrow> (n, st1))) = (m, st1)"
    by (cases "case map_of (fl_devices st) d of None \<Rightarrow> (n, st)
      | Some (ws, entry) \<Rightarrow> (case send_command co ws typ (args i) st of (True, st1) \<Rightarrow> (Suc n, after d st1) | (False, st1) \<Rightarrow> (n, st1))")
  have "sends (cleared co st0 Q) st st1 \<and> same_gate st0 st1"
  proof (cases "map_of (fl_devices st) d")
    case (Some x)
    obtain ws e where x: "x = (ws, e)" by (cases x)
    obtain b st2 where s: "send_command co ws typ (args i) st = (b, st2)" by (cases "send_command co ws typ (args i) st")
    have e: "sends (cleared co st0 Q) st st2 \<and> same_gate st0 st2"
      using send_command_effect [where Q = Q, OF s assms(1) assms(2) Cons.prems(2)] .
    have "st1 = (if b then after d st2 else st2)" using c Some x s by (cases b) simp_all
    moreover have "sends (cleared co st0 Q) st (after d st2) \<and> same_gate st0 (after d st2)"
      using e assms(3) [of st2 d] sends_cong [of "after d st2" st2] same_gate_trans by blast
    ultimately show ?thesis using e by simp
  qed (use c Cons.prems(2) in auto)
  moreover have "fan_out co typ args after ds (Suc i) (m, st1) = (n', st')" using Cons.prems(1) c by simp
  ultimately show ?case using Cons.IH sends_trans by blast
qed simp

lemma command_devices_effect:
  assumes "typ \<notin> session_frames" and "\<And>i. Q typ (args i)" and "\<And>d st. same_gate st (after d st) \<and> fl_out (after d st) = fl_out st"
    and "\<And>P n m st1. sends P st st1 \<Longrightarrow> sends P st (answer n m st1)"
  shows "sends (cleared co st Q) st (snd (command_devices co targets typ args after answer st))"
proof -
  have "fan_out co typ args after ds 0 (0, st) = (n, st') \<Longrightarrow> sends (cleared co st Q) st st'" for ds n st'
    using fan_out_effect [where Q = Q and args = args and after = after, OF assms(1-3)] by simp
  then show ?thesis using assms(4) by (auto simp: command_devices_def split: sum.split prod.split)
qed

lemma power_connections_effect:
  assumes "typ \<notin> session_frames" and "\<And>c. Q typ [(''connection_id'', JStr c)]"
  shows "power_connections co typ cs (n, st) = (n', st') \<Longrightarrow> same_gate st0 st \<Longrightarrow> sends (cleared co st0 Q) st st'"
proof (induction cs arbitrary: n st)
  case (Cons c cs)
  show ?case
  proof (cases "provisional_entry_for_id c typ st")
    case (Some x)
    obtain ws e where x: "x = (ws, e)" by (cases x)
    obtain b st2 where s: "send_command co ws typ [(''connection_id'', JStr c)] st = (b, st2)"
      by (cases "send_command co ws typ [(''connection_id'', JStr c)] st")
    have "sends (cleared co st0 Q) st st2" "same_gate st0 st2"
      using send_command_effect [where Q = Q, OF s assms(1) assms(2) Cons.prems(2)] by simp_all
    moreover have "power_connections co typ cs (if b then Suc n else n, st2) = (n', st')" using Cons.prems(1) Some x s by simp
    ultimately show ?thesis using Cons.IH sends_trans by blast
  qed (use Cons in simp)
qed simp

lemma sent_reply_sends: "sends P st st1 \<Longrightarrow> sends P st (sent_reply typ args n m st1)"
  by (simp add: sent_reply_def)

definition mdm_spared :: "string \<Rightarrow> jobject \<Rightarrow> bool" where
  "mdm_spared typ args \<longleftrightarrow>
     (typ = ''EXECUTE_UNINSTALL'' \<longrightarrow> (\<exists>p. args = [(''package_name'', JStr p)] \<and> p \<notin> PROTECTED_PACKAGES))"

lemmas command_simps = sent_reply_sends session_frames_def mdm_spared_def

lemma power_sends:
  assumes "typ \<notin> session_frames" and "typ \<noteq> ''EXECUTE_UNINSTALL''"
  shows "sends (cleared co st mdm_spared) st (snd (dispatch_power_command co typ sent_typ data st))"
proof -
  have "power_connections co typ cs (0, st) = (n', st') \<Longrightarrow> sends (cleared co st mdm_spared) st st'" for cs n' st'
    using power_connections_effect [where Q = mdm_spared, OF assms(1)] assms(2) by (simp add: mdm_spared_def)
  moreover have "sends (cleared co st mdm_spared) st
      (snd (command_devices co (targets_of data) typ (\<lambda>_. []) (\<lambda>_ st. st) (sent_reply sent_typ []) st))"
    using assms by (intro command_devices_effect) (auto simp: mdm_spared_def sent_reply_sends)
  ultimately show ?thesis
    by (auto simp: dispatch_power_command_def split: sum.split option.split prod.split)
qed

lemma command_handlers_send:
  "sends (cleared co st mdm_spared) st (snd (handle_launch_app co data st))"
  "sends (cleared co st mdm_spared) st (snd (handle_delete_app co data st))"
  "sends (cleared co st mdm_spared) st (snd (handle_reboot_device co data st))"
  "sends (cleared co st mdm_spared) st (snd (handle_power_off_device co data st))"
  "sends (cleared co st mdm_spared) st (snd (handle_retire_device co fresh data st))"
  "sends (cleared co st mdm_spared) st (snd (handle_verify_apk co data st))"
  "sends (cleared co st mdm_spared) st (snd (handle_verify_dir co data st))"
  "sends (cleared co st mdm_spared) st (snd (handle_set_startup_app disk co data st))"
  "sends (cleared co st mdm_spared) st (snd (handle_clear_startup_app disk co data st))"
proof -
  have startup: "fl_out (record_startup_app app d st) = fl_out st" for app d st
    by (simp add: record_startup_app_def set_record_field_def set_device_field_def split: option.split)
  show "sends (cleared co st mdm_spared) st (snd (handle_launch_app co data st))"
    by (auto simp: handle_launch_app_def Let_def intro!: command_devices_effect, simp_all add: command_simps)
  show "sends (cleared co st mdm_spared) st (snd (handle_delete_app co data st))"
    by (auto simp: handle_delete_app_def Let_def split: json.split intro!: command_devices_effect, simp_all add: command_simps)
  show "sends (cleared co st mdm_spared) st (snd (handle_reboot_device co data st))"
    "sends (cleared co st mdm_spared) st (snd (handle_power_off_device co data st))"
    by (simp_all add: handle_reboot_device_def handle_power_off_device_def power_sends session_frames_def)
  show "sends (cleared co st mdm_spared) st (snd (handle_retire_device co fresh data st))"
    by (auto simp: handle_retire_device_def intro!: command_devices_effect, simp_all add: command_simps)
  show "sends (cleared co st mdm_spared) st (snd (handle_verify_apk co data st))"
    by (auto simp: handle_verify_apk_def Let_def intro!: command_devices_effect, simp_all add: command_simps)
  show "sends (cleared co st mdm_spared) st (snd (handle_verify_dir co data st))"
    by (auto simp: handle_verify_dir_def Let_def split: json.split intro!: command_devices_effect, simp_all add: command_simps)
  show "sends (cleared co st mdm_spared) st (snd (handle_set_startup_app disk co data st))"
    by (auto simp: handle_set_startup_app_def Let_def same_gate_startup startup intro!: command_devices_effect, simp_all add: command_simps)
  show "sends (cleared co st mdm_spared) st (snd (handle_clear_startup_app disk co data st))"
    by (auto simp: handle_clear_startup_app_def same_gate_startup startup intro!: command_devices_effect, simp_all add: command_simps)
qed

lemma other_handlers_send:
  "sends P st (snd (handle_install_apk n data st))" "sends P st (snd (handle_push_files n data st))"
  "sends P st (snd (handle_set_device_label disk s v st))" "sends P st (handle_forget_device disk s st)"
  "sends P st (snd (handle_create_group disk data st))" "sends P st (snd (handle_rename_group disk data st))"
  "sends P st (snd (handle_delete_group disk data st))" "sends P st (handle_set_device_groups disk s data st)"
  "sends P st (snd (handle_set_group_members disk data st))"
  by (simp add: handle_install_apk_def Let_def split: sum.split,
      simp add: handle_push_files_def Let_def split: sum.split json.split option.split,
      simp add: handle_set_device_label_def Let_def split: sum.split option.split,
      simp add: handle_forget_device_def Let_def split: option.split,
      simp add: handle_create_group_def split: sum.split,
      simp add: handle_rename_group_def split: sum.split option.split,
      simp add: handle_delete_group_def Let_def split: sum.split,
      simp add: handle_set_device_groups_def Let_def split: json.split,
      simp add: handle_set_group_members_def Let_def split: sum.split json.split)

text \<open>What holds after every handler holds after every frame.\<close>

lemma admin_frame_cases:
  assumes "\<And>t h data. (t, h) \<in> set (admin_handlers ae) \<Longrightarrow> P (snd (h data st))" and "P st" and "\<And>e. P (reply_error e st)"
  shows "P (snd (admin_frame ae message st))"
proof -
  have "map_of (admin_handlers ae) t = Some h \<Longrightarrow> P (snd (h data st))" for t h data
    using assms(1) map_of_SomeD by fastforce
  then show ?thesis using assms(2,3) unfolding admin_frame_def Let_def by (auto split: json.split option.split)
qed

lemma no_job_snd [simp]: "snd (no_job r) = snd r"
  by (simp add: no_job_def)

lemma admin_frame_sends: "sends (cleared (ae_console ae) st mdm_spared) st (snd (admin_frame ae message st))"
  by (rule admin_frame_cases)
    (auto simp: admin_handlers_def Let_def command_handlers_send other_handlers_send)

section \<open>What a console frame keeps\<close>

text \<open>
  The commands only send, record a startup app and save. A predicate that these operations and the
  handlers of labels and groups keep is kept by every frame of a console.
\<close>

locale console_kept =
  fixes P :: "fleet \<Rightarrow> bool"
  assumes out: "P st \<Longrightarrow> P (send_out m st)"
    and startup: "P st \<Longrightarrow> P (record_startup_app app d st)"
    and saved: "P st \<Longrightarrow> P (save_registry disk st)"
    and label: "P st \<Longrightarrow> P (snd (handle_set_device_label disk d v st))"
    and forget: "P st \<Longrightarrow> P (handle_forget_device disk d st)"
    and create: "P st \<Longrightarrow> P (snd (handle_create_group disk data st))"
    and rename: "P st \<Longrightarrow> P (snd (handle_rename_group disk data st))"
    and delete: "P st \<Longrightarrow> P (snd (handle_delete_group disk data st))"
    and regroup: "P st \<Longrightarrow> P (handle_set_device_groups disk d data st)"
    and members: "P st \<Longrightarrow> P (snd (handle_set_group_members disk data st))"
begin

lemma messages:
  assumes "P st"
  shows "P (reply m st)" "P (reply_error e st)" "P (broadcast_device_list st)" "P (sent_reply typ args n k st)"
  using assms by (simp_all add: reply_def reply_error_def broadcast_device_list_def sent_reply_def out)

lemma send_kept: "P st \<Longrightarrow> P (snd (send_command co ws typ args st))"
  by (simp add: send_command_def Let_def out)

lemma fan_out_kept:
  assumes "\<And>d st. P st \<Longrightarrow> P (after d st)"
  shows "P (snd r) \<Longrightarrow> P (snd (fan_out co typ args after ds i r))"
proof (induction ds arbitrary: i r)
  case (Cons d ds)
  obtain sent st where r: "r = (sent, st)" by (cases r)
  have "P (snd (case map_of (fl_devices st) d of None \<Rightarrow> (sent, st)
      | Some (ws, entry) \<Rightarrow> (case send_command co ws typ (args i) st of (True, st1) \<Rightarrow> (Suc sent, after d st1) | (False, st1) \<Rightarrow> (sent, st1))))"
    using Cons.prems r send_kept [of st co _ "typ" "args i"] assms
    by (auto split: option.split prod.split bool.split) (metis snd_conv)+
  then show ?case using Cons.IH r by simp
qed auto

lemma devices_kept:
  assumes "\<And>d st. P st \<Longrightarrow> P (after d st)" and "\<And>n k st. P st \<Longrightarrow> P (answer n k st)"
  shows "P st \<Longrightarrow> P (snd (command_devices co targets typ args after answer st))"
  using fan_out_kept [where after = after, OF assms(1), of "(0, st)"] assms(2)
  by (auto simp: command_devices_def messages split: sum.split prod.split) (metis snd_conv)

lemma connections_kept: "P (snd r) \<Longrightarrow> P (snd (power_connections co typ cs r))"
proof (induction cs arbitrary: r)
  case (Cons c cs)
  obtain sent st where r: "r = (sent, st)" by (cases r)
  have "P (snd (case provisional_entry_for_id c typ st of None \<Rightarrow> (sent, st)
      | Some (ws, entry) \<Rightarrow> (case send_command co ws typ [(''connection_id'', JStr c)] st of (b, st1) \<Rightarrow> (if b then Suc sent else sent, st1))))"
    using Cons.prems r send_kept [of st co _ "typ" "[(''connection_id'', JStr c)]"]
    by (auto split: option.split prod.split) (metis snd_conv)+
  then show ?case using Cons.IH r by simp
qed auto

lemma power_kept: "P st \<Longrightarrow> P (snd (dispatch_power_command co typ sent data st))"
proof -
  assume p: "P st"
  have "power_connections co typ cs (0, st) = (n, st') \<Longrightarrow> P st'" for cs n st'
    using connections_kept [of "(0, st)" co "typ" cs] p by simp
  then show ?thesis using p
    by (auto simp: dispatch_power_command_def messages devices_kept split: sum.split option.split prod.split)
qed

lemma commands_kept:
  assumes "P st"
  shows "P (snd (handle_launch_app co data st))" "P (snd (handle_delete_app co data st))" "P (snd (handle_retire_device co fresh data st))"
    "P (snd (handle_verify_apk co data st))" "P (snd (handle_verify_dir co data st))" "P (snd (handle_set_startup_app disk co data st))"
    "P (snd (handle_clear_startup_app disk co data st))"
    "P (snd (handle_install_apk slots data st))" "P (snd (handle_push_files slots data st))"
    "P (snd (handle_reboot_device co data st))" "P (snd (handle_power_off_device co data st))"
  using assms
  by (auto simp: handle_launch_app_def handle_delete_app_def handle_retire_device_def handle_verify_apk_def handle_verify_dir_def
      handle_set_startup_app_def handle_clear_startup_app_def handle_install_apk_def handle_push_files_def
      handle_reboot_device_def handle_power_off_device_def power_kept Let_def messages saved startup
      split: json.split sum.split option.split intro!: devices_kept)

lemma frame_kept: "P st \<Longrightarrow> P (snd (admin_frame ae message st))"
  by (rule admin_frame_cases)
    (auto simp: admin_handlers_def Let_def commands_kept messages out label forget create rename delete regroup members)

lemma connect_kept: "P st \<Longrightarrow> P (admin_connect version apks st)"
  by (simp add: admin_connect_def Let_def out)

end

end
