(* ===== verification/Fleet_Runs.thy ===== *)
theory Fleet_Runs
  imports Fleet_Commands
begin

text \<open>
  The established server as a transition system: device frames, ends of connections, timers and the
  administration of labels and groups, in any order. What is pending always has its timer, and only
  what is pending has one; groups and labels stay well-formed.
\<close>

section \<open>Pending operations and their timers\<close>

definition upd_timer :: "serial \<Rightarrow> self_update \<Rightarrow> timer" where
  "upd_timer d u = (case u_phase u of Updating \<Rightarrow> T_update d (u_correlation_id u) | Verifying \<Rightarrow> T_verify d (u_correlation_id u))"

text \<open>
  What is pending, by device: a self-update (\<open>Inl\<close>) or a retirement (\<open>Inr\<close>), with the timer it holds
  and the timer it should hold.
\<close>

fun pending_key :: "timer \<Rightarrow> serial + serial" where
  "pending_key (T_update d c) = Inl d"
| "pending_key (T_verify d c) = Inl d"
| "pending_key (T_retire d c) = Inr d"

definition pend_of :: "(serial \<rightharpoonup> self_update) \<Rightarrow> (serial \<rightharpoonup> retirement) \<Rightarrow> serial + serial \<rightharpoonup> nat option \<times> timer" where
  "pend_of U R k = (case k of
       Inl d \<Rightarrow> map_option (\<lambda>u. (u_timeout_task u, upd_timer d u)) (U d)
     | Inr d \<Rightarrow> map_option (\<lambda>r. (r_timeout_task r, T_retire d (r_correlation_id r))) (R d))"

definition exact :: "(serial + serial \<rightharpoonup> nat option \<times> timer) \<Rightarrow> (nat \<rightharpoonup> timer) \<Rightarrow> nat \<Rightarrow> bool" where
  "exact H T n \<longleftrightarrow>
     (\<forall>k x tm. H k = Some (x, tm) \<longrightarrow> pending_key tm = k \<and> (\<exists>t. x = Some t \<and> T t = Some tm)) \<and>
     (\<forall>t tm. T t = Some tm \<longrightarrow> t < n \<and> H (pending_key tm) = Some (Some t, tm))"

definition pending_of :: "fleet \<Rightarrow> serial + serial \<rightharpoonup> nat option \<times> timer" where
  "pending_of st = pend_of (map_of (fl_updates st)) (map_of (fl_retires st))"

definition timers_exact :: "fleet \<Rightarrow> bool" where
  "timers_exact st \<longleftrightarrow> exact (pending_of st) (map_of (fl_timers st)) (fl_next_timer st)"

lemma phase_not [simp]: "p \<noteq> Updating \<longleftrightarrow> p = Verifying" "p \<noteq> Verifying \<longleftrightarrow> p = Updating"
  by (cases p; simp)+

lemma pending_key_upd [simp]: "pending_key (upd_timer d u) = Inl d"
  by (simp add: upd_timer_def split: phase.splits)

lemma pend_of_upd:
  "pend_of (U(d := x)) R = (pend_of U R)(Inl d := map_option (\<lambda>u. (u_timeout_task u, upd_timer d u)) x)"
  "pend_of U (R(d := y)) = (pend_of U R)(Inr d := map_option (\<lambda>r. (r_timeout_task r, T_retire d (r_correlation_id r))) y)"
  by (auto simp: pend_of_def fun_eq_iff split: sum.splits)

lemma exactI:
  assumes "\<And>k x tm. H k = Some (x, tm) \<Longrightarrow> pending_key tm = k \<and> (\<exists>t. x = Some t \<and> T t = Some tm)"
    and "\<And>t tm. T t = Some tm \<Longrightarrow> t < n \<and> H (pending_key tm) = Some (Some t, tm)"
  shows "exact H T n"
  using assms by (simp add: exact_def)

lemma exact_pending: "exact H T n \<Longrightarrow> H k = Some (x, tm) \<Longrightarrow> pending_key tm = k \<and> (\<exists>t. x = Some t \<and> T t = Some tm)"
  by (simp add: exact_def)

lemma exact_timer: "exact H T n \<Longrightarrow> T t = Some tm \<Longrightarrow> t < n \<and> H (pending_key tm) = Some (Some t, tm)"
  by (simp add: exact_def)

lemma exact_drop:
  assumes e: "exact H T n" and k: "H k = Some (Some t, tm)"
  shows "exact (H(k := None)) (T(t := None)) n"
proof (rule exactI)
  have t: "T t = Some tm" "pending_key tm = k" using exact_pending [OF e k] by auto
  fix k' x tm'
  assume "(H(k := None)) k' = Some (x, tm')"
  then have h: "H k' = Some (x, tm')" "k' \<noteq> k" by (auto split: if_splits)
  then obtain t' where "x = Some t'" "T t' = Some tm'" "pending_key tm' = k'" using exact_pending [OF e h(1)] by auto
  moreover have "t' \<noteq> t" using calculation t h(2) by auto
  ultimately show "pending_key tm' = k' \<and> (\<exists>t'. x = Some t' \<and> (T(t := None)) t' = Some tm')" by simp
next
  fix t' tm'
  assume "(T(t := None)) t' = Some tm'"
  then have h: "T t' = Some tm'" "t' \<noteq> t" by (auto split: if_splits)
  then have "H (pending_key tm') = Some (Some t', tm')" "t' < n" using exact_timer [OF e h(1)] by auto
  moreover have "pending_key tm' \<noteq> k" using calculation k h(2) by auto
  ultimately show "t' < n \<and> (H(k := None)) (pending_key tm') = Some (Some t', tm')" by simp
qed

lemma exact_fresh: "exact H T n \<Longrightarrow> T n = None"
  by (cases "T n") (auto dest: exact_timer)

lemma exact_add:
  assumes e: "exact H T n" and k: "H k = None" "pending_key tm = k"
  shows "exact (H(k \<mapsto> (Some n, tm))) (T(n \<mapsto> tm)) (Suc n)"
proof (rule exactI)
  fix k' x tm'
  assume a: "(H(k \<mapsto> (Some n, tm))) k' = Some (x, tm')"
  show "pending_key tm' = k' \<and> (\<exists>t. x = Some t \<and> (T(n \<mapsto> tm)) t = Some tm')"
  proof (cases "k' = k")
    case False
    then have "H k' = Some (x, tm')" using a by simp
    then show ?thesis using exact_pending [OF e] exact_fresh [OF e] by fastforce
  qed (use a k in auto)
next
  fix t tm'
  assume a: "(T(n \<mapsto> tm)) t = Some tm'"
  show "t < Suc n \<and> (H(k \<mapsto> (Some n, tm))) (pending_key tm') = Some (Some t, tm')"
  proof (cases "t = n")
    case False
    then have "T t = Some tm'" using a by simp
    then have "t < n" "H (pending_key tm') = Some (Some t, tm')" using exact_timer [OF e] by auto
    then show ?thesis using k(1) by auto
  qed (use a k in auto)
qed

text \<open>The same for whatever is pending under a key, if anything.\<close>

definition timer_at :: "(serial + serial \<rightharpoonup> nat option \<times> timer) \<Rightarrow> serial + serial \<Rightarrow> nat option" where
  "timer_at H k = Option.bind (H k) fst"

definition minus_timer :: "(nat \<rightharpoonup> timer) \<Rightarrow> nat option \<Rightarrow> nat \<rightharpoonup> timer" where
  "minus_timer T x = (case x of None \<Rightarrow> T | Some t \<Rightarrow> T(t := None))"

lemma exact_release: "exact H T n \<Longrightarrow> exact (H(k := None)) (minus_timer T (timer_at H k)) n"
proof (cases "H k")
  case None
  assume "exact H T n"
  with None show ?thesis by (simp add: timer_at_def minus_timer_def fun_upd_idem)
next
  case (Some p)
  assume e: "exact H T n"
  then obtain t tm where "H k = Some (Some t, tm)" using Some exact_pending [OF e, of k] by (cases p) auto
  then show ?thesis using exact_drop [OF e] by (simp add: timer_at_def minus_timer_def)
qed

text \<open>The same over the tables of the server.\<close>

definition exact_tables ::
  "(serial \<rightharpoonup> self_update) \<Rightarrow> (serial \<rightharpoonup> retirement) \<Rightarrow> (nat \<rightharpoonup> timer) \<Rightarrow> nat \<Rightarrow> bool" where
  "exact_tables U R T n \<longleftrightarrow> exact (pend_of U R) T n"

lemma timers_exact_tables:
  "timers_exact st = exact_tables (map_of (fl_updates st)) (map_of (fl_retires st)) (map_of (fl_timers st)) (fl_next_timer st)"
  by (simp add: timers_exact_def exact_tables_def pending_of_def)

lemma timer_at_pend:
  "timer_at (pend_of U R) (Inl d) = Option.bind (U d) u_timeout_task"
  "timer_at (pend_of U R) (Inr d) = Option.bind (R d) r_timeout_task"
  by (cases "U d"; cases "R d"; simp add: timer_at_def pend_of_def)+

lemma release_tables:
  assumes "exact_tables U R T n"
  shows "exact_tables (U(d := None)) R (minus_timer T (Option.bind (U d) u_timeout_task)) n"
    and "exact_tables U (R(d := None)) (minus_timer T (Option.bind (R d) r_timeout_task)) n"
  using exact_release [of "pend_of U R" T n "Inl d"] exact_release [of "pend_of U R" T n "Inr d"] assms
  by (simp_all add: exact_tables_def pend_of_upd timer_at_pend)

lemma minus_timer_simps [simp]:
  "minus_timer T None = T" "minus_timer T (Some t) = T(t := None)"
  by (simp_all add: minus_timer_def)

lemma minus_timer_comm: "minus_timer (minus_timer T x) y = minus_timer (minus_timer T y) x"
  by (cases x; cases y) (auto simp: fun_eq_iff)

lemma minus_timer_None: "T n = None \<Longrightarrow> minus_timer T x n = None"
  by (cases x) auto

lemma tables_fresh: "exact_tables U R T n \<Longrightarrow> T n = None"
  by (simp add: exact_tables_def exact_fresh)

text \<open>A pending operation replaces the one of its kind, with a new timer.\<close>

lemma replace_tables:
  assumes e: "exact_tables U R T n"
  shows "u_timeout_task u = Some n \<Longrightarrow>
      exact_tables (U(d \<mapsto> u)) R ((minus_timer T (Option.bind (U d) u_timeout_task))(n \<mapsto> upd_timer d u)) (Suc n)"
    and "r_timeout_task r = Some n \<Longrightarrow>
      exact_tables U (R(d \<mapsto> r)) ((minus_timer T (Option.bind (R d) r_timeout_task))(n \<mapsto> T_retire d (r_correlation_id r))) (Suc n)"
proof -
  let ?T = "minus_timer T (Option.bind (U d) u_timeout_task)" and ?S = "minus_timer T (Option.bind (R d) r_timeout_task)"
  have "exact (pend_of (U(d := None)) R) ?T n" "exact (pend_of U (R(d := None))) ?S n"
    using release_tables [OF e] by (simp_all add: exact_tables_def)
  then have "exact ((pend_of (U(d := None)) R)(Inl d \<mapsto> (Some n, upd_timer d u))) (?T(n \<mapsto> upd_timer d u)) (Suc n)"
    and "exact ((pend_of U (R(d := None)))(Inr d \<mapsto> (Some n, T_retire d (r_correlation_id r))))
      (?S(n \<mapsto> T_retire d (r_correlation_id r))) (Suc n)"
    by (intro exact_add; simp add: pend_of_def)+
  then show "u_timeout_task u = Some n \<Longrightarrow> exact_tables (U(d \<mapsto> u)) R (?T(n \<mapsto> upd_timer d u)) (Suc n)"
    and "r_timeout_task r = Some n \<Longrightarrow> exact_tables U (R(d \<mapsto> r)) (?S(n \<mapsto> T_retire d (r_correlation_id r))) (Suc n)"
    by (simp_all add: exact_tables_def pend_of_upd)
qed

text \<open>A live timer belongs to the operation it was started for.\<close>

lemma live_timer:
  assumes "exact_tables U R T n" and "T t = Some tm"
  shows "(case tm of
      T_update d c \<Rightarrow> \<exists>u. U d = Some u \<and> u_phase u = Updating \<and> u_correlation_id u = c \<and> u_timeout_task u = Some t
    | T_verify d c \<Rightarrow> \<exists>u. U d = Some u \<and> u_phase u = Verifying \<and> u_correlation_id u = c \<and> u_timeout_task u = Some t
    | T_retire d c \<Rightarrow> \<exists>r. R d = Some r \<and> r_correlation_id r = c \<and> r_timeout_task r = Some t)"
  using exact_timer [OF assms(1) [unfolded exact_tables_def] assms(2)]
  by (cases tm) (auto simp: pend_of_def upd_timer_def split: phase.splits)

lemma pending_timer:
  assumes "exact_tables U R T n"
  shows "U d = Some u \<Longrightarrow> \<exists>t. u_timeout_task u = Some t \<and> T t = Some (upd_timer d u)"
    and "R d = Some r \<Longrightarrow> \<exists>t. r_timeout_task r = Some t \<and> T t = Some (T_retire d (r_correlation_id r))"
  using exact_pending [OF assms [unfolded exact_tables_def], of "Inl d"] exact_pending [OF assms [unfolded exact_tables_def], of "Inr d"]
  by (auto simp: pend_of_def)

section \<open>The invariant of the server\<close>

text \<open>A socket has one identity: it owns at most one device, and none while it is provisional.\<close>

definition sockets_ok :: "fleet \<Rightarrow> bool" where
  "sockets_ok st \<longleftrightarrow>
     (\<forall>d ws e. map_of (fl_devices st) d = Some (ws, e) \<longrightarrow> (\<exists>k. map_of (fl_sockets st) ws = Some (Some d, Some k))) \<and>
     (\<forall>ws p. map_of (fl_provisional st) ws = Some p \<longrightarrow> map_of (fl_sockets st) ws = Some (None, Some ''provisional''))"

text \<open>A connected device is known and not retired.\<close>

definition online_ok :: "fleet \<Rightarrow> bool" where
  "online_ok st \<longleftrightarrow> (\<forall>d. map_of (fl_devices st) d \<noteq> None \<longrightarrow>
     (\<exists>r. map_of (fl_registry st) d = Some r \<and> falsy (jget r ''retired'')))"

definition fleet_inv :: "fleet \<Rightarrow> bool" where
  "fleet_inv st \<longleftrightarrow> fleet_data_ok st \<and> timers_exact st \<and> sockets_ok st \<and> online_ok st"

lemmas inv_defs = fleet_inv_def fleet_data_ok_def timers_exact_tables sockets_ok_def online_ok_def

lemma fleet_inv_cong:
  assumes "fl_registry st' = fl_registry st" "fl_groups st' = fl_groups st" "fl_devices st' = fl_devices st"
    "fl_provisional st' = fl_provisional st" "fl_updates st' = fl_updates st" "fl_retires st' = fl_retires st"
    "fl_timers st' = fl_timers st" "fl_next_timer st' = fl_next_timer st" "fl_sockets st' = fl_sockets st"
  shows "fleet_inv st' = fleet_inv st"
  using assms by (simp add: inv_defs)

lemma inv_messages [fleet_simps]:
  "fleet_inv (send_out m st) = fleet_inv st" "fleet_inv (save_registry disk st) = fleet_inv st"
  "fleet_inv (st\<lparr>fl_out := ms\<rparr>) = fleet_inv st" "fleet_inv (st\<lparr>fl_transfers := a\<rparr>) = fleet_inv st" "fleet_inv (st\<lparr>fl_dispatches := ds\<rparr>) = fleet_inv st"
  by (rule fleet_inv_cong; simp add: fleet_simps)+

lemma drop_send [fleet_simps]:
  "drop_update d (send_out m st) = send_out m (drop_update d st)" "drop_retire d (send_out m st) = send_out m (drop_retire d st)"
  by (simp_all add: drop_update_def drop_retire_def send_out_def)

lemmas frame_messages = message_defs forward_def broadcast_install_state_def broadcast_push_state_def
  broadcast_provisional_connection_list_def update_result_def update_verified_def retire_result_def

section \<open>Every operation keeps the invariant\<close>

lemma cancel_timer_map: "map_of (fl_timers (cancel_timer x st)) = minus_timer (map_of (fl_timers st)) x"
  by (cases x) (simp_all add: fleet_simps delete_conv')

lemma map_of_snoc: "map_of xs k = None \<Longrightarrow> map_of (xs @ [(k, v)]) = (map_of xs)(k \<mapsto> v)"
  by (auto simp: fun_eq_iff map_add_def split: option.splits)

lemma drop_fields [fleet_simps]:
  "fl_registry (drop_update d st) = fl_registry st" "fl_groups (drop_update d st) = fl_groups st"
  "fl_devices (drop_update d st) = fl_devices st" "fl_provisional (drop_update d st) = fl_provisional st"
  "fl_updates (drop_update d st) = AList.delete d (fl_updates st)" "fl_retires (drop_update d st) = fl_retires st"
  "fl_timers (drop_update d st) = fl_timers st" "fl_next_timer (drop_update d st) = fl_next_timer st"
  "fl_sockets (drop_update d st) = fl_sockets st"
  "fl_registry (drop_retire d st) = fl_registry st" "fl_groups (drop_retire d st) = fl_groups st"
  "fl_devices (drop_retire d st) = fl_devices st" "fl_provisional (drop_retire d st) = fl_provisional st"
  "fl_updates (drop_retire d st) = fl_updates st" "fl_retires (drop_retire d st) = AList.delete d (fl_retires st)"
  "fl_timers (drop_retire d st) = fl_timers st" "fl_next_timer (drop_retire d st) = fl_next_timer st"
  "fl_sockets (drop_retire d st) = fl_sockets st"
  by (simp_all add: drop_update_def drop_retire_def)

lemma inv_release:
  assumes "fleet_inv st"
  shows "fleet_inv (drop_update d (cancel_timer (Option.bind (map_of (fl_updates st) d) u_timeout_task) st))"
    and "fleet_inv (drop_retire d (cancel_timer (Option.bind (map_of (fl_retires st) d) r_timeout_task) st))"
    and "fleet_inv (cancel_timer (Option.bind (map_of (fl_retires st) d) r_timeout_task) (drop_retire d st))"
  using assms release_tables by (simp_all add: inv_defs fleet_simps cancel_timer_map delete_conv' del: cancel_timer_fields(9))

lemma inv_release_Some:
  assumes "fleet_inv st"
  shows "map_of (fl_updates st) d = Some u \<Longrightarrow> fleet_inv (drop_update d (cancel_timer (u_timeout_task u) st))"
    and "map_of (fl_retires st) d = Some r \<Longrightarrow> fleet_inv (cancel_timer (r_timeout_task r) (drop_retire d st))"
  using inv_release(1) [OF assms, of d] inv_release(3) [OF assms, of d] by simp_all

text \<open>A timer that fires has nothing to cancel: its task is over.\<close>

lemma inv_fire:
  assumes "fleet_inv st"
  shows "map_of (fl_updates st) d = Some u \<Longrightarrow> u_timeout_task u = Some t \<Longrightarrow>
      fleet_inv (drop_update d (st\<lparr>fl_timers := AList.delete t (fl_timers st)\<rparr>))"
    and "map_of (fl_retires st) d = Some r \<Longrightarrow> r_timeout_task r = Some t \<Longrightarrow>
      fleet_inv (drop_retire d (st\<lparr>fl_timers := AList.delete t (fl_timers st)\<rparr>))"
  using inv_release(1,2) [OF assms, of d] by (simp_all add: cancel_timer_def)

lemma inv_set_device_field [fleet_simps]: "fleet_inv (set_device_field d k v st) = fleet_inv st"
proof -
  have m: "map_of (fl_devices (set_device_field d k v st)) s =
      map_option (\<lambda>(ws, e). (ws, if s = d then AList.update k v e else e)) (map_of (fl_devices st) s)" for s
    by (simp add: set_device_field_def map_of_entries)
  have f: "fl_registry (set_device_field d k v st) = fl_registry st" "fl_groups (set_device_field d k v st) = fl_groups st"
    "fl_provisional (set_device_field d k v st) = fl_provisional st" "fl_updates (set_device_field d k v st) = fl_updates st"
    "fl_retires (set_device_field d k v st) = fl_retires st" "fl_timers (set_device_field d k v st) = fl_timers st"
    "fl_next_timer (set_device_field d k v st) = fl_next_timer st" "fl_sockets (set_device_field d k v st) = fl_sockets st"
    by (simp_all add: set_device_field_def)
  show ?thesis unfolding inv_defs f m by (auto split: option.splits)
qed

lemma label_update: "k \<noteq> ''label'' \<Longrightarrow> label_of (AList.update k v r) = label_of r"
  by (simp add: label_of_def jget_or_def update_conv')

lemma labels_ok_same:
  assumes "labels_ok reg" and "label_of r = (case map_of reg d of None \<Rightarrow> JStr [] | Some r' \<Rightarrow> label_of r')"
  shows "labels_ok (AList.update d r reg)"
proof (rule labels_ok_update [OF assms(1)])
  fix s' r'
  assume h: "map_of reg s' = Some r'" "s' \<noteq> d" "label_of r = label_of r'"
  show "label_of r = JStr []"
  proof (cases "map_of reg d")
    case (Some x)
    have "\<forall>s r s' r'. map_of reg s = Some r \<longrightarrow> map_of reg s' = Some r' \<longrightarrow> label_of r = label_of r' \<longrightarrow>
        label_of r \<noteq> JStr [] \<longrightarrow> s = s'" using assms(1) unfolding labels_ok_def by blast
    then show ?thesis using h assms(2) Some by (metis option.simps(5))
  qed (use assms(2) in simp)
qed

lemma inv_set_record_field:
  assumes "fleet_inv st" and "k \<noteq> ''label''" and "k \<noteq> ''retired'' \<or> map_of (fl_devices st) d = None"
  shows "fleet_inv (set_record_field d k v st)"
proof (cases "map_of (fl_registry st) d")
  case (Some r)
  have "labels_ok (AList.update d (AList.update k v r) (fl_registry st))"
    using assms Some by (intro labels_ok_same) (simp_all add: inv_defs label_update)
  moreover have "jget (AList.update k v r) ''retired'' = jget r ''retired''" if "k \<noteq> ''retired''"
    using that by (simp add: jget_def update_conv')
  moreover have "falsy (jget r ''retired'')" if "map_of (fl_devices st) d \<noteq> None"
    using assms(1) that Some unfolding fleet_inv_def online_ok_def by force
  ultimately show ?thesis
    using assms Some by (auto simp: set_record_field_def inv_defs update_conv')
qed (use assms in \<open>simp add: set_record_field_def\<close>)

text \<open>Timers.\<close>

lemma inv_fire_timer: "fleet_inv st \<Longrightarrow> fleet_inv (fire_timer cfg disk t st)"
proof (cases "map_of (fl_timers st) t")
  case (Some tm)
  assume i: "fleet_inv st"
  have "exact_tables (map_of (fl_updates st)) (map_of (fl_retires st)) (map_of (fl_timers st)) (fl_next_timer st)"
    using i by (simp add: inv_defs)
  note live = live_timer [OF this Some]
  show ?thesis
  proof (cases tm)
    case (T_update d c)
    then show ?thesis using Some live inv_fire(1) [OF i]
      by (auto simp: fire_timer_def self_update_timeout_def frame_messages fleet_simps Let_def)
  next
    case (T_verify d c)
    then show ?thesis using Some live inv_fire(1) [OF i]
      by (auto simp: fire_timer_def self_update_verify_timeout_def frame_messages fleet_simps Let_def)
  next
    case (T_retire d c)
    then obtain r where r: "map_of (fl_retires st) d = Some r" "r_correlation_id r = c" "r_timeout_task r = Some t"
      using live by auto
    let ?st = "drop_retire d (st\<lparr>fl_timers := AList.delete t (fl_timers st)\<rparr>)"
    have f: "fleet_inv ?st" using inv_fire(2) [OF i r(1,3)] .
    moreover have "map_of (fl_devices st) d = None \<Longrightarrow> fleet_inv (set_record_field d ''retired'' (JBool True) ?st)"
      by (rule inv_set_record_field [OF f]) (simp_all add: fleet_simps)
    ultimately show ?thesis using Some T_retire r
      by (cases "map_of (fl_devices st) d") (simp_all add: fire_timer_def retire_timeout_def frame_messages fleet_simps Let_def)
  qed
qed (simp add: fire_timer_def)

text \<open>Frames of a registered device.\<close>

lemma inv_handle_battery: "handle_battery disk d data now st = (r, st') \<Longrightarrow> fleet_inv st \<Longrightarrow> fleet_inv st'"
  by (auto simp: handle_battery_def frame_messages fleet_simps Let_def split: sum.splits json.splits
      intro!: inv_set_record_field)

lemma inv_download_complete: "handle_download_complete d data st = (r, st') \<Longrightarrow> fleet_inv st \<Longrightarrow> fleet_inv st'"
  by (auto simp: handle_download_complete_def frame_messages fleet_simps Let_def split: prod.splits if_splits)

definition same_data :: "fleet \<Rightarrow> fleet \<Rightarrow> bool" where
  "same_data st st' \<longleftrightarrow> fl_registry st' = fl_registry st \<and> fl_groups st' = fl_groups st \<and> fl_devices st' = fl_devices st \<and>
     fl_provisional st' = fl_provisional st \<and> fl_sockets st' = fl_sockets st"

lemma inv_start_update:
  assumes "fleet_inv st" and "same_data st st'" and "fl_retires st' = fl_retires st" and "fl_next_timer st' = Suc (fl_next_timer st)"
    and "map_of (fl_updates st') = (map_of (fl_updates st))(d \<mapsto> u)" and "u_timeout_task u = Some (fl_next_timer st)"
    and "map_of (fl_timers st') = (minus_timer (map_of (fl_timers st)) (Option.bind (map_of (fl_updates st) d) u_timeout_task))
      (fl_next_timer st \<mapsto> upd_timer d u)"
  shows "fleet_inv st'"
  using assms replace_tables(1) by (simp add: inv_defs same_data_def)

lemma inv_start_retire:
  assumes "fleet_inv st" and "same_data st st'" and "fl_updates st' = fl_updates st" and "fl_next_timer st' = Suc (fl_next_timer st)"
    and "map_of (fl_retires st') = (map_of (fl_retires st))(d \<mapsto> r)" and "r_timeout_task r = Some (fl_next_timer st)"
    and "map_of (fl_timers st') = (minus_timer (map_of (fl_timers st)) (Option.bind (map_of (fl_retires st) d) r_timeout_task))
      (fl_next_timer st \<mapsto> T_retire d (r_correlation_id r))"
  shows "fleet_inv st'"
  using assms replace_tables(2) by (simp add: inv_defs same_data_def)

lemma timers_snoc:
  assumes "fleet_inv st" and "map_of timers = minus_timer (map_of (fl_timers st)) x"
  shows "map_of (timers @ [(fl_next_timer st, tm)]) = (minus_timer (map_of (fl_timers st)) x)(fl_next_timer st \<mapsto> tm)"
  using assms tables_fresh minus_timer_None by (subst map_of_snoc) (auto simp: inv_defs)

lemma inv_handle_update_starting: "fleet_inv st \<Longrightarrow> fleet_inv (handle_update_starting hashes d kind data st)"
proof -
  assume i: "fleet_inv st"
  let ?c = "cancel_timer (Option.bind (map_of (fl_updates st) d) u_timeout_task) st"
  have s: "fleet_inv (?c\<lparr>fl_timers := fl_timers ?c @ [(fl_next_timer st, tm)], fl_next_timer := Suc (fl_next_timer st),
      fl_updates := AList.update d u (fl_updates st)\<rparr>)"
    if "u_timeout_task u = Some (fl_next_timer st)" "tm = upd_timer d u" for u tm
    using timers_snoc [OF i cancel_timer_map] that(2)
    by (intro inv_start_update [OF i _ _ _ _ that(1)]) (simp_all add: same_data_def fleet_simps update_conv' del: cancel_timer_fields(9))
  show ?thesis using i
    by (simp add: handle_update_starting_def start_timer_def frame_messages s fleet_simps Let_def upd_timer_def
        del: cancel_timer_fields(9) split: json.splits)
qed

lemma inv_handle_uninstall_starting: "fleet_inv st \<Longrightarrow> fleet_inv (handle_uninstall_starting d data st)"
proof -
  assume i: "fleet_inv st"
  let ?u = "Option.bind (map_of (fl_updates st) d) u_timeout_task" and ?r = "Option.bind (map_of (fl_retires st) d) r_timeout_task"
  let ?st = "drop_update d (cancel_timer ?u st)" and ?c = "cancel_timer ?u (drop_update d (cancel_timer ?r st))"
  have i': "fleet_inv ?st" using inv_release(1) [OF i] .
  have c: "map_of (fl_timers ?c) = minus_timer (map_of (fl_timers ?st)) ?r"
    by (simp add: cancel_timer_map fleet_simps minus_timer_comm del: cancel_timer_fields(9))
  have s: "fleet_inv (?c\<lparr>fl_timers := fl_timers ?c @ [(fl_next_timer st, tm)],
      fl_next_timer := Suc (fl_next_timer st), fl_retires := AList.update d r (fl_retires st)\<rparr>)"
    if "r_timeout_task r = Some (fl_next_timer st)" "tm = T_retire d (r_correlation_id r)" for r tm
    using timers_snoc [OF i' c] that
    by (intro inv_start_retire [OF i', where d = d and r = r])
      (simp_all add: same_data_def fleet_simps update_conv' del: cancel_timer_fields(9))
  show ?thesis using i
    by (simp add: handle_uninstall_starting_def start_timer_def s fleet_simps Let_def
        del: cancel_timer_fields(9) split: json.splits)
qed

lemma inv_handle_uninstall_result: "fleet_inv st \<Longrightarrow> fleet_inv (handle_uninstall_result d data st)"
  by (simp add: handle_uninstall_result_def frame_messages fleet_simps inv_release(3))

lemma inv_slot_release [fleet_simps]: "fleet_inv (slot_release d reason task st) = fleet_inv st"
  by (simp add: slot_release_def fleet_simps)

lemma inv_clear_startup: "fleet_inv st \<Longrightarrow> fleet_inv (clear_startup_app_record disk d st)"
  by (simp add: clear_startup_app_record_def fleet_simps inv_set_record_field)

lemma inv_consume: "fleet_inv st \<Longrightarrow> fleet_inv (snd (consume_self_update_verify d data st))"
  by (simp add: consume_self_update_verify_def frame_messages fleet_simps inv_release_Some split: option.split)

lemma inv_clear_update: "fleet_inv st \<Longrightarrow> fleet_inv (clear_pending_self_update_on_install_result d st)"
  by (simp add: clear_pending_self_update_on_install_result_def inv_release_Some split: option.split)

lemma inv_device_result: "fleet_inv st \<Longrightarrow> fleet_inv (handle_device_result disk d typ data st)"
  using inv_consume [of st d "AList.update ''device_id'' (JStr d) (AList.delete ''connection_id'' data)"]
  by (auto simp: handle_device_result_def frame_messages fleet_simps inv_clear_update Let_def
      intro!: inv_clear_startup split: prod.split)

lemma inv_device_message: "handle_device_frame hashes disk d kind data now st = (r, st') \<Longrightarrow> fleet_inv st \<Longrightarrow> fleet_inv st'"
  by (auto simp: handle_device_frame_def forward_def fleet_simps inv_handle_update_starting inv_handle_uninstall_starting
      inv_handle_uninstall_result inv_device_result split: json.splits if_splits dest: inv_handle_battery inv_download_complete)

text \<open>Registration.\<close>

lemma inv_complete_registration: "complete_device_registration ws d net st = (r, st') \<Longrightarrow> fleet_inv st' = fleet_inv st"
  by (auto simp: complete_device_registration_def fleet_simps Let_def split: option.splits if_splits)

lemma inv_resolve_retire: "fleet_inv st \<Longrightarrow> fleet_inv (resolve_pending_retire d st)"
  by (simp add: resolve_pending_retire_def frame_messages fleet_simps inv_release_Some split: option.split)

lemma cancel_send [fleet_simps]: "cancel_timer t (send_out m st) = send_out m (cancel_timer t st)"
  by (simp add: cancel_timer_def send_out_def split: option.split)

lemma inv_begin_verification:
  assumes i: "fleet_inv st" and u: "map_of (fl_updates st) d = Some u"
    and "same_data (cancel_timer (u_timeout_task u) st) st'" "fl_updates st' = fl_updates st" "fl_retires st' = fl_retires st"
      "fl_timers st' = fl_timers (cancel_timer (u_timeout_task u) st)" "fl_next_timer st' = fl_next_timer st"
  shows "fleet_inv (begin_verification d u ws net st')"
proof (cases net)
  case (Some e)
  have "fleet_inv (drop_update d st') = fleet_inv (drop_update d (cancel_timer (u_timeout_task u) st))"
    using assms(3-7) by (intro fleet_inv_cong) (simp_all add: fleet_simps same_data_def)
  then show ?thesis using Some inv_release_Some(1) [OF i u] by (simp add: begin_verification_def frame_messages fleet_simps)
next
  case None
  let ?u = "u\<lparr>u_phase := Verifying, u_timeout_task := Some (fl_next_timer st)\<rparr>"
  have "map_of (fl_timers st' @ [(fl_next_timer st, upd_timer d ?u)]) =
      (minus_timer (map_of (fl_timers st)) (u_timeout_task u))(fl_next_timer st \<mapsto> upd_timer d ?u)"
    using timers_snoc [OF i cancel_timer_map] assms(6) by metis
  then have "fleet_inv (st'\<lparr>fl_out := fl_out st' @ [m], fl_timers := fl_timers st' @ [(fl_next_timer st, upd_timer d ?u)],
      fl_next_timer := Suc (fl_next_timer st), fl_updates := AList.update d ?u (fl_updates st)\<rparr>)" for m
    using assms(3-7) u by (intro inv_start_update [OF i, where d = d and u = ?u])
      (simp_all add: same_data_def fleet_simps update_conv' del: cancel_timer_fields(9))
  then show ?thesis using None assms(4,7)
    by (simp add: begin_verification_def start_timer_def send_out_def upd_timer_def Let_def)
qed

lemma inv_resolve_update: "fleet_inv st \<Longrightarrow> fleet_inv (resolve_pending_self_update d ws version net st)"
proof (cases "map_of (fl_updates st) d")
  case (Some u)
  assume i: "fleet_inv st"
  have "fleet_inv (begin_verification d u ws net (send_out m (send_out m' (cancel_timer (u_timeout_task u) st))))" for m m'
    by (rule inv_begin_verification [OF i Some]) (simp_all add: same_data_def fleet_simps)
  then show ?thesis using i Some inv_release_Some(1) [OF i Some]
    by (simp add: resolve_pending_self_update_def frame_messages fleet_simps Let_def del: cancel_timer_fields)
qed (simp add: resolve_pending_self_update_def)

lemma label_new_record: "label_of (new_record kind registration prev now) = label_of prev"
  by (simp add: label_of_def new_record_def jget_or_def)

lemma no_label: "label_of [] = JStr []"
  by (simp add: label_of_def jget_or_def)

lemma no_owner: "fleet_inv st \<Longrightarrow> map_of (fl_sockets st) ws = Some (None, k) \<Longrightarrow> map_of (fl_devices st) d \<noteq> Some (ws, e)"
  by (fastforce simp: fleet_inv_def sockets_ok_def)

text \<open>
  The socket takes over the device: its previous identity was none, and the record it writes keeps the
  label and is not retired.
\<close>

lemma inv_take_over:
  assumes i: "fleet_inv st" and s: "map_of (fl_sockets st) ws = Some (None, k0)"
  shows "fleet_inv (st\<lparr>fl_provisional := AList.delete ws (fl_provisional st), fl_sockets := AList.update ws (Some d, Some kind) (fl_sockets st),
     fl_devices := AList.update d (ws, e) (fl_devices st),
     fl_registry := AList.update d (new_record kind registration (case map_of (fl_registry st) d of None \<Rightarrow> [] | Some r \<Rightarrow> r) now) (fl_registry st)\<rparr>)"
    (is "fleet_inv ?st")
proof -
  let ?r = "new_record kind registration (case map_of (fl_registry st) d of None \<Rightarrow> [] | Some r \<Rightarrow> r) now"
  have "labels_ok (AList.update d ?r (fl_registry st))"
    using i by (intro labels_ok_same) (simp_all add: inv_defs label_new_record no_label split: option.split)
  moreover have "falsy (jget ?r ''retired'')" by (simp add: new_record_def jget_def falsy_def)
  moreover have "sockets_ok ?st"
    using i no_owner [OF i s] unfolding fleet_inv_def sockets_ok_def by (auto simp: update_conv' delete_conv' split: if_splits)
  ultimately show ?thesis using i by (auto simp: fleet_inv_def fleet_data_ok_def timers_exact_tables online_ok_def update_conv')
qed

lemma inv_register_identified:
  assumes "fleet_inv st" and "map_of (fl_sockets st) ws = Some (None, k0)"
    and "register_identified disk ws kind registration d now net net_verify st = (r, st')"
  shows "fleet_inv st'"
  using assms(3) inv_take_over [OF assms(1,2), where registration = registration and now = now]
  by (auto simp: register_identified_def frame_messages fleet_simps inv_complete_registration Let_def
      intro!: inv_resolve_update inv_resolve_retire split: prod.splits sum.splits if_splits)

lemma inv_register_provisional:
  assumes "fleet_inv st" and "map_of (fl_sockets st) ws = Some (None, k0)"
    and "register_provisional ws registration new_id now net st = (r, st')"
  shows "fleet_inv st'"
proof -
  have "fleet_inv (st\<lparr>fl_sockets := AList.update ws (None, Some ''provisional'') (fl_sockets st),
      fl_provisional := AList.update ws e (fl_provisional st)\<rparr>)" for e
    using assms(1) no_owner [OF assms(1,2)] unfolding inv_defs by (auto simp: update_conv')
  then show ?thesis using assms(3)
    by (auto simp: register_provisional_def frame_messages fleet_simps send_out_def Let_def split: option.splits)
qed

lemma inv_register:
  assumes "fleet_inv st" and "map_of (fl_sockets st) ws = Some (device, k0)"
    and "handle_register disk ws remote data new_id now net net_verify device kind st = (r, st')"
  shows "fleet_inv st'"
proof -
  note p = protocol_error_def fleet_simps
  show ?thesis
  proof (cases device)
    case None
    then show ?thesis using assms inv_register_identified [OF assms(1)] inv_register_provisional [OF assms(1)]
      by (auto simp: handle_register_def p split: sum.splits prod.splits if_splits json.splits)
  next
    case (Some d)
    then show ?thesis using assms
      by (auto simp: handle_register_def p split: sum.splits prod.splits if_splits dest: inv_complete_registration)
  qed
qed

lemma inv_device_frame:
  assumes "device_frame hashes disk ws remote message new_id now net net_verify st = (r, st')" and "fleet_inv st"
  shows "fleet_inv st'"
  using assms inv_register [OF assms(2)] inv_device_message
  by (auto simp: device_frame_def protocol_error_def handle_provisional_result_def frame_messages fleet_simps
      split: option.splits prod.splits json.splits if_splits)

lemma broadcast_fields [fleet_simps]:
  "fl_registry (broadcast_device_list st) = fl_registry st" "fl_groups (broadcast_device_list st) = fl_groups st"
  "fl_devices (broadcast_device_list st) = fl_devices st" "fl_provisional (broadcast_device_list st) = fl_provisional st"
  "fl_updates (broadcast_device_list st) = fl_updates st" "fl_retires (broadcast_device_list st) = fl_retires st"
  "fl_timers (broadcast_device_list st) = fl_timers st" "fl_next_timer (broadcast_device_list st) = fl_next_timer st"
  "fl_sockets (broadcast_device_list st) = fl_sockets st"
  "fl_registry (update_verified d u status detail st) = fl_registry st" "fl_groups (update_verified d u status detail st) = fl_groups st"
  "fl_devices (update_verified d u status detail st) = fl_devices st" "fl_provisional (update_verified d u status detail st) = fl_provisional st"
  "fl_updates (update_verified d u status detail st) = fl_updates st" "fl_retires (update_verified d u status detail st) = fl_retires st"
  "fl_timers (update_verified d u status detail st) = fl_timers st" "fl_next_timer (update_verified d u status detail st) = fl_next_timer st"
  "fl_sockets (update_verified d u status detail st) = fl_sockets st"
  by (simp_all add: frame_messages fleet_simps)

text \<open>Connections, and the administration.\<close>

lemma inv_connect: "map_of (fl_sockets st) ws = None \<Longrightarrow> fleet_inv st \<Longrightarrow> fleet_inv (connect_socket ws st)"
  unfolding inv_defs connect_socket_def by (fastforce simp: update_conv')

lemma inv_close_verification: "fleet_inv st \<Longrightarrow> fleet_inv (close_verification d st)"
  by (simp add: close_verification_def frame_messages fleet_simps inv_release_Some split: option.split)

lemma inv_remove_device: "fleet_inv st \<Longrightarrow> fleet_inv (st\<lparr>fl_devices := AList.delete d (fl_devices st)\<rparr>)"
  unfolding inv_defs by (auto simp: delete_conv' split: if_splits)

lemma inv_close_owner: "fleet_inv st \<Longrightarrow> fleet_inv (close_owner disk d now st)"
  by (simp add: close_owner_def frame_messages fleet_simps Let_def inv_set_record_field inv_remove_device inv_close_verification)

lemmas close_defs = close_owner_def close_verification_def slot_release_def set_record_field_def

lemma close_owner_tables:
  "fl_devices (close_owner disk d now st) = AList.delete d (fl_devices st)"
  "fl_sockets (close_owner disk d now st) = fl_sockets st" "fl_provisional (close_owner disk d now st) = fl_provisional st"
  by (simp_all add: close_defs fleet_simps Let_def split: option.split)

text \<open>The entries of the socket itself play no part in it.\<close>

lemma close_owner_socket:
  fixes st P S
  defines "st1 \<equiv> st\<lparr>fl_provisional := P, fl_sockets := S\<rparr>"
  shows "fl_registry (close_owner disk d now st1) = fl_registry (close_owner disk d now st)"
    "fl_groups (close_owner disk d now st1) = fl_groups (close_owner disk d now st)"
    "fl_updates (close_owner disk d now st1) = fl_updates (close_owner disk d now st)"
    "fl_retires (close_owner disk d now st1) = fl_retires (close_owner disk d now st)"
    "fl_timers (close_owner disk d now st1) = fl_timers (close_owner disk d now st)"
    "fl_next_timer (close_owner disk d now st1) = fl_next_timer (close_owner disk d now st)"
  unfolding st1_def
  by (simp_all add: close_owner_def fleet_simps Let_def)
    (simp_all add: close_defs fleet_simps split: option.split)

lemma inv_remove_socket:
  assumes "fleet_inv st" and "\<And>d e. map_of (fl_devices st) d \<noteq> Some (ws, e)"
  shows "fleet_inv (st\<lparr>fl_provisional := AList.delete ws (fl_provisional st), fl_sockets := AList.delete ws (fl_sockets st)\<rparr>)"
  using assms unfolding inv_defs by (auto simp: delete_conv' split: if_splits)

lemma owner_unique:
  assumes "fleet_inv st" and "map_of (fl_devices st) d = Some (ws, e)"
  shows "\<exists>k. map_of (fl_sockets st) ws = Some (Some d, k)"
  using assms by (fastforce simp: fleet_inv_def sockets_ok_def)

lemma inv_close_socket:
  assumes i: "fleet_inv st"
  shows "fleet_inv (close_socket disk ws now st)"
proof (cases "\<exists>d k. map_of (fl_sockets st) ws = Some (Some d, k) \<and> fleet_owns st d ws")
  case True
  then obtain d k where d: "map_of (fl_sockets st) ws = Some (Some d, k)" "fleet_owns st d ws" by auto
  have "map_of (fl_devices (close_owner disk d now st)) d' \<noteq> Some (ws, e)" for d' e
    using owner_unique [OF i] d(1) by (fastforce simp: close_owner_tables delete_conv' split: if_splits)
  note removed = inv_remove_socket [OF inv_close_owner [OF i] this]
  let ?P = "AList.delete ws (fl_provisional st)" and ?S = "AList.delete ws (fl_sockets st)"
  have "fleet_inv (close_owner disk d now (st\<lparr>fl_provisional := ?P, fl_sockets := ?S\<rparr>))"
    by (rule iffD2 [OF fleet_inv_cong removed])
      (simp_all add: close_owner_socket close_owner_tables)
  then show ?thesis using d by (simp add: close_socket_def frame_messages fleet_simps Let_def)
next
  case False
  have "map_of (fl_devices st) d' \<noteq> Some (ws, e)" for d' e
    using owner_unique [OF i, of d' ws e] False by (auto simp: fleet_owns_def)
  then show ?thesis using inv_remove_socket [OF i, of ws] False
    by (auto simp: close_socket_def frame_messages fleet_simps Let_def split: option.split prod.split)
qed

lemma inv_serve_frame: "fleet_inv st \<Longrightarrow> fleet_inv (serve_frame hashes disk ws remote message new_id now net net_verify st)"
  using inv_device_frame [of hashes disk ws remote message new_id now net net_verify st]
  by (auto simp: serve_frame_def intro!: inv_close_socket split: prod.split sum.split bool.split)

text \<open>What the administration leaves alone is the rest of the invariant.\<close>

definition same_rest :: "fleet \<Rightarrow> fleet \<Rightarrow> bool" where
  "same_rest st st' \<longleftrightarrow> fl_devices st' = fl_devices st \<and> fl_provisional st' = fl_provisional st \<and> fl_sockets st' = fl_sockets st \<and>
     fl_updates st' = fl_updates st \<and> fl_retires st' = fl_retires st \<and> fl_timers st' = fl_timers st \<and> fl_next_timer st' = fl_next_timer st"

lemma inv_same_rest:
  assumes "fleet_inv st" and "same_rest st st'" and "fleet_data_ok st'"
    and "\<And>d. map_of (fl_registry st) d \<noteq> None \<Longrightarrow> map_of (fl_registry st') d = map_of (fl_registry st) d \<or>
      (\<exists>r r'. map_of (fl_registry st) d = Some r \<and> map_of (fl_registry st') d = Some r' \<and> jget r' ''retired'' = jget r ''retired'')"
  shows "fleet_inv st'"
proof -
  have "online_ok st'" unfolding online_ok_def
  proof (intro allI impI)
    fix d
    assume "map_of (fl_devices st') d \<noteq> None"
    then obtain r where "map_of (fl_registry st) d = Some r" "falsy (jget r ''retired'')"
      using assms(1,2) unfolding fleet_inv_def online_ok_def same_rest_def by metis
    then show "\<exists>r. map_of (fl_registry st') d = Some r \<and> falsy (jget r ''retired'')" using assms(4) [of d] by auto
  qed
  then show ?thesis using assms(1-3) by (simp add: fleet_inv_def timers_exact_tables sockets_ok_def same_rest_def)
qed

lemma inv_set_label: "fleet_inv st \<Longrightarrow> fleet_inv (snd (handle_set_device_label disk s v st))"
proof (rule inv_same_rest, assumption)
  show "same_rest st (snd (handle_set_device_label disk s v st))"
    by (simp add: handle_set_device_label_def same_rest_def message_defs fleet_simps Let_def split: sum.split option.split)
  fix d
  let ?st = "snd (handle_set_device_label disk s v st)"
  have r: "fl_registry ?st = fl_registry st \<or> (\<exists>l. fl_registry ?st = AList.update s (AList.update ''label'' (JStr l)
      (case map_of (fl_registry st) s of None \<Rightarrow> blank_record | Some r \<Rightarrow> r)) (fl_registry st))"
    by (simp add: handle_set_device_label_def message_defs fleet_simps Let_def split: sum.split option.split) blast
  show "map_of (fl_registry st) d \<noteq> None \<Longrightarrow> map_of (fl_registry ?st) d = map_of (fl_registry st) d \<or>
      (\<exists>r r'. map_of (fl_registry st) d = Some r \<and> map_of (fl_registry ?st) d = Some r' \<and> jget r' ''retired'' = jget r ''retired'')"
    using r by (auto simp: update_conv' jget_def)
qed (rule set_device_label_ok [OF surjective_pairing], simp add: fleet_inv_def)

lemma group_rest:
  assumes "same_rest st st'" and "fl_registry st' = fl_registry st" and "fleet_inv st" and "fleet_data_ok st \<Longrightarrow> fleet_data_ok st'"
  shows "fleet_inv st'"
  using assms by (intro inv_same_rest [OF assms(3,1)]) (simp_all add: fleet_inv_def)

lemma inv_create_group: "fleet_inv st \<Longrightarrow> fleet_inv (snd (handle_create_group disk data st))"
  by (rule group_rest [OF _ _ _ create_group_ok [OF surjective_pairing]])
    (simp_all add: handle_create_group_def same_rest_def message_defs fleet_simps split: sum.split)

lemma inv_rename_group: "fleet_inv st \<Longrightarrow> fleet_inv (snd (handle_rename_group disk data st))"
  by (rule group_rest [OF _ _ _ rename_group_ok [OF surjective_pairing]])
    (simp_all add: handle_rename_group_def same_rest_def message_defs fleet_simps split: sum.split prod.split option.split)

lemma inv_delete_group: "fleet_inv st \<Longrightarrow> fleet_inv (snd (handle_delete_group disk data st))"
  by (rule group_rest [OF _ _ _ delete_group_ok [OF surjective_pairing]])
    (simp_all add: handle_delete_group_def same_rest_def message_defs fleet_simps Let_def split: sum.split)

lemma inv_set_members: "fleet_inv st \<Longrightarrow> fleet_inv (snd (handle_set_group_members disk data st))"
  by (rule group_rest [OF _ _ _ set_group_members_ok [OF surjective_pairing]])
    (simp_all add: handle_set_group_members_def same_rest_def message_defs fleet_simps Let_def split: sum.split json.split)

lemma inv_set_groups: "fleet_inv st \<Longrightarrow> fleet_inv (handle_set_device_groups disk s data st)"
  by (rule group_rest [OF _ _ _ set_device_groups_ok])
    (simp_all add: handle_set_device_groups_def same_rest_def message_defs fleet_simps Let_def split: json.split)

lemma inv_forget: "fleet_inv st \<Longrightarrow> fleet_inv (handle_forget_device disk s st)"
proof -
  assume i: "fleet_inv st"
  let ?c = "cancel_timer (Option.bind (map_of (fl_retires st) s) r_timeout_task)
     (st\<lparr>fl_registry := AList.delete s (fl_registry st), fl_retires := AList.delete s (fl_retires st)\<rparr>)"
  have t: "map_of (fl_timers ?c) = minus_timer (map_of (fl_timers st)) (Option.bind (map_of (fl_retires st) s) r_timeout_task)"
    by (simp add: cancel_timer_map)
  have "fleet_inv (?c\<lparr>fl_groups := map (\<lambda>(n, ms). (n, remove1 s ms)) (fl_groups st)\<rparr>)" if "map_of (fl_devices st) s = None"
    using release_tables(2) that i groups_ok_map [of "fl_groups st" "\<lambda>n. remove1 s"]
    by (auto simp: inv_defs t fleet_simps delete_conv' labels_ok_delete group_ok_remove simp del: cancel_timer_fields(9))
  then show ?thesis using i
    by (cases "map_of (fl_devices st) s") (simp_all add: handle_forget_device_def message_defs fleet_simps Let_def del: cancel_timer_fields(9))
qed

section \<open>Runs of the server\<close>

text \<open>
  The steps of the event loop: a socket connects, sends a frame or ends; a live timer fires; a console
  connects or sends a frame; an install or a push changes the transfer slots, the recorded dispatches
  and sends messages. \<open>disk\<close>, \<open>net\<close>, \<open>net_verify\<close> and what the console environment says of sends range
  over all outcomes of writes and sends.
\<close>

inductive fleet_step :: "(json \<Rightarrow> jobject) \<Rightarrow> fleet_config \<Rightarrow> fleet \<Rightarrow> fleet \<Rightarrow> bool" for hashes cfg where
  fs_connect: "map_of (fl_sockets st) ws = None \<Longrightarrow> fleet_step hashes cfg st (connect_socket ws st)"
| fs_frame: "fleet_step hashes cfg st (serve_frame hashes disk ws remote message new_id now net net_verify st)"
| fs_close: "fleet_step hashes cfg st (close_socket disk ws now st)"
| fs_timer: "fleet_step hashes cfg st (fire_timer cfg disk t st)"
| fs_console: "fleet_step hashes cfg st (admin_connect version apks st)"
| fs_admin: "(\<forall>data. message = JObj data \<longrightarrow> typed_id data) \<Longrightarrow> fleet_step hashes cfg st (snd (admin_frame ae message st))"
| fs_jobs: "fleet_step hashes cfg st (st\<lparr>fl_transfers := a, fl_dispatches := ds, fl_out := fl_out st @ ms\<rparr>)"

inductive_cases fleet_stepE: "fleet_step hashes cfg st st'"

lemma inv_startup: "fleet_inv st \<Longrightarrow> fleet_inv (record_startup_app app d st)"
  by (simp add: record_startup_app_def inv_set_record_field fleet_simps)

interpretation console_inv: console_kept fleet_inv
  by unfold_locales (simp_all add: inv_startup inv_set_label inv_forget inv_create_group inv_rename_group inv_delete_group
      inv_set_groups inv_set_members fleet_simps)

lemma fleet_step_inv: "fleet_step hashes cfg st st' \<Longrightarrow> fleet_inv st \<Longrightarrow> fleet_inv st'"
  by (induction rule: fleet_step.induct)
    (simp_all add: inv_connect inv_serve_frame inv_close_socket inv_fire_timer console_inv.frame_kept console_inv.connect_kept fleet_simps)

lemma empty_fleet_inv: "fleet_inv empty_fleet"
  using empty_fleet_ok
  by (simp add: inv_defs empty_fleet_def exact_tables_def exact_def pend_of_def split: sum.split)

interpretation fleet_runs: invariant_system empty_fleet "fleet_step hashes cfg" fleet_inv for hashes cfg
  by unfold_locales (auto intro: empty_fleet_inv fleet_step_inv)


text \<open>A device connects and announces its removal.\<close>

definition demo_config :: fleet_config where
  "demo_config = \<lparr>cf_self_update_timeout = 180, cf_self_update_verify_timeout = 60, cf_retire_timeout = 90\<rparr>"

definition demo_frame :: "nat \<Rightarrow> jobject \<Rightarrow> fleet \<Rightarrow> fleet" where
  "demo_frame ws data = serve_frame (\<lambda>_. []) True ws ''10.0.0.7'' (JObj data) ''c1'' (JInt 7) None None"

definition demo_online :: fleet where
  "demo_online = demo_frame 1 [(''type'', JStr ''REGISTER''), (''device_id'', JStr ''d1'')] (connect_socket 1 empty_fleet)"

definition demo_retiring :: fleet where
  "demo_retiring = demo_frame 1 [(''type'', JStr ''SELF_UNINSTALL_STARTING''), (''correlation_id'', JStr ''r1'')] demo_online"

lemma demo_frame_step: "fleet_step (\<lambda>_. []) cfg st (demo_frame ws data st)"
  unfolding demo_frame_def by (rule fs_frame)

lemma demo_retiring_run: "(fleet_step (\<lambda>_. []) demo_config)\<^sup>*\<^sup>* empty_fleet demo_retiring"
proof -
  have "fleet_step (\<lambda>_. []) demo_config empty_fleet (connect_socket 1 empty_fleet)"
    by (rule fs_connect) (simp add: empty_fleet_def)
  then have "(fleet_step (\<lambda>_. []) demo_config)\<^sup>*\<^sup>* empty_fleet demo_online"
    unfolding demo_online_def using demo_frame_step by (rule converse_rtranclp_into_rtranclp [OF _ r_into_rtranclp])
  then show ?thesis unfolding demo_retiring_def using demo_frame_step by (rule rtranclp.rtrancl_into_rtrancl)
qed

lemma demo_retiring_inv: "fleet_inv demo_retiring"
  using demo_retiring_run by (rule fleet_runs.steps_ok) (rule empty_fleet_inv)

lemma demo_retiring_eval:
  "fl_retires demo_retiring = [(''d1'', \<lparr>r_correlation_id = ''r1'', r_timeout_task = Some 0\<rparr>)]"
  "fl_timers demo_retiring = [(0, T_retire ''d1'' ''r1'')]"
  "map (\<lambda>(s, ws, e). (s, ws)) (fl_devices demo_retiring) = [(''d1'', 1)]"
  by code_simp+


end
