(* ===== verification/Fleet_Properties.thy ===== *)
theory Fleet_Properties
  imports Fleet_Runs
begin

text \<open>
  What the consoles can rely on in every run of the established server: what is in flight ends with one
  report, only the owner of a device speaks for it, a device is retired only by its own announcement and
  its silence, and what a registration is made of.
\<close>

section \<open>Ends\<close>

definition reports :: "fleet \<Rightarrow> fleet \<Rightarrow> string \<Rightarrow> serial \<Rightarrow> string \<Rightarrow> string list" where
  "reports st st' kind d c = concat (map (\<lambda>m. case m of
       To_admins (JObj kvs) \<Rightarrow>
         if jget kvs ''type'' = JStr kind \<and> jget kvs ''device_id'' = JStr d \<and> jget kvs ''correlation_id'' = JStr c
         then (case jget kvs ''status'' of JStr s \<Rightarrow> [s] | _ \<Rightarrow> []) else []
     | _ \<Rightarrow> []) (drop (length (fl_out st)) (fl_out st')))"

lemma out_send [fleet_simps]: "fl_out (send_out m st) = fl_out st @ [m]"
  by (simp add: send_out_def)

lemma out_fields [fleet_simps]:
  "fl_out (save_registry disk st) = fl_out st" "fl_out (drop_update d st) = fl_out st" "fl_out (drop_retire d st) = fl_out st"
  "fl_out (set_record_field d k v st) = fl_out st"
  by (simp_all add: save_registry_def drop_update_def drop_retire_def set_record_field_def split: option.split)

lemma record_field_tables [fleet_simps]:
  "fl_updates (set_record_field d k v st) = fl_updates st" "fl_retires (set_record_field d k v st) = fl_retires st"
  "fl_timers (set_record_field d k v st) = fl_timers st" "fl_devices (set_record_field d k v st) = fl_devices st"
  by (simp_all add: set_record_field_def split: option.split)



section \<open>Only the owner of a device speaks for it\<close>

text \<open>
  (C37) A socket whose device has registered on another one is without effect: its frames, unless they
  register, change nothing and go on, and when it ends nothing of the server but its own socket
  changes: the device stays connected, and its slots, update and retirement stay.
\<close>

theorem superseded_socket_inert:
  assumes "map_of (fl_sockets st) ws = Some (Some d, k)" and "\<not> fleet_owns st d ws" and "fleet_inv st"
    and "jget data ''type'' \<noteq> JStr ''REGISTER''"
  shows "serve_frame hashes disk ws remote (JObj data) new_id now net net_verify st = st \<and>
    close_socket disk ws now st = st\<lparr>fl_sockets := AList.delete ws (fl_sockets st)\<rparr>"
proof -
  have "map_of (fl_provisional st) ws = None"
    using assms(1,3) by (cases "map_of (fl_provisional st) ws") (auto simp: fleet_inv_def sockets_ok_def)
  then have "AList.delete ws (fl_provisional st) = fl_provisional st" by (simp add: delete_id map_of_eq_None_iff)
  then show ?thesis using assms(1,2,4) \<open>map_of (fl_provisional st) ws = None\<close>
    by (simp add: serve_frame_def device_frame_def close_socket_def Let_def)
qed

definition demo_superseded :: fleet where
  "demo_superseded = demo_frame 2 [(''type'', JStr ''REGISTER''), (''device_id'', JStr ''d1'')] (connect_socket 2 demo_retiring)"

lemma demo_superseded_inv: "fleet_inv demo_superseded"
  unfolding demo_superseded_def demo_frame_def
  by (rule inv_serve_frame, rule inv_connect [OF _ demo_retiring_inv]) code_simp

theorem superseded_socket_inert_witness:
  "demo_frame 1 [(''type'', JStr ''SELF_UNINSTALL_STARTING''), (''correlation_id'', JStr ''r2'')] demo_superseded = demo_superseded \<and>
   map fst (fl_sockets (close_socket True 1 (JInt 9) demo_superseded)) = [2] \<and>
   map fst (fl_devices (close_socket True 1 (JInt 9) demo_superseded)) = [''d1'']"
proof -
  have "map_of (fl_sockets demo_superseded) 1 = Some (Some ''d1'', Some ''legacy'')" "\<not> fleet_owns demo_superseded ''d1'' 1"
    "map fst (AList.delete 1 (fl_sockets demo_superseded)) = [2]" "map fst (fl_devices demo_superseded) = [''d1'']"
    by code_simp+
  then show ?thesis
    using superseded_socket_inert [OF _ _ demo_superseded_inv, of 1 "''d1''" "Some ''legacy''"
        "[(''type'', JStr ''SELF_UNINSTALL_STARTING''), (''correlation_id'', JStr ''r2'')]"]
    by (simp add: demo_frame_def jget_def)
qed

section \<open>Retired only by silence\<close>

definition retired :: "fleet \<Rightarrow> serial \<Rightarrow> bool" where
  "retired st d \<longleftrightarrow> (\<exists>r. map_of (fl_registry st) d = Some r \<and> \<not> falsy (jget r ''retired''))"

lemma retired_cong: "fl_registry st' = fl_registry st \<Longrightarrow> retired st' d = retired st d"
  by (simp add: retired_def)

lemma device_field_registry [fleet_simps]: "fl_registry (set_device_field d k v st) = fl_registry st"
  by (simp add: set_device_field_def)

lemma retired_fields [fleet_simps]:
  "retired (send_out m st) d = retired st d" "retired (save_registry disk st) d = retired st d"
  "retired (cancel_timer t st) d = retired st d" "retired (drop_update s st) d = retired st d" "retired (drop_retire s st) d = retired st d"
  "retired (set_device_field s k v st) d = retired st d" "retired (slot_release s reason task st) d = retired st d"
  by (rule retired_cong, simp add: slot_release_def fleet_simps)+

lemma retired_updates [fleet_simps]:
  "retired (st\<lparr>fl_transfers := a\<rparr>) d = retired st d" "retired (st\<lparr>fl_dispatches := ds\<rparr>) d = retired st d"
  "retired (st\<lparr>fl_devices := dv\<rparr>) d = retired st d" "retired (st\<lparr>fl_timers := ts\<rparr>) d = retired st d"
  "retired (st\<lparr>fl_next_timer := n\<rparr>) d = retired st d" "retired (st\<lparr>fl_updates := us\<rparr>) d = retired st d"
  "retired (st\<lparr>fl_retires := rs\<rparr>) d = retired st d" "retired (st\<lparr>fl_sockets := ss\<rparr>) d = retired st d"
  "retired (st\<lparr>fl_provisional := ps\<rparr>) d = retired st d" "retired (st\<lparr>fl_out := ms\<rparr>) d = retired st d"
  "retired (st\<lparr>fl_groups := gs\<rparr>) d = retired st d"
  by (rule retired_cong, simp)+

lemma retired_messages [fleet_simps]:
  "retired (forward m st) d = retired st d" "retired (reply m st) d = retired st d" "retired (reply_error e st) d = retired st d"
  "retired (broadcast_device_list st) d = retired st d" "retired (broadcast_group_list st) d = retired st d"
  "retired (broadcast_provisional_connection_list st) d = retired st d"
  by (rule retired_cong, simp add: frame_messages fleet_simps)+

lemma retired_record_field [fleet_simps]: "k \<noteq> ''retired'' \<Longrightarrow> retired (set_record_field s k v st) d = retired st d"
  by (auto simp: retired_def set_record_field_def update_conv' jget_def split: option.splits)

lemma retired_update_result [fleet_simps]:
  "retired (begin_verification s u ws net st) d = retired st d"
  by (simp add: begin_verification_def start_timer_def frame_messages fleet_simps split: option.split)

lemma retired_resolve [fleet_simps]:
  "retired (resolve_pending_self_update s ws v net st) d = retired st d" "retired (resolve_pending_retire s st) d = retired st d"
  by (simp_all add: resolve_pending_self_update_def resolve_pending_retire_def frame_messages fleet_simps Let_def split: option.split)

lemma retired_complete: "complete_device_registration ws s net st = (r, st') \<Longrightarrow> retired st' d = retired st d"
  by (auto simp: complete_device_registration_def fleet_simps Let_def split: option.splits if_splits)

lemma retired_frames [fleet_simps]:
  "retired (handle_update_starting hashes s kind data st) d = retired st d"
  "retired (handle_uninstall_starting s data st) d = retired st d"
  "retired (handle_uninstall_result s data st) d = retired st d"
  "retired (clear_startup_app_record disk s st) d = retired st d"
  "retired (snd (consume_self_update_verify s data st)) d = retired st d"
  "retired (clear_pending_self_update_on_install_result s st) d = retired st d"
  "retired (close_verification s st) d = retired st d"
  by (simp_all add: handle_update_starting_def handle_uninstall_starting_def handle_uninstall_result_def clear_startup_app_record_def
      consume_self_update_verify_def clear_pending_self_update_on_install_result_def close_verification_def start_timer_def
      frame_messages fleet_simps Let_def split: json.split option.split)

lemma retired_device_result [fleet_simps]: "retired (handle_device_result disk s typ data st) d = retired st d"
proof -
  let ?frame = "AList.update ''device_id'' (JStr s) (AList.delete ''connection_id'' data)"
  have c: "retired st' d = retired st d" if "consume_self_update_verify s ?frame st = (b, st')" for b st'
    using retired_frames(5) [of s ?frame st d] that by simp
  show ?thesis unfolding handle_device_result_def Let_def
    by (cases "consume_self_update_verify s ?frame st") (simp add: c fleet_simps)
qed

lemma retired_telemetry [fleet_simps]:
  "retired (snd (handle_battery disk s data now st)) d = retired st d"
  "retired (snd (handle_download_complete s data st)) d = retired st d"
  by (simp_all add: handle_battery_def handle_download_complete_def broadcast_install_state_def broadcast_push_state_def fleet_simps Let_def
      split: sum.split json.split prod.split)

lemma retired_device_message: "retired (snd (handle_device_frame hashes disk s kind data now st)) d = retired st d"
  by (simp add: handle_device_frame_def fleet_simps split: json.split)

lemma retired_register_identified:
  assumes "register_identified disk ws kind registration s now net net_verify st = (r, st')" and "retired st' d"
  shows "retired st d"
proof -
  have "retired (st\<lparr>fl_registry := AList.update s (new_record kind registration p now) (fl_registry st)\<rparr>) d \<Longrightarrow> retired st d" for p
    by (auto simp: retired_def update_conv' new_record_def jget_def falsy_def split: if_splits)
  moreover have "retired (st\<lparr>fl_provisional := P, fl_sockets := S, fl_devices := D, fl_registry := R\<rparr>) d =
      retired (st\<lparr>fl_registry := R\<rparr>) d" for P S D R by (rule retired_cong) simp
  ultimately show ?thesis using assms
    by (auto simp: register_identified_def fleet_simps retired_complete Let_def split: prod.splits sum.splits if_splits)
qed

lemma retired_register_provisional: "retired (snd (register_provisional ws registration new_id now net st)) d = retired st d"
  by (simp add: register_provisional_def fleet_simps Let_def split: option.split)

lemma retired_register:
  assumes n: "\<not> retired st d"
  shows "\<not> retired (snd (handle_register disk ws remote data new_id now net net_verify device kind st)) d"
proof -
  have i: "\<not> retired (snd (register_identified disk ws k registration s now net net_verify st)) d" for k registration s
    using n retired_register_identified [OF surjective_pairing] by blast
  have c: "\<not> retired (snd (complete_device_registration ws s net st)) d" for s
    using n retired_complete [OF surjective_pairing] by blast
  have "\<not> retired (snd (case complete_device_registration ws s net st of (Inl e, st1) \<Rightarrow> (Inl e, st1) | (Inr u, st1) \<Rightarrow> (Inr True, st1))) d" for s
    using c [of s] by (cases "complete_device_registration ws s net st"; cases "fst (complete_device_registration ws s net st)") auto
  then show ?thesis using n i
    by (simp add: handle_register_def protocol_error_def retired_register_provisional fleet_simps
        split: sum.split prod.split option.split json.split)
qed

lemma retired_device_frame:
  assumes n: "\<not> retired st d"
  shows "\<not> retired (snd (device_frame hashes disk ws remote message new_id now net net_verify st)) d"
proof (cases message)
  case (JObj data)
  then show ?thesis using n retired_register [OF n]
    by (simp add: device_frame_def handle_provisional_result_def fleet_simps retired_device_message split: option.split prod.split)
qed (use n in \<open>simp_all add: device_frame_def protocol_error_def fleet_simps split: option.split prod.split\<close>)

lemma retired_close_owner [fleet_simps]: "retired (close_owner disk s now st) d = retired st d"
  by (simp add: close_owner_def fleet_simps Let_def)

lemma retired_close [fleet_simps]: "retired (close_socket disk ws now st) d = retired st d"
  by (simp add: close_socket_def fleet_simps Let_def split: option.split prod.split)

lemma retired_serve: "\<not> retired st d \<Longrightarrow> \<not> retired (serve_frame hashes disk ws remote message new_id now net net_verify st) d"
  using retired_device_frame [of st d hashes disk ws remote message new_id now net net_verify]
  by (cases "device_frame hashes disk ws remote message new_id now net net_verify st")
    (simp add: serve_frame_def fleet_simps split: sum.split bool.split)

lemma retired_label: "\<not> retired st d \<Longrightarrow> \<not> retired (snd (handle_set_device_label disk s v st)) d"
proof -
  assume n: "\<not> retired st d"
  have "\<not> retired (st\<lparr>fl_registry := AList.update s (AList.update ''label'' (JStr l)
      (case map_of (fl_registry st) s of None \<Rightarrow> blank_record | Some r \<Rightarrow> r)) (fl_registry st)\<rparr>) d" for l
    using n by (auto simp: retired_def update_conv' jget_def blank_record_def falsy_def split: option.splits)
  then show ?thesis using n
    by (cases "map_of (fl_registry st) s")
      (simp_all add: handle_set_device_label_def fleet_simps Let_def split: sum.split option.split)
qed

lemma retired_forget: "\<not> retired st d \<Longrightarrow> \<not> retired (handle_forget_device disk s st) d"
proof -
  assume n: "\<not> retired st d"
  have "\<not> retired (st\<lparr>fl_registry := AList.delete s (fl_registry st), fl_retires := R\<rparr>) d" for R
    using n by (auto simp: retired_def delete_conv')
  then show ?thesis using n by (simp add: handle_forget_device_def fleet_simps Let_def)
qed

lemma retired_groups [fleet_simps]:
  "retired (snd (handle_create_group disk data st)) d = retired st d" "retired (snd (handle_rename_group disk data st)) d = retired st d"
  "retired (snd (handle_delete_group disk data st)) d = retired st d" "retired (snd (handle_set_group_members disk data st)) d = retired st d"
  "retired (handle_set_device_groups disk s data st) d = retired st d"
  by (simp_all add: handle_create_group_def handle_rename_group_def handle_delete_group_def handle_set_group_members_def
      handle_set_device_groups_def fleet_simps Let_def split: sum.split json.split option.split prod.split)

lemma retired_connect [fleet_simps]: "retired (connect_socket ws st) d = retired st d"
  by (simp add: connect_socket_def fleet_simps)

lemma retired_fire:
  assumes "fleet_inv st" and "\<not> retired st d" and "retired (fire_timer cfg disk t st) d"
  shows "map_of (fl_devices st) d = None \<and> (\<exists>r. map_of (fl_retires st) d = Some r \<and> r_timeout_task r = Some t \<and>
    map_of (fl_timers st) t = Some (T_retire d (r_correlation_id r)))"
proof (cases "map_of (fl_timers st) t")
  case (Some tm)
  have other: "retired (set_record_field s k v st') d = retired st' d" if "s \<noteq> d" for s k v st'
    using that by (auto simp: retired_def set_record_field_def update_conv' split: option.splits)
  have "exact_tables (map_of (fl_updates st)) (map_of (fl_retires st)) (map_of (fl_timers st)) (fl_next_timer st)"
    using assms(1) by (simp add: inv_defs)
  note live = live_timer [OF this Some]
  show ?thesis
  proof (cases tm)
    case (T_retire s c)
    then obtain r where r: "map_of (fl_retires st) s = Some r" "r_correlation_id r = c" "r_timeout_task r = Some t" using live by auto
    note ev = fire_timer_def retire_timeout_def retire_result_def fleet_simps Let_def
    have "s = d" using assms(2,3) Some T_retire r(1,2) other by (cases "s = d") (simp_all add: ev split: if_splits)
    moreover have "map_of (fl_devices st) d = None"
      using assms(2,3) Some T_retire r(1,2) calculation by (cases "map_of (fl_devices st) d") (simp_all add: ev)
    ultimately show ?thesis using r Some T_retire by auto
  qed (use assms(2,3) Some live in \<open>auto simp: fire_timer_def self_update_timeout_def self_update_verify_timeout_def update_result_def
      update_verified_def broadcast_install_state_def fleet_simps Let_def\<close>)
qed (use assms(2,3) in \<open>simp add: fire_timer_def\<close>)

lemma retired_startup: "retired (record_startup_app app s st) d = retired st d"
  by (simp add: record_startup_app_def fleet_simps)

interpretation console_retired: console_kept "\<lambda>st. \<not> retired st d" for d
  by unfold_locales (simp_all add: retired_startup retired_label retired_forget fleet_simps)

text \<open>
  (C14) A device is retired only by its own announcement and the silence after it: in any step of the
  server, the only thing that makes a device retired is the timer of its own retirement, in flight
  since it announced its removal, that fires while the device is not connected. In particular no
  frame and no console can mark a device as retired.
\<close>

theorem retired_only_by_silence:
  assumes "fleet_step hashes cfg st st'" and "fleet_inv st" and "\<not> retired st d" and "retired st' d"
  shows "map_of (fl_devices st) d = None \<and> (\<exists>t disk r. map_of (fl_retires st) d = Some r \<and> r_timeout_task r = Some t \<and>
    map_of (fl_timers st) t = Some (T_retire d (r_correlation_id r)) \<and> st' = fire_timer cfg disk t st)"
  using assms(1)
proof (cases rule: fleet_step.cases)
  case (fs_timer disk t)
  then show ?thesis using retired_fire [OF assms(2,3)] assms(4) by blast
qed (use assms(3,4) retired_serve console_retired.frame_kept console_retired.connect_kept in \<open>auto simp: fleet_simps\<close>)

definition demo_gone :: fleet where
  "demo_gone = close_socket True 1 (JInt 8) demo_retiring"

lemma demo_gone_inv: "fleet_inv demo_gone"
  unfolding demo_gone_def by (rule inv_close_socket [OF demo_retiring_inv])

theorem retired_only_by_silence_witness:
  "retired (fire_timer demo_config True 0 demo_gone) ''d1'' \<and> map_of (fl_devices demo_gone) ''d1'' = None"
proof -
  have r: "map_option (\<lambda>r. jget r ''retired'') (map_of (fl_registry demo_gone) ''d1'') = Some JNull"
    "map_option (\<lambda>r. jget r ''retired'') (map_of (fl_registry (fire_timer demo_config True 0 demo_gone)) ''d1'') = Some (JBool True)"
    by code_simp+
  then have "\<not> retired demo_gone ''d1''" "retired (fire_timer demo_config True 0 demo_gone) ''d1''"
    by (auto simp: retired_def falsy_def)
  then show ?thesis using retired_only_by_silence [OF fs_timer demo_gone_inv] by blast
qed

section \<open>What a registration is made of\<close>

definition text_field :: "nat \<Rightarrow> jobject \<Rightarrow> string \<Rightarrow> bool" where
  "text_field limit r k \<longleftrightarrow> (case jget r k of JStr s \<Rightarrow> length s \<le> limit | _ \<Rightarrow> False)"

definition common_ok :: "jobject \<Rightarrow> bool" where
  "common_ok r \<longleftrightarrow> text_field 128 r ''model'' \<and> text_field 64 r ''ip'' \<and> text_field 64 r ''version_name'' \<and>
     (case jget r ''capabilities'' of JArr vs \<Rightarrow> list_all (\<lambda>v. case v of JStr s \<Rightarrow> True | _ \<Rightarrow> False) vs | _ \<Rightarrow> False) \<and>
     (case jget r ''version_code'' of JInt i \<Rightarrow> True | JNull \<Rightarrow> True | _ \<Rightarrow> False)"

lemma bounded_text: "\<exists>s. bounded_registration_text v f n = JStr s \<and> length s \<le> n"
  by (simp add: bounded_registration_text_def)

lemma common_fields_ok: "common_ok (common_fields data remote @ rest)"
  by (auto simp: common_ok_def text_field_def common_fields_def jget_def bounded_registration_text_def int_or_none_def list_all_iff
      split: json.split)

lemma length_split: "Suc (length s) = sum_list (map length (split c s)) + length (split c s)"
  by (induction c s rule: split.induct) (auto split: list.split)

lemma canonical_length: "canonical_device_id d \<Longrightarrow> length d = 36"
proof -
  assume "canonical_device_id d"
  then have l: "map length (split (CHR ''-'') d) = [8, 4, 4, 4, 12]" by (simp add: canonical_device_id_def)
  have "length (split (CHR ''-'') d) = length (map length (split (CHR ''-'') d))" by simp
  then have "length (split (CHR ''-'') d) = 5" unfolding l by simp
  then show ?thesis using length_split [of d "CHR ''-''"] unfolding l by simp
qed

lemma own_keys: "k \<in> {''device_id'', ''identity_status'', ''diagnostic''} \<Longrightarrow> jget (common_fields data remote @ rest) k = jget rest k"
  by (auto simp: jget_def common_fields_def)

lemma provisional_well_formed:
  assumes "parse_provisional data remote = Inr (Inr (kind, r))"
  shows "common_ok r \<and> kind = ''provisional'' \<and> jget r ''device_id'' = JNull \<and> jget r ''identity_status'' \<in> PROVISIONAL_STATUSES \<and>
    text_field 256 r ''diagnostic''"
proof -
  obtain identity where i: "jget data ''identity'' = JObj identity"
    using assms by (simp add: parse_provisional_def split: json.splits)
  obtain diagnostic where d: "jget_or identity ''diagnostic'' (JStr []) = JStr diagnostic"
    using assms i by (simp add: parse_provisional_def split: if_splits json.splits)
  obtain mint where m: "jget identity ''mint_attempted'' = JBool mint"
    using assms i d by (simp add: parse_provisional_def split: if_splits json.splits)
  have r: "r = common_fields data remote @ [(''identity_status'', jget identity ''status''),
      (''diagnostic'', JStr (take 256 (strip (collapse_breaks diagnostic)))), (''mint_attempted'', JBool mint)]"
    and "kind = ''provisional''" "jget identity ''status'' \<in> PROVISIONAL_STATUSES"
    using assms i d m by (simp_all add: parse_provisional_def split: if_splits)
  moreover have "jget r ''device_id'' = JNull" "jget r ''identity_status'' = jget identity ''status''"
    "jget r ''diagnostic'' = JStr (take 256 (strip (collapse_breaks diagnostic)))"
    unfolding r own_keys [of "''device_id''", simplified] own_keys [of "''identity_status''", simplified] own_keys [of "''diagnostic''", simplified]
    by (simp_all add: jget_def [of "_ # _"])
  ultimately show ?thesis using common_fields_ok by (simp add: text_field_def)
qed



section \<open>A device that comes back from its update\<close>

lemma update_messages [fleet_simps]:
  "fl_out (cancel_timer t st) = fl_out st" "fl_out (snd (start_timer tm st)) = fl_out st"
  by (simp_all add: cancel_timer_def start_timer_def split: option.split)


definition demo_updating :: fleet where
  "demo_updating = demo_frame 1 [(''type'', JStr ''SELF_UPDATE_STARTING''), (''correlation_id'', JStr ''u1''),
     (''target_version_code'', JInt 5)] demo_retiring"

lemma demo_updating_inv: "fleet_inv demo_updating"
  unfolding demo_updating_def demo_frame_def by (rule inv_serve_frame [OF demo_retiring_inv])


section \<open>Commands of a console\<close>

text \<open>What the gate of a socket guarantees of a command.\<close>

definition gate_opened :: "console \<Rightarrow> fleet \<Rightarrow> nat \<Rightarrow> string \<Rightarrow> jobject \<Rightarrow> bool" where
  "gate_opened co st ws typ args \<longleftrightarrow>
     (\<exists>d e. map_of (fl_devices st) d = Some (ws, e) \<and> co_sessions co d = Some ws \<and> map_of (fl_provisional st) ws = None \<and>
        jget args ''connection_id'' = JNull \<and> command_allowed (Some e) (Some typ)) \<or>
     (\<exists>p. map_of (fl_provisional st) ws = Some p \<and> typ \<in> PROVISIONAL_POWER_COMMANDS \<and>
        jget args ''connection_id'' = jget p ''connection_id'' \<and> command_allowed (Some p) (Some typ))"

lemma send_allowed_opened:
  assumes "send_allowed co st ws typ ((''type'', JStr typ) # args)" and "typ \<notin> session_frames"
  shows "gate_opened co st ws typ args"
  using assms unfolding send_allowed_def owner_gate_def gate_opened_def
  by (auto simp: jget_def split: option.splits prod.splits)


definition demo_guid :: serial where
  "demo_guid = ''0a1b2c3d-0000-4000-8000-00000000000f''"

definition demo_ready :: fleet where
  "demo_ready = demo_frame 1 [(''type'', JStr ''REGISTER''), (''device_id'', JStr demo_guid),
     (''identity_scheme'', JStr IDENTITY_SCHEME)] (connect_socket 1 empty_fleet)"

definition demo_admin :: admin_env where
  "demo_admin = \<lparr>ae_disk = True, ae_slots = 3,
     ae_console = \<lparr>co_sessions = (\<lambda>d. Some 1), co_device = (\<lambda>ws. Some demo_guid), co_net = (\<lambda>ws. True)\<rparr>, ae_fresh = (\<lambda>i. ''id'')\<rparr>"

definition demo_delete :: "string \<Rightarrow> json" where
  "demo_delete package = JObj [(''type'', JStr ''DELETE_APP''), (''package_name'', JStr package)]"


end
