(* ===== verification/Fleet_Jobs.thy ===== *)
theory Fleet_Jobs
  imports Fleet_Runs Integrity
begin

text \<open>
  The install and push jobs of the established server (\<^verbatim>\<open>_run_install_job\<close>, \<^verbatim>\<open>_run_push_job\<close> of
  \<^verbatim>\<open>server.py\<close>): one task per target, that waits for one of the transfer slots of the server, sends
  its command, waits for the end of the download and counts the outcome. A task is a stage between two
  waiting points (\<^verbatim>\<open>await\<close>) of \<^verbatim>\<open>dispatch_one\<close>, a turn takes it to the next; between two turns
  everything else may happen. The slots are shared by all jobs and by the dispatches of the push
  scheduler. Any waiting task may be the next to get a free slot.
\<close>

section \<open>Reference hashes\<close>

definition compute_apk_hashes :: "(byte list \<Rightarrow> string) \<Rightarrow> byte list \<Rightarrow> mdm_error + jobject" where
  "compute_apk_hashes sha256 f =
     rbind (apk_cd_digest sha256 f) (\<lambda>(n, digest).
       Inr [(''full_sha256'', JStr (file_sha256 sha256 f)), (''cd_sha256'', JStr digest)])"

type_synonym hash_cache = "((string \<times> nat \<times> int) \<times> jobject) list"

definition HASH_CACHE_LIMIT :: nat where
  "HASH_CACHE_LIMIT = 16"

text \<open>\<open>stat\<close> is the modification time and the content of an uploaded file.\<close>

definition apk_hashes_for ::
  "(byte list \<Rightarrow> string) \<Rightarrow> (string \<Rightarrow> (int \<times> byte list) option) \<Rightarrow> string option \<Rightarrow> hash_cache \<Rightarrow> jobject option \<times> hash_cache" where
  "apk_hashes_for sha256 stat filename cache =
     (case sanitize_apk_filename filename of
        None \<Rightarrow> (None, cache)
      | Some safe \<Rightarrow>
          (case stat safe of
             None \<Rightarrow> (None, cache)
           | Some (mtime, f) \<Rightarrow>
               let key = (safe, length f, mtime) in
               (case map_of cache key of
                  Some cached \<Rightarrow> (Some cached, cache)
                | None \<Rightarrow>
                    (case compute_apk_hashes sha256 f of
                       Inl e \<Rightarrow> (None, cache)
                     | Inr hashes \<Rightarrow>
                         (Some hashes, AList.update key hashes (if HASH_CACHE_LIMIT \<le> length cache then [] else cache))))))"

section \<open>Jobs\<close>

datatype outcome = Moved | Missed | Cut | Crashed

datatype transfer_stage =
    Waiting
  | Refused
  | Refused_told
  | Sending nat
  | Sent
  | Started fut
  | Started_told fut
  | Transferring fut
  | Broken fut
  | Closing outcome
  | Finished outcome

record job =
  jb_request :: job_request
  jb_hashes :: "jobject option"
  jb_queued :: int
  jb_transferring :: int
  jb_transferred :: int
  jb_failed :: int
  jb_tasks :: "(serial \<times> transfer_stage) list"
  jb_done :: bool

fun request_targets :: "job_request \<Rightarrow> serial list" where
  "request_targets (Install_job url filename ids) = ids"
| "request_targets (Push_job url filename dest extras ids) = ids"

definition jb_total :: "job \<Rightarrow> int" where
  "jb_total jb = int (length (request_targets (jb_request jb)))"

fun execute_type :: "job_request \<Rightarrow> string" where
  "execute_type (Install_job url filename ids) = ''EXECUTE_INSTALL''"
| "execute_type (Push_job url filename dest extras ids) = ''EXECUTE_PUSH_FILES''"

definition execute_args :: "job \<Rightarrow> jobject" where
  "execute_args jb =
     (case jb_request jb of
        Install_job url filename ids \<Rightarrow>
          [(''apk_url'', url), (''apk_filename'', filename)] @ (case jb_hashes jb of None \<Rightarrow> [] | Some h \<Rightarrow> h)
      | Push_job url filename dest extras ids \<Rightarrow>
          [(''bundle_url'', url), (''bundle_filename'', filename), (''dest_path'', JStr dest), (''delete_extras'', JBool extras)])"

definition task_name :: "job_request \<Rightarrow> string" where
  "task_name r = (case r of Install_job _ _ _ \<Rightarrow> ''install'' | Push_job _ _ _ _ _ \<Rightarrow> ''push'')"

definition broadcast_state :: "job_request \<Rightarrow> serial list \<Rightarrow> string \<Rightarrow> string \<Rightarrow> fleet \<Rightarrow> fleet" where
  "broadcast_state r ds state detail =
     (case r of
        Install_job url filename ids \<Rightarrow> broadcast_install_state ds state filename detail
      | Push_job url filename dest extras ids \<Rightarrow> broadcast_push_state ds state (JStr dest) extras detail)"

definition progress :: "bool \<Rightarrow> job \<Rightarrow> jobject" where
  "progress finished jb =
     (case jb_request jb of
        Install_job url filename ids \<Rightarrow>
          [(''type'', JStr ''INSTALL_PROGRESS''), (''apk_filename'', filename), (''apk_url'', url)]
      | Push_job url filename dest extras ids \<Rightarrow>
          [(''type'', JStr ''PUSH_PROGRESS''), (''bundle_filename'', filename), (''dest_path'', JStr dest), (''delete_extras'', JBool extras)])
     @ [(''total'', JInt (jb_total jb)), (''queued'', JInt (jb_queued jb)), (''transferring'', JInt (jb_transferring jb)),
        (''transferred'', JInt (jb_transferred jb)), (''failed'', JInt (jb_failed jb)), (''done'', JBool finished)]"

definition broadcast_progress :: "bool \<Rightarrow> job \<Rightarrow> fleet \<Rightarrow> fleet" where
  "broadcast_progress finished jb = forward (progress finished jb)"

definition offline_detail :: "job_request \<Rightarrow> string" where
  "offline_detail r = (case r of
       Install_job _ _ _ \<Rightarrow> ''Device is offline or still registering''
     | Push_job _ _ _ _ _ \<Rightarrow> ''Device is no longer eligible for Push/Sync'')"

definition unsent_detail :: "job_request \<Rightarrow> string" where
  "unsent_detail r = (case r of
       Install_job _ _ _ \<Rightarrow> ''Failed to send the install command''
     | Push_job _ _ _ extras _ \<Rightarrow> ''Failed to send the '' @ (if extras then ''sync'' else ''push'') @ '' command'')"

text \<open>\<^verbatim>\<open>fail_one\<close> up to its first waiting point.\<close>

definition fail_one :: "serial \<Rightarrow> string \<Rightarrow> job \<Rightarrow> fleet \<Rightarrow> transfer_stage \<times> job \<times> fleet" where
  "fail_one d detail jb fl =
     (Refused, jb\<lparr>jb_failed := jb_failed jb + 1\<rparr>, broadcast_state (jb_request jb) [d] ''fail'' detail fl)"

definition record_dispatch :: "serial \<Rightarrow> job \<Rightarrow> fleet \<Rightarrow> fleet" where
  "record_dispatch d jb fl =
     (case jb_request jb of
        Install_job url filename ids \<Rightarrow>
          let h = (case jb_hashes jb of None \<Rightarrow> [] | Some h \<Rightarrow> h) in
          fl\<lparr>fl_dispatches := AList.update d [(''apk_filename'', filename), (''full_sha256'', jget h ''full_sha256''),
            (''cd_sha256'', jget h ''cd_sha256'')] (fl_dispatches fl)\<rparr>
      | Push_job _ _ _ _ _ \<Rightarrow> fl)"

text \<open>The \<^verbatim>\<open>finally\<close> block: a task removes only its own future.\<close>

definition remove_own :: "slot \<Rightarrow> fut \<Rightarrow> adapter \<Rightarrow> adapter" where
  "remove_own key f a =
     (case ad_get key a of (g, a1) \<Rightarrow> if g = Some f then snd (ad_del key a1) else a1)"

text \<open>
  The transfer begins: its future is created and entered, the consoles are told. An exception of the
  table leaves \<^verbatim>\<open>dispatch_one\<close> with the counter raised.
\<close>

definition begin_transfer :: "string \<Rightarrow> serial \<Rightarrow> job \<Rightarrow> fleet \<Rightarrow> transfer_stage \<times> job \<times> fleet" where
  "begin_transfer new_id d jb fl =
     (let fl1 = record_dispatch d jb fl;
          jb1 = jb\<lparr>jb_transferring := jb_transferring jb + 1\<rparr>;
          a = fl_transfers fl1;
          (f, w) = create_future (ad_registry a) in
      case ad_set new_id (d, task_name (jb_request jb)) f (a\<lparr>ad_registry := w\<rparr>) of
        (Inl e, a1) \<Rightarrow> (Finished Crashed, jb1, fl1\<lparr>fl_transfers := a1\<rparr>)
      | (Inr u, a1) \<Rightarrow> (Started f, jb1, broadcast_state (jb_request jb) [d] ''transferring'' [] (fl1\<lparr>fl_transfers := a1\<rparr>)))"

definition end_transfer :: "serial \<Rightarrow> fut \<Rightarrow> job \<Rightarrow> fleet \<Rightarrow> job \<times> fleet" where
  "end_transfer d f jb fl =
     (jb\<lparr>jb_transferring := jb_transferring jb - 1\<rparr>,
      fl\<lparr>fl_transfers := remove_own (d, task_name (jb_request jb)) f (fl_transfers fl)\<rparr>)"

text \<open>
  \<^verbatim>\<open>asyncio.wait_for\<close>: the result of the future, its cancellation, or after the time limit
  (\<open>late\<close>) the cancellation of the future and \<^verbatim>\<open>TimeoutError\<close>.
\<close>

definition await_transfer :: "bool \<Rightarrow> serial \<Rightarrow> fut \<Rightarrow> job \<Rightarrow> fleet \<Rightarrow> (transfer_stage \<times> job \<times> fleet) option" where
  "await_transfer late d f jb fl =
     (case future_at (w_heap (ad_registry (fl_transfers fl))) f of
        Some (Result reason) \<Rightarrow>
          (case end_transfer d f (jb\<lparr>jb_transferred := jb_transferred jb + 1\<rparr>) fl of
             (jb1, fl1) \<Rightarrow> Some (Closing Moved, jb1, broadcast_progress False jb1 fl1))
      | Some Pending \<Rightarrow>
          if late then Some (Broken f, jb\<lparr>jb_failed := jb_failed jb + 1\<rparr>,
            broadcast_state (jb_request jb) [d] ''fail'' ''Transfer timed out''
              (fl\<lparr>fl_transfers := (fl_transfers fl)\<lparr>ad_registry := cancel_future f (ad_registry (fl_transfers fl))\<rparr>\<rparr>))
          else None
      | _ \<Rightarrow> (case end_transfer d f jb fl of (jb1, fl1) \<Rightarrow> Some (Finished Cut, jb1, fl1)))"

text \<open>One turn of a task; \<open>None\<close> while it waits.\<close>

fun turn :: "console \<Rightarrow> string \<Rightarrow> bool \<Rightarrow> serial \<Rightarrow> transfer_stage \<Rightarrow> job \<Rightarrow> fleet \<Rightarrow> (transfer_stage \<times> job \<times> fleet) option" where
  "turn co new_id late d Waiting jb fl =
     (let jb1 = jb\<lparr>jb_queued := jb_queued jb - 1\<rparr> in
      case map_of (fl_devices fl) d of
        None \<Rightarrow> Some (fail_one d (offline_detail (jb_request jb)) jb1 fl)
      | Some (ws, entry) \<Rightarrow>
          if \<not> command_allowed (Some entry) (Some (execute_type (jb_request jb)))
          then Some (fail_one d (offline_detail (jb_request jb)) jb1 fl)
          else Some (Sending ws, jb1, fl))"
| "turn co new_id late d Refused jb fl = Some (Refused_told, jb, broadcast_progress False jb fl)"
| "turn co new_id late d Refused_told jb fl = Some (Finished Missed, jb, fl)"
| "turn co new_id late d (Sending ws) jb fl =
     (case send_command co ws (execute_type (jb_request jb)) (execute_args jb) fl of
        (True, fl1) \<Rightarrow> Some (Sent, jb, fl1)
      | (False, fl1) \<Rightarrow> Some (fail_one d (unsent_detail (jb_request jb)) jb fl1))"
| "turn co new_id late d Sent jb fl = Some (begin_transfer new_id d jb fl)"
| "turn co new_id late d (Started f) jb fl = Some (Started_told f, jb, broadcast_progress False jb fl)"
| "turn co new_id late d (Started_told f) jb fl = Some (Transferring f, jb, fl)"
| "turn co new_id late d (Transferring f) jb fl = await_transfer late d f jb fl"
| "turn co new_id late d (Broken f) jb fl =
     (case end_transfer d f jb fl of (jb1, fl1) \<Rightarrow> Some (Closing Missed, jb1, broadcast_progress False jb1 fl1))"
| "turn co new_id late d (Closing out) jb fl = Some (Finished out, jb, fl)"
| "turn co new_id late d (Finished out) jb fl = None"

section \<open>The jobs of a server\<close>

text \<open>\<open>jo_others\<close> counts the slots that dispatches of the push scheduler hold.\<close>

record jobs =
  jo_fleet :: fleet
  jo_free :: nat
  jo_others :: nat
  jo_jobs :: "job list"

definition transfer_slots :: "nat \<Rightarrow> nat" where
  "transfer_slots MAX_CONCURRENT_TRANSFERS = max 1 MAX_CONCURRENT_TRANSFERS"

definition new_job :: "job_request \<Rightarrow> jobject option \<Rightarrow> job" where
  "new_job r hashes =
     \<lparr>jb_request = r, jb_hashes = hashes, jb_queued = int (length (request_targets r)), jb_transferring = 0, jb_transferred = 0,
      jb_failed = 0, jb_tasks = map (\<lambda>d. (d, Waiting)) (request_targets r), jb_done = False\<rparr>"

definition start_job :: "job_request \<Rightarrow> jobject option \<Rightarrow> jobs \<Rightarrow> jobs" where
  "start_job r hashes st =
     (let jb = new_job r hashes in
      st\<lparr>jo_fleet := broadcast_progress False jb (broadcast_state r (request_targets r) ''queued'' [] (jo_fleet st)),
         jo_jobs := jo_jobs st @ [jb]\<rparr>)"

fun finished :: "transfer_stage \<Rightarrow> bool" where
  "finished (Finished out) = True"
| "finished _ = False"

text \<open>The semaphore: a task takes a slot when it leaves the queue and gives it back when it is finished.\<close>

definition task_turn :: "console \<Rightarrow> string \<Rightarrow> bool \<Rightarrow> nat \<Rightarrow> nat \<Rightarrow> jobs \<Rightarrow> jobs option" where
  "task_turn co new_id late j i st =
     (if length (jo_jobs st) \<le> j \<or> length (jb_tasks (jo_jobs st ! j)) \<le> i then None
      else
        let jb = jo_jobs st ! j; (d, s) = jb_tasks jb ! i;
            taken = (if s = Waiting then 1 else 0) in
        if jo_free st < taken then None
        else (case turn co new_id late d s jb (jo_fleet st) of
            None \<Rightarrow> None
          | Some (s', jb', fl') \<Rightarrow>
              Some (st\<lparr>jo_fleet := fl', jo_free := jo_free st - taken + (if finished s' then 1 else 0),
                jo_jobs := (jo_jobs st)[j := jb'\<lparr>jb_tasks := (jb_tasks jb)[i := (d, s')]\<rparr>]\<rparr>)))"

text \<open>\<^verbatim>\<open>gather\<close> returns when every task is finished.\<close>

definition finish_job :: "nat \<Rightarrow> jobs \<Rightarrow> jobs option" where
  "finish_job j st =
     (if length (jo_jobs st) \<le> j \<or> jb_done (jo_jobs st ! j) \<or> \<not> list_all (\<lambda>(d, s). finished s) (jb_tasks (jo_jobs st ! j)) then None
      else Some (st\<lparr>jo_fleet := broadcast_progress True (jo_jobs st ! j) (jo_fleet st),
        jo_jobs := (jo_jobs st)[j := (jo_jobs st ! j)\<lparr>jb_done := True\<rparr>]\<rparr>))"

section \<open>Ledger\<close>

text \<open>What a task in a stage adds to each counter, to the slots in use and to the work that is left.\<close>

fun c_queued :: "transfer_stage \<Rightarrow> int" where
  "c_queued Waiting = 1"
| "c_queued _ = 0"

fun c_transferring :: "transfer_stage \<Rightarrow> int" where
  "c_transferring (Started f) = 1"
| "c_transferring (Started_told f) = 1"
| "c_transferring (Transferring f) = 1"
| "c_transferring (Broken f) = 1"
| "c_transferring (Closing out) = of_bool (out = Crashed)"
| "c_transferring (Finished out) = of_bool (out = Crashed)"
| "c_transferring _ = 0"

fun c_transferred :: "transfer_stage \<Rightarrow> int" where
  "c_transferred (Closing out) = of_bool (out = Moved)"
| "c_transferred (Finished out) = of_bool (out = Moved)"
| "c_transferred _ = 0"

fun c_failed :: "transfer_stage \<Rightarrow> int" where
  "c_failed Refused = 1"
| "c_failed Refused_told = 1"
| "c_failed (Broken f) = 1"
| "c_failed (Closing out) = of_bool (out = Missed)"
| "c_failed (Finished out) = of_bool (out = Missed)"
| "c_failed _ = 0"

definition holds :: "transfer_stage \<Rightarrow> int" where
  "holds s = of_bool (s \<noteq> Waiting \<and> \<not> finished s)"

fun rank :: "transfer_stage \<Rightarrow> nat" where
  "rank Waiting = 8"
| "rank (Sending ws) = 7"
| "rank Sent = 6"
| "rank (Started f) = 5"
| "rank (Started_told f) = 4"
| "rank (Transferring f) = 3"
| "rank Refused = 2"
| "rank (Broken f) = 2"
| "rank Refused_told = 1"
| "rank (Closing out) = 1"
| "rank (Finished out) = 0"

definition tally :: "(transfer_stage \<Rightarrow> 'a::comm_monoid_add) \<Rightarrow> job \<Rightarrow> 'a" where
  "tally w jb = sum_list (map (w \<circ> snd) (jb_tasks jb))"

definition same_job :: "job \<Rightarrow> job \<Rightarrow> bool" where
  "same_job jb jb' \<longleftrightarrow> jb_request jb' = jb_request jb \<and> jb_hashes jb' = jb_hashes jb \<and> jb_tasks jb' = jb_tasks jb \<and> jb_done jb' = jb_done jb"

lemmas turn_defs = fail_one_def begin_transfer_def end_transfer_def await_transfer_def create_future_def Let_def

lemma turn_effect:
  assumes "turn co new_id late d s jb fl = Some (s', jb', fl')"
  shows "same_job jb jb'" "\<not> finished s" "s' \<noteq> Waiting" "rank s' < rank s"
    "jb_queued jb' = jb_queued jb - c_queued s + c_queued s'" "jb_transferring jb' = jb_transferring jb - c_transferring s + c_transferring s'"
    "jb_transferred jb' = jb_transferred jb - c_transferred s + c_transferred s'" "jb_failed jb' = jb_failed jb - c_failed s + c_failed s'"
  using assms by (cases s; force simp: same_job_def turn_defs split: option.splits prod.splits if_splits bool.splits sum.splits future.splits)+

text \<open>A job writes to three parts of the server only.\<close>

definition job_writes :: "fleet \<Rightarrow> fleet \<Rightarrow> bool" where
  "job_writes fl fl' \<longleftrightarrow> (\<exists>a ds ms. fl' = fl\<lparr>fl_transfers := a, fl_dispatches := ds, fl_out := fl_out fl @ ms\<rparr>)"

lemma job_writesI: "fl' = fl\<lparr>fl_transfers := a, fl_dispatches := ds, fl_out := fl_out fl @ ms\<rparr> \<Longrightarrow> job_writes fl fl'"
  unfolding job_writes_def by blast

lemma job_writes_refl [simp]: "job_writes fl fl"
  by (rule job_writesI [where a = "fl_transfers fl" and ds = "fl_dispatches fl" and ms = "[]"]) simp

lemma job_writes_fields [simp]:
  assumes "job_writes fl x"
  shows "job_writes fl (send_out m x)" "job_writes fl (x\<lparr>fl_transfers := a\<rparr>)" "job_writes fl (x\<lparr>fl_dispatches := ds\<rparr>)"
proof -
  obtain b es ms where x: "x = fl\<lparr>fl_transfers := b, fl_dispatches := es, fl_out := fl_out fl @ ms\<rparr>"
    using assms unfolding job_writes_def by blast
  show "job_writes fl (send_out m x)" by (rule job_writesI [where a = b and ds = es and ms = "ms @ [m]"]) (simp add: x send_out_def)
  show "job_writes fl (x\<lparr>fl_transfers := a\<rparr>)" by (rule job_writesI [where a = a and ds = es and ms = ms]) (simp add: x)
  show "job_writes fl (x\<lparr>fl_dispatches := ds\<rparr>)" by (rule job_writesI [where a = b and ds = ds and ms = ms]) (simp add: x)
qed

lemma job_writes_parts [simp]:
  assumes "job_writes fl x"
  shows "job_writes fl (broadcast_state r ds t det x)" "job_writes fl (broadcast_progress b jb x)" "job_writes fl (record_dispatch d jb x)"
  using assms by (simp_all add: broadcast_state_def broadcast_install_state_def broadcast_push_state_def forward_def
      broadcast_progress_def record_dispatch_def Let_def split: job_request.split)

lemma send_command_writes: "send_command co ws t args fl = (b, fl') \<Longrightarrow> job_writes fl fl'"
  by (auto simp: send_command_def Let_def split: if_splits)

lemma turn_writes: "turn co new_id late d s jb fl = Some (s', jb', fl') \<Longrightarrow> job_writes fl fl'"
  by (cases s) (auto simp: turn_defs split: option.splits prod.splits if_splits bool.splits sum.splits future.splits
      dest: send_command_writes)

section \<open>Runs\<close>

definition no_jobs :: "nat \<Rightarrow> jobs" where
  "no_jobs n = \<lparr>jo_fleet = empty_fleet, jo_free = transfer_slots n, jo_others = 0, jo_jobs = []\<rparr>"

text \<open>
  A job starts, a task takes a turn, a job ends, the rest of the server takes a step, or a dispatch of
  the push scheduler takes or returns a slot.
\<close>

inductive jobs_step :: "(json \<Rightarrow> jobject) \<Rightarrow> fleet_config \<Rightarrow> jobs \<Rightarrow> jobs \<Rightarrow> bool" for hashes cfg where
  js_start: "jobs_step hashes cfg st (start_job r h st)"
| js_turn: "task_turn co new_id late j i st = Some st' \<Longrightarrow> jobs_step hashes cfg st st'"
| js_finish: "finish_job j st = Some st' \<Longrightarrow> jobs_step hashes cfg st st'"
| js_world: "fleet_step hashes cfg (jo_fleet st) fl \<Longrightarrow> jobs_step hashes cfg st (st\<lparr>jo_fleet := fl\<rparr>)"
| js_take: "0 < jo_free st \<Longrightarrow> jobs_step hashes cfg st (st\<lparr>jo_free := jo_free st - 1, jo_others := jo_others st + 1\<rparr>)"
| js_give: "0 < jo_others st \<Longrightarrow> jobs_step hashes cfg st (st\<lparr>jo_free := jo_free st + 1, jo_others := jo_others st - 1\<rparr>)"

lemma sum_list_set: "i < length xs \<Longrightarrow> sum_list (map w (xs[i := y])) = sum_list (map w xs) - w (xs ! i) + (w y :: int)"
proof (induction xs arbitrary: i)
  case (Cons x xs)
  then show ?case by (cases i) simp_all
qed simp

definition counted :: "job \<Rightarrow> bool" where
  "counted jb \<longleftrightarrow> jb_queued jb = tally c_queued jb \<and> jb_transferring jb = tally c_transferring jb \<and>
     jb_transferred jb = tally c_transferred jb \<and> jb_failed jb = tally c_failed jb \<and>
     map fst (jb_tasks jb) = request_targets (jb_request jb) \<and> (jb_done jb \<longrightarrow> list_all (\<lambda>(d, s). finished s) (jb_tasks jb))"

definition slots_used :: "jobs \<Rightarrow> int" where
  "slots_used st = sum_list (map (tally holds) (jo_jobs st))"

definition jobs_ok :: "nat \<Rightarrow> jobs \<Rightarrow> bool" where
  "jobs_ok n st \<longleftrightarrow> int (jo_free st) + int (jo_others st) + slots_used st = int (transfer_slots n) \<and>
     (\<forall>jb \<in> set (jo_jobs st). counted jb)"

text \<open>What a turn does to the lists of jobs and tasks.\<close>

lemma task_turnE:
  assumes "task_turn co new_id late j i st = Some st'"
  obtains d s s' jb' fl' where "j < length (jo_jobs st)" "i < length (jb_tasks (jo_jobs st ! j))" "jb_tasks (jo_jobs st ! j) ! i = (d, s)"
    "turn co new_id late d s (jo_jobs st ! j) (jo_fleet st) = Some (s', jb', fl')" "s = Waiting \<Longrightarrow> 0 < jo_free st"
    "st' = st\<lparr>jo_fleet := fl', jo_free := jo_free st - (if s = Waiting then 1 else 0) + (if finished s' then 1 else 0),
       jo_jobs := (jo_jobs st)[j := jb'\<lparr>jb_tasks := (jb_tasks (jo_jobs st ! j))[i := (d, s')]\<rparr>]\<rparr>"
  using assms unfolding task_turn_def Let_def by (auto split: if_splits prod.splits option.splits)

lemma tally_set:
  assumes "i < length (jb_tasks jb)" and "jb_tasks jb ! i = (d, s)"
  shows "tally w (jb'\<lparr>jb_tasks := (jb_tasks jb)[i := (d, s')]\<rparr>) = tally w jb - w s + (w s' :: int)"
  using sum_list_set [OF assms(1), of "w \<circ> snd"] assms(2) by (simp add: tally_def)

lemma holds_turn:
  assumes "turn co new_id late d s jb fl = Some (s', jb', fl')"
  shows "holds s' - holds s = (if s = Waiting then 1 else 0) - (if finished s' then 1 else 0)"
  using turn_effect(2,3) [OF assms] by (auto simp: holds_def)

lemma counted_turn:
  assumes c: "counted jb" and i: "i < length (jb_tasks jb)" "jb_tasks jb ! i = (d, s)" and t: "turn co new_id late d s jb fl = Some (s', jb', fl')"
  shows "counted (jb'\<lparr>jb_tasks := (jb_tasks jb)[i := (d, s')]\<rparr>)"
proof -
  have "\<not> jb_done jb" using c i turn_effect(2) [OF t] nth_mem [OF i(1)] by (force simp: counted_def list_all_iff)
  moreover have "map fst ((jb_tasks jb)[i := (d, s')]) = map fst (jb_tasks jb)"
    using i by (metis fst_conv length_map list_update_id map_update nth_map)
  ultimately show ?thesis using c turn_effect [OF t] tally_set [OF i] by (simp add: counted_def same_job_def)
qed

lemma jobs_ok_turn:
  assumes "jobs_ok n st" and "task_turn co new_id late j i st = Some st'"
  shows "jobs_ok n st'"
  using assms(2)
proof (rule task_turnE)
  fix d s s' jb' fl'
  let ?jb = "jo_jobs st ! j"
  assume j: "j < length (jo_jobs st)" and i: "i < length (jb_tasks ?jb)" "jb_tasks ?jb ! i = (d, s)"
    and t: "turn co new_id late d s ?jb (jo_fleet st) = Some (s', jb', fl')" and f: "s = Waiting \<Longrightarrow> 0 < jo_free st"
    and st': "st' = st\<lparr>jo_fleet := fl', jo_free := jo_free st - (if s = Waiting then 1 else 0) + (if finished s' then 1 else 0),
       jo_jobs := (jo_jobs st)[j := jb'\<lparr>jb_tasks := (jb_tasks ?jb)[i := (d, s')]\<rparr>]\<rparr>"
  have "counted (jb'\<lparr>jb_tasks := (jb_tasks ?jb)[i := (d, s')]\<rparr>)"
    using assms(1) j nth_mem by (intro counted_turn [OF _ i t]) (auto simp: jobs_ok_def)
  moreover have "slots_used st' = slots_used st - holds s + holds s'"
    unfolding slots_used_def st' using sum_list_set [OF j, of "tally holds"] tally_set [OF i, where w = holds and jb' = jb' and s' = s'] by simp
  moreover have "int (jo_free st') = int (jo_free st) - (if s = Waiting then 1 else 0) + (if finished s' then 1 else 0)"
    unfolding st' using f by auto
  ultimately show ?thesis
    using assms(1) holds_turn [OF t] set_update_subset_insert [of "jo_jobs st" j]
    unfolding jobs_ok_def st' by (auto split: if_splits)
qed

lemma new_job_tally: "tally w (new_job r h) = int (length (request_targets r)) * w Waiting"
proof -
  have "sum_list (map ((w \<circ> snd) \<circ> (\<lambda>d. (d, Waiting))) ds) = int (length ds) * w Waiting" for ds :: "serial list"
    by (induction ds) (simp_all add: algebra_simps)
  then show ?thesis by (simp add: tally_def new_job_def)
qed

lemma new_job_counted: "counted (new_job r h)" "tally holds (new_job r h) = 0"
  unfolding counted_def new_job_tally by (simp_all add: new_job_def holds_def comp_def)

lemma counted_done: "counted jb \<Longrightarrow> list_all (\<lambda>(d, s). finished s) (jb_tasks jb) \<Longrightarrow> counted (jb\<lparr>jb_done := True\<rparr>)"
  by (simp add: counted_def tally_def)

lemma jobs_ok_finish:
  assumes "jobs_ok n st" and "finish_job j st = Some st'"
  shows "jobs_ok n st'"
proof -
  let ?jb = "jo_jobs st ! j"
  have j: "j < length (jo_jobs st)" and f: "list_all (\<lambda>(d, s). finished s) (jb_tasks ?jb)"
    and st': "st' = st\<lparr>jo_fleet := broadcast_progress True ?jb (jo_fleet st), jo_jobs := (jo_jobs st)[j := ?jb\<lparr>jb_done := True\<rparr>]\<rparr>"
    using assms(2) by (auto simp: finish_job_def split: if_splits)
  have "counted (?jb\<lparr>jb_done := True\<rparr>)" using assms(1) j f counted_done by (simp add: jobs_ok_def)
  moreover have "slots_used st' = slots_used st"
    unfolding slots_used_def st' using sum_list_set [OF j, where w = "tally holds"] by (simp add: tally_def)
  ultimately show ?thesis
    using assms(1) set_update_subset_insert [of "jo_jobs st" j] unfolding jobs_ok_def st' by auto
qed

lemma jobs_ok_step: "jobs_step hashes cfg st st' \<Longrightarrow> jobs_ok n st \<Longrightarrow> jobs_ok n st'"
proof (induction rule: jobs_step.induct)
  case (js_start st r h)
  then show ?case by (auto simp: start_job_def jobs_ok_def slots_used_def new_job_counted Let_def)
next
  case (js_turn co new_id late j i st st')
  then show ?case using jobs_ok_turn by blast
next
  case (js_finish j st st')
  then show ?case using jobs_ok_finish by blast
qed (simp_all add: jobs_ok_def slots_used_def)

lemma no_jobs_ok: "jobs_ok n (no_jobs n)"
  by (simp add: no_jobs_def jobs_ok_def slots_used_def)

interpretation job_runs: invariant_system "no_jobs n" "jobs_step hashes cfg" "jobs_ok n" for n hashes cfg
  by unfold_locales (rule no_jobs_ok, rule jobs_ok_step)

text \<open>The tasks of a job whose stage has a property.\<close>

definition tasks_in :: "(transfer_stage \<Rightarrow> bool) \<Rightarrow> job \<Rightarrow> int" where
  "tasks_in p jb = int (length (filter (p \<circ> snd) (jb_tasks jb)))"

fun is_sending :: "transfer_stage \<Rightarrow> bool" where
  "is_sending (Sending ws) = True"
| "is_sending Sent = True"
| "is_sending _ = False"

fun is_broken :: "transfer_stage \<Rightarrow> bool" where
  "is_broken (Broken f) = True"
| "is_broken _ = False"

fun is_cut :: "transfer_stage \<Rightarrow> bool" where
  "is_cut (Closing out) = (out = Cut)"
| "is_cut (Finished out) = (out = Cut)"
| "is_cut _ = False"

definition in_slot :: "transfer_stage \<Rightarrow> bool" where
  "in_slot s \<longleftrightarrow> s \<noteq> Waiting \<and> \<not> finished s"

lemma tally_bool: "tally (\<lambda>s. of_bool (p s)) jb = tasks_in p jb"
proof -
  have "sum_list (map ((\<lambda>s. of_bool (p s)) \<circ> snd) ts) = int (length (filter (p \<circ> snd) ts))" for ts :: "(serial \<times> transfer_stage) list"
    by (induction ts) auto
  then show ?thesis by (simp add: tally_def tasks_in_def)
qed

lemma holds_in_slot: "tally holds jb = tasks_in in_slot jb"
  unfolding tally_bool [of in_slot, symmetric] tally_def by (simp add: holds_def in_slot_def comp_def)

lemma ledger:
  assumes "counted jb"
  shows "jb_queued jb + jb_transferring jb + jb_transferred jb + jb_failed jb + tasks_in is_sending jb + tasks_in is_cut jb =
    jb_total jb + tasks_in is_broken jb"
proof -
  have s: "c_queued s + c_transferring s + c_transferred s + c_failed s + of_bool (is_sending s) + of_bool (is_cut s) = 1 + of_bool (is_broken s)" for s
  proof (cases s)
    case (Closing out)
    then show ?thesis by (cases out) simp_all
  next
    case (Finished out)
    then show ?thesis by (cases out) simp_all
  qed simp_all
  have "sum_list (map (c_queued \<circ> snd) ts) + sum_list (map (c_transferring \<circ> snd) ts) + sum_list (map (c_transferred \<circ> snd) ts)
      + sum_list (map (c_failed \<circ> snd) ts) + sum_list (map ((\<lambda>s. of_bool (is_sending s)) \<circ> snd) ts)
      + sum_list (map ((\<lambda>s. of_bool (is_cut s)) \<circ> snd) ts)
      = int (length ts) + sum_list (map ((\<lambda>s. of_bool (is_broken s)) \<circ> snd) ts)" for ts :: "(serial \<times> transfer_stage) list"
  proof (induction ts)
    case (Cons t ts)
    then show ?case using s [of "snd t"] by simp
  qed simp
  note this [of "jb_tasks jb"]
  moreover have "jb_total jb = int (length (jb_tasks jb))"
    using assms by (simp add: counted_def jb_total_def) (metis length_map)
  ultimately show ?thesis using assms unfolding tally_bool [symmetric] by (simp add: counted_def tally_def)
qed

lemma finished_counts:
  assumes "counted jb" and "list_all (\<lambda>(d, s). finished s) (jb_tasks jb)"
  shows "jb_queued jb = 0" "jb_transferring jb = tasks_in (\<lambda>s. s = Finished Crashed) jb"
    "jb_transferred jb = tasks_in (\<lambda>s. s = Finished Moved) jb" "jb_failed jb = tasks_in (\<lambda>s. s = Finished Missed) jb"
proof -
  have *: "sum_list (map (w \<circ> snd) ts) = int (length (filter (p \<circ> snd) ts))"
    if "\<And>out. w (Finished out) = of_bool (p (Finished out))" "list_all (\<lambda>(d, s). finished s) ts" for w p and ts :: "(serial \<times> transfer_stage) list"
    using that(2)
  proof (induction ts)
    case (Cons t ts)
    obtain d out where "t = (d, Finished out)" using Cons.prems by (cases t; cases "snd t") auto
    then show ?case using Cons that(1) by simp
  qed simp
  show "jb_queued jb = 0" "jb_transferring jb = tasks_in (\<lambda>s. s = Finished Crashed) jb"
    "jb_transferred jb = tasks_in (\<lambda>s. s = Finished Moved) jb" "jb_failed jb = tasks_in (\<lambda>s. s = Finished Missed) jb"
    using assms(1) * [OF _ assms(2), of c_queued "\<lambda>s. False"] * [OF _ assms(2), of c_transferring "\<lambda>s. s = Finished Crashed"]
      * [OF _ assms(2), of c_transferred "\<lambda>s. s = Finished Moved"] * [OF _ assms(2), of c_failed "\<lambda>s. s = Finished Missed"]
    by (simp_all add: counted_def tally_def tasks_in_def)
qed

text \<open>
  (C15) Transfers are bounded and accounted for, whatever the devices, the consoles and the network do.
  The tasks of all jobs that are past the queue and not finished, and the dispatches of the push
  scheduler, never exceed the number of transfer slots, and no slot is lost: the ones in use and the free
  ones are always all of them. In every job the counters shown to the consoles add up to the number of
  targets, except that a task whose command is being sent is in none of them and a task whose time-out is
  being announced is in two; a cancelled transfer is in none. When a job is done nothing is queued, and
  the transferred and the failed targets are those whose tasks ended so.
\<close>

theorem transfer_slots_bounded:
  assumes "(jobs_step hashes cfg)\<^sup>*\<^sup>* (no_jobs n) st"
  shows "sum_list (map (tasks_in in_slot) (jo_jobs st)) + int (jo_others st) + int (jo_free st) = int (max 1 n) \<and>
    (\<forall>jb \<in> set (jo_jobs st).
      jb_queued jb + jb_transferring jb + jb_transferred jb + jb_failed jb + tasks_in is_sending jb + tasks_in is_cut jb =
        jb_total jb + tasks_in is_broken jb \<and>
      (jb_done jb \<longrightarrow> list_all (\<lambda>(d, s). finished s) (jb_tasks jb) \<and> jb_queued jb = 0 \<and>
        jb_transferring jb = tasks_in (\<lambda>s. s = Finished Crashed) jb \<and>
        jb_transferred jb = tasks_in (\<lambda>s. s = Finished Moved) jb \<and> jb_failed jb = tasks_in (\<lambda>s. s = Finished Missed) jb))"
proof -
  have ok: "jobs_ok n st" using assms job_runs.reachable_ok by (simp add: job_runs.reachable_def)
  have h: "tally holds = tasks_in in_slot" by (rule ext) (rule holds_in_slot)
  have "sum_list (map (tasks_in in_slot) (jo_jobs st)) + int (jo_others st) + int (jo_free st) = int (max 1 n)"
    using ok by (simp add: jobs_ok_def slots_used_def transfer_slots_def h)
  moreover have c: "counted jb" if "jb \<in> set (jo_jobs st)" for jb using ok that by (simp add: jobs_ok_def)
  moreover have "list_all (\<lambda>(d, s). finished s) (jb_tasks jb)" if "jb \<in> set (jo_jobs st)" "jb_done jb" for jb
    using c [OF that(1)] that(2) by (simp add: counted_def)
  ultimately show ?thesis using ledger finished_counts by blast
qed

section \<open>Jobs end\<close>

definition work_of :: "job \<Rightarrow> nat" where
  "work_of jb = tally rank jb + of_bool (\<not> jb_done jb)"

definition work :: "jobs \<Rightarrow> nat" where
  "work st = sum_list (map work_of (jo_jobs st))"

text \<open>A turn of a task whose time is up, or the end of a job.\<close>

definition drives :: "console \<Rightarrow> string \<Rightarrow> jobs \<Rightarrow> jobs \<Rightarrow> bool" where
  "drives co new_id st st' \<longleftrightarrow> (\<exists>j i. task_turn co new_id True j i st = Some st') \<or> (\<exists>j. finish_job j st = Some st')"

lemma sum_list_less: "j < length xs \<Longrightarrow> w y < w (xs ! j) \<Longrightarrow> sum_list (map w (xs[j := y])) < (sum_list (map w xs) :: nat)"
proof (induction xs arbitrary: j)
  case (Cons x xs)
  then show ?case by (cases j) simp_all
qed simp

lemma work_turn:
  assumes "task_turn co new_id late j i st = Some st'"
  shows "work st' < work st"
  using assms
proof (rule task_turnE)
  fix d s s' jb' fl'
  let ?jb = "jo_jobs st ! j"
  assume j: "j < length (jo_jobs st)" and i: "i < length (jb_tasks ?jb)" "jb_tasks ?jb ! i = (d, s)"
    and t: "turn co new_id late d s ?jb (jo_fleet st) = Some (s', jb', fl')"
    and st': "st' = st\<lparr>jo_fleet := fl', jo_free := jo_free st - (if s = Waiting then 1 else 0) + (if finished s' then 1 else 0),
       jo_jobs := (jo_jobs st)[j := jb'\<lparr>jb_tasks := (jb_tasks ?jb)[i := (d, s')]\<rparr>]\<rparr>"
  have "tally rank (jb'\<lparr>jb_tasks := (jb_tasks ?jb)[i := (d, s')]\<rparr>) < tally rank ?jb"
    unfolding tally_def using sum_list_less [OF i(1), of "rank \<circ> snd" "(d, s')"] i(2) turn_effect(4) [OF t] by simp
  then have "work_of (jb'\<lparr>jb_tasks := (jb_tasks ?jb)[i := (d, s')]\<rparr>) < work_of ?jb"
    using turn_effect(1) [OF t] by (simp add: work_of_def same_job_def)
  then show ?thesis unfolding work_def st' using sum_list_less [OF j, of work_of] by simp
qed

lemma work_finish:
  assumes "finish_job j st = Some st'"
  shows "work st' < work st"
proof -
  let ?jb = "jo_jobs st ! j"
  have j: "j < length (jo_jobs st)" and d: "\<not> jb_done ?jb" and st': "jo_jobs st' = (jo_jobs st)[j := ?jb\<lparr>jb_done := True\<rparr>]"
    using assms by (auto simp: finish_job_def split: if_splits)
  have "work_of (?jb\<lparr>jb_done := True\<rparr>) < work_of ?jb" using d by (simp add: work_of_def tally_def)
  then show ?thesis unfolding work_def st' by (rule sum_list_less [OF j])
qed

lemma turn_enabled:
  assumes "\<not> finished s"
  shows "turn co new_id True d s jb fl \<noteq> None"
  using assms by (cases s) (auto simp: turn_defs split: option.splits prod.splits bool.splits sum.splits future.splits)

lemma task_enabled:
  assumes "j < length (jo_jobs st)" and "i < length (jb_tasks (jo_jobs st ! j))" and "jb_tasks (jo_jobs st ! j) ! i = (d, s)"
    and "\<not> finished s" and "s = Waiting \<Longrightarrow> 0 < jo_free st"
  shows "\<exists>st'. task_turn co new_id True j i st = Some st'"
  using turn_enabled [OF assms(4), of co new_id d "jo_jobs st ! j" "jo_fleet st"] assms
  by (auto simp: task_turn_def Let_def split: option.split)

lemma slot_holder:
  assumes "0 < slots_used st"
  obtains j i d s where "j < length (jo_jobs st)" "i < length (jb_tasks (jo_jobs st ! j))" "jb_tasks (jo_jobs st ! j) ! i = (d, s)" "in_slot s"
proof -
  have "\<exists>jb \<in> set (jo_jobs st). tasks_in in_slot jb \<noteq> 0"
  proof (rule ccontr)
    assume "\<not> ?thesis"
    then have "map (tally holds) (jo_jobs st) = map (\<lambda>_. 0) (jo_jobs st)" by (simp add: holds_in_slot)
    then have "slots_used st = sum_list (map (\<lambda>_. 0) (jo_jobs st))" unfolding slots_used_def by (rule arg_cong)
    then show False using assms by simp
  qed
  then obtain jb t where "jb \<in> set (jo_jobs st)" "t \<in> set (jb_tasks jb)" "in_slot (snd t)"
    by (auto simp: tasks_in_def filter_empty_conv)
  then show ?thesis using that by (metis in_set_conv_nth prod.collapse)
qed

lemma drives_enabled:
  assumes ok: "jobs_ok n st" and o: "jo_others st < transfer_slots n" and u: "jb \<in> set (jo_jobs st)" "\<not> jb_done jb"
  shows "\<exists>st'. drives co new_id st st'"
proof -
  obtain j where j: "j < length (jo_jobs st)" "jo_jobs st ! j = jb" using u by (metis in_set_conv_nth)
  show ?thesis
  proof (cases "list_all (\<lambda>(d, s). finished s) (jb_tasks jb)")
    case True
    then have "\<exists>st'. finish_job j st = Some st'" using j u by (simp add: finish_job_def)
    then show ?thesis unfolding drives_def by blast
  next
    case False
    then obtain i d s where i: "i < length (jb_tasks jb)" "jb_tasks jb ! i = (d, s)" "\<not> finished s"
      unfolding list_all_length split_beta by (metis prod.collapse)
    show ?thesis
    proof (cases "s = Waiting \<and> jo_free st = 0")
      case True
      then have "0 < slots_used st" using ok o by (simp add: jobs_ok_def)
      then obtain j' i' d' s' where h: "j' < length (jo_jobs st)" "i' < length (jb_tasks (jo_jobs st ! j'))"
          "jb_tasks (jo_jobs st ! j') ! i' = (d', s')" "in_slot s'" by (rule slot_holder)
      then have "\<not> finished s'" "s' \<noteq> Waiting" by (simp_all add: in_slot_def)
      then show ?thesis using task_enabled [OF h(1-3)] unfolding drives_def by blast
    next
      case False
      then have "\<exists>st'. task_turn co new_id True j i st = Some st'" using i j by (intro task_enabled) auto
      then show ?thesis unfolding drives_def by blast
    qed
  qed
qed

lemma drives_others: "drives co new_id st st' \<Longrightarrow> jo_others st' = jo_others st \<and> length (jo_jobs st') = length (jo_jobs st)"
  by (auto simp: drives_def finish_job_def elim!: task_turnE split: if_splits)

lemma drives_ok: "drives co new_id st st' \<Longrightarrow> jobs_ok n st \<Longrightarrow> jobs_ok n st'"
  unfolding drives_def using jobs_ok_turn jobs_ok_finish by blast

lemma drives_work: "drives co new_id st st' \<Longrightarrow> work st' < work st"
  unfolding drives_def using work_turn work_finish by blast

lemma drives_bound: "(drives co new_id ^^ k) st st' \<Longrightarrow> k + work st' \<le> work st"
proof (induction k arbitrary: st')
  case (Suc k)
  then show ?case using drives_work by fastforce
qed simp

lemma drives_done:
  assumes "jobs_ok n st" and "jo_others st < transfer_slots n"
  shows "\<exists>k st'. (drives co new_id ^^ k) st st' \<and> (\<forall>jb \<in> set (jo_jobs st'). jb_done jb)"
  using assms
proof (induction "work st" arbitrary: st rule: less_induct)
  case less
  show ?case
  proof (cases "\<forall>jb \<in> set (jo_jobs st). jb_done jb")
    case True
    then show ?thesis by (intro exI [of _ 0] exI [of _ st]) simp
  next
    case False
    then obtain st1 where s: "drives co new_id st st1" using drives_enabled less.prems by blast
    then obtain k st' where "(drives co new_id ^^ k) st1 st'" "\<forall>jb \<in> set (jo_jobs st'). jb_done jb"
      using less.hyps drives_work drives_ok drives_others less.prems by metis
    then show ?thesis using s relpowp_Suc_I2 by metis
  qed
qed

text \<open>
  (C16) Every job ends. From any state that a run can reach, as long as the dispatches of the push
  scheduler leave a slot, turns of the tasks and ends of jobs alone lead to a state in which all jobs are
  done, whatever the network does, whether or not a device ever answers: at the latest the time limit of
  its transfer gets a task on. It takes at most the work that is left, eight turns for a queued target and
  one for the end of a job, and no run of turns is longer.
\<close>

theorem jobs_end:
  assumes "(jobs_step hashes cfg)\<^sup>*\<^sup>* (no_jobs n) st" and "jo_others st < max 1 n"
  shows "(\<exists>k st'. k \<le> work st \<and> (drives co new_id ^^ k) st st' \<and> (\<forall>jb \<in> set (jo_jobs st'). jb_done jb)) \<and>
    (\<forall>k st'. (drives co new_id ^^ k) st st' \<longrightarrow> k \<le> work st)"
proof -
  have "jobs_ok n st" using assms(1) job_runs.reachable_ok by (simp add: job_runs.reachable_def)
  then obtain k st' where "(drives co new_id ^^ k) st st'" "\<forall>jb \<in> set (jo_jobs st'). jb_done jb"
    using drives_done [of n st co new_id] assms(2) by (auto simp: transfer_slots_def)
  moreover have "k \<le> work st" if "(drives co new_id ^^ k) st st'" for k st' using drives_bound [OF that] by simp
  ultimately show ?thesis by blast
qed

section \<open>Jobs and the rest of the server\<close>

lemma job_writes_step: "job_writes fl fl' \<Longrightarrow> fleet_step hashes cfg fl fl'"
  unfolding job_writes_def by (auto intro: fs_jobs)

lemma jobs_step_fleet: "jobs_step hashes cfg st st' \<Longrightarrow> (fleet_step hashes cfg)\<^sup>*\<^sup>* (jo_fleet st) (jo_fleet st')"
proof (induction rule: jobs_step.induct)
  case (js_turn co new_id late j i st st')
  then obtain d s s' jb' fl' where "turn co new_id late d s (jo_jobs st ! j) (jo_fleet st) = Some (s', jb', fl')" "jo_fleet st' = fl'"
    by (elim task_turnE) auto
  then show ?case using turn_writes job_writes_step by blast
next
  case (js_finish j st st')
  then have "job_writes (jo_fleet st) (jo_fleet st')" by (auto simp: finish_job_def split: if_splits)
  then show ?case using job_writes_step by blast
next
  case (js_start st r h)
  have "job_writes (jo_fleet st) (jo_fleet (start_job r h st))" by (simp add: start_job_def Let_def)
  then show ?case using job_writes_step by blast
qed auto


section \<open>Runs of one job\<close>

text \<open>One slot; a device that is online and one that is not.\<close>

definition demo_gate :: console where
  "demo_gate = \<lparr>co_sessions = (\<lambda>d. Some 1), co_device = (\<lambda>ws. Some ''d1''), co_net = (\<lambda>ws. True)\<rparr>"

definition demo_request :: job_request where
  "demo_request = Install_job (JStr ''u'') (JStr ''a.apk'') [''d1'', ''d2'']"

definition demo_turn :: "bool \<Rightarrow> nat \<Rightarrow> jobs \<Rightarrow> jobs" where
  "demo_turn late i st = (case task_turn demo_gate ''id'' late 0 i st of None \<Rightarrow> st | Some st' \<Rightarrow> st')"

definition demo_queued :: jobs where
  "demo_queued = start_job demo_request None ((no_jobs 1)\<lparr>jo_fleet := demo_online\<rparr>)"

definition demo_sent :: jobs where
  "demo_sent = demo_turn False 0 (demo_turn False 0 demo_queued)"

definition demo_moving :: jobs where
  "demo_moving = demo_turn False 0 demo_sent"

lemma demo_turn_run: "(jobs_step hashes cfg)\<^sup>*\<^sup>* st (demo_turn late i st)"
  by (auto simp: demo_turn_def intro: js_turn split: option.split)

lemma demo_queued_run: "(jobs_step (\<lambda>_. []) demo_config)\<^sup>*\<^sup>* (no_jobs 1) demo_queued"
proof -
  let ?s = "jobs_step (\<lambda>_. []) demo_config"
  have 1: "?s (no_jobs 1) ((no_jobs 1)\<lparr>jo_fleet := connect_socket 1 empty_fleet\<rparr>)"
    using fs_connect [of empty_fleet 1] by (intro js_world) (simp add: no_jobs_def empty_fleet_def)
  have 2: "?s ((no_jobs 1)\<lparr>jo_fleet := connect_socket 1 empty_fleet\<rparr>) ((no_jobs 1)\<lparr>jo_fleet := connect_socket 1 empty_fleet, jo_fleet := demo_online\<rparr>)"
    by (rule js_world) (simp add: demo_online_def demo_frame_step)
  have 3: "?s ((no_jobs 1)\<lparr>jo_fleet := connect_socket 1 empty_fleet, jo_fleet := demo_online\<rparr>) demo_queued"
    using js_start [of "\<lambda>_. []" demo_config "(no_jobs 1)\<lparr>jo_fleet := demo_online\<rparr>" demo_request None] by (simp add: demo_queued_def)
  show ?thesis
    using 1 2 3 by (meson converse_rtranclp_into_rtranclp rtranclp.rtrancl_refl)
qed

lemma demo_moving_run: "(jobs_step (\<lambda>_. []) demo_config)\<^sup>*\<^sup>* (no_jobs 1) demo_moving"
  unfolding demo_moving_def demo_sent_def using demo_queued_run demo_turn_run by (meson rtranclp_trans)

lemma demo_online_eval:
  "map_of (fl_devices demo_online) ''d1'' \<noteq> None \<and> fst (the (map_of (fl_devices demo_online) ''d1'')) = 1 \<and>
   command_allowed (Some (snd (the (map_of (fl_devices demo_online) ''d1'')))) (Some ''EXECUTE_INSTALL'') \<and>
   fl_transfers demo_online = \<lparr>ad_registry = no_waiters, ad_keys = []\<rparr> \<and> fl_provisional demo_online = []"
  by code_simp

lemma job_broadcast_fields [simp]:
  "fl_devices (broadcast_state r ds t det fl) = fl_devices fl" "fl_provisional (broadcast_state r ds t det fl) = fl_provisional fl"
  "fl_transfers (broadcast_state r ds t det fl) = fl_transfers fl" "fl_devices (broadcast_progress b jb fl) = fl_devices fl"
  "fl_provisional (broadcast_progress b jb fl) = fl_provisional fl" "fl_transfers (broadcast_progress b jb fl) = fl_transfers fl"
  by (simp_all add: broadcast_state_def broadcast_install_state_def broadcast_push_state_def broadcast_progress_def forward_def
      send_out_def split: job_request.split)

lemma demo_job: "jb_tasks (new_job demo_request None) = [(''d1'', Waiting), (''d2'', Waiting)]"
    "jb_request (new_job demo_request None) = demo_request"
  by (simp_all add: new_job_def demo_request_def)

lemma demo_sent_eval:
  "\<exists>jb. jo_jobs demo_sent = [jb] \<and> jb_tasks jb = [(''d1'', Sent), (''d2'', Waiting)] \<and> jb_request jb = demo_request \<and> \<not> jb_done jb \<and>
     jb_failed jb = 0 \<and> jo_free demo_sent = 0 \<and> jo_others demo_sent = 0 \<and> fl_transfers (jo_fleet demo_sent) = \<lparr>ad_registry = no_waiters, ad_keys = []\<rparr> \<and>
     fl_devices (jo_fleet demo_sent) = fl_devices demo_online"
proof -
  obtain e where d: "map_of (fl_devices demo_online) ''d1'' = Some (1, e)" "command_allowed (Some e) (Some ''EXECUTE_INSTALL'')"
    using demo_online_eval by (cases "map_of (fl_devices demo_online) ''d1''") auto
  let ?jb = "(new_job demo_request None)\<lparr>jb_queued := 1\<rparr>"
  have q: "jo_jobs demo_queued = [new_job demo_request None]" "jo_free demo_queued = 1" "jo_others demo_queued = 0"
      "fl_devices (jo_fleet demo_queued) = fl_devices demo_online" "fl_provisional (jo_fleet demo_queued) = []"
      "fl_transfers (jo_fleet demo_queued) = \<lparr>ad_registry = no_waiters, ad_keys = []\<rparr>"
    using demo_online_eval by (simp_all add: demo_queued_def start_job_def no_jobs_def transfer_slots_def Let_def)
  have 1: "demo_turn False 0 demo_queued = demo_queued\<lparr>jo_free := 0, jo_jobs := [?jb\<lparr>jb_tasks := [(''d1'', Sending 1), (''d2'', Waiting)]\<rparr>]\<rparr>"
    using d by (simp add: demo_turn_def task_turn_def q demo_job Let_def) (simp add: demo_request_def new_job_def)
  have "send_allowed demo_gate (jo_fleet demo_queued) 1 ''EXECUTE_INSTALL'' ((''type'', JStr ''EXECUTE_INSTALL'') # execute_args ?jb)"
    using d q by (simp add: send_allowed_def session_frames_def demo_gate_def owner_gate_def execute_args_def new_job_def demo_request_def jget_def)
  then have 2: "demo_sent = demo_queued\<lparr>jo_fleet := snd (send_command demo_gate 1 ''EXECUTE_INSTALL'' (execute_args ?jb) (jo_fleet demo_queued)),
      jo_free := 0, jo_jobs := [?jb\<lparr>jb_tasks := [(''d1'', Sent), (''d2'', Waiting)]\<rparr>]\<rparr>"
    unfolding demo_sent_def 1
    by (simp add: demo_turn_def task_turn_def Let_def send_command_def demo_gate_def execute_args_def) (simp add: demo_request_def new_job_def)
  show ?thesis unfolding 2 by (simp add: q demo_job send_command_def send_out_def Let_def) (simp add: new_job_def)
qed

lemma begin_demo:
  assumes "jo_jobs st = [jb]" "jb_tasks jb = [(''d1'', Sent), (''d2'', Waiting)]" "jb_request jb = demo_request"
    "fl_transfers (jo_fleet st) = \<lparr>ad_registry = no_waiters, ad_keys = []\<rparr>"
  shows "\<exists>fl a. demo_turn False 0 st = st\<lparr>jo_fleet := fl, jo_jobs := [jb\<lparr>jb_transferring := jb_transferring jb + 1,
      jb_tasks := [(''d1'', Started 0), (''d2'', Waiting)]\<rparr>]\<rparr> \<and> fl_transfers fl = a \<and> w_heap (ad_registry a) = [Pending] \<and>
    fl_devices fl = fl_devices (jo_fleet st)"
proof -
  obtain a where a: "ad_set ''id'' (''d1'', ''install'') 0 \<lparr>ad_registry = no_waiters\<lparr>w_heap := [Pending]\<rparr>, ad_keys = []\<rparr> = (Inr (), a)"
      "w_heap (ad_registry a) = [Pending]"
    by (auto simp: ad_set_def ad_key_def drop_previous_def TransferKey_def register_def no_waiters_def w_get_def Let_def)
  let ?fl = "record_dispatch ''d1'' jb (jo_fleet st)"
  have r: "fl_transfers ?fl = \<lparr>ad_registry = no_waiters, ad_keys = []\<rparr>" "fl_devices ?fl = fl_devices (jo_fleet st)"
    using assms(4) by (simp_all add: record_dispatch_def Let_def split: job_request.split)
  have n: "task_name demo_request = ''install''" "w_heap no_waiters = []"
    by (simp_all add: task_name_def demo_request_def no_waiters_def)
  show ?thesis
    using a assms(1-3)
    by (intro exI [of _ "broadcast_state demo_request [''d1''] ''transferring'' [] (?fl\<lparr>fl_transfers := a\<rparr>)"] exI [of _ a])
      (simp add: demo_turn_def task_turn_def begin_transfer_def r n create_future_def Let_def)
qed

lemma demo_moving_eval:
  "\<exists>jb. jo_jobs demo_moving = [jb] \<and> jb_tasks jb = [(''d1'', Started 0), (''d2'', Waiting)] \<and> jb_request jb = demo_request \<and>
     \<not> jb_done jb \<and> jo_free demo_moving = 0 \<and> jo_others demo_moving = 0"
proof -
  obtain jb where s: "jo_jobs demo_sent = [jb]" "jb_tasks jb = [(''d1'', Sent), (''d2'', Waiting)]" "jb_request jb = demo_request" "\<not> jb_done jb"
      "jo_free demo_sent = 0" "jo_others demo_sent = 0" "fl_transfers (jo_fleet demo_sent) = \<lparr>ad_registry = no_waiters, ad_keys = []\<rparr>"
    using demo_sent_eval by blast
  obtain fl where m: "demo_moving = demo_sent\<lparr>jo_fleet := fl, jo_jobs := [jb\<lparr>jb_transferring := jb_transferring jb + 1,
      jb_tasks := [(''d1'', Started 0), (''d2'', Waiting)]\<rparr>]\<rparr>"
    unfolding demo_moving_def using begin_demo [OF s(1,2,3,7)] by blast
  show ?thesis unfolding m using s by simp
qed

theorem transfer_slots_bounded_witness:
  "\<exists>jb. jo_jobs demo_moving = [jb] \<and> tasks_in in_slot jb = 1 \<and> jo_free demo_moving = 0 \<and>
     jb_queued jb + jb_transferring jb + jb_transferred jb + jb_failed jb = 2"
proof -
  obtain jb where jb: "jo_jobs demo_moving = [jb]" "jb_tasks jb = [(''d1'', Started 0), (''d2'', Waiting)]" "jb_request jb = demo_request"
      "jo_free demo_moving = 0" "jo_others demo_moving = 0" using demo_moving_eval by blast
  have "jb_total jb = 2" "tasks_in is_sending jb = 0" "tasks_in is_cut jb = 0" "tasks_in is_broken jb = 0"
    by (simp_all add: jb_total_def jb demo_request_def tasks_in_def)
  then show ?thesis using transfer_slots_bounded [OF demo_moving_run] jb by simp
qed

theorem jobs_end_witness:
  "\<exists>k st'. k \<le> 14 \<and> (drives demo_gate ''id'' ^^ k) demo_moving st' \<and> (\<forall>jb \<in> set (jo_jobs st'). jb_done jb)"
proof -
  have "work demo_moving = 14" "jo_others demo_moving < max 1 1"
    using demo_moving_eval by (auto simp: work_def work_of_def tally_def)
  then show ?thesis using jobs_end [OF demo_moving_run, of demo_gate "''id''"] by metis
qed


text \<open>
  A device that reports the end of its download while the server still waits for the send of the command
  to complete is not heard: the waiter is entered only afterwards. The transfer then waits although it is
  over, and counts as failed when its time is up.
\<close>

definition demo_early :: jobs where
  "demo_early = demo_turn False 0 (demo_turn False 0 (demo_turn False 0
     (demo_sent\<lparr>jo_fleet := slot_release ''d1'' ''download_complete'' (Some ''install'') (jo_fleet demo_sent)\<rparr>)))"

theorem early_completion_lost:
  "map jb_tasks (jo_jobs demo_early) = [[(''d1'', Transferring 0), (''d2'', Waiting)]] \<and>
   task_turn demo_gate ''id'' False 0 0 demo_early = None \<and>
   map jb_failed (jo_jobs (demo_turn True 0 demo_early)) = [1]"
proof -
  obtain jb where s: "jo_jobs demo_sent = [jb]" "jb_tasks jb = [(''d1'', Sent), (''d2'', Waiting)]" "jb_request jb = demo_request" "jb_failed jb = 0"
      "fl_transfers (jo_fleet demo_sent) = \<lparr>ad_registry = no_waiters, ad_keys = []\<rparr>"
    using demo_sent_eval by blast
  let ?st = "demo_sent\<lparr>jo_fleet := slot_release ''d1'' ''download_complete'' (Some ''install'') (jo_fleet demo_sent)\<rparr>"
  have "fl_transfers (jo_fleet ?st) = \<lparr>ad_registry = no_waiters, ad_keys = []\<rparr>"
    by (simp add: slot_release_def release_transfer_slot_def release_slot_def ad_get_def s(5))
  then obtain fl where m: "demo_turn False 0 ?st = ?st\<lparr>jo_fleet := fl, jo_jobs := [jb\<lparr>jb_transferring := jb_transferring jb + 1,
      jb_tasks := [(''d1'', Started 0), (''d2'', Waiting)]\<rparr>]\<rparr>" "w_heap (ad_registry (fl_transfers fl)) = [Pending]"
    using begin_demo [of ?st jb] s by auto
  let ?jb = "jb\<lparr>jb_transferring := jb_transferring jb + 1, jb_tasks := [(''d1'', Transferring 0), (''d2'', Waiting)]\<rparr>"
  obtain fl' where e: "demo_early = ?st\<lparr>jo_fleet := fl', jo_jobs := [?jb]\<rparr>" "w_heap (ad_registry (fl_transfers fl')) = [Pending]"
    unfolding demo_early_def m(1) using m(2) by (simp add: demo_turn_def task_turn_def Let_def)
  show ?thesis
    unfolding e(1) using s(4) e(2) by (simp add: demo_turn_def task_turn_def await_transfer_def future_at_def Let_def)
qed

section \<open>What a job sends to devices\<close>

lemma broadcast_sends [simp]:
  assumes "sends P fl x"
  shows "sends P fl (broadcast_state r ds t det x)" "sends P fl (broadcast_progress b jb x)" "sends P fl (record_dispatch d jb x)"
    "sends P fl (x\<lparr>fl_transfers := a\<rparr>)"
proof -
  have f: "sends P fl (forward m x)" for m using assms by (auto simp: forward_def intro: sends_out)
  show "sends P fl (broadcast_state r ds t det x)" "sends P fl (broadcast_progress b jb x)"
    using assms f by (auto simp: broadcast_state_def broadcast_install_state_def broadcast_push_state_def broadcast_progress_def split: job_request.split)
  show "sends P fl (record_dispatch d jb x)" "sends P fl (x\<lparr>fl_transfers := a\<rparr>)"
    using assms by (auto simp: sends_def record_dispatch_def Let_def split: job_request.split)
qed

text \<open>
  A turn puts at most the command of its job on a device socket, and only through the gate of that socket:
  an install or push reaches a device only while it may take the command, though the target was chosen earlier.
\<close>

theorem turn_sends_gated:
  assumes "turn co new_id late d s jb fl = Some (s', jb', fl')"
  shows "sends (cleared co fl (\<lambda>typ args. typ = execute_type (jb_request jb) \<and> args = execute_args jb)) fl fl'"
proof -
  have t: "execute_type r \<notin> session_frames" for r by (cases r) (simp_all add: session_frames_def)
  define Q :: "string \<Rightarrow> jobject \<Rightarrow> bool" where "Q = (\<lambda>typ args. typ = execute_type (jb_request jb) \<and> args = execute_args jb)"
  have "Q (execute_type (jb_request jb)) (execute_args jb)" by (simp add: Q_def)
  then have "sends (cleared co fl Q) fl x" if "send_command co ws (execute_type (jb_request jb)) (execute_args jb) fl = (b, x)" for ws b x
    using send_command_effect [OF that t _ same_gate_refl, of Q] by simp
  then have "sends (cleared co fl Q) fl fl'"
    using assms by (cases s) (auto simp: turn_defs split: option.splits prod.splits if_splits bool.splits sum.splits future.splits)
  then show ?thesis by (simp add: Q_def)
qed

section \<open>The cache of reference hashes\<close>

definition cache_ok :: "(byte list \<Rightarrow> string) \<Rightarrow> (string \<Rightarrow> (int \<times> byte list) option) \<Rightarrow> hash_cache \<Rightarrow> bool" where
  "cache_ok sha256 stat cache \<longleftrightarrow> length cache \<le> HASH_CACHE_LIMIT \<and>
     (\<forall>safe mtime f h. stat safe = Some (mtime, f) \<longrightarrow> map_of cache (safe, length f, mtime) = Some h \<longrightarrow> compute_apk_hashes sha256 f = Inr h)"

text \<open>
  The cache changes nothing: while a file keeps its content as long as it keeps its size and time, the
  hashes are those of the file as it is, and the cache stays within its bound.
\<close>

theorem apk_hashes_cached:
  assumes "cache_ok sha256 stat cache"
  shows "fst (apk_hashes_for sha256 stat filename cache) = fst (apk_hashes_for sha256 stat filename [])"
    "cache_ok sha256 stat (snd (apk_hashes_for sha256 stat filename cache))"
proof -
  show "fst (apk_hashes_for sha256 stat filename cache) = fst (apk_hashes_for sha256 stat filename [])"
    using assms by (auto simp: apk_hashes_for_def cache_ok_def Let_def split: option.splits sum.splits prod.splits)
  have u: "length (AList.update k v xs) \<le> Suc (length xs)" for k v and xs :: hash_cache by (induction xs) auto
  have "cache_ok sha256 stat (AList.update (safe, length f, mtime) h c)"
    if "c = [] \<or> c = cache \<and> length cache < HASH_CACHE_LIMIT" "stat safe = Some (mtime, f)" "compute_apk_hashes sha256 f = Inr h" for safe mtime f h c
  proof -
    have "length (AList.update (safe, length f, mtime) h c) \<le> HASH_CACHE_LIMIT"
      using that(1) u [of "(safe, length f, mtime)" h c] by (auto simp: HASH_CACHE_LIMIT_def)
    then show ?thesis using assms that by (auto simp: cache_ok_def update_conv' split: if_splits)
  qed
  then show "cache_ok sha256 stat (snd (apk_hashes_for sha256 stat filename cache))"
    using assms by (auto simp: apk_hashes_for_def Let_def split: option.splits sum.splits prod.splits)
qed

end
