(* ===== verification/Fleet_Uploads.thy ===== *)
theory Fleet_Uploads
  imports Push_Uploads Fleet_Devices
begin

text \<open>
  The uploads of the established server (\<^verbatim>\<open>upload_apk_handler\<close> and \<^verbatim>\<open>upload_bundle_handler\<close> of
  \<^verbatim>\<open>server.py\<close>). A directory is the list of its files with their bytes. The clock, the base URL, the
  percent-decoding of names and the archive of a tree are arguments; messages leave out the name they quote.
  The request is a stream of parts that
  may break anywhere. Neither handler waits between the choice of a file name and the creation of the file.
\<close>

section \<open>The upload of an APK\<close>

datatype answer = A_json int jobject | A_raised

definition json_error :: "int \<Rightarrow> string \<Rightarrow> answer" where
  "json_error status m = A_json status [(''error'', JStr m)]"

definition MAX_APK_SIZE :: nat where
  "MAX_APK_SIZE = 2 * 1024 * 1024 * 1024"

datatype chunk_end = Stored | Too_big | Stopped failure

text \<open>The loop over the chunks of a part, with the size counted and the bytes written when it stops.\<close>

fun store_chunks :: "nat \<Rightarrow> failure option \<Rightarrow> byte list list \<Rightarrow> nat \<Rightarrow> byte list \<Rightarrow> chunk_end \<times> nat \<times> byte list" where
  "store_chunks limit fails [] n content = (case fails of None \<Rightarrow> Stored | Some f \<Rightarrow> Stopped f, n, content)"
| "store_chunks limit fails (chunk # chunks) n content =
     (if chunk = [] then (Stored, n, content)
      else if limit < n + length chunk then (Too_big, n + length chunk, content)
      else store_chunks limit fails chunks (n + length chunk) (content @ chunk))"

text \<open>
  \<open>listing\<close> is what the scan for client APKs finds in the directory. The request fails as a whole, or its
  first part cannot be read (which the handler does not catch), or it is there or missing.
\<close>

definition upload_apk_handler ::
  "nat \<Rightarrow> string \<Rightarrow> string \<Rightarrow> (tree \<Rightarrow> apk_entry list) \<Rightarrow> failure + failure + part option \<Rightarrow> tree \<Rightarrow> fleet \<Rightarrow> answer \<times> tree \<times> fleet" where
  "upload_apk_handler limit timestamp base listing request apks st =
     (case request of
        Inl F_cancelled \<Rightarrow> (A_raised, apks, st)
      | Inl (F_error e) \<Rightarrow> (json_error 400 (''Invalid multipart request: '' @ error_text e), apks, st)
      | Inr (Inl f) \<Rightarrow> (A_raised, apks, st)
      | Inr (Inr None) \<Rightarrow> (json_error 400 (''multipart field '' @ [CHR 39] @ ''apk'' @ [CHR 39] @ '' is required''), apks, st)
      | Inr (Inr (Some p)) \<Rightarrow>
          if pt_name p \<noteq> ''apk''
          then (json_error 400 (''multipart field '' @ [CHR 39] @ ''apk'' @ [CHR 39] @ '' is required''), apks, st)
          else (case sanitize_apk_filename (pt_filename p) of
              None \<Rightarrow> (json_error 400 ''Uploaded file must have a .apk extension'', apks, st)
            | Some safe_name \<Rightarrow>
                let destination = unique_path (map fst apks) timestamp safe_name in
                (case store_chunks limit (pt_fails p) (pt_chunks p) 0 [] of
                   (Too_big, n, c) \<Rightarrow> (json_error 413 ''APK exceeds 2 GiB limit'', apks, st)
                 | (Stopped F_cancelled, n, c) \<Rightarrow> (A_raised, apks @ [(destination, c)], st)
                 | (Stopped (F_error e), n, c) \<Rightarrow> (json_error 500 (''Failed to store APK: '' @ error_text e), apks, st)
                 | (Stored, n, c) \<Rightarrow>
                     if n = 0 then (json_error 400 ''Uploaded APK is empty'', apks, st)
                     else
                       let apks1 = apks @ [(destination, c)] in
                       (A_json 200 [(''apk_filename'', JStr destination), (''apk_url'', JStr (base @ ''/apks/'' @ destination)),
                          (''size'', JInt (int n))], apks1, send_out (To_admins (build_client_apk_msg (listing apks1))) st))))"

section \<open>The upload of a bundle\<close>

record staging =
  sg_files :: tree
  sg_paths :: "string list"
  sg_skipped :: "string list"
  sg_size :: nat

definition is_within :: "string \<Rightarrow> bool" where
  "is_within rel = (\<not> prefix ''/'' rel \<and> ''..'' \<notin> set (split (CHR ''/'') rel))"

text \<open>A file replaces an earlier one of the same path; a directory in its place or a file above it is an error.\<close>

definition obstructed :: "tree \<Rightarrow> string \<Rightarrow> bool" where
  "obstructed files rel = list_ex (\<lambda>(p, c). prefix (p @ ''/'') rel \<or> prefix (rel @ ''/'') p) files"

text \<open>The rest of a part that is not stored is read before the next part.\<close>

definition skip_part :: "part \<Rightarrow> staging \<Rightarrow> answer + staging" where
  "skip_part p sg =
     (case drain p of
        Inl F_cancelled \<Rightarrow> Inl A_raised
      | Inl (F_error e) \<Rightarrow> Inl (json_error 500 (''Failed to build bundle: '' @ error_text e))
      | Inr u \<Rightarrow> Inr sg)"

definition stage_part :: "upload_limits \<Rightarrow> (string \<Rightarrow> string) \<Rightarrow> part \<Rightarrow> staging \<Rightarrow> answer + staging" where
  "stage_part lim unquote p sg =
     (if pt_name p \<noteq> ''files'' then skip_part p sg
      else (case sanitize_relpath (case pt_filename p of None \<Rightarrow> None | Some raw \<Rightarrow> if raw = [] then None else Some (unquote raw)) of
          None \<Rightarrow> Inl (json_error 400 ''Invalid file path in upload'')
        | Some rel \<Rightarrow>
            if is_os_metadata rel then skip_part p (sg\<lparr>sg_skipped := sg_skipped sg @ [rel]\<rparr>)
            else if MAX_BUNDLE_ENTRIES lim \<le> length (sg_paths sg)
            then Inl (json_error 413 (''Bundle exceeds the '' @ show_nat (MAX_BUNDLE_ENTRIES lim) @ ''-file limit''))
            else if \<not> is_within rel then Inl (json_error 400 ''Invalid file path in upload'')
            else if obstructed (sg_files sg) rel then Inl (json_error 500 ''Failed to build bundle: not a directory'')
            else (case store_chunks (MAX_BUNDLE_SIZE lim) (pt_fails p) (pt_chunks p) (sg_size sg) [] of
                (Too_big, n, c) \<Rightarrow> Inl (json_error 413 ''Bundle exceeds 2 GiB limit'')
              | (Stopped F_cancelled, n, c) \<Rightarrow> Inl A_raised
              | (Stopped (F_error e), n, c) \<Rightarrow> Inl (json_error 500 (''Failed to build bundle: '' @ error_text e))
              | (Stored, n, c) \<Rightarrow> Inr \<lparr>sg_files = AList.update rel c (sg_files sg), sg_paths = sg_paths sg @ [rel],
                  sg_skipped = sg_skipped sg, sg_size = n\<rparr>)))"

fun stage_parts :: "upload_limits \<Rightarrow> (string \<Rightarrow> string) \<Rightarrow> part list \<Rightarrow> staging \<Rightarrow> answer + staging" where
  "stage_parts lim unquote [] sg = Inr sg"
| "stage_parts lim unquote (p # ps) sg = rbind (stage_part lim unquote p sg) (stage_parts lim unquote ps)"

text \<open>The archived tree and the base name of the bundle.\<close>

definition bundle_of :: "string list \<Rightarrow> tree \<Rightarrow> tree \<times> string" where
  "bundle_of relpaths files =
     (case strip_common_root relpaths of
        (Some root, stripped) \<Rightarrow> (below root files, bundle_basename [root])
      | (None, stripped) \<Rightarrow> (files, bundle_basename relpaths))"

definition upload_bundle_handler ::
  "upload_limits \<Rightarrow> (string \<Rightarrow> string) \<Rightarrow> (tree \<Rightarrow> byte list) \<Rightarrow> string \<Rightarrow> string \<Rightarrow> failure + part list \<times> failure option \<Rightarrow> tree \<Rightarrow> answer \<times> tree" where
  "upload_bundle_handler lim unquote archive timestamp base request bundles =
     (case request of
        Inl F_cancelled \<Rightarrow> (A_raised, bundles)
      | Inl (F_error e) \<Rightarrow> (json_error 400 (''Invalid multipart request: '' @ error_text e), bundles)
      | Inr (ps, fails) \<Rightarrow>
          (case stage_parts lim unquote ps \<lparr>sg_files = [], sg_paths = [], sg_skipped = [], sg_size = 0\<rparr> of
             Inl a \<Rightarrow> (a, bundles)
           | Inr sg \<Rightarrow>
               (case fails of
                  Some F_cancelled \<Rightarrow> (A_raised, bundles)
                | Some (F_error e) \<Rightarrow> (json_error 500 (''Failed to build bundle: '' @ error_text e), bundles)
                | None \<Rightarrow>
                    if sg_paths sg = [] then
                      (json_error 400 (if sg_skipped sg \<noteq> [] then ''Upload contained only OS metadata files; nothing to send''
                         else ''multipart field '' @ [CHR 39] @ ''files'' @ [CHR 39] @ '' is required''), bundles)
                    else (case bundle_of (sg_paths sg) (sg_files sg) of (content, name) \<Rightarrow>
                      let bundle = unique_path (map fst bundles) timestamp (name @ ''.zip''); bytes = archive (zip_entries content) in
                      (A_json 200 [(''bundle_filename'', JStr bundle), (''bundle_url'', JStr (base @ ''/bundles/'' @ bundle)),
                         (''size'', JInt (int (length bytes))), (''entry_count'', JInt (int (length (sg_paths sg)))),
                         (''skipped_count'', JInt (int (length (sg_skipped sg))))], bundles @ [(bundle, bytes)])))))"

section \<open>What the uploads do to their directories\<close>

lemma store_chunks_result:
  "store_chunks limit fails cs n content = (Stored, n', content') \<Longrightarrow> n \<le> limit \<Longrightarrow>
     n' \<le> limit \<and> n' + length content = n + length content' \<and> content' = content @ concat (takeWhile (\<lambda>c. c \<noteq> []) cs)"
proof (induction cs arbitrary: n content)
  case (Cons c cs)
  then show ?case by (fastforce split: if_splits)
qed (auto split: option.splits)

text \<open>One file has been added to a directory, under a name that was free.\<close>

definition added_file :: "tree \<Rightarrow> tree \<Rightarrow> string \<Rightarrow> byte list \<Rightarrow> bool" where
  "added_file files files' name bytes \<longleftrightarrow> files' = files @ [(name, bytes)] \<and> map_of files name = None"

lemma added_unique: "added_file files (files @ [(unique_path (map fst files) t n, c)]) (unique_path (map fst files) t n) c"
  using unique_path_fresh [of "map fst files" t n] by (simp add: added_file_def map_of_eq_None_iff)

lemma added_keeps: "added_file files files' name bytes \<Longrightarrow> map_of files k = Some b \<Longrightarrow> map_of files' k = Some b"
  by (auto simp: added_file_def map_add_def split: option.splits)


text \<open>What has been staged: safe paths, the last content of each, within the limits.\<close>

definition staged_ok :: "upload_limits \<Rightarrow> staging \<Rightarrow> bool" where
  "staged_ok lim sg \<longleftrightarrow> distinct (map fst (sg_files sg)) \<and> set (map fst (sg_files sg)) = set (sg_paths sg) \<and>
     length (sg_paths sg) \<le> MAX_BUNDLE_ENTRIES lim \<and> sg_size sg \<le> MAX_BUNDLE_SIZE lim \<and>
     (\<forall>rel \<in> set (sg_paths sg). sanitize_relpath (Some rel) = Some rel \<and> \<not> is_os_metadata rel)"

lemma skip_part_result: "skip_part p sg = Inr sg' \<Longrightarrow> sg' = sg" "skip_part p sg = Inl a \<Longrightarrow> a = A_raised \<or> (\<exists>m. a = json_error 500 m)"
  by (auto simp: skip_part_def split: sum.splits failure.splits)

lemma stage_part_cases:
  assumes "stage_part lim unquote p sg = Inr sg'"
  obtains "sg_files sg' = sg_files sg" "sg_paths sg' = sg_paths sg" "sg_size sg' = sg_size sg"
  | raw rel n c where "sanitize_relpath raw = Some rel" "\<not> is_os_metadata rel" "length (sg_paths sg) < MAX_BUNDLE_ENTRIES lim"
      "store_chunks (MAX_BUNDLE_SIZE lim) (pt_fails p) (pt_chunks p) (sg_size sg) [] = (Stored, n, c)"
      "sg' = \<lparr>sg_files = AList.update rel c (sg_files sg), sg_paths = sg_paths sg @ [rel], sg_skipped = sg_skipped sg, sg_size = n\<rparr>"
proof -
  define raw where "raw = (case pt_filename p of None \<Rightarrow> None | Some raw \<Rightarrow> if raw = [] then None else Some (unquote raw))"
  obtain e n c where w: "store_chunks (MAX_BUNDLE_SIZE lim) (pt_fails p) (pt_chunks p) (sg_size sg) [] = (e, n, c)"
    by (cases "store_chunks (MAX_BUNDLE_SIZE lim) (pt_fails p) (pt_chunks p) (sg_size sg) []")
  note u = assms [unfolded stage_part_def raw_def [symmetric] w]
  show ?thesis
  proof (cases "pt_name p = ''files''")
    case True
    then obtain rel where rel: "sanitize_relpath raw = Some rel" using u by (cases "sanitize_relpath raw") simp_all
    show ?thesis
    proof (cases "is_os_metadata rel")
      case False
      note u' = u [unfolded rel option.case, simplified True False if_True if_False simp_thms]
      have "e = Stored" "length (sg_paths sg) < MAX_BUNDLE_ENTRIES lim"
        using u' by (simp_all split: if_splits chunk_end.splits failure.splits)
      then show ?thesis using u' False that(2) [OF rel] w by (simp split: if_splits)
    qed (use u True rel that(1) in \<open>auto dest!: skip_part_result(1)\<close>)
  qed (use u that(1) in \<open>auto dest!: skip_part_result(1)\<close>)
qed

lemma stage_part_ok:
  assumes "stage_part lim unquote p sg = Inr sg'" and "staged_ok lim sg"
  shows "staged_ok lim sg'"
  using assms(1)
proof (rule stage_part_cases)
  fix raw rel n c
  assume r: "sanitize_relpath raw = Some rel" "\<not> is_os_metadata rel" "length (sg_paths sg) < MAX_BUNDLE_ENTRIES lim"
      "store_chunks (MAX_BUNDLE_SIZE lim) (pt_fails p) (pt_chunks p) (sg_size sg) [] = (Stored, n, c)"
      "sg' = \<lparr>sg_files = AList.update rel c (sg_files sg), sg_paths = sg_paths sg @ [rel], sg_skipped = sg_skipped sg, sg_size = n\<rparr>"
  have "n \<le> MAX_BUNDLE_SIZE lim" using store_chunks_result [OF r(4)] assms(2) by (auto simp: staged_ok_def)
  moreover have "sanitize_relpath (Some rel) = Some rel" using sanitize_relpath_safe [OF r(1)] by blast
  moreover have "distinct (map fst (AList.update rel c (sg_files sg)))"
    using assms(2) by (intro distinct_update) (simp add: staged_ok_def)
  ultimately show ?thesis using assms(2) r by (simp add: staged_ok_def dom_update)
qed (use assms(2) in \<open>simp add: staged_ok_def\<close>)

lemma stage_parts_ok: "stage_parts lim unquote ps sg = Inr sg' \<Longrightarrow> staged_ok lim sg \<Longrightarrow> staged_ok lim sg'"
  by (induction ps arbitrary: sg) (auto simp: rbind_eq_Inr dest: stage_part_ok)

definition refused :: "answer \<Rightarrow> bool" where
  "refused a \<longleftrightarrow> a = A_raised \<or> (\<exists>status m. a = json_error status m \<and> status \<noteq> 200)"

lemma refused_errors [simp]: "refused A_raised" "status \<noteq> 200 \<Longrightarrow> refused (json_error status m)"
  by (auto simp: refused_def)

lemma stage_part_refused: "stage_part lim unquote p sg = Inl a \<Longrightarrow> refused a"
proof -
  define raw where "raw = (case pt_filename p of None \<Rightarrow> None | Some raw \<Rightarrow> if raw = [] then None else Some (unquote raw))"
  obtain e n c where w: "store_chunks (MAX_BUNDLE_SIZE lim) (pt_fails p) (pt_chunks p) (sg_size sg) [] = (e, n, c)"
    by (cases "store_chunks (MAX_BUNDLE_SIZE lim) (pt_fails p) (pt_chunks p) (sg_size sg) []")
  assume "stage_part lim unquote p sg = Inl a"
  note u = this [unfolded stage_part_def raw_def [symmetric] w]
  show ?thesis using u by (cases "sanitize_relpath raw"; cases e) (auto split: if_splits failure.splits dest!: skip_part_result(2))
qed

lemma stage_parts_refused: "stage_parts lim unquote ps sg = Inl a \<Longrightarrow> refused a"
  by (induction ps arbitrary: sg) (auto simp: rbind_eq_Inl dest: stage_part_refused)


section \<open>Uploads of a small server\<close>

definition demo_apk :: part where
  "demo_apk = \<lparr>pt_name = ''apk'', pt_filename = Some ''app.apk'', pt_chunks = [[1, 2], [3]], pt_fails = None\<rparr>"

definition demo_apk_upload :: "answer \<times> tree \<times> fleet" where
  "demo_apk_upload = upload_apk_handler 10 ''t'' ''http://h'' (\<lambda>_. []) (Inr (Inr (Some demo_apk))) [(''app.apk'', [7])] empty_fleet"

text \<open>A directory is sent with one of its files twice; the archive is taken to be the concatenation.\<close>

definition demo_bundle_upload :: "answer \<times> tree" where
  "demo_bundle_upload = upload_bundle_handler \<lparr>MAX_BUNDLE_ENTRIES = 10, MAX_BUNDLE_SIZE = 100\<rparr> id (\<lambda>es. concat (map snd es)) ''t'' ''http://h''
     (Inr ([demo_part ''app/a'' [1], demo_part ''app/b'' [2], demo_part ''app/a'' [3]], None)) [(''app.zip'', [7])]"

definition answer_status :: "answer \<Rightarrow> int" where
  "answer_status a = (case a of A_json status body \<Rightarrow> status | A_raised \<Rightarrow> 0)"

lemma demo_upload_answers:
  "answer_status (fst demo_apk_upload) = 200" "answer_status (fst demo_bundle_upload) = 200"
  by code_simp+

lemma answer_200: "answer_status a = 200 \<longleftrightarrow> (\<exists>body. a = A_json 200 body)"
  by (auto simp: answer_status_def split: answer.splits)

lemma refused_status: "refused a \<Longrightarrow> answer_status a \<noteq> 200"
  by (auto simp: refused_def json_error_def answer_status_def)



end
