(* ===== verification/Spec2Isabelle.thy ===== *)
theory Spec2Isabelle
  imports Push_Upload_Runs Fleet_Properties Fleet_Jobs Fleet_Uploads
begin

text \<open>
  The server of STYLY-MDM (\<^verbatim>\<open>src/mdm-server/styly_mdm\<close>) manages headsets over web sockets: devices register
  and report, consoles send commands, and files and applications are pushed to the devices. It has two
  layers. The established server (\<^verbatim>\<open>server.py\<close>) keeps the registry of devices, labels and groups,
  serves both kinds of sockets and runs its own install and push jobs in memory. The push subsystem
  (\<^verbatim>\<open>push_*.py\<close>, \<^verbatim>\<open>transfer_registry.py\<close>) makes push jobs durable: requests, assignments and results live
  in SQLite, a scheduler dispatches them, and a runtime replaces the sockets and the transfer slots of the
  established server by its own. Both share the device policy (\<^verbatim>\<open>device_policy.py\<close>) and the content hashes
  (\<^verbatim>\<open>integrity.py\<close>).

  \<^bold>\<open>How the parts interact.\<close> A console creates a job and uploads its files to the runtime, which stores
  an immutable artifact and asks for dispatch. The scheduler claims queued assignments from the manager,
  registers a waiter in the transfer registry, sends the command and suspends. Device frames reach the
  runtime, which answers waiters, settles results in the store and publishes snapshots to the consoles.
  When a connection ends or a deadline passes the assignment is reconciled, and a device whose outcome is
  unknown is fenced until it is known. The established server keeps who is connected; its frames to a
  device pass the gate of the runtime's sockets.

  \<^bold>\<open>The theories.\<close>

  \<^item> \<^verbatim>\<open>Mdm_Prelude\<close>, \<^verbatim>\<open>Py_Uuid\<close>, \<^verbatim>\<open>Py_Json\<close>, \<^verbatim>\<open>Py_Json_Decode\<close>: errors as a datatype with a result type, keyed
    tables, and what the sources use of Python's strings, \<^verbatim>\<open>uuid\<close> and \<^verbatim>\<open>json\<close>. Round trips: printing and
    parsing of UUIDs, faithfulness of the encoder.
  \<^item> \<^verbatim>\<open>Transition_Systems\<close>: the locales \<^verbatim>\<open>invariant_system\<close> and \<^verbatim>\<open>evolving_system\<close>, the interface of everything
    that runs. They are interpreted on the database, the publication queue, the transfer registry, the
    scheduler, the runtime, the established server and its jobs.
  \<^item> \<^verbatim>\<open>Push_Jobs\<close> (\<^verbatim>\<open>push_jobs.py\<close>): states, transition tables (locale \<^verbatim>\<open>lifecycle\<close>, interpreted on both
    machines), canonical requests and destinations, capabilities, the derived job state.
  \<^item> \<^verbatim>\<open>Push_Schema\<close>, \<^verbatim>\<open>Push_Store\<close> (\<^verbatim>\<open>push_job_store.py\<close>) and \<^verbatim>\<open>Push_Manager\<close> (\<^verbatim>\<open>push_job_manager.py\<close>): the tables as
    lists of rows and every method as a function from database to result and database.
    \<^verbatim>\<open>Push_Invariants\<close>, \<^verbatim>\<open>Push_Steps\<close> and \<^verbatim>\<open>Push_Recovery\<close> show that every operation keeps the invariant and
    moves each job with its device rows by one legal step; \<^verbatim>\<open>Push_Reachable\<close> gathers them as \<^verbatim>\<open>store_step\<close>.
    \<^verbatim>\<open>Push_Properties\<close>, \<^verbatim>\<open>Push_Results\<close>, \<^verbatim>\<open>Push_Restart\<close> and \<^verbatim>\<open>Push_Fences\<close> hold what follows for runs: exclusive
    and first-come dispatch, final results, revisions, exact fences, replays, recovery. \<^verbatim>\<open>Push_Demo\<close> is the
    concrete run at which they are instantiated.
  \<^item> \<^verbatim>\<open>Transfer_Registry\<close> (\<^verbatim>\<open>transfer_registry.py\<close>) and \<^verbatim>\<open>Legacy_Transfers\<close> (\<^verbatim>\<open>_LegacyTransferAdapter\<close>): waiters
    over a heap of futures; the adapter refines a plain dictionary.
  \<^item> \<^verbatim>\<open>Push_Publication\<close>: \<^verbatim>\<open>publish\<close> and \<^verbatim>\<open>_publication_loop\<close>; consoles see increasing revisions and the newest.
  \<^item> \<^verbatim>\<open>Push_Scheduler\<close>, \<^verbatim>\<open>Push_Dispatch\<close>, \<^verbatim>\<open>Push_Handover\<close> (\<^verbatim>\<open>push_scheduler.py\<close>): a dispatch task is the stage at
    which it waits; \<^verbatim>\<open>sched_step\<close> interleaves tasks, time-outs and answers. The locale \<^verbatim>\<open>waiter_table\<close> is the
    contract of a table of waiters, interpreted on both tables the scheduler uses. The scheduler refines
    the store, and its waiters are exact.
  \<^item> \<^verbatim>\<open>Push_Runtime\<close>, \<^verbatim>\<open>Push_Sessions\<close> (\<^verbatim>\<open>push_runtime.py\<close>): registration, disconnection, device frames,
    deadlines, admission; \<^verbatim>\<open>runtime_step\<close> interleaves them with the scheduler and the refinement is kept.
  \<^item> \<^verbatim>\<open>Push_Uploads\<close> (\<^verbatim>\<open>push_artifacts.py\<close>, \<^verbatim>\<open>upload_handler\<close>, \<^verbatim>\<open>artifact_handler\<close>, \<^verbatim>\<open>_created_deadline_loop\<close>): the
    disk, an upload part by part, packaging, publication, every failure and cancellation, downloads.
    Artifacts never change and match their records; an upload settles its job and cleans up; what is
    published is the archive of what was received. \<^verbatim>\<open>Push_Upload_Runs\<close>: beside the runtime an upload
    refines the store as the scheduler and the sessions do.
  \<^item> \<^verbatim>\<open>Integrity\<close> (\<^verbatim>\<open>integrity.py\<close>): the digest of an APK's central directory and the tree hash, against
    reference definitions.
  \<^item> \<^verbatim>\<open>Device_Policy\<close> (\<^verbatim>\<open>device_policy.py\<close>): the command policy.
  \<^item> \<^verbatim>\<open>Fleet_Registry\<close>, \<^verbatim>\<open>Fleet_Devices\<close>, \<^verbatim>\<open>Fleet_Paths\<close>, \<^verbatim>\<open>Fleet_Commands\<close> (\<^verbatim>\<open>server.py\<close>): registry with its file,
    labels and groups; the device channel with self-updates, retirements and their timers; path and name
    functions; the administration channel with every handler and the gate of \<^verbatim>\<open>RuntimeWebSocketResponse\<close>.
    The locale \<^verbatim>\<open>console_kept\<close> states what a console frame keeps once for all handlers; it is interpreted
    on the invariant and on retirement. \<^verbatim>\<open>Fleet_Runs\<close> and \<^verbatim>\<open>Fleet_Properties\<close> interleave devices, timers and
    consoles (\<^verbatim>\<open>fleet_step\<close>) and state what consoles can rely on.
  \<^item> \<^verbatim>\<open>Fleet_Jobs\<close> (\<^verbatim>\<open>_run_install_job\<close>, \<^verbatim>\<open>_run_push_job\<close>): tasks as stages over the shared transfer slots, whose
    runs (\<^verbatim>\<open>jobs_step\<close>) refine the server; slots are bounded and every job ends.
  \<^item> \<^verbatim>\<open>Fleet_Uploads\<close> (\<^verbatim>\<open>upload_apk_handler\<close>, \<^verbatim>\<open>upload_bundle_handler\<close>): uploads add one new file or nothing.

  \<^bold>\<open>Granularity.\<close> The store serialises its operations on one thread, so a store operation is one step. A
  scheduler task and a job task run from one waiting point to the next. A frame of a device or a console
  is one step of its system: handlers of the runtime run under the owner lock of the device, and handlers
  of the established server wait only for sends; where such a wait is observable it is listed as a
  finding. An upload is a function in which the rest of the server acts between its waiting points
  (\<^verbatim>\<open>ue_world\<close>); the theorems hold for every such interference that keeps artifacts and their records.
  Clock values, fresh identities, and whether a send or a removal of files succeeds are arguments. The step
  relations restrict arguments to what the callers ensure: a create request names a target, an
  assignment enters the transfer queue by a claim only, a failure before dispatch is recorded for a job
  that is not dispatched (uploads are shown to respect it), a task and a socket have a new name, and a
  device id in a console frame is a string.

  \<^bold>\<open>Bounds.\<close> A \<^verbatim>\<open>char\<close> is a code point below 256; functions on text are exact for those. Python integers
  are \<^typ>\<open>int\<close>, bytes are 8-bit words, and numbers in file formats are read little-endian in their
  width. The JSON decoder counts down from the length of its text plus one, and every recursive call has
  consumed a character, so that the counter never ends first. The limits of uploads and slots are
  parameters or the constants of the source. No other definition has fuel: loops are structural or have a
  termination proof, and \<^verbatim>\<open>jobs_end\<close> bounds the turns of a job.

  \<^bold>\<open>Parameters.\<close> SHA-256, the ZIP format, percent-decoding and the network are arguments. No theorem
  assumes that SHA-256 has no collisions: equality of hashes is stated for the hashed text.

  \<^bold>\<open>Not modelled.\<close> The worker thread and SQLite itself (a transaction is taken as atomic); start-up and
  shutdown of the background tasks, the timers that trigger the modelled steps, and the iteration of a
  wrapped socket (\<^verbatim>\<open>__anext__\<close>), which only choose which step comes next; \<^verbatim>\<open>create_app\<close>, the command lines and
  the printed banner; UDP discovery and the enumeration of addresses, which are socket input and output
  without state; the development scripts; the web console and the Android client, which are not Python
  and appear as arbitrary frames. Log messages are left out, and error texts leave out quoted names where
  the definitions say so.
\<close>

end
